(* ===== verification/Prelude.thy ===== *)
theory Prelude
  imports Main "HOL-Library.Product_Lexorder" "HOL-Library.List_Lexorder" "HOL-Library.Char_ord"
begin

text \<open>
  Shared vocabulary of the development: the error values of the API, the
  representation of time and text, the way table queries are written, and the
  generic facts about lists of rows that the component theories use.

  Errors. An \<open>ApiError\<close> of errors.py is the constructor \<open>ApiError\<close> with the HTTP
  status, the machine readable code and the \<open>Retry-After\<close> header when the code
  sets one. Every other exception that reaches the generic handler of errors.py
  (HTTP 500) is \<open>Uncaught\<close>. A fallible operation returns \<open>api_error + 'a\<close>.

  Time. Instants are integers, microseconds since the epoch in UTC, the
  resolution of Python's \<open>datetime\<close>. A stored nullable timestamp may come back
  without a zone (SQLite), so these columns hold a \<open>datetime\<close>.

  Text. A Python string is a HOL string. Case folding acts on ASCII letters.
\<close>

named_theorems result_simps "evaluation of the error values"
named_theorems row_simps "queries over rows after an update"

datatype api_error =
    ApiError (err_status: nat) (err_code: string) (err_retry_after: "int option")
  | Uncaught string

type_synonym 'a result = "api_error + 'a"

abbreviation err :: "nat \<Rightarrow> string \<Rightarrow> 'a result" where
  "err s c \<equiv> Inl (ApiError s c None)"

abbreviation err_retry :: "nat \<Rightarrow> string \<Rightarrow> int \<Rightarrow> 'a result" where
  "err_retry s c n \<equiv> Inl (ApiError s c (Some n))"

text \<open>Sequencing: the first error ends the computation, as a raised exception does.\<close>

definition bindR :: "'a result \<Rightarrow> ('a \<Rightarrow> 'b result) \<Rightarrow> 'b result" where
  "bindR r f = (case r of Inl e \<Rightarrow> Inl e | Inr a \<Rightarrow> f a)"

lemma bindR_Inl [simp, result_simps]: "bindR (Inl e) f = Inl e"
  by (simp add: bindR_def)

lemma bindR_Inr [simp, result_simps]: "bindR (Inr a) f = f a"
  by (simp add: bindR_def)

lemma bindR_eq_Inr [simp]: "bindR r f = Inr b \<longleftrightarrow> (\<exists>a. r = Inr a \<and> f a = Inr b)"
  by (cases r) auto

lemma bindR_cong [fundef_cong]:
  "r = r' \<Longrightarrow> (\<And>a. r' = Inr a \<Longrightarrow> f a = g a) \<Longrightarrow> bindR r f = bindR r' g"
  by (cases r') auto

definition is_ok :: "'a result \<Rightarrow> bool" where
  "is_ok r = (case r of Inl _ \<Rightarrow> False | Inr _ \<Rightarrow> True)"

lemma is_ok_simps [simp, result_simps]: "\<not> is_ok (Inl e)" "is_ok (Inr a)"
  by (simp_all add: is_ok_def)

lemma is_ok_pair: "is_ok r \<Longrightarrow> \<exists>a b. r = Inr (a, b)"
  by (cases r) auto

text \<open>A database operation that fails becomes the given error: the code's \<open>except IntegrityError\<close>.\<close>

definition or_error :: "api_error \<Rightarrow> 'a option \<Rightarrow> 'a result" where
  "or_error e x = (case x of None \<Rightarrow> Inl e | Some a \<Rightarrow> Inr a)"

abbreviation integrity_error :: api_error where
  "integrity_error \<equiv> Uncaught ''IntegrityError''"

lemma or_error_simps [simp, result_simps]: "or_error e None = Inl e" "or_error e (Some a) = Inr a"
  by (simp_all add: or_error_def)

lemma or_error_eq_Inr [simp]: "or_error e x = Inr a \<longleftrightarrow> x = Some a"
  by (cases x) simp_all

section \<open>Time\<close>

type_synonym instant = int

definition second :: int where
  "second = 1000000"

datatype datetime = Naive int | Aware int

text \<open>\<open>Naive\<close> has no zone. An aware value is its instant.\<close>

section \<open>Text\<close>

definition lower_char :: "char \<Rightarrow> char" where
  "lower_char c = (if CHR ''A'' \<le> c \<and> c \<le> CHR ''Z'' then char_of (of_char c + (32 :: nat)) else c)"

definition lower :: "string \<Rightarrow> string" where
  "lower s = map lower_char s"

text \<open>\<open>str.isspace\<close> on the ASCII characters.\<close>

definition is_space :: "char \<Rightarrow> bool" where
  "is_space c \<longleftrightarrow> c \<in> {CHR '' '', CHR 0x09, CHR 0x0A, CHR 0x0B, CHR 0x0C, CHR 0x0D,
     CHR 0x1C, CHR 0x1D, CHR 0x1E, CHR 0x1F}"

definition strip :: "string \<Rightarrow> string" where
  "strip s = rev (dropWhile is_space (rev (dropWhile is_space s)))"

lemma length_lower [simp]: "length (lower s) = length s"
  by (simp add: lower_def)

section \<open>Queries\<close>

text \<open>
  A table is the list of its rows in the order of insertion. \<open>fetch\<close> is a lookup by
  one column, \<open>count_where\<close> is \<open>select(func.count()).where(...)\<close>, \<open>update_where\<close>
  and \<open>delete_where\<close> change the rows that satisfy a condition.
\<close>

definition fetch :: "('r \<Rightarrow> 'k) \<Rightarrow> 'k \<Rightarrow> 'r list \<Rightarrow> 'r option" where
  "fetch key k xs = find (\<lambda>r. key r = k) xs"

definition count_where :: "('r \<Rightarrow> bool) \<Rightarrow> 'r list \<Rightarrow> nat" where
  "count_where P xs = length (filter P xs)"

definition update_where :: "('r \<Rightarrow> bool) \<Rightarrow> ('r \<Rightarrow> 'r) \<Rightarrow> 'r list \<Rightarrow> 'r list" where
  "update_where P f xs = map (\<lambda>r. if P r then f r else r) xs"

definition delete_where :: "('r \<Rightarrow> bool) \<Rightarrow> 'r list \<Rightarrow> 'r list" where
  "delete_where P xs = filter (\<lambda>r. \<not> P r) xs"

lemma fetch_Some: "fetch key k xs = Some r \<Longrightarrow> r \<in> set xs \<and> key r = k"
  by (auto simp: fetch_def find_Some_iff)

lemma fetch_None: "fetch key k xs = None \<longleftrightarrow> k \<notin> key ` set xs"
  by (auto simp: fetch_def find_None_iff)

lemma fetch_ex: "r \<in> set xs \<Longrightarrow> \<exists>r'. fetch (key :: 'r \<Rightarrow> 'k) (key r) xs = Some r'"
  by (metis fetch_None imageI not_None_eq)

lemma fetch_Nil [simp]: "fetch key k [] = None"
  by (simp add: fetch_def)

lemma fetch_Cons [simp]: "fetch key k (x # xs) = (if key x = k then Some x else fetch key k xs)"
  by (simp add: fetch_def)

lemma fetch_append:
  "fetch key k (xs @ ys) = (case fetch key k xs of None \<Rightarrow> fetch key k ys | Some r \<Rightarrow> Some r)"
  by (induction xs) auto

lemma count_where_Nil [simp]: "count_where P [] = 0"
  by (simp add: count_where_def)

lemma count_where_Cons [simp]:
  "count_where P (x # xs) = (if P x then Suc (count_where P xs) else count_where P xs)"
  by (simp add: count_where_def)

lemma count_where_append [simp]: "count_where P (xs @ ys) = count_where P xs + count_where P ys"
  by (simp add: count_where_def)

lemma count_where_0: "count_where P xs = 0 \<longleftrightarrow> (\<forall>r \<in> set xs. \<not> P r)"
  by (auto simp: count_where_def filter_empty_conv)

lemma count_where_mono: "(\<And>r. r \<in> set xs \<Longrightarrow> P r \<Longrightarrow> Q r) \<Longrightarrow> count_where P xs \<le> count_where Q xs"
  by (induction xs) (auto simp: count_where_def le_Suc_eq)

lemma count_where_cong: "(\<And>r. r \<in> set xs \<Longrightarrow> P r = Q r) \<Longrightarrow> count_where P xs = count_where Q xs"
  by (induction xs) auto

lemma count_where_delete [row_simps]:
  "count_where P (delete_where Q xs) = count_where (\<lambda>r. P r \<and> \<not> Q r) xs"
  by (simp add: count_where_def delete_where_def conj_commute)

lemma count_where_delete_le: "count_where P (delete_where Q xs) \<le> count_where P xs"
  by (simp add: count_where_delete) (rule count_where_mono, simp)

lemma count_where_update [row_simps]:
  "count_where P (update_where Q f xs) = count_where (\<lambda>r. P (if Q r then f r else r)) xs"
  by (induction xs) (auto simp: update_where_def)

lemma count_where_1D:
  assumes "count_where P xs = 1" and "x \<in> set xs" "P x" and "y \<in> set xs" "P y"
  shows "y = x"
proof -
  obtain z where "filter P xs = [z]"
    using assms(1) by (auto simp: count_where_def length_Suc_conv)
  then have "set (filter P xs) = {z}" by simp
  then have z: "{a \<in> set xs. P a} = {z}" unfolding set_filter .
  have "x \<in> {z}" "y \<in> {z}" using assms(2-5) by (simp_all add: z[symmetric])
  then show ?thesis by simp
qed

lemma count_where_1I:
  assumes "distinct xs" and "x \<in> set xs" "P x" and u: "\<forall>y \<in> set xs. P y \<longrightarrow> y = x"
  shows "count_where P xs = 1"
proof -
  have "set (filter P xs) = {x}" unfolding set_filter using assms(2,3) u by blast
  moreover have "distinct (filter P xs)" using assms(1) by simp
  ultimately show ?thesis
    using distinct_card[of "filter P xs"] by (simp add: count_where_def)
qed

lemma set_delete_where [simp]: "set (delete_where P xs) = {r \<in> set xs. \<not> P r}"
  by (simp add: delete_where_def)

lemma set_update_where [simp]: "set (update_where P f xs) = (\<lambda>r. if P r then f r else r) ` set xs"
  by (simp add: update_where_def)

lemma length_update_where [simp]: "length (update_where P f xs) = length xs"
  by (simp add: update_where_def)

lemma update_where_Nil [simp]: "update_where P f [] = []"
  by (simp add: update_where_def)

lemma update_where_Cons [simp]:
  "update_where P f (x # xs) = (if P x then f x else x) # update_where P f xs"
  by (simp add: update_where_def)

lemma update_where_append [simp]:
  "update_where P f (xs @ ys) = update_where P f xs @ update_where P f ys"
  by (simp add: update_where_def)

lemma delete_where_Nil [simp]: "delete_where P [] = []"
  by (simp add: delete_where_def)

lemma delete_where_Cons [simp]:
  "delete_where P (x # xs) = (if P x then delete_where P xs else x # delete_where P xs)"
  by (simp add: delete_where_def)

lemma delete_where_append [simp]:
  "delete_where P (xs @ ys) = delete_where P xs @ delete_where P ys"
  by (simp add: delete_where_def)

lemma find_append: "find P (xs @ ys) = (case find P xs of None \<Rightarrow> find P ys | Some x \<Rightarrow> Some x)"
  by (induction xs) auto

lemma fetch_update_where:
  "(\<And>r. key (f r) = key r) \<Longrightarrow>
   fetch key k (update_where P f xs) = map_option (\<lambda>r. if P r then f r else r) (fetch key k xs)"
  by (induction xs) auto

lemma key_update_where [row_simps]:
  "(\<And>r. key (f r) = key r) \<Longrightarrow> key ` set (update_where P f xs) = key ` set xs"
  unfolding set_update_where image_image by (rule image_cong) auto

text \<open>\<open>ORDER BY key LIMIT 1\<close>, and descending orders as an ascending order of the negated key.\<close>

definition first_by :: "('r \<Rightarrow> 'k :: linorder) \<Rightarrow> 'r list \<Rightarrow> 'r option" where
  "first_by key xs = (case sort_key key xs of [] \<Rightarrow> None | x # _ \<Rightarrow> Some x)"

lemma first_by_Some: "first_by key xs = Some r \<Longrightarrow> r \<in> set xs \<and> (\<forall>x \<in> set xs. key r \<le> key x)"
proof -
  assume a: "first_by key xs = Some r"
  then obtain ys where ys: "sort_key key xs = r # ys"
    by (auto simp: first_by_def split: list.splits)
  have s: "sorted (map key (r # ys))"
    using sorted_sort_key[of key xs] by (simp only: ys)
  have e: "set xs = set (r # ys)"
    by (metis set_sort ys)
  show ?thesis using s by (auto simp: e)
qed

lemma first_by_None [simp]: "first_by key xs = None \<longleftrightarrow> xs = []"
proof -
  have "sort_key key xs = [] \<longleftrightarrow> xs = []"
    by (metis length_0_conv length_sort)
  then show ?thesis by (auto simp: first_by_def split: list.splits)
qed

lemma first_by_Nil [simp]: "first_by key [] = None"
  by simp

section \<open>Uniqueness constraints\<close>

text \<open>
  A table's primary key and unique constraints are one relation \<open>clash\<close>: two rows
  clash when some constraint forbids them to be stored together. An insert is refused
  (the code sees \<open>IntegrityError\<close>) when the new row clashes with a stored one.
\<close>

definition conflict_free :: "('r \<Rightarrow> 'r \<Rightarrow> bool) \<Rightarrow> 'r list \<Rightarrow> bool" where
  "conflict_free clash xs = sorted_wrt (\<lambda>x y. \<not> clash x y) xs"

definition insert_row :: "('r \<Rightarrow> 'r \<Rightarrow> bool) \<Rightarrow> 'r \<Rightarrow> 'r list \<Rightarrow> 'r list option" where
  "insert_row clash r xs = (if \<exists>x \<in> set xs. clash x r then None else Some (xs @ [r]))"

lemma insert_row_Some: "insert_row clash r xs = Some ys \<Longrightarrow> ys = xs @ [r] \<and> (\<forall>x \<in> set xs. \<not> clash x r)"
  by (auto simp: insert_row_def split: if_splits)

lemma conflict_free_insert:
  "conflict_free clash xs \<Longrightarrow> insert_row clash r xs = Some ys \<Longrightarrow> conflict_free clash ys"
  by (auto simp: conflict_free_def insert_row_def sorted_wrt_append split: if_splits)

lemma conflict_free_delete: "conflict_free clash xs \<Longrightarrow> conflict_free clash (delete_where P xs)"
  by (simp add: conflict_free_def delete_where_def sorted_wrt_filter)

lemma conflict_free_map:
  assumes "conflict_free clash xs" and "\<And>x y. clash (f x) (f y) \<Longrightarrow> clash x y"
  shows "conflict_free clash (map f xs)"
  using assms unfolding conflict_free_def
  by (auto simp: sorted_wrt_map elim: sorted_wrt_mono_rel[rotated])

lemma conflict_free_update:
  assumes "conflict_free clash xs"
    and "\<And>x y. clash (if P x then f x else x) (if P y then f y else y) \<Longrightarrow> clash x y"
  shows "conflict_free clash (update_where P f xs)"
  unfolding update_where_def by (rule conflict_free_map[OF assms])

locale row_constraint =
  fixes clash :: "'r \<Rightarrow> 'r \<Rightarrow> bool"
  assumes clash_refl: "clash x x"
    and clash_sym: "clash x y \<Longrightarrow> clash y x"
begin

lemma unique:
  "conflict_free clash xs \<Longrightarrow> x \<in> set xs \<Longrightarrow> y \<in> set xs \<Longrightarrow> clash x y \<Longrightarrow> x = y"
proof (induction xs)
  case Nil
  then show ?case by simp
next
  case (Cons z zs)
  then show ?case by (auto simp: conflict_free_def dest: clash_sym)
qed

lemma distinct_rows: "conflict_free clash xs \<Longrightarrow> distinct xs"
  by (induction xs) (auto simp: conflict_free_def clash_refl)

lemma distinct_key:
  assumes "conflict_free clash xs" and "\<And>x y. key x = key y \<Longrightarrow> clash x y"
  shows "distinct (map key xs)"
  using assms(1)
proof (induction xs)
  case Nil
  then show ?case by simp
next
  case (Cons x xs)
  then have "\<forall>y \<in> set xs. \<not> clash x y" by (simp add: conflict_free_def)
  then have "key x \<notin> key ` set xs" using assms(2) by fastforce
  with Cons show ?case by (simp add: conflict_free_def)
qed

lemma at_most_one:
  assumes "conflict_free clash xs" and "\<And>x y. P x \<Longrightarrow> P y \<Longrightarrow> clash x y"
  shows "count_where P xs \<le> 1"
  using assms(1)
proof (induction xs)
  case Nil
  then show ?case by simp
next
  case (Cons x xs)
  then have "P x \<Longrightarrow> \<forall>y \<in> set xs. \<not> P y"
    using assms(2) by (auto simp: conflict_free_def)
  with Cons show ?case by (auto simp: count_where_0 conflict_free_def)
qed

lemma fetch_unique:
  assumes "conflict_free clash xs" and "r \<in> set xs" and "\<And>x y. key x = key y \<Longrightarrow> clash x y"
  shows "fetch key (key r) xs = Some r"
proof -
  obtain r' where r': "fetch key (key r) xs = Some r'"
    using fetch_ex[OF assms(2)] by blast
  then have "r' \<in> set xs" "key r' = key r"
    by (auto dest: fetch_Some)
  then have "r' = r"
    using unique[OF assms(1)] assms(2,3) by blast
  with r' show ?thesis by simp
qed

end

end
