(* ===== verification/Schema.thy ===== *)
theory Schema
  imports Prelude "HOL-Library.AList"
begin

text \<open>
  The database of backend/src/alpha/models.py: one record per mapped class, one list of
  rows per table in the record \<open>database\<close>, the uniqueness constraints as clash
  relations, the CHECK constraints as predicates on rows, foreign keys as membership in
  the referenced table, and the inserts and cascading deletes the code performs. An
  insert that violates a constraint is \<open>None\<close>: the code sees \<open>IntegrityError\<close>.

  Column values the CHECK constraints restrict to a few strings are datatypes. A uuid is
  a number (PostgreSQL compares uuids as 128 bit numbers); in JSON and in the text
  columns \<open>target_id\<close> and \<open>aggregate_id\<close> it is kept as a number too.
\<close>

type_synonym uuid = nat

datatype json =
    JNull | JBool bool | JInt int | JStr string | JId uuid | JTime instant
  | JList "json list" | JObj "(string \<times> json) list"

type_synonym json_object = "(string \<times> json) list"

datatype user_role = Participant | Admin
datatype member_role = Owner | Member
datatype event_state = Draft | Registration | Live | Frozen | Ended | Archived
datatype team_mode = TeamMode | IndividualMode
datatype access_mode = OpenAccess | CodeAccess
datatype scoring_type = FixedScoring | DynamicScoring
datatype flag_type = ExactFlag | RegexFlag
datatype score_kind = SolveScore | AwardScore

record user =
  u_id :: uuid
  u_email :: string
  u_username :: string
  u_password_hash :: string
  u_role :: user_role
  u_active :: bool
  u_password_change_required :: bool
  u_credential_version :: int
  u_created_at :: instant

record session_token =
  s_id :: uuid
  s_token_hash :: string
  s_user_id :: uuid
  s_credential_version :: int
  s_expires_at :: instant
  s_last_seen_at :: instant
  s_created_at :: instant

record team =
  t_id :: uuid
  t_name :: string
  t_invite_hash :: string
  t_creator_id :: uuid
  t_created_at :: instant

record membership =
  m_id :: uuid
  m_user_id :: uuid
  m_team_id :: uuid
  m_role :: member_role
  m_joined_at :: instant

record event =
  e_id :: uuid
  e_name :: string
  e_slug :: string
  e_description_md :: string
  e_state :: event_state
  e_registration_at :: "datetime option"
  e_start_at :: "datetime option"
  e_freeze_at :: "datetime option"
  e_end_at :: "datetime option"
  e_team_mode :: team_mode
  e_registration_access_mode :: access_mode
  e_created_at :: instant
  e_updated_at :: instant

record registration_code =
  r_id :: uuid
  r_event_id :: uuid
  r_token_hash :: string
  r_label :: string
  r_max_uses :: "int option"
  r_use_count :: int
  r_expires_at :: "datetime option"
  r_active :: bool
  r_created_by :: uuid
  r_created_at :: instant
  r_revoked_at :: "instant option"

record challenge =
  c_id :: uuid
  c_event_id :: uuid
  c_slug :: string
  c_title :: string
  c_category :: string
  c_description_md :: string
  c_connection_info :: "string option"
  c_scoring_type :: scoring_type
  c_initial_points :: int
  c_minimum_points :: int
  c_decay :: int
  c_visible :: bool
  c_visible_at :: "datetime option"
  c_max_attempts :: int
  c_flag_type :: flag_type
  c_flag_hash :: "string option"
  c_flag_regex :: "string option"
  c_created_at :: instant
  c_updated_at :: instant

record submission =
  b_id :: uuid
  b_team_id :: uuid
  b_challenge_id :: uuid
  b_user_id :: uuid
  b_submitted_hash :: string
  b_correct :: bool
  b_awarded_points :: int
  b_idempotency_key :: string
  b_ip_hash :: string
  b_created_at :: instant

record solve =
  v_id :: uuid
  v_team_id :: uuid
  v_challenge_id :: uuid
  v_user_id :: uuid
  v_submission_id :: uuid
  v_solved_at :: instant

record score_event =
  p_id :: uuid
  p_event_id :: uuid
  p_team_id :: uuid
  p_challenge_id :: "uuid option"
  p_solve_id :: "uuid option"
  p_kind :: score_kind
  p_points :: int
  p_active :: bool
  p_created_at :: instant

record announcement =
  n_id :: uuid
  n_event_id :: uuid
  n_title :: string
  n_body_md :: string
  n_publish_at :: instant
  n_created_at :: instant
  n_updated_at :: instant

record audit_event =
  a_id :: uuid
  a_actor_id :: "uuid option"
  a_action :: string
  a_target_type :: string
  a_target_id :: "uuid option"
  a_metadata :: json_object
  a_created_at :: instant

record outbox_event =
  o_id :: uuid
  o_topic :: string
  o_aggregate_type :: string
  o_aggregate_id :: uuid
  o_payload :: json_object
  o_created_at :: instant
  o_delivered_at :: "instant option"
  o_attempts :: int

text \<open>
  \<open>prereqs\<close> is the association table \<open>challenge_prerequisites\<close>: the pairs
  (challenge, prerequisite).
\<close>

record database =
  users :: "user list"
  sessions :: "session_token list"
  teams :: "team list"
  memberships :: "membership list"
  events :: "event list"
  registration_codes :: "registration_code list"
  challenges :: "challenge list"
  prereqs :: "(uuid \<times> uuid) list"
  submissions :: "submission list"
  solves :: "solve list"
  score_events :: "score_event list"
  announcements :: "announcement list"
  audit_events :: "audit_event list"
  outbox_events :: "outbox_event list"

section \<open>Uniqueness\<close>

definition user_clash :: "user \<Rightarrow> user \<Rightarrow> bool" where
  "user_clash x y \<longleftrightarrow> u_id x = u_id y \<or> u_email x = u_email y \<or> u_username x = u_username y
     \<or> lower (u_email x) = lower (u_email y) \<or> lower (u_username x) = lower (u_username y)"

definition session_clash :: "session_token \<Rightarrow> session_token \<Rightarrow> bool" where
  "session_clash x y \<longleftrightarrow> s_id x = s_id y \<or> s_token_hash x = s_token_hash y"

definition team_clash :: "team \<Rightarrow> team \<Rightarrow> bool" where
  "team_clash x y \<longleftrightarrow> t_id x = t_id y \<or> t_name x = t_name y \<or> t_invite_hash x = t_invite_hash y
     \<or> lower (t_name x) = lower (t_name y)"

definition membership_clash :: "membership \<Rightarrow> membership \<Rightarrow> bool" where
  "membership_clash x y \<longleftrightarrow> m_id x = m_id y \<or> m_user_id x = m_user_id y
     \<or> (m_team_id x = m_team_id y \<and> m_user_id x = m_user_id y)"

definition event_clash :: "event \<Rightarrow> event \<Rightarrow> bool" where
  "event_clash x y \<longleftrightarrow> e_id x = e_id y \<or> e_slug x = e_slug y"

definition code_clash :: "registration_code \<Rightarrow> registration_code \<Rightarrow> bool" where
  "code_clash x y \<longleftrightarrow> r_id x = r_id y \<or> r_token_hash x = r_token_hash y"

definition challenge_clash :: "challenge \<Rightarrow> challenge \<Rightarrow> bool" where
  "challenge_clash x y \<longleftrightarrow> c_id x = c_id y \<or> (c_event_id x = c_event_id y \<and> c_slug x = c_slug y)"

definition submission_clash :: "submission \<Rightarrow> submission \<Rightarrow> bool" where
  "submission_clash x y \<longleftrightarrow> b_id x = b_id y \<or>
     (b_team_id x = b_team_id y \<and> b_challenge_id x = b_challenge_id y
      \<and> b_idempotency_key x = b_idempotency_key y)"

definition solve_clash :: "solve \<Rightarrow> solve \<Rightarrow> bool" where
  "solve_clash x y \<longleftrightarrow> v_id x = v_id y \<or> v_submission_id x = v_submission_id y \<or>
     (v_team_id x = v_team_id y \<and> v_challenge_id x = v_challenge_id y)"

definition score_event_clash :: "score_event \<Rightarrow> score_event \<Rightarrow> bool" where
  "score_event_clash x y \<longleftrightarrow> p_id x = p_id y \<or> (p_solve_id x \<noteq> None \<and> p_solve_id x = p_solve_id y)"

definition announcement_clash :: "announcement \<Rightarrow> announcement \<Rightarrow> bool" where
  "announcement_clash x y \<longleftrightarrow> n_id x = n_id y"

definition audit_clash :: "audit_event \<Rightarrow> audit_event \<Rightarrow> bool" where
  "audit_clash x y \<longleftrightarrow> a_id x = a_id y"

definition outbox_clash :: "outbox_event \<Rightarrow> outbox_event \<Rightarrow> bool" where
  "outbox_clash x y \<longleftrightarrow> o_id x = o_id y"

lemmas clash_defs = user_clash_def session_clash_def team_clash_def membership_clash_def
  event_clash_def code_clash_def challenge_clash_def submission_clash_def solve_clash_def
  score_event_clash_def announcement_clash_def audit_clash_def outbox_clash_def

interpretation user_table: row_constraint user_clash
  by unfold_locales (auto simp: user_clash_def)

interpretation session_table: row_constraint session_clash
  by unfold_locales (auto simp: session_clash_def)

interpretation team_table: row_constraint team_clash
  by unfold_locales (auto simp: team_clash_def)

interpretation membership_table: row_constraint membership_clash
  by unfold_locales (auto simp: membership_clash_def)

interpretation event_table: row_constraint event_clash
  by unfold_locales (auto simp: event_clash_def)

interpretation code_table: row_constraint code_clash
  by unfold_locales (auto simp: code_clash_def)

interpretation challenge_table: row_constraint challenge_clash
  by unfold_locales (auto simp: challenge_clash_def)

interpretation submission_table: row_constraint submission_clash
  by unfold_locales (auto simp: submission_clash_def)

interpretation solve_table: row_constraint solve_clash
  by unfold_locales (auto simp: solve_clash_def)

interpretation score_event_table: row_constraint score_event_clash
  by unfold_locales (unfold score_event_clash_def, blast, metis)

interpretation announcement_table: row_constraint announcement_clash
  by unfold_locales (auto simp: announcement_clash_def)

interpretation audit_table: row_constraint audit_clash
  by unfold_locales (auto simp: audit_clash_def)

interpretation outbox_table: row_constraint outbox_clash
  by unfold_locales (auto simp: outbox_clash_def)

section \<open>CHECK constraints\<close>

definition code_check :: "registration_code \<Rightarrow> bool" where
  "code_check r \<longleftrightarrow>
     (case r_max_uses r of None \<Rightarrow> True | Some n \<Rightarrow> 1 \<le> n \<and> n \<le> 10000)
     \<and> 0 \<le> r_use_count r
     \<and> (case r_max_uses r of None \<Rightarrow> True | Some n \<Rightarrow> r_use_count r \<le> n)
     \<and> 1 \<le> length (r_label r) \<and> length (r_label r) \<le> 80
     \<and> length (r_token_hash r) = 64
     \<and> (r_revoked_at r = None \<or> \<not> r_active r)"

definition challenge_check :: "challenge \<Rightarrow> bool" where
  "challenge_check c \<longleftrightarrow> 0 < c_initial_points c \<and> 0 < c_minimum_points c \<and> 0 < c_decay c
     \<and> 0 \<le> c_max_attempts c \<and> c_max_attempts c \<le> 1000"

section \<open>Inserts\<close>

abbreviation user_ids :: "database \<Rightarrow> uuid set" where
  "user_ids db \<equiv> u_id ` set (users db)"

abbreviation team_ids :: "database \<Rightarrow> uuid set" where
  "team_ids db \<equiv> t_id ` set (teams db)"

abbreviation event_ids :: "database \<Rightarrow> uuid set" where
  "event_ids db \<equiv> e_id ` set (events db)"

abbreviation challenge_ids :: "database \<Rightarrow> uuid set" where
  "challenge_ids db \<equiv> c_id ` set (challenges db)"

abbreviation submission_ids :: "database \<Rightarrow> uuid set" where
  "submission_ids db \<equiv> b_id ` set (submissions db)"

abbreviation solve_ids :: "database \<Rightarrow> uuid set" where
  "solve_ids db \<equiv> v_id ` set (solves db)"

definition insert_user :: "user \<Rightarrow> database \<Rightarrow> database option" where
  "insert_user u db = map_option (\<lambda>xs. db\<lparr>users := xs\<rparr>) (insert_row user_clash u (users db))"

definition insert_session :: "session_token \<Rightarrow> database \<Rightarrow> database option" where
  "insert_session s db =
     (if s_user_id s \<notin> user_ids db then None
      else map_option (\<lambda>xs. db\<lparr>sessions := xs\<rparr>) (insert_row session_clash s (sessions db)))"

definition insert_team :: "team \<Rightarrow> database \<Rightarrow> database option" where
  "insert_team t db =
     (if t_creator_id t \<notin> user_ids db then None
      else map_option (\<lambda>xs. db\<lparr>teams := xs\<rparr>) (insert_row team_clash t (teams db)))"

definition insert_membership :: "membership \<Rightarrow> database \<Rightarrow> database option" where
  "insert_membership m db =
     (if m_user_id m \<notin> user_ids db \<or> m_team_id m \<notin> team_ids db then None
      else map_option (\<lambda>xs. db\<lparr>memberships := xs\<rparr>) (insert_row membership_clash m (memberships db)))"

definition insert_event :: "event \<Rightarrow> database \<Rightarrow> database option" where
  "insert_event e db = map_option (\<lambda>xs. db\<lparr>events := xs\<rparr>) (insert_row event_clash e (events db))"

definition insert_code :: "registration_code \<Rightarrow> database \<Rightarrow> database option" where
  "insert_code r db =
     (if \<not> code_check r \<or> r_event_id r \<notin> event_ids db \<or> r_created_by r \<notin> user_ids db then None
      else map_option (\<lambda>xs. db\<lparr>registration_codes := xs\<rparr>)
             (insert_row code_clash r (registration_codes db)))"

text \<open>
  A challenge is stored together with the rows of its prerequisites, none of which may name
  the challenge itself.
\<close>

definition insert_challenge :: "challenge \<Rightarrow> uuid list \<Rightarrow> database \<Rightarrow> database option" where
  "insert_challenge c ps db =
     (if \<not> challenge_check c \<or> c_event_id c \<notin> event_ids db \<or> c_id c \<in> set ps then None
      else map_option (\<lambda>xs. db\<lparr>challenges := xs, prereqs := prereqs db @ map (Pair (c_id c)) ps\<rparr>)
             (insert_row challenge_clash c (challenges db)))"

definition insert_submission :: "submission \<Rightarrow> database \<Rightarrow> database option" where
  "insert_submission b db =
     (if b_team_id b \<notin> team_ids db \<or> b_challenge_id b \<notin> challenge_ids db \<or> b_user_id b \<notin> user_ids db
      then None
      else map_option (\<lambda>xs. db\<lparr>submissions := xs\<rparr>) (insert_row submission_clash b (submissions db)))"

definition insert_solve :: "solve \<Rightarrow> database \<Rightarrow> database option" where
  "insert_solve v db =
     (if v_team_id v \<notin> team_ids db \<or> v_challenge_id v \<notin> challenge_ids db
        \<or> v_user_id v \<notin> user_ids db \<or> v_submission_id v \<notin> submission_ids db
      then None
      else map_option (\<lambda>xs. db\<lparr>solves := xs\<rparr>) (insert_row solve_clash v (solves db)))"

definition insert_score_event :: "score_event \<Rightarrow> database \<Rightarrow> database option" where
  "insert_score_event p db =
     (if p_event_id p \<notin> event_ids db \<or> p_team_id p \<notin> team_ids db
        \<or> (case p_challenge_id p of None \<Rightarrow> False | Some c \<Rightarrow> c \<notin> challenge_ids db)
        \<or> (case p_solve_id p of None \<Rightarrow> False | Some v \<Rightarrow> v \<notin> solve_ids db)
      then None
      else map_option (\<lambda>xs. db\<lparr>score_events := xs\<rparr>) (insert_row score_event_clash p (score_events db)))"

definition insert_announcement :: "announcement \<Rightarrow> database \<Rightarrow> database option" where
  "insert_announcement n db =
     (if n_event_id n \<notin> event_ids db then None
      else map_option (\<lambda>xs. db\<lparr>announcements := xs\<rparr>)
             (insert_row announcement_clash n (announcements db)))"

definition insert_audit :: "audit_event \<Rightarrow> database \<Rightarrow> database option" where
  "insert_audit a db =
     (if (case a_actor_id a of None \<Rightarrow> False | Some u \<Rightarrow> u \<notin> user_ids db) then None
      else map_option (\<lambda>xs. db\<lparr>audit_events := xs\<rparr>) (insert_row audit_clash a (audit_events db)))"

definition insert_outbox :: "outbox_event \<Rightarrow> database \<Rightarrow> database option" where
  "insert_outbox e db =
     map_option (\<lambda>xs. db\<lparr>outbox_events := xs\<rparr>) (insert_row outbox_clash e (outbox_events db))"

section \<open>Deletes with their cascades\<close>

definition delete_team :: "uuid \<Rightarrow> database \<Rightarrow> database" where
  "delete_team t db = db\<lparr>
     teams := delete_where (\<lambda>r. t_id r = t) (teams db),
     memberships := delete_where (\<lambda>r. m_team_id r = t) (memberships db),
     submissions := delete_where (\<lambda>r. b_team_id r = t) (submissions db),
     solves := delete_where (\<lambda>r. v_team_id r = t) (solves db),
     score_events := delete_where (\<lambda>r. p_team_id r = t) (score_events db)\<rparr>"

definition delete_challenge_row :: "uuid \<Rightarrow> database \<Rightarrow> database" where
  "delete_challenge_row c db = db\<lparr>
     challenges := delete_where (\<lambda>r. c_id r = c) (challenges db),
     prereqs := delete_where (\<lambda>e. fst e = c \<or> snd e = c) (prereqs db),
     submissions := delete_where (\<lambda>r. b_challenge_id r = c) (submissions db),
     solves := delete_where (\<lambda>r. v_challenge_id r = c) (solves db),
     score_events := delete_where (\<lambda>r. p_challenge_id r = Some c) (score_events db)\<rparr>"

section \<open>The constraints as an invariant\<close>

definition unique_ok :: "database \<Rightarrow> bool" where
  "unique_ok db \<longleftrightarrow>
     conflict_free user_clash (users db) \<and> conflict_free session_clash (sessions db)
     \<and> conflict_free team_clash (teams db) \<and> conflict_free membership_clash (memberships db)
     \<and> conflict_free event_clash (events db) \<and> conflict_free code_clash (registration_codes db)
     \<and> conflict_free challenge_clash (challenges db)
     \<and> conflict_free submission_clash (submissions db) \<and> conflict_free solve_clash (solves db)
     \<and> conflict_free score_event_clash (score_events db)
     \<and> conflict_free announcement_clash (announcements db)
     \<and> conflict_free audit_clash (audit_events db) \<and> conflict_free outbox_clash (outbox_events db)"

lemma insert_row_Some_iff:
  "insert_row clash r xs = Some ys \<longleftrightarrow> ys = xs @ [r] \<and> (\<forall>x \<in> set xs. \<not> clash x r)"
  by (auto simp: insert_row_def)

lemmas insert_defs = insert_user_def insert_session_def insert_team_def insert_membership_def
  insert_event_def insert_code_def insert_challenge_def insert_submission_def insert_solve_def
  insert_score_event_def insert_announcement_def insert_audit_def insert_outbox_def

text \<open>What a successful insert does to the table it writes; every other table is kept.\<close>

lemma insert_user_Some:
  "insert_user u db = Some db' \<longleftrightarrow>
     db' = db\<lparr>users := users db @ [u]\<rparr> \<and> (\<forall>x \<in> set (users db). \<not> user_clash x u)"
  by (auto simp: insert_user_def insert_row_def)

lemma insert_session_Some:
  "insert_session s db = Some db' \<longleftrightarrow>
     db' = db\<lparr>sessions := sessions db @ [s]\<rparr> \<and> s_user_id s \<in> user_ids db
     \<and> (\<forall>x \<in> set (sessions db). \<not> session_clash x s)"
  by (auto simp: insert_session_def insert_row_def)

lemma insert_team_Some:
  "insert_team t db = Some db' \<longleftrightarrow>
     db' = db\<lparr>teams := teams db @ [t]\<rparr> \<and> t_creator_id t \<in> user_ids db
     \<and> (\<forall>x \<in> set (teams db). \<not> team_clash x t)"
  by (auto simp: insert_team_def insert_row_def)

lemma insert_membership_Some:
  "insert_membership m db = Some db' \<longleftrightarrow>
     db' = db\<lparr>memberships := memberships db @ [m]\<rparr> \<and> m_user_id m \<in> user_ids db
     \<and> m_team_id m \<in> team_ids db \<and> (\<forall>x \<in> set (memberships db). \<not> membership_clash x m)"
  by (auto simp: insert_membership_def insert_row_def)

lemma insert_event_Some:
  "insert_event e db = Some db' \<longleftrightarrow>
     db' = db\<lparr>events := events db @ [e]\<rparr> \<and> (\<forall>x \<in> set (events db). \<not> event_clash x e)"
  by (auto simp: insert_event_def insert_row_def)

lemma insert_code_Some:
  "insert_code r db = Some db' \<longleftrightarrow>
     db' = db\<lparr>registration_codes := registration_codes db @ [r]\<rparr> \<and> code_check r
     \<and> r_event_id r \<in> event_ids db \<and> r_created_by r \<in> user_ids db
     \<and> (\<forall>x \<in> set (registration_codes db). \<not> code_clash x r)"
  by (auto simp: insert_code_def insert_row_def)

lemma insert_challenge_Some:
  "insert_challenge c ps db = Some db' \<longleftrightarrow>
     db' = db\<lparr>challenges := challenges db @ [c], prereqs := prereqs db @ map (Pair (c_id c)) ps\<rparr>
     \<and> challenge_check c \<and> c_event_id c \<in> event_ids db \<and> c_id c \<notin> set ps
     \<and> (\<forall>x \<in> set (challenges db). \<not> challenge_clash x c)"
  by (auto simp: insert_challenge_def insert_row_def)

lemma insert_submission_Some:
  "insert_submission b db = Some db' \<longleftrightarrow>
     db' = db\<lparr>submissions := submissions db @ [b]\<rparr> \<and> b_team_id b \<in> team_ids db
     \<and> b_challenge_id b \<in> challenge_ids db \<and> b_user_id b \<in> user_ids db
     \<and> (\<forall>x \<in> set (submissions db). \<not> submission_clash x b)"
  by (auto simp: insert_submission_def insert_row_def)

lemma insert_solve_Some:
  "insert_solve v db = Some db' \<longleftrightarrow>
     db' = db\<lparr>solves := solves db @ [v]\<rparr> \<and> v_team_id v \<in> team_ids db
     \<and> v_challenge_id v \<in> challenge_ids db \<and> v_user_id v \<in> user_ids db
     \<and> v_submission_id v \<in> submission_ids db \<and> (\<forall>x \<in> set (solves db). \<not> solve_clash x v)"
  by (auto simp: insert_solve_def insert_row_def)

lemma insert_score_event_Some:
  "insert_score_event p db = Some db' \<longleftrightarrow>
     db' = db\<lparr>score_events := score_events db @ [p]\<rparr> \<and> p_event_id p \<in> event_ids db
     \<and> p_team_id p \<in> team_ids db
     \<and> (\<forall>c. p_challenge_id p = Some c \<longrightarrow> c \<in> challenge_ids db)
     \<and> (\<forall>v. p_solve_id p = Some v \<longrightarrow> v \<in> solve_ids db)
     \<and> (\<forall>x \<in> set (score_events db). \<not> score_event_clash x p)"
  by (auto simp: insert_score_event_def insert_row_def split: option.splits)

lemma insert_announcement_Some:
  "insert_announcement n db = Some db' \<longleftrightarrow>
     db' = db\<lparr>announcements := announcements db @ [n]\<rparr> \<and> n_event_id n \<in> event_ids db
     \<and> (\<forall>x \<in> set (announcements db). \<not> announcement_clash x n)"
  by (auto simp: insert_announcement_def insert_row_def)

lemma insert_audit_Some:
  "insert_audit a db = Some db' \<longleftrightarrow>
     db' = db\<lparr>audit_events := audit_events db @ [a]\<rparr>
     \<and> (\<forall>u. a_actor_id a = Some u \<longrightarrow> u \<in> user_ids db)
     \<and> (\<forall>x \<in> set (audit_events db). \<not> audit_clash x a)"
  by (auto simp: insert_audit_def insert_row_def split: option.splits)

lemma insert_outbox_Some:
  "insert_outbox e db = Some db' \<longleftrightarrow>
     db' = db\<lparr>outbox_events := outbox_events db @ [e]\<rparr>
     \<and> (\<forall>x \<in> set (outbox_events db). \<not> outbox_clash x e)"
  by (auto simp: insert_outbox_def insert_row_def)

lemmas insert_Some = insert_user_Some insert_session_Some insert_team_Some insert_membership_Some
  insert_event_Some insert_code_Some insert_challenge_Some insert_submission_Some
  insert_solve_Some insert_score_event_Some insert_announcement_Some insert_audit_Some
  insert_outbox_Some

text \<open>The database before the first request.\<close>

definition empty_db :: database where
  "empty_db = \<lparr>users = [], sessions = [], teams = [], memberships = [], events = [],
     registration_codes = [], challenges = [], prereqs = [], submissions = [], solves = [],
     score_events = [], announcements = [], audit_events = [], outbox_events = []\<rparr>"

end
