(* ===== verification/Config.thy ===== *)
theory Config
  imports Prelude "HOL-Library.Sublist"
begin

text \<open>
  The settings of backend/src/alpha/config.py: the record of configured values, the
  ranges the field declarations impose, the validation that runs after the fields are
  read (in the order of the code, each \<open>ValueError\<close> an error value), the secret file
  reader and the derived cookie names. What the file system and the UTF-8 and JSON
  decoders return is a parameter of the reader and of \<open>split_list\<close>.
\<close>

datatype environment = Development | Test | Production

record settings =
  st_environment :: environment
  st_database_url :: string
  st_database_host :: "string option"
  st_database_password_file :: "string option"
  st_database_tls :: bool
  st_redis_url :: string
  st_redis_host :: "string option"
  st_redis_password_file :: "string option"
  st_redis_tls :: bool
  st_secret_key :: string
  st_secret_key_file :: "string option"
  st_cookie_secure :: "bool option"
  st_allowed_origins :: "string list"
  st_trusted_hosts :: "string list"
  st_session_ttl_hours :: int
  st_session_cleanup_batch_size :: int
  st_csrf_ttl_seconds :: int
  st_max_request_body_bytes :: int
  st_submission_rate_limit :: int
  st_submission_ip_rate_limit :: int
  st_submission_challenge_rate_limit :: int
  st_submission_rate_window_seconds :: int
  st_team_mutation_rate_limit :: int
  st_team_mutation_ip_rate_limit :: int
  st_team_mutation_rate_window_seconds :: int
  st_auth_rate_limit :: int
  st_auth_ip_rate_limit :: int
  st_auth_rate_window_seconds :: int
  st_registration_global_rate_limit :: int
  st_registration_global_rate_window_seconds :: int
  st_scoreboard_cache_seconds :: int
  st_max_flag_length :: int
  st_admin_email :: "string option"
  st_admin_username :: string
  st_admin_password :: "string option"
  st_seed_demo :: bool

definition within :: "int \<Rightarrow> int \<Rightarrow> int \<Rightarrow> bool" where
  "within lo hi x \<longleftrightarrow> lo \<le> x \<and> x \<le> hi"

definition settings_in_range :: "settings \<Rightarrow> bool" where
  "settings_in_range s \<longleftrightarrow>
     within 1 2160 (st_session_ttl_hours s)
     \<and> within 1 1000 (st_session_cleanup_batch_size s)
     \<and> within 60 86400 (st_csrf_ttl_seconds s)
     \<and> within 1024 10485760 (st_max_request_body_bytes s)
     \<and> within 1 1000 (st_submission_rate_limit s)
     \<and> within 1 10000 (st_submission_ip_rate_limit s)
     \<and> within 1 100000 (st_submission_challenge_rate_limit s)
     \<and> within 1 3600 (st_submission_rate_window_seconds s)
     \<and> within 1 1000 (st_team_mutation_rate_limit s)
     \<and> within 1 10000 (st_team_mutation_ip_rate_limit s)
     \<and> within 60 86400 (st_team_mutation_rate_window_seconds s)
     \<and> within 1 1000 (st_auth_rate_limit s)
     \<and> within 1 10000 (st_auth_ip_rate_limit s)
     \<and> within 1 3600 (st_auth_rate_window_seconds s)
     \<and> within 1 100000 (st_registration_global_rate_limit s)
     \<and> within 1 3600 (st_registration_global_rate_window_seconds s)
     \<and> within 1 60 (st_scoreboard_cache_seconds s)
     \<and> within 16 4096 (st_max_flag_length s)"

section \<open>Secret files\<close>

text \<open>
  What opening and reading a path shows: it cannot be opened, it is not a regular file,
  or it is one with a size and its bytes.
\<close>

datatype secret_file = CannotOpen | NotRegular | RegularFile (file_size: int) (file_bytes: string)

datatype secret_error =
  OpenError | NotRegularError | TooLargeError | NotUtf8Error | NotOneLineError | EmptyError

definition MAX_SECRET_FILE_BYTES :: int where
  "MAX_SECRET_FILE_BYTES = 16384"

definition drop_one_newline :: "string \<Rightarrow> string" where
  "drop_one_newline v = (if v \<noteq> [] \<and> last v = CHR 0x0A then butlast v else v)"

definition read_secret_file ::
  "(string \<Rightarrow> string option) \<Rightarrow> secret_file \<Rightarrow> bool \<Rightarrow> secret_error + string" where
  "read_secret_file decode_utf8 file allow_empty =
     (case file of
        CannotOpen \<Rightarrow> Inl OpenError
      | NotRegular \<Rightarrow> Inl NotRegularError
      | RegularFile n bytes \<Rightarrow>
          if n > MAX_SECRET_FILE_BYTES then Inl TooLargeError
          else if int (length bytes) > MAX_SECRET_FILE_BYTES then Inl TooLargeError
          else (case decode_utf8 bytes of
                  None \<Rightarrow> Inl NotUtf8Error
                | Some text \<Rightarrow>
                    let value = drop_one_newline text in
                    if CHR 0x0A \<in> set value \<or> CHR 0x0D \<in> set value \<or> CHR 0x00 \<in> set value
                    then Inl NotOneLineError
                    else if value = [] \<and> \<not> allow_empty then Inl EmptyError
                    else Inr value))"

section \<open>Field validators\<close>

fun split_on :: "char \<Rightarrow> string \<Rightarrow> string list" where
  "split_on c [] = [[]]"
| "split_on c (x # xs) =
     (if x = c then [] # split_on c xs
      else case split_on c xs of [] \<Rightarrow> [[x]] | y # ys \<Rightarrow> (x # y) # ys)"

definition lstrip :: "string \<Rightarrow> string" where
  "lstrip s = dropWhile is_space s"

definition split_list :: "(string \<Rightarrow> string list option) \<Rightarrow> string \<Rightarrow> string list option" where
  "split_list json_loads value =
     (if prefix ''['' (lstrip value) then json_loads value
      else Some [strip item. item \<leftarrow> split_on (CHR '','') value, strip item \<noteq> []])"

definition normalize_empty_admin_password :: "string option \<Rightarrow> string option" where
  "normalize_empty_admin_password v =
     (case v of None \<Rightarrow> None | Some raw \<Rightarrow> if strip raw = [] then None else Some raw)"

definition validate_admin_password_length :: "string option \<Rightarrow> bool" where
  "validate_admin_password_length v = (case v of None \<Rightarrow> True | Some p \<Rightarrow> 12 \<le> length p)"

section \<open>Validation of the whole\<close>

datatype config_error =
    WeakSecretKey | DatabaseNotPostgres | RedisIsMemory | RedisScheme
  | SecretsNotFileBacked | DatabasePlaintext | RedisPlaintext
  | WildcardOrigin | WildcardHost | OriginNotHttps | InsecureCookie

definition development_secret :: string where
  "development_secret = ''development-only-change-this-secret''"

definition validate_production_secret :: "settings \<Rightarrow> config_error + settings" where
  "validate_production_secret s =
     (let production = (st_environment s = Production) in
      if production \<and> (length (st_secret_key s) < 32 \<or> st_secret_key s = development_secret)
        then Inl WeakSecretKey
      else if production \<and> \<not> (prefix ''postgresql://'' (st_database_url s)
                                \<or> prefix ''postgresql+psycopg://'' (st_database_url s))
        then Inl DatabaseNotPostgres
      else if production \<and> st_redis_url s = ''memory://'' then Inl RedisIsMemory
      else if production \<and> \<not> (prefix ''redis://'' (st_redis_url s) \<or> prefix ''rediss://'' (st_redis_url s))
        then Inl RedisScheme
      else if production \<and> (st_secret_key_file s = None \<or> st_database_password_file s = None
                             \<or> st_redis_password_file s = None)
        then Inl SecretsNotFileBacked
      else if production \<and> \<not> st_database_tls s \<and> st_database_host s \<noteq> Some ''postgres''
        then Inl DatabasePlaintext
      else if production \<and> \<not> st_redis_tls s \<and> st_redis_host s \<noteq> Some ''redis''
        then Inl RedisPlaintext
      else if ''*'' \<in> set (st_allowed_origins s) then Inl WildcardOrigin
      else if production \<and> (\<exists>host \<in> set (st_trusted_hosts s). CHR ''*'' \<in> set host)
        then Inl WildcardHost
      else if production \<and> (\<exists>origin \<in> set (st_allowed_origins s). \<not> prefix ''https://'' origin)
        then Inl OriginNotHttps
      else if production \<and> st_cookie_secure s = Some False then Inl InsecureCookie
      else Inr s)"

definition secure_cookies :: "settings \<Rightarrow> bool" where
  "secure_cookies s =
     (case st_cookie_secure s of Some b \<Rightarrow> b | None \<Rightarrow> st_environment s = Production)"

definition session_cookie_name :: "settings \<Rightarrow> string" where
  "session_cookie_name s =
     (if st_environment s = Production then ''__Host-alpha_session'' else ''alpha_session'')"

definition csrf_cookie_name :: "settings \<Rightarrow> string" where
  "csrf_cookie_name s =
     (if st_environment s = Production then ''__Host-alpha_csrf'' else ''alpha_csrf'')"

definition browser_cookie_name :: "settings \<Rightarrow> string" where
  "browser_cookie_name s =
     (if st_environment s = Production then ''__Host-alpha_browser'' else ''alpha_browser'')"

section \<open>Facts\<close>

text \<open>The three cookies of one deployment never share a name.\<close>

lemma cookie_names_distinct:
  "distinct [session_cookie_name s, csrf_cookie_name s, browser_cookie_name s]"
  by (simp add: session_cookie_name_def csrf_cookie_name_def browser_cookie_name_def)

lemma split_on_nonempty: "split_on c xs \<noteq> []"
  by (induction xs) (auto split: list.splits)

text \<open>Joining the pieces of \<open>split_on\<close> with the separator restores the text.\<close>

fun join_with :: "char \<Rightarrow> string list \<Rightarrow> string" where
  "join_with c [] = []"
| "join_with c [x] = x"
| "join_with c (x # y # ys) = x @ c # join_with c (y # ys)"

lemma join_with_Cons: "ys \<noteq> [] \<Longrightarrow> join_with c (x # ys) = x @ c # join_with c ys"
  by (cases ys) auto

lemma join_split: "join_with c (split_on c xs) = xs"
proof (induction xs)
  case Nil
  then show ?case by simp
next
  case (Cons x xs)
  obtain y ys where ys: "split_on c xs = y # ys"
    using split_on_nonempty[of c xs] by (cases "split_on c xs") auto
  have "join_with c ((x # y) # ys) = x # join_with c (y # ys)"
    by (cases ys) auto
  then show ?case using Cons ys by (simp add: join_with_Cons)
qed

lemma split_on_parts: "p \<in> set (split_on c xs) \<Longrightarrow> c \<notin> set p"
  by (induction xs arbitrary: p) (auto split: list.splits if_splits)

text \<open>
  Settings that pass the validation in the production environment are hardened.
  The signing key has at least 32 characters and is not the published default, both
  stores are the networked ones and are reached over TLS or as the isolated Compose
  service, the three secrets come from files, every origin is HTTPS, no host or origin
  is a wildcard, and the cookies are marked Secure.
\<close>

theorem production_settings_hardened:
  assumes "validate_production_secret s = Inr s'" and "st_environment s = Production"
  shows "s' = s \<and> 32 \<le> length (st_secret_key s) \<and> st_secret_key s \<noteq> development_secret
    \<and> (prefix ''postgresql://'' (st_database_url s) \<or> prefix ''postgresql+psycopg://'' (st_database_url s))
    \<and> (prefix ''redis://'' (st_redis_url s) \<or> prefix ''rediss://'' (st_redis_url s))
    \<and> st_secret_key_file s \<noteq> None \<and> st_database_password_file s \<noteq> None \<and> st_redis_password_file s \<noteq> None
    \<and> (st_database_tls s \<or> st_database_host s = Some ''postgres'')
    \<and> (st_redis_tls s \<or> st_redis_host s = Some ''redis'')
    \<and> (\<forall>origin \<in> set (st_allowed_origins s). origin \<noteq> ''*'' \<and> prefix ''https://'' origin)
    \<and> (\<forall>host \<in> set (st_trusted_hosts s). CHR ''*'' \<notin> set host)
    \<and> secure_cookies s"
  using assms
  by (auto simp: validate_production_secret_def secure_cookies_def Let_def
      split: if_splits option.splits)

text \<open>
  The secret file reader returns a single line without a line break or a NUL, at
  most the size bound long, and never an empty value unless the caller allows it; one
  trailing newline of the file is not part of the value.
\<close>

theorem read_secret_file_one_line:
  assumes "read_secret_file decode file allow_empty = Inr v"
  shows "\<exists>n bytes text. file = RegularFile n bytes \<and> decode bytes = Some text
    \<and> int (length bytes) \<le> MAX_SECRET_FILE_BYTES
    \<and> (text = v \<or> text = v @ [CHR 0x0A])
    \<and> set v \<inter> {CHR 0x0A, CHR 0x0D, CHR 0x00} = {}
    \<and> (v \<noteq> [] \<or> allow_empty)"
proof -
  obtain n bytes body where f: "file = RegularFile n bytes" "decode bytes = Some body"
    and b: "int (length bytes) \<le> MAX_SECRET_FILE_BYTES" and v: "v = drop_one_newline body"
    and c: "set v \<inter> {CHR 0x0A, CHR 0x0D, CHR 0x00} = {}" "v \<noteq> [] \<or> allow_empty"
    using assms
    by (auto simp: read_secret_file_def Let_def split: secret_file.splits option.splits if_splits)
  have "body = v \<or> body = v @ [CHR 0x0A]"
    unfolding v drop_one_newline_def by (metis append_butlast_last_id)
  with f b c show ?thesis by blast
qed

definition sample_settings :: settings where
  "sample_settings = \<lparr>
     st_environment = Production,
     st_database_url = ''postgresql+psycopg://ctf@postgres/ctf'',
     st_database_host = Some ''postgres'',
     st_database_password_file = Some ''/run/secrets/db'',
     st_database_tls = False,
     st_redis_url = ''redis://redis/0'',
     st_redis_host = Some ''redis'',
     st_redis_password_file = Some ''/run/secrets/redis'',
     st_redis_tls = False,
     st_secret_key = ''0123456789abcdef0123456789abcdef'',
     st_secret_key_file = Some ''/run/secrets/key'',
     st_cookie_secure = None,
     st_allowed_origins = [''https://ctf.example''],
     st_trusted_hosts = [''ctf.example''],
     st_session_ttl_hours = 168, st_session_cleanup_batch_size = 100,
     st_csrf_ttl_seconds = 3600, st_max_request_body_bytes = 1048576,
     st_submission_rate_limit = 10, st_submission_ip_rate_limit = 60,
     st_submission_challenge_rate_limit = 1000, st_submission_rate_window_seconds = 10,
     st_team_mutation_rate_limit = 20, st_team_mutation_ip_rate_limit = 100,
     st_team_mutation_rate_window_seconds = 3600,
     st_auth_rate_limit = 20, st_auth_ip_rate_limit = 200, st_auth_rate_window_seconds = 60,
     st_registration_global_rate_limit = 1000, st_registration_global_rate_window_seconds = 60,
     st_scoreboard_cache_seconds = 2, st_max_flag_length = 512,
     st_admin_email = None, st_admin_username = ''admin'', st_admin_password = None,
     st_seed_demo = False\<rparr>"

lemma production_settings_hardened_witness:
  "validate_production_secret sample_settings = Inr sample_settings
   \<and> st_environment sample_settings = Production \<and> secure_cookies sample_settings"
proof -
  have a: "validate_production_secret sample_settings = Inr sample_settings"
    and e: "st_environment sample_settings = Production"
    by (simp_all add: validate_production_secret_def sample_settings_def development_secret_def)
  show ?thesis using production_settings_hardened[OF a e] a e by simp
qed

lemma read_secret_file_one_line_witness:
  "read_secret_file Some (RegularFile 4 (''abc'' @ [CHR 0x0A])) False = Inr ''abc''
   \<and> CHR 0x0D \<notin> set ''abc''"
proof -
  have r: "read_secret_file Some (RegularFile 4 (''abc'' @ [CHR 0x0A])) False = Inr ''abc''"
    by (simp add: read_secret_file_def drop_one_newline_def MAX_SECRET_FILE_BYTES_def Let_def)
  show ?thesis using read_secret_file_one_line[OF r] r by simp
qed

end
