(* ===== verification/Pytext.thy ===== *)
theory Pytext
  imports Config
begin

text \<open>
  What the sources use of Python's text functions beyond Config and Prelude: \<open>int\<close> and
  \<open>str\<close> of numbers, \<open>replace\<close>, \<open>strip\<close> with a set of characters, \<open>upper\<close>, \<open>splitlines\<close>
  and \<open>split(sep, 1)\<close>, on the characters of Prelude; and the sequencing of computations
  that fail with an error of any type.
\<close>

section \<open>Sequencing\<close>

definition bindE :: "'e + 'a \<Rightarrow> ('a \<Rightarrow> 'e + 'b) \<Rightarrow> 'e + 'b" where
  "bindE r f = (case r of Inl e \<Rightarrow> Inl e | Inr a \<Rightarrow> f a)"

lemma bindE_simps [simp]: "bindE (Inl e) f = Inl e" "bindE (Inr a) f = f a"
  by (simp_all add: bindE_def)

lemma bindE_Inr [simp]: "bindE r f = Inr b \<longleftrightarrow> (\<exists>a. r = Inr a \<and> f a = Inr b)"
  by (cases r) auto

lemma bindE_cong [fundef_cong]:
  "r = r' \<Longrightarrow> (\<And>a. r' = Inr a \<Longrightarrow> f a = g a) \<Longrightarrow> bindE r f = bindE r' g"
  by (cases r') auto

definition guard :: "'e \<Rightarrow> bool \<Rightarrow> 'e + unit" where
  "guard e b = (if b then Inr () else Inl e)"

lemma guard_Inr [simp]: "guard e b = Inr u \<longleftrightarrow> b"
  by (simp add: guard_def)

text \<open>A check for every element, in order, that stops at the first failure.\<close>

fun each :: "('a \<Rightarrow> 'e + unit) \<Rightarrow> 'a list \<Rightarrow> 'e + unit" where
  "each f [] = Inr ()"
| "each f (x # xs) = bindE (f x) (\<lambda>_. each f xs)"

lemma each_Inr [simp]: "each f xs = Inr u \<longleftrightarrow> (\<forall>x \<in> set xs. f x = Inr ())"
  by (induction xs) auto

text \<open>A list comprehension whose element expression may fail.\<close>

fun traverse :: "('a \<Rightarrow> 'e + 'b) \<Rightarrow> 'a list \<Rightarrow> 'e + 'b list" where
  "traverse f [] = Inr []"
| "traverse f (x # xs) = bindE (f x) (\<lambda>y. bindE (traverse f xs) (\<lambda>ys. Inr (y # ys)))"

lemma traverse_Inr: "traverse f xs = Inr ys \<longleftrightarrow> list_all2 (\<lambda>x y. f x = Inr y) xs ys"
  by (induction xs arbitrary: ys) (auto simp: list_all2_Cons1)

lemma traverse_member: "traverse f xs = Inr ys \<Longrightarrow> x \<in> set xs \<Longrightarrow> \<exists>y \<in> set ys. f x = Inr y"
  by (induction xs arbitrary: ys) auto

lemma traverse_image: "traverse f xs = Inr ys \<Longrightarrow> y \<in> set ys \<Longrightarrow> \<exists>x \<in> set xs. f x = Inr y"
  by (induction xs arbitrary: ys) auto

lemma traverse_length: "traverse f xs = Inr ys \<Longrightarrow> length ys = length xs"
  by (induction xs arbitrary: ys) auto

section \<open>Numbers\<close>

text \<open>Python's \<open>int(text, base)\<close>: digits with single underscores between them.\<close>

definition digit_value :: "nat \<Rightarrow> char \<Rightarrow> nat option" where
  "digit_value b c =
     (let n = of_char c :: nat;
          v = (if 48 \<le> n \<and> n \<le> 57 then n - 48
               else if 97 \<le> n \<and> n \<le> 122 then n - 87
               else if 65 \<le> n \<and> n \<le> 90 then n - 55 else b)
      in if v < b then Some v else None)"

fun more_digits :: "nat \<Rightarrow> nat \<Rightarrow> string \<Rightarrow> nat option" where
  "more_digits b acc [] = Some acc"
| "more_digits b acc [c] = map_option (\<lambda>d. b * acc + d) (digit_value b c)"
| "more_digits b acc (c # d # cs) =
     (case digit_value b c of
        Some v \<Rightarrow> more_digits b (b * acc + v) (d # cs)
      | None \<Rightarrow>
          if c = CHR ''_''
          then (case digit_value b d of None \<Rightarrow> None | Some v \<Rightarrow> more_digits b (b * acc + v) cs)
          else None)"

definition unsigned_int :: "nat \<Rightarrow> string \<Rightarrow> nat option" where
  "unsigned_int b s =
     (case s of
        [] \<Rightarrow> None
      | c # cs \<Rightarrow> (case digit_value b c of None \<Rightarrow> None | Some d \<Rightarrow> more_digits b d cs))"

definition split_sign :: "string \<Rightarrow> bool \<times> string" where
  "split_sign s =
     (case s of
        c # cs \<Rightarrow> if c = CHR ''-'' then (True, cs) else if c = CHR ''+'' then (False, cs) else (False, s)
      | [] \<Rightarrow> (False, []))"

definition signed :: "bool \<Rightarrow> nat \<Rightarrow> int" where
  "signed neg n = (if neg then - int n else int n)"

text \<open>A decimal text of more than 4300 digits is a \<open>ValueError\<close>.\<close>

definition int_base10 :: "string \<Rightarrow> int option" where
  "int_base10 s =
     (case split_sign (strip s) of (neg, u) \<Rightarrow>
        if 4300 < length (filter (\<lambda>c. c \<noteq> CHR ''_'') u) then None
        else map_option (signed neg) (unsigned_int 10 u))"

definition drop_hex_prefix :: "string \<Rightarrow> string" where
  "drop_hex_prefix u =
     (if prefix ''0x'' u \<or> prefix ''0X'' u
      then (case drop 2 u of
              c # cs \<Rightarrow> if c = CHR ''_'' then cs else c # cs
            | [] \<Rightarrow> [])
      else u)"

definition int_base16 :: "string \<Rightarrow> int option" where
  "int_base16 s =
     (case split_sign (strip s) of (neg, u) \<Rightarrow>
        map_option (signed neg) (unsigned_int 16 (drop_hex_prefix u)))"

text \<open>\<open>str.replace(pattern, "")\<close> and \<open>str.strip(chars)\<close>.\<close>

function remove_all :: "string \<Rightarrow> string \<Rightarrow> string" where
  "remove_all p s =
     (if p \<noteq> [] \<and> s \<noteq> [] \<and> prefix p s then remove_all p (drop (length p) s)
      else case s of [] \<Rightarrow> [] | c # cs \<Rightarrow> c # remove_all p cs)"
  by pat_completeness auto
termination by (relation "measure (\<lambda>(p, s). length s)") auto

declare remove_all.simps [simp del]

definition strip_chars :: "char set \<Rightarrow> string \<Rightarrow> string" where
  "strip_chars cs s = rev (dropWhile (\<lambda>c. c \<in> cs) (rev (dropWhile (\<lambda>c. c \<in> cs) s)))"

definition upper_char :: "char \<Rightarrow> char" where
  "upper_char c = (if CHR ''a'' \<le> c \<and> c \<le> CHR ''z'' then char_of (of_char c - (32 :: nat)) else c)"

definition upper :: "string \<Rightarrow> string" where
  "upper s = map upper_char s"

text \<open>\<open>str\<close> of an integer.\<close>

fun nat_text :: "nat \<Rightarrow> string" where
  "nat_text n = (if n < 10 then [char_of (48 + n)] else nat_text (n div 10) @ [char_of (48 + n mod 10)])"

declare nat_text.simps [simp del]

definition int_text :: "int \<Rightarrow> string" where
  "int_text n = (if n < 0 then CHR ''-'' # nat_text (nat (- n)) else nat_text (nat n))"

section \<open>Lines\<close>

definition is_break :: "char \<Rightarrow> bool" where
  "is_break c \<longleftrightarrow> c \<in> {CHR 0x0A, CHR 0x0B, CHR 0x0C, CHR 0x0D, CHR 0x1C, CHR 0x1D, CHR 0x1E}"

text \<open>The lines with their line breaks: \<open>splitlines(keepends=True)\<close> is the list of \<open>l @ e\<close>.\<close>

fun splitlines :: "string \<Rightarrow> (string \<times> string) list" where
  "splitlines [] = []"
| "splitlines [c] = [if is_break c then ([], [c]) else ([c], [])]"
| "splitlines (c # d # cs) =
     (if is_break c
      then if c = CHR 0x0D \<and> d = CHR 0x0A then ([], [c, d]) # splitlines cs
           else ([], [c]) # splitlines (d # cs)
      else case splitlines (d # cs) of
             [] \<Rightarrow> [([c], [])]
           | (l, e) # ls \<Rightarrow> (c # l, e) # ls)"

lemma splitlines_Cons [simp]: "splitlines (c # cs) \<noteq> []"
  by (cases cs) (auto split: list.splits)

lemma splitlines_join: "concat (map (\<lambda>(l, e). l @ e) (splitlines s)) = s"
proof (induction s rule: splitlines.induct)
  case (3 c d cs)
  obtain l e ls where "splitlines (d # cs) = (l, e) # ls"
    by (cases "splitlines (d # cs)") auto
  with 3 show ?case by auto
qed auto

text \<open>\<open>str.split(sep, 1)\<close> on a text that holds the separator: before and after its first place.\<close>

definition before_first :: "char \<Rightarrow> string \<Rightarrow> string" where
  "before_first c s = takeWhile (\<lambda>x. x \<noteq> c) s"

definition after_first :: "char \<Rightarrow> string \<Rightarrow> string" where
  "after_first c s = tl (dropWhile (\<lambda>x. x \<noteq> c) s)"

lemma split_first: "c \<in> set s \<Longrightarrow> s = before_first c s @ c # after_first c s"
  unfolding before_first_def after_first_def
  by (induction s) auto

definition rstrip_chars :: "char set \<Rightarrow> string \<Rightarrow> string" where
  "rstrip_chars cs s = rev (dropWhile (\<lambda>c. c \<in> cs) (rev s))"

section \<open>Facts\<close>

lemma remove_all_free:
  assumes "c \<in> set p" and "c \<notin> set s"
  shows "remove_all p s = s"
  using assms(2)
proof (induction s)
  case Nil
  then show ?case by (subst remove_all.simps) simp
next
  case (Cons x s)
  have "\<not> prefix p (x # s)" using assms(1) Cons.prems by (meson prefix_def in_set_conv_decomp set_mono_prefix subsetD)
  then show ?case using Cons by (subst remove_all.simps) simp
qed

lemma remove_all_single: "remove_all [c] s = filter (\<lambda>x. x \<noteq> c) s"
proof (induction s)
  case Nil
  then show ?case by (subst remove_all.simps) simp
next
  case (Cons x s)
  then show ?case by (subst remove_all.simps) auto
qed

lemma more_digits_append:
  "\<forall>c \<in> set xs. digit_value b c \<noteq> None \<Longrightarrow> digit_value b d = Some v \<Longrightarrow>
   more_digits b acc (xs @ [d]) = map_option (\<lambda>n. b * n + v) (more_digits b acc xs)"
proof (induction b acc xs rule: more_digits.induct)
  case (2 b acc c)
  then show ?case by (auto split: option.splits)
next
  case (3 b acc c d cs)
  then show ?case by (cases cs) (auto split: option.splits)
qed auto

lemma dropWhile_none: "\<forall>c \<in> set s. \<not> P c \<Longrightarrow> dropWhile P s = s"
  by (cases s) auto

lemma strip_chars_none: "\<forall>c \<in> set s. c \<notin> cs \<Longrightarrow> strip_chars cs s = s"
  by (simp add: strip_chars_def dropWhile_none)

lemma strip_none: "\<forall>c \<in> set s. \<not> is_space c \<Longrightarrow> strip s = s"
  by (simp add: strip_def dropWhile_none)

end
