(* ===== verification/SettingsFiles.thy ===== *)
theory SettingsFiles
  imports Pytext
begin

text \<open>
  What backend/src/alpha/config.py does before the fields of \<open>Settings\<close> are validated:
  \<open>resolve_file_backed_secrets\<close> on the raw values of the environment, and the validators of
  the environment name and of the origins. The fields, the validation of the whole and the
  secret file reader are in Config.

  The file system (\<open>files\<close>), the UTF-8 decoder, SQLAlchemy's \<open>URL.create\<close> with
  \<open>render_as_string\<close> (\<open>render\<close>) and \<open>urlsplit\<close> are parameters. What pydantic makes of a raw
  value is the relation \<open>pydantic_reads\<close>.
\<close>

section \<open>Raw values\<close>

text \<open>
  A value of the dictionary: the environment and the env file hold texts, a caller of
  \<open>Settings\<close> may pass the others. A \<open>Path\<close> stands as its text, which is never empty.
\<close>

datatype raw_value = RawNone | RawText string | RawBool bool | RawInt int

type_synonym raw_values = "string \<Rightarrow> raw_value option"

definition raw_get :: "raw_values \<Rightarrow> string \<Rightarrow> raw_value" where
  "raw_get values key = (case values key of None \<Rightarrow> RawNone | Some v \<Rightarrow> v)"

fun truthy :: "raw_value \<Rightarrow> bool" where
  "truthy RawNone = False"
| "truthy (RawText s) = (s \<noteq> [])"
| "truthy (RawBool b) = b"
| "truthy (RawInt n) = (n \<noteq> 0)"

text \<open>\<open>value in (None, "")\<close>, \<open>str(value)\<close> and \<open>int(value)\<close>.\<close>

definition unset :: "raw_value \<Rightarrow> bool" where
  "unset v \<longleftrightarrow> v = RawNone \<or> v = RawText []"

fun raw_text :: "raw_value \<Rightarrow> string" where
  "raw_text RawNone = ''None''"
| "raw_text (RawText s) = s"
| "raw_text (RawBool b) = (if b then ''True'' else ''False'')"
| "raw_text (RawInt n) = int_text n"

datatype resolve_error =
    SecretFileError secret_error | IncompleteDatabase "string list" | IncompleteRedis "string list"
  | PortValueError | RawTypeError

fun raw_int :: "raw_value \<Rightarrow> resolve_error + int" where
  "raw_int RawNone = Inl RawTypeError"
| "raw_int (RawText s) = (case int_base10 s of None \<Rightarrow> Inl PortValueError | Some n \<Rightarrow> Inr n)"
| "raw_int (RawBool b) = Inr (if b then 1 else 0)"
| "raw_int (RawInt n) = Inr n"

section \<open>File backed secrets\<close>

record url_parts =
  url_driver :: string
  url_username :: string
  url_password :: string
  url_host :: string
  url_port :: int
  url_database :: string
  url_query :: "(string \<times> string) list"

definition read_secret ::
  "(string \<Rightarrow> secret_file) \<Rightarrow> (string \<Rightarrow> string option) \<Rightarrow> raw_value \<Rightarrow> bool \<Rightarrow> resolve_error + string" where
  "read_secret files decode_utf8 path allow_empty =
     (case path of
        RawText p \<Rightarrow>
          (case read_secret_file decode_utf8 (files p) allow_empty of
             Inl e \<Rightarrow> Inl (SecretFileError e)
           | Inr v \<Rightarrow> Inr v)
      | _ \<Rightarrow> Inl RawTypeError)"

definition resolve_secret_key ::
  "(string \<Rightarrow> secret_file) \<Rightarrow> (string \<Rightarrow> string option) \<Rightarrow> raw_values \<Rightarrow> resolve_error + raw_values" where
  "resolve_secret_key files decode_utf8 values =
     (if truthy (raw_get values ''secret_key_file'')
      then bindE (read_secret files decode_utf8 (raw_get values ''secret_key_file'') False) (\<lambda>secret.
           Inr (values(''secret_key'' \<mapsto> RawText secret)))
      else Inr values)"

definition resolve_admin_password ::
  "(string \<Rightarrow> secret_file) \<Rightarrow> (string \<Rightarrow> string option) \<Rightarrow> raw_values \<Rightarrow> resolve_error + raw_values" where
  "resolve_admin_password files decode_utf8 values =
     (if truthy (raw_get values ''admin_password_file'')
      then bindE (read_secret files decode_utf8 (raw_get values ''admin_password_file'') True) (\<lambda>admin_password.
           Inr (values(''admin_password'' \<mapsto> if admin_password = [] then RawNone else RawText admin_password)))
      else Inr values)"

definition database_components :: "string list" where
  "database_components = [''database_host'', ''database_name'', ''database_user'', ''database_password_file'']"

definition raw_default :: "raw_values \<Rightarrow> string \<Rightarrow> raw_value \<Rightarrow> raw_value" where
  "raw_default values key default_value = (case values key of None \<Rightarrow> default_value | Some v \<Rightarrow> v)"

definition database_parts :: "raw_values \<Rightarrow> string \<Rightarrow> int \<Rightarrow> url_parts" where
  "database_parts values password port =
     \<lparr>url_driver = ''postgresql+psycopg'', url_username = raw_text (raw_get values ''database_user''),
      url_password = password, url_host = raw_text (raw_get values ''database_host''), url_port = port,
      url_database = raw_text (raw_get values ''database_name''),
      url_query = [(''sslmode'', if truthy (raw_default values ''database_tls'' (RawBool False))
                                then ''verify-full'' else ''disable'')]\<rparr>"

definition resolve_database ::
  "(string \<Rightarrow> secret_file) \<Rightarrow> (string \<Rightarrow> string option) \<Rightarrow> (url_parts \<Rightarrow> string) \<Rightarrow> raw_values \<Rightarrow>
   resolve_error + raw_values" where
  "resolve_database files decode_utf8 render values =
     (if \<exists>key \<in> set database_components. \<not> unset (raw_get values key)
      then let missing = [key. key \<leftarrow> database_components, unset (raw_get values key)]
           in if missing \<noteq> [] then Inl (IncompleteDatabase missing)
              else bindE (read_secret files decode_utf8 (raw_get values ''database_password_file'') False) (\<lambda>password.
                   bindE (raw_int (raw_default values ''database_port'' (RawInt 5432))) (\<lambda>port.
                   Inr (values(''database_url'' \<mapsto> RawText (render (database_parts values password port))))))
      else Inr values)"

definition redis_components :: "string list" where
  "redis_components = [''redis_host'', ''redis_password_file'']"

definition redis_parts :: "raw_values \<Rightarrow> string \<Rightarrow> int \<Rightarrow> url_parts" where
  "redis_parts values password port =
     \<lparr>url_driver = if truthy (raw_default values ''redis_tls'' (RawBool False)) then ''rediss'' else ''redis'',
      url_username = [], url_password = password, url_host = raw_text (raw_get values ''redis_host''),
      url_port = port, url_database = ''0'', url_query = []\<rparr>"

definition resolve_redis ::
  "(string \<Rightarrow> secret_file) \<Rightarrow> (string \<Rightarrow> string option) \<Rightarrow> (url_parts \<Rightarrow> string) \<Rightarrow> raw_values \<Rightarrow>
   resolve_error + raw_values" where
  "resolve_redis files decode_utf8 render values =
     (if \<exists>key \<in> set redis_components. \<not> unset (raw_get values key)
      then let missing = [key. key \<leftarrow> redis_components, unset (raw_get values key)]
           in if missing \<noteq> [] then Inl (IncompleteRedis missing)
              else bindE (read_secret files decode_utf8 (raw_get values ''redis_password_file'') False) (\<lambda>password.
                   bindE (raw_int (raw_default values ''redis_port'' (RawInt 6379))) (\<lambda>port.
                   Inr (values(''redis_url'' \<mapsto> RawText (render (redis_parts values password port))))))
      else Inr values)"

definition resolve_file_backed_secrets ::
  "(string \<Rightarrow> secret_file) \<Rightarrow> (string \<Rightarrow> string option) \<Rightarrow> (url_parts \<Rightarrow> string) \<Rightarrow> raw_values \<Rightarrow>
   resolve_error + raw_values" where
  "resolve_file_backed_secrets files decode_utf8 render raw =
     bindE (resolve_secret_key files decode_utf8 raw) (\<lambda>values.
     bindE (resolve_admin_password files decode_utf8 values) (\<lambda>values.
     bindE (resolve_database files decode_utf8 render values) (\<lambda>values.
     resolve_redis files decode_utf8 render values)))"

section \<open>Field validators\<close>

definition normalize_environment :: "string \<Rightarrow> string" where
  "normalize_environment v = lower (strip v)"

text \<open>What \<open>urlsplit\<close> and the properties of its result return; \<open>su_port_valid\<close> is whether \<open>port\<close> does not raise.\<close>

record split_url =
  su_scheme :: string
  su_hostname :: "string option"
  su_port_valid :: bool
  su_username :: "string option"
  su_password :: "string option"
  su_path :: string
  su_query :: string
  su_fragment :: string

datatype origin_error = InvalidUrl | InvalidPort | NotAnOrigin

definition origin_ok :: "split_url \<Rightarrow> bool" where
  "origin_ok u \<longleftrightarrow>
     \<not> (su_scheme u \<notin> {''http'', ''https''} \<or> su_hostname u = None \<or> su_hostname u = Some []
        \<or> su_username u \<noteq> None \<or> su_password u \<noteq> None \<or> su_path u \<notin> {[], ''/''}
        \<or> su_query u \<noteq> [] \<or> su_fragment u \<noteq> [])"

definition validate_origins ::
  "(string \<Rightarrow> split_url option) \<Rightarrow> string list \<Rightarrow> origin_error + string list" where
  "validate_origins urlsplit values =
     bindE (each (\<lambda>v.
         case urlsplit v of
           None \<Rightarrow> Inl InvalidUrl
         | Some parsed \<Rightarrow>
             if \<not> su_port_valid parsed then Inl InvalidPort else guard NotAnOrigin (origin_ok parsed)) values)
       (\<lambda>_. Inr values)"

section \<open>What pydantic reads\<close>

text \<open>
  The fields the secrets depend on, as pydantic documents them: a text field takes a text,
  an optional field takes None, \<open>Path("")\<close> is the current directory and not None, and a
  flag is true for the documented words and values only.
\<close>

definition text_field :: "raw_value \<Rightarrow> string option \<Rightarrow> bool" where
  "text_field v x \<longleftrightarrow> (case v of RawNone \<Rightarrow> x = None | RawText t \<Rightarrow> x = Some t | _ \<Rightarrow> False)"

definition path_field :: "raw_value \<Rightarrow> string option \<Rightarrow> bool" where
  "path_field v x \<longleftrightarrow> (case v of RawNone \<Rightarrow> x = None | RawText t \<Rightarrow> x \<noteq> None | _ \<Rightarrow> False)"

definition flag_field :: "raw_value option \<Rightarrow> bool \<Rightarrow> bool" where
  "flag_field v b \<longleftrightarrow>
     (case v of
        None \<Rightarrow> \<not> b
      | Some (RawText t) \<Rightarrow>
          (if b then lower t \<in> {''1'', ''true'', ''t'', ''yes'', ''y'', ''on''}
           else lower t \<in> {''0'', ''false'', ''f'', ''no'', ''n'', ''off''})
      | Some (RawBool c) \<Rightarrow> b = c
      | Some (RawInt n) \<Rightarrow> n = (if b then 1 else 0)
      | Some RawNone \<Rightarrow> False)"

definition pydantic_reads :: "raw_values \<Rightarrow> settings \<Rightarrow> bool" where
  "pydantic_reads values s \<longleftrightarrow>
     (\<forall>t. values ''secret_key'' = Some (RawText t) \<longrightarrow> st_secret_key s = t)
     \<and> (\<forall>t. values ''database_url'' = Some (RawText t) \<longrightarrow> st_database_url s = t)
     \<and> (\<forall>t. values ''redis_url'' = Some (RawText t) \<longrightarrow> st_redis_url s = t)
     \<and> path_field (raw_get values ''secret_key_file'') (st_secret_key_file s)
     \<and> path_field (raw_get values ''database_password_file'') (st_database_password_file s)
     \<and> path_field (raw_get values ''redis_password_file'') (st_redis_password_file s)
     \<and> text_field (raw_get values ''database_host'') (st_database_host s)
     \<and> text_field (raw_get values ''redis_host'') (st_redis_host s)
     \<and> flag_field (values ''database_tls'') (st_database_tls s)
     \<and> flag_field (values ''redis_tls'') (st_redis_tls s)"

section \<open>Facts\<close>

text \<open>A step writes its own key only.\<close>

lemma resolve_secret_key_Inr:
  assumes "resolve_secret_key files decode raw = Inr values"
  shows "(\<not> truthy (raw_get raw ''secret_key_file'') \<and> values = raw)
    \<or> (\<exists>p v. raw_get raw ''secret_key_file'' = RawText p \<and> read_secret_file decode (files p) False = Inr v
         \<and> values = raw(''secret_key'' \<mapsto> RawText v))"
  using assms by (auto simp: resolve_secret_key_def read_secret_def split: if_splits raw_value.splits sum.splits)

lemma resolve_admin_password_Inr:
  assumes "resolve_admin_password files decode raw = Inr values"
  shows "values = raw \<or> (\<exists>v. values = raw(''admin_password'' := v))"
  using assms by (auto simp: resolve_admin_password_def split: if_splits)

lemma resolve_database_Inr:
  assumes "resolve_database files decode render raw = Inr values"
  shows "((\<forall>key \<in> set database_components. unset (raw_get raw key)) \<and> values = raw)
    \<or> (\<exists>p password port. raw_get raw ''database_password_file'' = RawText p
         \<and> read_secret_file decode (files p) False = Inr password
         \<and> values = raw(''database_url'' \<mapsto> RawText (render (database_parts raw password port))))"
  using assms
  by (auto simp: resolve_database_def read_secret_def Let_def split: if_splits raw_value.splits sum.splits)

lemma resolve_redis_Inr:
  assumes "resolve_redis files decode render raw = Inr values"
  shows "((\<forall>key \<in> set redis_components. unset (raw_get raw key)) \<and> values = raw)
    \<or> (\<exists>p password port. raw_get raw ''redis_password_file'' = RawText p
         \<and> read_secret_file decode (files p) False = Inr password
         \<and> values = raw(''redis_url'' \<mapsto> RawText (render (redis_parts raw password port))))"
  using assms
  by (auto simp: resolve_redis_def read_secret_def Let_def split: if_splits raw_value.splits sum.splits)

text \<open>The parts of the whole run, with the two URLs as they are composed from the raw values.\<close>

lemma parts_unchanged:
  assumes "k \<in> {''secret_key'', ''admin_password'', ''database_url''}"
  shows "database_parts (values(k := v)) = database_parts values" and "redis_parts (values(k := v)) = redis_parts values"
  using assms by (auto simp: database_parts_def redis_parts_def raw_get_def raw_default_def fun_eq_iff)

lemma flag_truthy: "flag_field v b \<Longrightarrow> b \<Longrightarrow> truthy (case v of None \<Rightarrow> RawBool False | Some w \<Rightarrow> w)"
  by (auto simp: flag_field_def lower_def split: option.splits raw_value.splits)

lemma resolve_stages:
  assumes "resolve_file_backed_secrets files decode render raw = Inr values"
  obtains v1 v2 v3 where "resolve_secret_key files decode raw = Inr v1"
    and "resolve_admin_password files decode v1 = Inr v2"
    and "resolve_database files decode render v2 = Inr v3" and "resolve_redis files decode render v3 = Inr values"
  using assms by (auto simp: resolve_file_backed_secrets_def)

lemma stage_other:
  "resolve_secret_key files decode raw = Inr v \<Longrightarrow> k \<noteq> ''secret_key'' \<Longrightarrow> v k = raw k"
  "resolve_admin_password files decode raw = Inr v \<Longrightarrow> k \<noteq> ''admin_password'' \<Longrightarrow> v k = raw k"
  "resolve_database files decode render raw = Inr v \<Longrightarrow> k \<noteq> ''database_url'' \<Longrightarrow> v k = raw k"
  "resolve_redis files decode render raw = Inr v \<Longrightarrow> k \<noteq> ''redis_url'' \<Longrightarrow> v k = raw k"
  by (auto dest!: resolve_secret_key_Inr resolve_admin_password_Inr resolve_database_Inr resolve_redis_Inr)

lemma resolved_other:
  assumes "resolve_file_backed_secrets files decode render raw = Inr values"
    and "k \<notin> {''secret_key'', ''admin_password'', ''database_url'', ''redis_url''}"
  shows "values k = raw k"
proof -
  obtain v1 v2 v3 where s: "resolve_secret_key files decode raw = Inr v1" "resolve_admin_password files decode v1 = Inr v2"
    "resolve_database files decode render v2 = Inr v3" "resolve_redis files decode render v3 = Inr values"
    using resolve_stages[OF assms(1)] .
  show ?thesis
    using stage_other(1)[OF s(1), of k] stage_other(2)[OF s(2), of k] stage_other(3)[OF s(3), of k]
      stage_other(4)[OF s(4), of k] assms(2) by simp
qed

lemma resolved_get:
  "resolve_file_backed_secrets files decode render raw = Inr values \<Longrightarrow>
     k \<notin> {''secret_key'', ''admin_password'', ''database_url'', ''redis_url''} \<Longrightarrow> raw_get values k = raw_get raw k"
  by (simp add: raw_get_def resolved_other)

lemma resolved_secret_key:
  assumes r: "resolve_file_backed_secrets files decode render raw = Inr values"
    and f: "raw_get raw ''secret_key_file'' = RawText p" "p \<noteq> []"
  shows "\<exists>v. read_secret_file decode (files p) False = Inr v \<and> values ''secret_key'' = Some (RawText v)"
proof -
  obtain v1 v2 v3 where s: "resolve_secret_key files decode raw = Inr v1" "resolve_admin_password files decode v1 = Inr v2"
    "resolve_database files decode render v2 = Inr v3" "resolve_redis files decode render v3 = Inr values"
    using resolve_stages[OF r] .
  have "values ''secret_key'' = v1 ''secret_key''"
    using stage_other(2)[OF s(2)] stage_other(3)[OF s(3)] stage_other(4)[OF s(4)] by simp
  then show ?thesis using resolve_secret_key_Inr[OF s(1)] f by auto
qed

lemma parts_before_database:
  assumes "resolve_secret_key files decode raw = Inr v1" and "resolve_admin_password files decode v1 = Inr v2"
  shows "database_parts v2 = database_parts raw" and "redis_parts v2 = redis_parts raw"
    and "k \<notin> {''secret_key'', ''admin_password''} \<Longrightarrow> raw_get v2 k = raw_get raw k"
  using resolve_secret_key_Inr[OF assms(1)] resolve_admin_password_Inr[OF assms(2)]
  by (auto simp: parts_unchanged raw_get_def)

lemma resolved_database:
  assumes r: "resolve_file_backed_secrets files decode render raw = Inr values"
    and f: "raw_get raw ''database_password_file'' = RawText p" "p \<noteq> []"
  shows "\<exists>password port. read_secret_file decode (files p) False = Inr password
    \<and> values ''database_url'' = Some (RawText (render (database_parts raw password port)))"
proof -
  obtain v1 v2 v3 where s: "resolve_secret_key files decode raw = Inr v1" "resolve_admin_password files decode v1 = Inr v2"
    "resolve_database files decode render v2 = Inr v3" "resolve_redis files decode render v3 = Inr values"
    using resolve_stages[OF r] .
  note before = parts_before_database[OF s(1,2)]
  have "values ''database_url'' = v3 ''database_url''" using stage_other(4)[OF s(4)] by simp
  moreover have "\<not> unset (raw_get v2 ''database_password_file'')" using before(3) f by (simp add: unset_def)
  ultimately show ?thesis
    using resolve_database_Inr[OF s(3)] before(1) before(3)[of "''database_password_file''"] f
    by (auto simp: database_components_def)
qed

lemma resolved_redis:
  assumes r: "resolve_file_backed_secrets files decode render raw = Inr values"
    and f: "raw_get raw ''redis_password_file'' = RawText p" "p \<noteq> []"
  shows "\<exists>password port. read_secret_file decode (files p) False = Inr password
    \<and> values ''redis_url'' = Some (RawText (render (redis_parts raw password port)))"
proof -
  obtain v1 v2 v3 where s: "resolve_secret_key files decode raw = Inr v1" "resolve_admin_password files decode v1 = Inr v2"
    "resolve_database files decode render v2 = Inr v3" "resolve_redis files decode render v3 = Inr values"
    using resolve_stages[OF r] .
  note before = parts_before_database[OF s(1,2)]
  have v3: "redis_parts v3 = redis_parts raw" "raw_get v3 ''redis_password_file'' = RawText p"
    using resolve_database_Inr[OF s(3)] before(2) before(3)[of "''redis_password_file''"] f
    by (auto simp: parts_unchanged raw_get_def)
  then have "\<not> unset (raw_get v3 ''redis_password_file'')" using f by (simp add: unset_def)
  then show ?thesis
    using resolve_redis_Inr[OF s(4)] v3 by (auto simp: redis_components_def)
qed

lemma raw_get_text: "raw_get values k = RawText p \<longleftrightarrow> values k = Some (RawText p)"
  by (auto simp: raw_get_def split: option.splits)

lemma path_field_text: "path_field v x \<Longrightarrow> x \<noteq> None \<Longrightarrow> \<exists>p. v = RawText p"
  by (cases v) (auto simp: path_field_def)

lemma text_field_text: "text_field v (Some t) \<Longrightarrow> v = RawText t"
  by (cases v) (auto simp: text_field_def)

text \<open>A connection that validation accepts is to the local host or has its flag set.\<close>

lemma protected_field:
  assumes "flag \<or> host = Some local"
    and "text_field (raw_get raw h) host" and "flag_field (raw k) flag"
  shows "raw_get raw h = RawText local \<or> truthy (raw_default raw k (RawBool False))"
  using assms text_field_text flag_truthy[of "raw k" flag] unfolding raw_default_def by blast

text \<open>
  C39: in production the secrets come from files and the connections are protected. When the
  file settings are not empty texts and the settings are accepted, the signing key is the line
  of its file, the database URL carries the password of its file and verifies the
  certificate of the server unless the host is the Compose service \<open>postgres\<close>, and the
  Redis URL carries the password of its file and uses TLS unless the host is \<open>redis\<close>.
\<close>

theorem production_secrets_from_files:
  assumes r: "resolve_file_backed_secrets files decode render raw = Inr values"
    and fields: "pydantic_reads values s" and ok: "validate_production_secret s = Inr s'"
    and production: "st_environment s = Production"
    and nonempty: "\<forall>k \<in> {''secret_key_file'', ''database_password_file'', ''redis_password_file''}. raw k \<noteq> Some (RawText [])"
  shows "(\<exists>p. raw ''secret_key_file'' = Some (RawText p) \<and> read_secret_file decode (files p) False = Inr (st_secret_key s))
    \<and> (\<exists>p password port. raw ''database_password_file'' = Some (RawText p)
         \<and> read_secret_file decode (files p) False = Inr password
         \<and> st_database_url s = render (database_parts raw password port)
         \<and> (url_host (database_parts raw password port) = ''postgres''
            \<or> url_query (database_parts raw password port) = [(''sslmode'', ''verify-full'')]))
    \<and> (\<exists>p password port. raw ''redis_password_file'' = Some (RawText p)
         \<and> read_secret_file decode (files p) False = Inr password
         \<and> st_redis_url s = render (redis_parts raw password port)
         \<and> (url_host (redis_parts raw password port) = ''redis''
            \<or> url_driver (redis_parts raw password port) = ''rediss''))"
proof -
  have in_file: "\<exists>p. raw k = Some (RawText p) \<and> p \<noteq> [] \<and> raw_get raw k = RawText p"
    if t: "path_field (raw_get values k) x" "x \<noteq> None"
      "k \<in> {''secret_key_file'', ''database_password_file'', ''redis_password_file''}" for k x
  proof -
    obtain p where p: "raw_get values k = RawText p" using path_field_text[OF t(1,2)] by blast
    moreover have "values k = raw k" using resolved_other[OF r, of k] t(3) by auto
    ultimately show ?thesis using nonempty t(3) by (auto simp: raw_get_text)
  qed
  have hard: "st_secret_key_file s \<noteq> None" "st_database_password_file s \<noteq> None" "st_redis_password_file s \<noteq> None"
    "st_database_tls s \<or> st_database_host s = Some ''postgres''" "st_redis_tls s \<or> st_redis_host s = Some ''redis''"
    using ok production by (auto simp: validate_production_secret_def Let_def split: if_splits)
  note reads = fields[unfolded pydantic_reads_def]
  obtain p where p: "raw ''secret_key_file'' = Some (RawText p)" "p \<noteq> []" "raw_get raw ''secret_key_file'' = RawText p"
    using in_file[of "''secret_key_file''"] reads hard(1) by blast
  obtain d where d: "raw ''database_password_file'' = Some (RawText d)" "d \<noteq> []" "raw_get raw ''database_password_file'' = RawText d"
    using in_file[of "''database_password_file''"] reads hard(2) by blast
  obtain c where c: "raw ''redis_password_file'' = Some (RawText c)" "c \<noteq> []" "raw_get raw ''redis_password_file'' = RawText c"
    using in_file[of "''redis_password_file''"] reads hard(3) by blast
  have tls: "raw_get raw ''database_host'' = RawText ''postgres'' \<or> truthy (raw_default raw ''database_tls'' (RawBool False))"
    by (rule protected_field[OF hard(4)]) (use reads resolved_other[OF r] resolved_get[OF r] in simp_all)
  have rtls: "raw_get raw ''redis_host'' = RawText ''redis'' \<or> truthy (raw_default raw ''redis_tls'' (RawBool False))"
    by (rule protected_field[OF hard(5)]) (use reads resolved_other[OF r] resolved_get[OF r] in simp_all)
  obtain key where key: "read_secret_file decode (files p) False = Inr key" "values ''secret_key'' = Some (RawText key)"
    using resolved_secret_key[OF r p(3,2)] by blast
  obtain pw port where db: "read_secret_file decode (files d) False = Inr pw"
    "values ''database_url'' = Some (RawText (render (database_parts raw pw port)))"
    using resolved_database[OF r d(3,2)] by blast
  obtain pw' port' where rd: "read_secret_file decode (files c) False = Inr pw'"
    "values ''redis_url'' = Some (RawText (render (redis_parts raw pw' port')))"
    using resolved_redis[OF r c(3,2)] by blast
  have "st_secret_key s = key" "st_database_url s = render (database_parts raw pw port)"
    "st_redis_url s = render (redis_parts raw pw' port')"
    using reads key(2) db(2) rd(2) by blast+
  moreover have "url_host (database_parts raw pw port) = ''postgres''
      \<or> url_query (database_parts raw pw port) = [(''sslmode'', ''verify-full'')]"
    using tls by (auto simp: database_parts_def)
  moreover have "url_host (redis_parts raw pw' port') = ''redis'' \<or> url_driver (redis_parts raw pw' port') = ''rediss''"
    using rtls by (auto simp: redis_parts_def)
  ultimately show ?thesis using p(1) d(1) c(1) key(1) db(1) rd(1) by blast
qed

section \<open>The container of the deployment\<close>

definition render_text :: "url_parts \<Rightarrow> string" where
  "render_text u = url_driver u @ ''://'' @ url_username u @ '':'' @ url_password u @ ''@''
     @ url_host u @ '':'' @ int_text (url_port u) @ ''/'' @ url_database u"

definition secret_files :: "string \<Rightarrow> secret_file" where
  "secret_files path = RegularFile 32 (st_secret_key sample_settings)"

definition container_raw :: raw_values where
  "container_raw = map_of (map (\<lambda>(k, v). (k, RawText v))
     [(''environment'', ''production''), (''secret_key_file'', ''/run/secrets/key''),
      (''database_host'', ''postgres''), (''database_name'', ''ctf''), (''database_user'', ''ctf''),
      (''database_password_file'', ''/run/secrets/db''),
      (''redis_host'', ''redis''), (''redis_password_file'', ''/run/secrets/redis'')])"

definition container_settings :: settings where
  "container_settings = sample_settings\<lparr>
     st_database_url := render_text (database_parts container_raw (st_secret_key sample_settings) 5432),
     st_redis_url := render_text (redis_parts container_raw (st_secret_key sample_settings) 6379)\<rparr>"

lemma container_secret: "read_secret_file Some (secret_files p) False = Inr (st_secret_key sample_settings)"
  by (simp add: read_secret_file_def secret_files_def sample_settings_def MAX_SECRET_FILE_BYTES_def
      drop_one_newline_def Let_def)

lemma container_resolved:
  "resolve_file_backed_secrets secret_files Some render_text container_raw = Inr (container_raw
     (''secret_key'' \<mapsto> RawText (st_secret_key sample_settings),
      ''database_url'' \<mapsto> RawText (st_database_url container_settings),
      ''redis_url'' \<mapsto> RawText (st_redis_url container_settings)))"
  by (simp add: resolve_file_backed_secrets_def resolve_secret_key_def resolve_admin_password_def
      resolve_database_def resolve_redis_def read_secret_def container_secret database_components_def
      redis_components_def unset_def raw_get_def raw_default_def container_raw_def Let_def parts_unchanged
      container_settings_def)

lemma container_reads:
  "pydantic_reads (container_raw
     (''secret_key'' \<mapsto> RawText (st_secret_key sample_settings),
      ''database_url'' \<mapsto> RawText (st_database_url container_settings),
      ''redis_url'' \<mapsto> RawText (st_redis_url container_settings))) container_settings"
  by (simp add: pydantic_reads_def path_field_def text_field_def flag_field_def raw_get_def container_raw_def
      container_settings_def sample_settings_def)

lemma container_accepted: "validate_production_secret container_settings = Inr container_settings"
  by (simp add: validate_production_secret_def container_settings_def sample_settings_def development_secret_def
      render_text_def database_parts_def redis_parts_def raw_default_def container_raw_def Let_def)

lemma production_secrets_from_files_witness:
  "\<exists>p. container_raw ''secret_key_file'' = Some (RawText p)
     \<and> read_secret_file Some (secret_files p) False = Inr (st_secret_key container_settings)"
  using production_secrets_from_files[OF container_resolved container_reads container_accepted]
  by (simp add: container_raw_def container_settings_def sample_settings_def)

section \<open>Two ways around\<close>

text \<open>
  An empty text for a file setting counts as absent when the secrets are resolved and as
  the current directory when the production rule asks whether the setting is there: the
  settings are accepted in production with the signing key and both URLs inline.
\<close>

definition inline_raw :: raw_values where
  "inline_raw = map_of (map (\<lambda>(k, v). (k, RawText v))
     [(''environment'', ''production''), (''secret_key'', st_secret_key sample_settings), (''secret_key_file'', []),
      (''database_url'', st_database_url sample_settings), (''database_password_file'', []), (''database_tls'', ''true''),
      (''redis_url'', st_redis_url sample_settings), (''redis_password_file'', []), (''redis_tls'', ''true'')])"

definition inline_settings :: settings where
  "inline_settings = sample_settings\<lparr>st_database_host := None, st_database_tls := True,
     st_redis_host := None, st_redis_tls := True\<rparr>"

lemma empty_file_setting_accepted:
  "resolve_file_backed_secrets files decode render inline_raw = Inr inline_raw
   \<and> pydantic_reads inline_raw inline_settings
   \<and> validate_production_secret inline_settings = Inr inline_settings
   \<and> st_environment inline_settings = Production"
proof (intro conjI)
  show "resolve_file_backed_secrets files decode render inline_raw = Inr inline_raw"
    by (simp add: resolve_file_backed_secrets_def resolve_secret_key_def resolve_admin_password_def
        resolve_database_def resolve_redis_def database_components_def redis_components_def unset_def
        raw_get_def inline_raw_def)
  show "pydantic_reads inline_raw inline_settings"
    by (simp add: pydantic_reads_def path_field_def text_field_def flag_field_def raw_get_def inline_raw_def
        inline_settings_def sample_settings_def lower_def lower_char_def)
  show "validate_production_secret inline_settings = Inr inline_settings"
    by (simp add: validate_production_secret_def inline_settings_def sample_settings_def development_secret_def Let_def)
qed (simp add: inline_settings_def sample_settings_def)

text \<open>
  The text \<open>false\<close> of the environment is a true value for the URL and a false one for
  the field: a deployment that switches TLS off by \<open>ALPHA_DATABASE_TLS=false\<close> gets a URL
  that demands it.
\<close>

lemma tls_false_demands_tls:
  assumes "raw ''database_tls'' = Some (RawText ''false'')" and "flag_field (raw ''database_tls'') b"
  shows "\<not> b \<and> url_query (database_parts raw password port) = [(''sslmode'', ''verify-full'')]"
  using assms by (cases b) (simp_all add: flag_field_def lower_def database_parts_def raw_default_def lower_char_def)

text \<open>What the origin check lets through.\<close>

lemma validate_origins_Inr:
  "validate_origins urlsplit values = Inr vs \<longleftrightarrow>
     vs = values \<and> (\<forall>v \<in> set values. \<exists>u. urlsplit v = Some u \<and> su_port_valid u \<and> origin_ok u)"
  by (auto simp: validate_origins_def split: option.splits if_splits)

end
