(* ===== verification/Security.thy ===== *)
theory Security
  imports Schema Config
begin

text \<open>
  backend/src/alpha/security.py and the things outside the repository that the handlers
  call. \<open>runtime\<close> holds the library functions the code relies on (HMAC-SHA256, Argon2,
  the \<open>regex\<close> package, itsdangerous); they are parameters, never defined here.
  \<open>world\<close> holds what one request reads from its surroundings: the clock readings, the
  random identifiers and tokens in the order the code draws them, and whether an Argon2
  slot was free at each password operation. A handler that reads the clock three times
  uses three readings.
\<close>

datatype regex_outcome = Matched | NotMatched | RegexTimeout | RegexError
datatype argon_outcome = Verified | VerifyMismatch | InvalidHash

record runtime =
  rt_hmac :: "string \<Rightarrow> string \<Rightarrow> string"
  rt_argon_hash :: "string \<Rightarrow> string \<Rightarrow> string"
  rt_argon_verify :: "string \<Rightarrow> string \<Rightarrow> argon_outcome"
  rt_argon_rehash :: "string \<Rightarrow> bool option"
  rt_regex_compiles :: "string \<Rightarrow> bool"
  rt_regex_fullmatch :: "string \<Rightarrow> string \<Rightarrow> regex_outcome"
  rt_dumps :: "string \<Rightarrow> string \<Rightarrow> json \<Rightarrow> instant \<Rightarrow> string"
  rt_loads :: "string \<Rightarrow> string \<Rightarrow> string \<Rightarrow> int \<Rightarrow> instant \<Rightarrow> json option"

record world =
  w_utcnow :: "nat \<Rightarrow> instant"
  w_monotonic :: "nat \<Rightarrow> instant"
  w_uuid4 :: "nat \<Rightarrow> uuid"
  w_token :: "nat \<Rightarrow> string"
  w_slot_free :: "nat \<Rightarrow> bool"

section \<open>Argon2\<close>

text \<open>
  The bounded semaphore of two slots. Acquiring never waits: when no slot is free the
  caller gets \<open>PasswordWorkBusy\<close>. Releasing more often than acquiring is the
  \<open>ValueError\<close> of \<open>BoundedSemaphore\<close>.
\<close>

datatype slot_error = PasswordWorkBusy | ReleasedTooOften

definition ARGON2_SLOTS :: nat where
  "ARGON2_SLOTS = 2"

definition acquire_argon2_slot :: "nat \<Rightarrow> slot_error + nat" where
  "acquire_argon2_slot free = (if free = 0 then Inl PasswordWorkBusy else Inr (free - 1))"

definition release_argon2_slot :: "nat \<Rightarrow> slot_error + nat" where
  "release_argon2_slot free = (if free \<ge> ARGON2_SLOTS then Inl ReleasedTooOften else Inr (free + 1))"

text \<open>
  The worker threads and the semaphore: a thread is idle or inside Argon2 (between the
  acquire and the \<open>finally\<close> of \<open>hash_password\<close> or \<open>verify_password\<close>).
\<close>

record argon_state =
  free_slots :: nat
  hashing :: "nat set"

inductive argon_step :: "argon_state \<Rightarrow> argon_state \<Rightarrow> bool" where
  enter: "i \<notin> hashing s \<Longrightarrow> acquire_argon2_slot (free_slots s) = Inr n \<Longrightarrow>
     argon_step s (s\<lparr>free_slots := n, hashing := insert i (hashing s)\<rparr>)"
| refuse: "i \<notin> hashing s \<Longrightarrow> acquire_argon2_slot (free_slots s) = Inl PasswordWorkBusy \<Longrightarrow>
     argon_step s s"
| leave: "i \<in> hashing s \<Longrightarrow> release_argon2_slot (free_slots s) = Inr n \<Longrightarrow>
     argon_step s (s\<lparr>free_slots := n, hashing := hashing s - {i}\<rparr>)"

definition argon_init :: argon_state where
  "argon_init = \<lparr>free_slots = ARGON2_SLOTS, hashing = {}\<rparr>"

inductive argon_reachable :: "argon_state \<Rightarrow> bool" where
  init: "argon_reachable argon_init"
| step: "argon_reachable s \<Longrightarrow> argon_step s t \<Longrightarrow> argon_reachable t"

definition argon_inv :: "argon_state \<Rightarrow> bool" where
  "argon_inv s \<longleftrightarrow> finite (hashing s) \<and> free_slots s + card (hashing s) = ARGON2_SLOTS"

lemma argon_step_inv: "argon_step s t \<Longrightarrow> argon_inv s \<Longrightarrow> argon_inv t"
proof (induction rule: argon_step.induct)
  case (enter i s n)
  then show ?case
    by (auto simp: argon_inv_def acquire_argon2_slot_def split: if_splits)
next
  case (refuse i s)
  then show ?case by simp
next
  case (leave i s n)
  then have "finite (hashing s)" and "0 < card (hashing s)"
    by (auto simp: argon_inv_def card_gt_0_iff)
  with leave show ?case
    by (simp add: argon_inv_def release_argon2_slot_def split: if_splits)
qed

lemma argon_reachable_inv: "argon_reachable s \<Longrightarrow> argon_inv s"
proof (induction rule: argon_reachable.induct)
  case init
  then show ?case by (simp add: argon_inv_def argon_init_def)
next
  case (step s t)
  then show ?case using argon_step_inv by blast
qed

text \<open>The three functions of security.py, as a request sees them.\<close>

definition hash_password :: "runtime \<Rightarrow> bool \<Rightarrow> string \<Rightarrow> string \<Rightarrow> string result" where
  "hash_password rt slot_free salt password =
     (if \<not> slot_free then err_retry 503 ''password_service_busy'' 1
      else Inr (rt_argon_hash rt salt password))"

definition verify_password :: "runtime \<Rightarrow> bool \<Rightarrow> string \<Rightarrow> string \<Rightarrow> bool result" where
  "verify_password rt slot_free password_hash password =
     (if \<not> slot_free then err_retry 503 ''password_service_busy'' 1
      else Inr (case rt_argon_verify rt password_hash password of
                  Verified \<Rightarrow> True | VerifyMismatch \<Rightarrow> False | InvalidHash \<Rightarrow> False))"

definition password_needs_rehash :: "runtime \<Rightarrow> string \<Rightarrow> bool" where
  "password_needs_rehash rt password_hash =
     (case rt_argon_rehash rt password_hash of None \<Rightarrow> True | Some b \<Rightarrow> b)"

section \<open>Keyed hashes\<close>

definition hash_message :: "string \<Rightarrow> string \<Rightarrow> string" where
  "hash_message domain value = domain @ CHR 0x00 # value"

definition keyed_hash :: "runtime \<Rightarrow> string \<Rightarrow> string \<Rightarrow> string \<Rightarrow> string" where
  "keyed_hash rt secret domain value = rt_hmac rt secret (hash_message domain value)"

definition hash_session :: "runtime \<Rightarrow> string \<Rightarrow> string \<Rightarrow> string" where
  "hash_session rt secret token = keyed_hash rt secret ''session'' token"

definition hash_invite :: "runtime \<Rightarrow> string \<Rightarrow> string \<Rightarrow> string" where
  "hash_invite rt secret invite = keyed_hash rt secret ''invite'' invite"

definition hash_registration_access :: "runtime \<Rightarrow> string \<Rightarrow> string \<Rightarrow> string" where
  "hash_registration_access rt secret access_code = keyed_hash rt secret ''registration-access'' access_code"

definition hash_flag :: "runtime \<Rightarrow> string \<Rightarrow> string \<Rightarrow> string" where
  "hash_flag rt secret flag = keyed_hash rt secret ''flag'' flag"

definition hash_submission :: "runtime \<Rightarrow> string \<Rightarrow> string \<Rightarrow> string" where
  "hash_submission rt secret flag = keyed_hash rt secret ''submission'' flag"

definition hash_ip :: "runtime \<Rightarrow> string \<Rightarrow> string \<Rightarrow> string" where
  "hash_ip rt secret ip = keyed_hash rt secret ''ip'' ip"

lemma hash_message_inject:
  assumes "CHR 0x00 \<notin> set d1" and "CHR 0x00 \<notin> set d2"
    and "hash_message d1 v1 = hash_message d2 v2"
  shows "d1 = d2 \<and> v1 = v2"
  using assms
proof (induction d1 arbitrary: d2)
  case Nil
  then show ?case by (cases d2) (auto simp: hash_message_def)
next
  case (Cons c d1)
  then show ?case by (cases d2) (auto simp: hash_message_def)
qed

section \<open>Flags\<close>

definition compare_exact_flag :: "runtime \<Rightarrow> string \<Rightarrow> string option \<Rightarrow> string \<Rightarrow> bool" where
  "compare_exact_flag rt secret stored_hash candidate =
     (case stored_hash of
        None \<Rightarrow> False
      | Some h \<Rightarrow> if h = [] then False else h = hash_flag rt secret candidate)"

record regex_result =
  matched :: bool
  timed_out :: bool

definition validate_regex :: "runtime \<Rightarrow> string \<Rightarrow> bool" where
  "validate_regex rt pattern = rt_regex_compiles rt pattern"

definition compare_regex_flag :: "runtime \<Rightarrow> string option \<Rightarrow> string \<Rightarrow> regex_result" where
  "compare_regex_flag rt pattern candidate =
     (case pattern of
        None \<Rightarrow> \<lparr>matched = False, timed_out = False\<rparr>
      | Some p \<Rightarrow>
          if p = [] then \<lparr>matched = False, timed_out = False\<rparr>
          else (case rt_regex_fullmatch rt p candidate of
                  Matched \<Rightarrow> \<lparr>matched = True, timed_out = False\<rparr>
                | NotMatched \<Rightarrow> \<lparr>matched = False, timed_out = False\<rparr>
                | RegexTimeout \<Rightarrow> \<lparr>matched = False, timed_out = True\<rparr>
                | RegexError \<Rightarrow> \<lparr>matched = False, timed_out = False\<rparr>))"

section \<open>CSRF tokens\<close>

definition csrf_salt :: string where
  "csrf_salt = ''alpha-csrf-v1''"

definition issue_csrf :: "runtime \<Rightarrow> string \<Rightarrow> string \<Rightarrow> string \<Rightarrow> instant \<Rightarrow> string" where
  "issue_csrf rt secret nonce context now =
     rt_dumps rt secret csrf_salt (JObj [(''nonce'', JStr nonce), (''context'', JStr context)]) now"

definition verify_csrf :: "runtime \<Rightarrow> string \<Rightarrow> string \<Rightarrow> int \<Rightarrow> string \<Rightarrow> instant \<Rightarrow> bool" where
  "verify_csrf rt secret token max_age context now =
     (case rt_loads rt secret csrf_salt token max_age now of
        Some (JObj value) \<Rightarrow>
          (case map_of value ''nonce'' of
             Some (JStr nonce) \<Rightarrow> 24 \<le> length nonce
               \<and> (case map_of value ''context'' of Some (JStr c) \<Rightarrow> c = context | _ \<Rightarrow> False)
           | _ \<Rightarrow> False)
      | _ \<Rightarrow> False)"

definition csrf_context :: "runtime \<Rightarrow> string \<Rightarrow> string \<Rightarrow> string \<Rightarrow> string" where
  "csrf_context rt secret session_token browser_token =
     (if session_token \<noteq> [] then keyed_hash rt secret ''csrf-session'' session_token
      else if browser_token \<noteq> [] then keyed_hash rt secret ''csrf-browser'' browser_token
      else [])"

text \<open>
  The documented behaviour of the signed serializer on one token: loading it with the key
  and salt it was signed with gives the signed value back while its age in whole seconds
  is between 0 and \<open>max_age\<close>, and fails otherwise.
\<close>

definition token_age_ok :: "instant \<Rightarrow> instant \<Rightarrow> int \<Rightarrow> bool" where
  "token_age_ok issued now max_age \<longleftrightarrow>
     0 \<le> now div second - issued div second \<and> now div second - issued div second \<le> max_age"

definition serializer_ok :: "runtime \<Rightarrow> string \<Rightarrow> json \<Rightarrow> instant \<Rightarrow> bool" where
  "serializer_ok rt secret v t \<longleftrightarrow> (\<forall>max_age now.
     rt_loads rt secret csrf_salt (rt_dumps rt secret csrf_salt v t) max_age now =
     (if token_age_ok t now max_age then Some v else None))"

section \<open>Properties\<close>

text \<open>
  At most two threads are inside Argon2 at any time, whatever the interleaving, and
  the release in the \<open>finally\<close> block never fails.
\<close>

theorem argon2_bounded:
  assumes "argon_reachable s"
  shows "card (hashing s) \<le> ARGON2_SLOTS
    \<and> (\<forall>i \<in> hashing s. \<exists>n. release_argon2_slot (free_slots s) = Inr n)"
proof -
  have i: "finite (hashing s)" "free_slots s + card (hashing s) = ARGON2_SLOTS"
    using argon_reachable_inv[OF assms] by (auto simp: argon_inv_def)
  have "\<exists>n. release_argon2_slot (free_slots s) = Inr n" if "j \<in> hashing s" for j
  proof -
    have "card (hashing s) \<noteq> 0" using i(1) that by auto
    then show ?thesis using i(2) by (auto simp: release_argon2_slot_def)
  qed
  with i show ?thesis by auto
qed

lemma argon2_bounded_witness:
  "\<exists>s. argon_reachable s \<and> hashing s = {7} \<and> card (hashing s) \<le> ARGON2_SLOTS"
proof -
  let ?s = "argon_init\<lparr>free_slots := 1, hashing := insert 7 (hashing argon_init)\<rparr>"
  have r: "argon_reachable ?s"
    by (rule argon_reachable.step[OF argon_reachable.init])
      (rule argon_step.enter, simp_all add: argon_init_def acquire_argon2_slot_def ARGON2_SLOTS_def)
  have "hashing ?s = {7}"
    by (simp add: argon_init_def)
  with argon2_bounded[OF r] r show ?thesis by blast
qed

text \<open>
  Domain separation. Two keyed hashes under the same key agree only for the same
  domain and the same value, unless HMAC-SHA256 collides on two different messages. So
  the hash of a session token is never that of an invite, an access code or a flag.
\<close>

theorem keyed_hash_separates:
  assumes "CHR 0x00 \<notin> set d1" and "CHR 0x00 \<notin> set d2"
    and "inj_on (rt_hmac rt secret) {hash_message d1 v1, hash_message d2 v2}"
  shows "keyed_hash rt secret d1 v1 = keyed_hash rt secret d2 v2 \<longleftrightarrow> d1 = d2 \<and> v1 = v2"
proof
  assume "keyed_hash rt secret d1 v1 = keyed_hash rt secret d2 v2"
  then have "hash_message d1 v1 = hash_message d2 v2"
    unfolding keyed_hash_def by (rule inj_onD[OF assms(3)]) simp_all
  then show "d1 = d2 \<and> v1 = v2"
    by (rule hash_message_inject[OF assms(1,2)])
qed simp

text \<open>
  A CSRF token issued by the service is accepted exactly in the context it was
  issued for (the hash of the session or browser cookie) and while it is not older than
  \<open>max_age\<close> seconds; in particular a token issued to one session is refused in another.
\<close>

theorem csrf_roundtrip:
  assumes "serializer_ok rt secret (JObj [(''nonce'', JStr nonce), (''context'', JStr context)]) t"
    and "24 \<le> length nonce"
  shows "verify_csrf rt secret (issue_csrf rt secret nonce context t) max_age other now \<longleftrightarrow>
           other = context \<and> token_age_ok t now max_age"
  using assms by (auto simp: verify_csrf_def issue_csrf_def serializer_ok_def)

text \<open>A runtime for the examples: every library function is a simple total function.\<close>

definition sample_runtime :: runtime where
  "sample_runtime = \<lparr>
     rt_hmac = (\<lambda>key message. key @ message),
     rt_argon_hash = (\<lambda>salt password. salt @ CHR ''$'' # password),
     rt_argon_verify = (\<lambda>h password.
        if drop (length h - length password) h = password then Verified else VerifyMismatch),
     rt_argon_rehash = (\<lambda>h. Some False),
     rt_regex_compiles = (\<lambda>p. True),
     rt_regex_fullmatch = (\<lambda>p candidate. if p = candidate then Matched else NotMatched),
     rt_dumps = (\<lambda>secret salt v t. ''token''),
     rt_loads = (\<lambda>secret salt token max_age now.
        if token_age_ok 0 now max_age
        then Some (JObj [(''nonce'', JStr ''abcdefghijklmnopqrstuvwx''), (''context'', JStr ''ctx'')])
        else None)\<rparr>"

lemma keyed_hash_separates_witness:
  "keyed_hash sample_runtime ''k'' ''session'' ''x'' \<noteq> keyed_hash sample_runtime ''k'' ''invite'' ''x''"
proof -
  have i: "inj_on (rt_hmac sample_runtime ''k'') {hash_message ''session'' ''x'', hash_message ''invite'' ''x''}"
    by (simp add: sample_runtime_def inj_on_def)
  show ?thesis
    using keyed_hash_separates[of "''session''" "''invite''" sample_runtime "''k''" "''x''" "''x''", OF _ _ i]
    by simp
qed

lemma csrf_roundtrip_witness:
  "verify_csrf sample_runtime ''k'' (issue_csrf sample_runtime ''k'' ''abcdefghijklmnopqrstuvwx'' ''ctx'' 0)
     60 ''ctx'' 1000000
   \<and> \<not> verify_csrf sample_runtime ''k'' (issue_csrf sample_runtime ''k'' ''abcdefghijklmnopqrstuvwx'' ''ctx'' 0)
     60 ''other'' 1000000"
proof -
  have s: "serializer_ok sample_runtime ''k''
      (JObj [(''nonce'', JStr ''abcdefghijklmnopqrstuvwx''), (''context'', JStr ''ctx'')]) 0"
    by (simp add: serializer_ok_def sample_runtime_def)
  have a: "token_age_ok 0 1000000 60"
    by (simp add: token_age_ok_def second_def)
  show ?thesis
    by (subst (1 2) csrf_roundtrip[OF s]) (simp_all add: a)
qed

end
