(* ===== verification/Services.thy ===== *)
theory Services
  imports Security
begin

text \<open>
  The event gates, the mutation guards, the audit and outbox writers and \<open>apply_flag\<close>
  of backend/src/alpha/services.py, with the limits of limits.py. Each reading of the
  clock is an argument \<open>now\<close>.
\<close>

definition MAX_CHALLENGE_ATTEMPTS :: int where "MAX_CHALLENGE_ATTEMPTS = 1000"
definition MAX_SUBMISSIONS_PER_TEAM_EVENT :: nat where "MAX_SUBMISSIONS_PER_TEAM_EVENT = 10000"
definition MAX_TEAM_MUTATIONS_PER_USER_EVENT :: nat where "MAX_TEAM_MUTATIONS_PER_USER_EVENT = 100"
definition MAX_MEMBERS_PER_TEAM :: nat where "MAX_MEMBERS_PER_TEAM = 100"
definition MAX_PARTICIPANT_USERS :: nat where "MAX_PARTICIPANT_USERS = 100000"
definition MAX_ACTIVE_SESSIONS_PER_USER :: nat where "MAX_ACTIVE_SESSIONS_PER_USER = 10"
definition MAX_PUBLIC_SCOREBOARD_ENTRIES :: nat where "MAX_PUBLIC_SCOREBOARD_ENTRIES = 1000"
definition SCOREBOARD_BUILD_LEASE_SECONDS :: int where "SCOREBOARD_BUILD_LEASE_SECONDS = 45"

section \<open>Timestamps\<close>

text \<open>An aware datetime is represented by its instant.\<close>

fun aware :: "datetime option \<Rightarrow> instant option" where
  "aware None = None"
| "aware (Some (Naive t)) = Some t"
| "aware (Some (Aware t)) = Some t"

fun iso :: "datetime option \<Rightarrow> json" where
  "iso None = JNull"
| "iso (Some (Naive t)) = JTime t"
| "iso (Some (Aware t)) = JTime t"

definition at_or_before :: "instant option \<Rightarrow> instant \<Rightarrow> bool" where
  "at_or_before t now = (case t of None \<Rightarrow> True | Some t \<Rightarrow> t \<le> now)"

definition still_before :: "instant \<Rightarrow> instant option \<Rightarrow> bool" where
  "still_before now t = (case t of None \<Rightarrow> True | Some t \<Rightarrow> now < t)"

section \<open>The current event\<close>

definition current_event_query :: "bool \<Rightarrow> database \<Rightarrow> event option" where
  "current_event_query archived_only db =
     first_by (\<lambda>e. - e_created_at e)
       (filter (\<lambda>e. if archived_only then e_state e = Archived else e_state e \<noteq> Archived) (events db))"

definition current_event :: "database \<Rightarrow> event option" where
  "current_event db =
     (case current_event_query False db of
        None \<Rightarrow> current_event_query True db
      | Some e \<Rightarrow> Some e)"

fun state_name :: "event_state \<Rightarrow> string" where
  "state_name Draft = ''draft''"
| "state_name Registration = ''registration''"
| "state_name Live = ''live''"
| "state_name Frozen = ''frozen''"
| "state_name Ended = ''ended''"
| "state_name Archived = ''archived''"

fun team_mode_name :: "team_mode \<Rightarrow> string" where
  "team_mode_name TeamMode = ''team''"
| "team_mode_name IndividualMode = ''individual''"

fun access_mode_name :: "access_mode \<Rightarrow> string" where
  "access_mode_name OpenAccess = ''open''"
| "access_mode_name CodeAccess = ''code''"

definition event_dict :: "event \<Rightarrow> json_object" where
  "event_dict e =
     [(''id'', JId (e_id e)),
      (''name'', JStr (e_name e)),
      (''slug'', JStr (e_slug e)),
      (''description_md'', JStr (e_description_md e)),
      (''state'', JStr (state_name (e_state e))),
      (''registration_at'', iso (e_registration_at e)),
      (''start_at'', iso (e_start_at e)),
      (''freeze_at'', iso (e_freeze_at e)),
      (''end_at'', iso (e_end_at e)),
      (''team_mode'', JStr (team_mode_name (e_team_mode e))),
      (''registration_access_mode'', JStr (access_mode_name (e_registration_access_mode e)))]"

section \<open>Gates\<close>

definition state_allows_registration :: "event \<Rightarrow> instant \<Rightarrow> bool" where
  "state_allows_registration e now \<longleftrightarrow>
     e_state e = Registration
     \<and> at_or_before (aware (e_registration_at e)) now
     \<and> still_before now (aware (e_end_at e))"

definition state_allows_submission :: "event \<Rightarrow> instant \<Rightarrow> bool" where
  "state_allows_submission e now \<longleftrightarrow>
     e_state e \<in> {Live, Frozen}
     \<and> at_or_before (aware (e_start_at e)) now
     \<and> still_before now (aware (e_end_at e))"

definition state_allows_challenge_access :: "event \<Rightarrow> instant \<Rightarrow> bool" where
  "state_allows_challenge_access e now \<longleftrightarrow>
     (if e_state e \<in> {Ended, Archived} then True
      else e_state e \<in> {Live, Frozen} \<and> at_or_before (aware (e_start_at e)) now)"

section \<open>The event state machine\<close>

definition EVENT_STATES :: "event_state list" where
  "EVENT_STATES = [Draft, Registration, Live, Frozen, Ended, Archived]"

fun index_of :: "'a \<Rightarrow> 'a list \<Rightarrow> nat option" where
  "index_of x [] = None"
| "index_of x (y # ys) = (if x = y then Some 0 else map_option Suc (index_of x ys))"

text \<open>
  \<open>new\<close> is \<open>None\<close> when the request carries an explicit null: \<open>EVENT_STATES.index\<close>
  then raises \<open>ValueError\<close>, which no handler of the API names.
\<close>

definition assert_state_transition :: "event_state \<Rightarrow> event_state option \<Rightarrow> unit result" where
  "assert_state_transition old new =
     (if new = Some old then Inr ()
      else if old = Archived then err 409 ''invalid_state_transition''
      else case new of
             None \<Rightarrow> Inl (Uncaught ''ValueError'')
           | Some n \<Rightarrow>
               if index_of n EVENT_STATES \<noteq> map_option Suc (index_of old EVENT_STATES)
               then err 409 ''invalid_state_transition'' else Inr ())"

definition assert_event_mutable :: "event \<Rightarrow> unit result" where
  "assert_event_mutable e = (if e_state e = Archived then err 409 ''event_archived'' else Inr ())"

definition scoreboard_freeze_locked :: "event \<Rightarrow> instant \<Rightarrow> bool" where
  "scoreboard_freeze_locked e now \<longleftrightarrow>
     e_state e \<in> {Frozen, Ended, Archived}
     \<or> (e_state e = Live \<and> (case aware (e_freeze_at e) of None \<Rightarrow> False | Some t \<Rightarrow> t \<le> now))"

definition public_scoreboard_is_frozen :: "event \<Rightarrow> instant \<Rightarrow> bool" where
  "public_scoreboard_is_frozen e now \<longleftrightarrow>
     e_state e = Frozen
     \<or> (e_state e = Live \<and> (case aware (e_freeze_at e) of None \<Rightarrow> False | Some t \<Rightarrow> t \<le> now))"

datatype cache_phase = LivePhase | FrozenPhase | FinalPhase

definition public_scoreboard_cache_phase :: "event \<Rightarrow> instant \<Rightarrow> cache_phase" where
  "public_scoreboard_cache_phase e now =
     (if e_state e \<in> {Ended, Archived} then FinalPhase
      else if public_scoreboard_is_frozen e now then FrozenPhase else LivePhase)"

definition assert_freeze_at_mutable :: "event \<Rightarrow> datetime option \<Rightarrow> instant \<Rightarrow> unit result" where
  "assert_freeze_at_mutable e proposed now =
     (if scoreboard_freeze_locked e now \<and> aware proposed \<noteq> aware (e_freeze_at e)
      then err 409 ''scoreboard_freeze_locked'' else Inr ())"

text \<open>
  The scoring part of a challenge patch. A field of a patch is \<open>None\<close> when the request
  does not carry it and \<open>Some None\<close> when it carries a null.
\<close>

record scoring_patch =
  sp_scoring_type :: "scoring_type option option"
  sp_initial_points :: "int option option"
  sp_minimum_points :: "int option option"
  sp_decay :: "int option option"

definition changes :: "'a option option \<Rightarrow> 'a \<Rightarrow> bool" where
  "changes proposed current = (case proposed of None \<Rightarrow> False | Some v \<Rightarrow> v \<noteq> Some current)"

definition assert_scoring_mutable :: "event \<Rightarrow> challenge \<Rightarrow> scoring_patch \<Rightarrow> instant \<Rightarrow> unit result" where
  "assert_scoring_mutable e c p now =
     (if (changes (sp_scoring_type p) (c_scoring_type c)
          \<or> changes (sp_initial_points p) (c_initial_points c)
          \<or> changes (sp_minimum_points p) (c_minimum_points c)
          \<or> changes (sp_decay p) (c_decay c))
         \<and> scoreboard_freeze_locked e now
      then err 409 ''frozen_scoring_locked'' else Inr ())"

section \<open>Audit and outbox\<close>

definition add_audit ::
  "uuid \<Rightarrow> instant \<Rightarrow> uuid option \<Rightarrow> string \<Rightarrow> string \<Rightarrow> uuid option \<Rightarrow> json_object \<Rightarrow>
   database \<Rightarrow> database option" where
  "add_audit new_id now actor action target_type target_id metadata db =
     insert_audit \<lparr>a_id = new_id, a_actor_id = actor, a_action = action,
       a_target_type = target_type, a_target_id = target_id, a_metadata = metadata,
       a_created_at = now\<rparr> db"

definition add_outbox ::
  "uuid \<Rightarrow> instant \<Rightarrow> string \<Rightarrow> string \<Rightarrow> uuid \<Rightarrow> json_object \<Rightarrow> database \<Rightarrow> database option" where
  "add_outbox new_id now topic aggregate_type aggregate_id payload db =
     insert_outbox \<lparr>o_id = new_id, o_topic = topic, o_aggregate_type = aggregate_type,
       o_aggregate_id = aggregate_id, o_payload = payload, o_created_at = now,
       o_delivered_at = None, o_attempts = 0\<rparr> db"

text \<open>\<open>dict.update\<close>, \<open>dict.setdefault\<close> and the counter of a coalesced row.\<close>

definition dict_update :: "json_object \<Rightarrow> json_object \<Rightarrow> json_object" where
  "dict_update new old = fold (\<lambda>(k, v) d. AList.update k v d) new old"

definition dict_setdefault :: "string \<Rightarrow> json \<Rightarrow> json_object \<Rightarrow> json_object" where
  "dict_setdefault k v d = (case map_of d k of None \<Rightarrow> AList.update k v d | Some _ \<Rightarrow> d)"

definition next_occurrences :: "json_object \<Rightarrow> json" where
  "next_occurrences values =
     (case map_of values ''occurrences'' of
        None \<Rightarrow> JInt 2
      | Some (JInt n) \<Rightarrow> JInt (n + 1)
      | Some (JBool b) \<Rightarrow> JInt (if b then 2 else 1)
      | Some _ \<Rightarrow> JInt 2)"

definition add_coalesced_audit ::
  "uuid \<Rightarrow> instant \<Rightarrow> uuid \<Rightarrow> string \<Rightarrow> string \<Rightarrow> uuid \<Rightarrow> json_object \<Rightarrow> database \<Rightarrow> database option" where
  "add_coalesced_audit new_id now actor action target_type target_id metadata db =
     (case first_by (\<lambda>a. - a_created_at a)
             (filter (\<lambda>a. a_actor_id a = Some actor \<and> a_action a = action) (audit_events db)) of
        None \<Rightarrow>
          insert_audit \<lparr>a_id = new_id, a_actor_id = Some actor, a_action = action,
            a_target_type = target_type, a_target_id = Some target_id,
            a_metadata = dict_update [(''occurrences'', JInt 1), (''first_seen_at'', JTime now),
                                      (''last_seen_at'', JTime now)] metadata,
            a_created_at = now\<rparr> db
      | Some existing \<Rightarrow>
          let values = a_metadata existing;
              values = AList.update ''occurrences'' (next_occurrences (a_metadata existing))
                         (dict_update metadata values);
              values = dict_setdefault ''first_seen_at'' (JTime (a_created_at existing)) values;
              values = AList.update ''last_seen_at'' (JTime now) values
          in Some (db\<lparr>audit_events := update_where (\<lambda>a. a_id a = a_id existing)
               (\<lambda>a. a\<lparr>a_target_type := target_type, a_target_id := Some target_id,
                       a_metadata := values, a_created_at := now\<rparr>) (audit_events db)\<rparr>))"

definition add_coalesced_outbox ::
  "uuid \<Rightarrow> instant \<Rightarrow> string \<Rightarrow> string \<Rightarrow> uuid \<Rightarrow> json_object \<Rightarrow> database \<Rightarrow> database option" where
  "add_coalesced_outbox new_id now topic aggregate_type aggregate_id payload db =
     (case first_by (\<lambda>e. - o_created_at e)
             (filter (\<lambda>e. o_topic e = topic \<and> o_aggregate_type e = aggregate_type
                           \<and> o_aggregate_id e = aggregate_id \<and> o_delivered_at e = None)
               (outbox_events db)) of
        None \<Rightarrow>
          insert_outbox \<lparr>o_id = new_id, o_topic = topic, o_aggregate_type = aggregate_type,
            o_aggregate_id = aggregate_id,
            o_payload = AList.update ''occurrences'' (JInt 1) payload,
            o_created_at = now, o_delivered_at = None, o_attempts = 0\<rparr> db
      | Some existing \<Rightarrow>
          let values = AList.update ''occurrences'' (next_occurrences (o_payload existing))
                         (dict_update payload (o_payload existing))
          in Some (db\<lparr>outbox_events := update_where (\<lambda>e. o_id e = o_id existing)
               (\<lambda>e. e\<lparr>o_payload := values, o_created_at := now\<rparr>) (outbox_events db)\<rparr>))"

section \<open>Flags and names\<close>

record flag_input =
  fi_type :: flag_type
  fi_value :: string

definition apply_flag :: "runtime \<Rightarrow> string \<Rightarrow> int \<Rightarrow> flag_input \<Rightarrow> challenge \<Rightarrow> challenge result" where
  "apply_flag rt secret max_length flag c =
     (if int (length (fi_value flag)) > max_length then err 422 ''flag_too_long''
      else case fi_type flag of
             ExactFlag \<Rightarrow>
               Inr (c\<lparr>c_flag_type := ExactFlag, c_flag_hash := Some (hash_flag rt secret (fi_value flag)),
                      c_flag_regex := None\<rparr>)
           | RegexFlag \<Rightarrow>
               if \<not> validate_regex rt (fi_value flag) then err 422 ''invalid_flag_regex''
               else Inr (c\<lparr>c_flag_type := RegexFlag, c_flag_hash := None,
                           c_flag_regex := Some (fi_value flag)\<rparr>))"

text \<open>The Korean label for a participant without a name, as UTF-8 bytes.\<close>

definition anonymous_label :: string where
  "anonymous_label = map char_of [0xEA, 0xB0, 0x9C, 0xEC, 0x9D, 0xB8, 0x20, 0xEC, 0xB0, 0xB8,
     0xEA, 0xB0, 0x80, 0xEC, 0x9E, 0x90 :: nat]"

definition team_display_name :: "database \<Rightarrow> event option \<Rightarrow> team \<Rightarrow> string" where
  "team_display_name db e t =
     (if (case e of None \<Rightarrow> False | Some e \<Rightarrow> e_team_mode e = IndividualMode)
      then (case fetch u_id (t_creator_id t) (users db) of
              None \<Rightarrow> anonymous_label
            | Some u \<Rightarrow> if u_username u = [] then anonymous_label else u_username u)
      else t_name t)"

section \<open>Facts the components share\<close>

lemma aware_iso: "aware d = None \<longleftrightarrow> iso d = JNull"
  by (cases d rule: aware.cases) auto

lemma current_event_in: "current_event db = Some e \<Longrightarrow> e \<in> set (events db)"
  by (auto simp: current_event_def current_event_query_def split: option.splits
      dest!: first_by_Some)

lemma current_event_None: "current_event db = None \<longleftrightarrow> events db = []"
proof
  assume "current_event db = None"
  then have "filter (\<lambda>e. e_state e \<noteq> Archived) (events db) = []"
    and "filter (\<lambda>e. e_state e = Archived) (events db) = []"
    by (auto simp: current_event_def current_event_query_def split: option.splits)
  then show "events db = []"
    by (cases "events db") (auto split: if_splits)
qed (simp add: current_event_def current_event_query_def)

text \<open>An archived event is current only when every event is archived.\<close>

lemma current_event_archived:
  assumes "current_event db = Some e" and "e_state e = Archived" and "x \<in> set (events db)"
  shows "e_state x = Archived"
proof (rule ccontr)
  assume "e_state x \<noteq> Archived"
  with assms(3) have "current_event_query False db \<noteq> None"
    by (auto simp: current_event_query_def filter_empty_conv)
  then obtain y where y: "current_event_query False db = Some y"
    by auto
  then have "y = e" using assms(1) by (simp add: current_event_def)
  moreover have "e_state y \<noteq> Archived"
    using y by (auto simp: current_event_query_def dest!: first_by_Some)
  ultimately show False using assms(2) by simp
qed

definition state_rank :: "event_state \<Rightarrow> nat" where
  "state_rank s = the (index_of s EVENT_STATES)"

lemma state_rank_simps [simp]:
  "state_rank Draft = 0" "state_rank Registration = 1" "state_rank Live = 2"
  "state_rank Frozen = 3" "state_rank Ended = 4" "state_rank Archived = 5"
  by (simp_all add: state_rank_def EVENT_STATES_def)

lemma index_of_state: "index_of s EVENT_STATES = Some (state_rank s)"
  by (cases s) (simp_all add: EVENT_STATES_def state_rank_def)

lemma transition_ok_iff:
  "assert_state_transition old (Some new) = Inr () \<longleftrightarrow>
     new = old \<or> state_rank new = Suc (state_rank old)"
  by (cases old; cases new) (simp_all add: assert_state_transition_def index_of_state)

lemma transition_null: "old \<noteq> Archived \<Longrightarrow> assert_state_transition old None = Inl (Uncaught ''ValueError'')"
  by (simp add: assert_state_transition_def)

lemma is_frozen_locked: "public_scoreboard_is_frozen e now \<Longrightarrow> scoreboard_freeze_locked e now"
  by (auto simp: public_scoreboard_is_frozen_def scoreboard_freeze_locked_def)

text \<open>Once the lock holds it keeps holding: later readings of the clock and later states.\<close>

lemma freeze_locked_mono:
  "scoreboard_freeze_locked e now \<Longrightarrow> now \<le> later \<Longrightarrow> scoreboard_freeze_locked e later"
  by (auto simp: scoreboard_freeze_locked_def split: option.splits)

lemma registration_excludes_submission:
  "state_allows_registration e now \<Longrightarrow> \<not> state_allows_submission e now'"
  by (auto simp: state_allows_registration_def state_allows_submission_def)

lemma submission_implies_access:
  "state_allows_submission e now \<Longrightarrow> state_allows_challenge_access e now"
  by (auto simp: state_allows_submission_def state_allows_challenge_access_def)

lemma add_audit_Some:
  "add_audit i now actor action tt tid md db = Some db' \<longleftrightarrow>
     db' = db\<lparr>audit_events := audit_events db @ [\<lparr>a_id = i, a_actor_id = actor, a_action = action,
       a_target_type = tt, a_target_id = tid, a_metadata = md, a_created_at = now\<rparr>]\<rparr>
     \<and> (\<forall>u. actor = Some u \<longrightarrow> u \<in> user_ids db) \<and> (\<forall>x \<in> set (audit_events db). a_id x \<noteq> i)"
  by (auto simp: add_audit_def insert_audit_Some audit_clash_def)

lemma add_outbox_Some:
  "add_outbox i now topic at aid p db = Some db' \<longleftrightarrow>
     db' = db\<lparr>outbox_events := outbox_events db @ [\<lparr>o_id = i, o_topic = topic, o_aggregate_type = at,
       o_aggregate_id = aid, o_payload = p, o_created_at = now, o_delivered_at = None,
       o_attempts = 0\<rparr>]\<rparr>
     \<and> (\<forall>x \<in> set (outbox_events db). o_id x \<noteq> i)"
  by (auto simp: add_outbox_def insert_outbox_Some outbox_clash_def)

text \<open>The coalescing writers touch their own table only.\<close>

lemma add_coalesced_audit_frame:
  assumes "add_coalesced_audit i now actor action tt tid md db = Some db'"
  shows "\<exists>xs. db' = db\<lparr>audit_events := xs\<rparr>"
  using assms
  by (auto simp: add_coalesced_audit_def Let_def insert_audit_Some split: option.splits)

lemma add_coalesced_outbox_frame:
  assumes "add_coalesced_outbox i now topic at aid p db = Some db'"
  shows "\<exists>xs. db' = db\<lparr>outbox_events := xs\<rparr>"
  using assms
  by (auto simp: add_coalesced_outbox_def Let_def insert_outbox_Some split: option.splits)

text \<open>
  Coalescing: an actor never has more rows for the action than before, once there is one.
\<close>

lemma add_coalesced_audit_count:
  assumes "add_coalesced_audit i now actor action tt tid md db = Some db'"
  defines "P \<equiv> \<lambda>a. a_actor_id a = Some actor \<and> a_action a = action"
  shows "count_where P (audit_events db') = max 1 (count_where P (audit_events db))"
proof (cases "first_by (\<lambda>a. - a_created_at a) (filter P (audit_events db))")
  case None
  then have "count_where P (audit_events db) = 0"
    by (simp add: count_where_def)
  moreover have "\<exists>r. audit_events db' = audit_events db @ [r] \<and> P r"
    using assms(1) None
    by (auto simp: add_coalesced_audit_def P_def[symmetric] insert_audit_Some) (simp add: P_def)
  ultimately show ?thesis by auto
next
  case (Some a)
  then have "count_where P (audit_events db) \<noteq> 0"
    by (auto simp: count_where_0 dest!: first_by_Some)
  moreover have "count_where P (audit_events db') = count_where P (audit_events db)"
    using assms(1) Some
    by (auto simp: add_coalesced_audit_def P_def[symmetric] Let_def count_where_update)
      (auto intro!: count_where_cong simp: P_def)
  ultimately show ?thesis by simp
qed

lemma apply_flag_frame:
  assumes "apply_flag rt secret n flag c = Inr c'"
  shows "c_id c' = c_id c \<and> c_event_id c' = c_event_id c \<and> c_slug c' = c_slug c
    \<and> c_scoring_type c' = c_scoring_type c \<and> c_initial_points c' = c_initial_points c
    \<and> c_minimum_points c' = c_minimum_points c \<and> c_decay c' = c_decay c
    \<and> c_max_attempts c' = c_max_attempts c"
  using assms by (auto simp: apply_flag_def split: flag_type.splits if_splits)

end
