(* ===== verification/Scoring.thy ===== *)
theory Scoring
  imports Services Complex_Main
begin

text \<open>
  The two implementations of the dynamic score in services.py: \<open>dynamic_points\<close> in
  Python (used for the awarded points and the challenge pages) and the SQL expression
  inside \<open>public_scoreboard\<close>.

  Both use IEEE double arithmetic. \<open>fl64\<close> rounds a rational to 53 significant bits,
  ties to even, which is what one double operation does to its exact result while the
  exponent stays in range (here the magnitudes lie between \<open>10\<^sup>-\<^sup>1\<^sup>2\<close> and \<open>10\<^sup>1\<^sup>7\<close>, far
  from overflow and from subnormals). Python's division of two integers is correctly
  rounded, so it is one rounding of the exact quotient; the SQL expression rounds after
  every operation. \<open>round\<close> of Python is ties to even. What \<open>round\<close> of the database
  does with ties is a parameter (PostgreSQL: ties to even; SQLite: away from zero).

  A stored challenge has a positive \<open>decay\<close> (a CHECK constraint), so the division by
  zero of the Python code is not reachable from a stored row; the theorems assume it.
\<close>

section \<open>Rounding\<close>

definition round_half_even :: "rat \<Rightarrow> int" where
  "round_half_even x =
     (let f = \<lfloor>x\<rfloor>; d = x - of_int f
      in if d < 1 / 2 then f else if d > 1 / 2 then f + 1 else if even f then f else f + 1)"

definition round_half_away :: "rat \<Rightarrow> int" where
  "round_half_away x = (if x \<ge> 0 then \<lfloor>x + 1 / 2\<rfloor> else - \<lfloor>- x + 1 / 2\<rfloor>)"

fun bit_count :: "nat \<Rightarrow> nat" where
  "bit_count n = (if n = 0 then 0 else Suc (bit_count (n div 2)))"

declare bit_count.simps [simp del]

text \<open>The binary exponent of a positive rational: \<open>2 ^ e \<le> x < 2 ^ (e + 1)\<close>.\<close>

definition binary_exponent :: "rat \<Rightarrow> int" where
  "binary_exponent x =
     (if x \<ge> 1 then int (bit_count (nat \<lfloor>x\<rfloor>)) - 1
      else - int (bit_count (nat (\<lceil>1 / x\<rceil> - 1))))"

definition fl64_pos :: "rat \<Rightarrow> rat" where
  "fl64_pos x = (let u = 2 powi (binary_exponent x - 52) in of_int (round_half_even (x / u)) * u)"

definition fl64 :: "rat \<Rightarrow> rat" where
  "fl64 x = (if x = 0 then 0 else if x < 0 then - fl64_pos (- x) else fl64_pos x)"

section \<open>The two score formulas\<close>

definition dynamic_points :: "int \<Rightarrow> int \<Rightarrow> int \<Rightarrow> int \<Rightarrow> int" where
  "dynamic_points initial minimum decay solve_count =
     (if solve_count \<le> 0 then initial
      else let quotient = fl64 (of_int ((initial - minimum) * solve_count ^ 2) / of_int (decay ^ 2));
               value = fl64 (fl64 (of_int initial) - quotient)
           in max minimum (round_half_even value))"

definition challenge_points :: "challenge \<Rightarrow> int \<Rightarrow> int" where
  "challenge_points c solve_count =
     (if c_scoring_type c = FixedScoring then c_initial_points c
      else dynamic_points (c_initial_points c) (c_minimum_points c) (c_decay c) solve_count)"

definition sql_raw_points :: "int \<Rightarrow> int \<Rightarrow> int \<Rightarrow> int \<Rightarrow> rat" where
  "sql_raw_points initial minimum decay solve_count =
     (let n = fl64 (of_int solve_count);
          d = fl64 (of_int decay)
      in fl64 (fl64 (of_int initial)
           - fl64 (fl64 (fl64 (fl64 (of_int (initial - minimum)) * n) * n) / fl64 (d * d))))"

definition sql_solve_points :: "(rat \<Rightarrow> int) \<Rightarrow> challenge \<Rightarrow> int \<Rightarrow> int" where
  "sql_solve_points db_round c solve_count =
     (if c_scoring_type c = FixedScoring then c_initial_points c
      else let rounded = db_round (sql_raw_points (c_initial_points c) (c_minimum_points c)
                                     (c_decay c) solve_count)
           in if rounded < c_minimum_points c then c_minimum_points c else rounded)"

section \<open>Rounding to an integer\<close>

text \<open>What the scores need of a rounding to integers, and of one to doubles.\<close>

locale integer_rounding =
  fixes rnd :: "rat \<Rightarrow> int"
  assumes rnd_mono: "x \<le> y \<Longrightarrow> rnd x \<le> rnd y"
    and rnd_int: "rnd (of_int n) = n"
begin

lemma ge: "of_int n \<le> x \<Longrightarrow> n \<le> rnd x"
  using rnd_mono[of "of_int n" x] by (simp add: rnd_int)

lemma le: "x \<le> of_int n \<Longrightarrow> rnd x \<le> n"
  using rnd_mono[of x "of_int n"] by (simp add: rnd_int)

end

lemma round_half_even_mono: "x \<le> y \<Longrightarrow> round_half_even x \<le> round_half_even y"
proof -
  assume xy: "x \<le> y"
  then have f: "\<lfloor>x\<rfloor> \<le> \<lfloor>y\<rfloor>" by (rule floor_mono)
  have b: "\<lfloor>z\<rfloor> \<le> round_half_even z \<and> round_half_even z \<le> \<lfloor>z\<rfloor> + 1" for z
    by (simp add: round_half_even_def Let_def)
  show ?thesis
  proof (cases "\<lfloor>x\<rfloor> = \<lfloor>y\<rfloor>")
    case True
    then show ?thesis using xy by (auto simp: round_half_even_def Let_def)
  next
    case False
    with f have "\<lfloor>x\<rfloor> + 1 \<le> \<lfloor>y\<rfloor>" by simp
    then show ?thesis using b[of x] b[of y] by linarith
  qed
qed

interpretation half_even: integer_rounding round_half_even
proof
  show "round_half_even (of_int n) = n" for n
    by (simp add: round_half_even_def)
qed (rule round_half_even_mono)

lemma round_half_away_mono: "x \<le> y \<Longrightarrow> round_half_away x \<le> round_half_away y"
proof -
  assume xy: "x \<le> y"
  have nn: "0 \<le> \<lfloor>z + 1 / 2\<rfloor>" if "0 \<le> z" for z :: rat using that by simp
  show ?thesis
  proof (cases "0 \<le> x \<or> y < 0")
    case True
    then show ?thesis using xy by (auto simp: round_half_away_def intro!: floor_mono)
  next
    case False
    then have "round_half_away x \<le> 0" and "0 \<le> round_half_away y"
      using nn[of "- x"] nn[of y] by (simp_all only: round_half_away_def) simp_all
    then show ?thesis by simp
  qed
qed

lemma floor_int_half: "\<lfloor>of_int n + 1 / (2 :: rat)\<rfloor> = n"
  by linarith

interpretation half_away: integer_rounding round_half_away
proof
  show "round_half_away (of_int n) = n" for n
    using floor_int_half[of n] floor_int_half[of "- n"] by (auto simp: round_half_away_def)
qed (rule round_half_away_mono)

section \<open>Rounding to 53 bits\<close>

lemma bit_count_upper: "n < 2 ^ bit_count n"
proof (induction n rule: bit_count.induct)
  case (1 n)
  then show ?case by (cases "n = 0") (auto simp: bit_count.simps[of n])
qed

lemma bit_count_lower: "0 < n \<Longrightarrow> 2 ^ (bit_count n - 1) \<le> n"
proof (induction n rule: bit_count.induct)
  case (1 n)
  show ?case
  proof (cases "n div 2 = 0")
    case True
    with 1 show ?thesis by (simp add: bit_count.simps[of n] bit_count.simps[of 0])
  next
    case False
    then have "bit_count (n div 2) \<noteq> 0" by (simp add: bit_count.simps[of "n div 2"])
    then obtain k where k: "bit_count (n div 2) = Suc k" by (cases "bit_count (n div 2)") auto
    with 1 False have "2 ^ k \<le> n div 2" by simp
    then show ?thesis using 1(2) k by (simp add: bit_count.simps[of n])
  qed
qed

lemma bit_count_pos: "0 < n \<Longrightarrow> 0 < bit_count n"
  by (simp add: bit_count.simps[of n])

lemma binary_exponent_bounds:
  assumes "0 < x"
  shows "2 powi binary_exponent x \<le> x \<and> x < 2 powi (binary_exponent x + 1)"
proof (cases "x \<ge> 1")
  case True
  define n where "n = nat \<lfloor>x\<rfloor>"
  have n: "0 < n" "of_nat n \<le> x" "x < of_nat n + 1"
    using True unfolding n_def by (auto simp: of_nat_nat) linarith+
  obtain k where k: "bit_count n = Suc k" using bit_count_pos[OF n(1)] by (cases "bit_count n") auto
  have e: "binary_exponent x = int k"
    using True k by (simp add: binary_exponent_def n_def)
  have "(2 :: rat) ^ k \<le> of_nat n"
    using bit_count_lower[OF n(1)] k by (metis diff_Suc_1 of_nat_le_iff of_nat_numeral of_nat_power)
  then have lo: "2 ^ k \<le> x" using n(2) by linarith
  have "(of_nat n :: rat) + 1 \<le> 2 ^ Suc k"
    using bit_count_upper[of n] k by (metis Suc_leI add.commute of_nat_Suc of_nat_le_iff of_nat_numeral of_nat_power)
  then have hi: "x < 2 ^ Suc k" using n(3) by linarith
  show ?thesis using lo hi e by (simp add: power_int_add)
next
  case False
  define m where "m = nat (\<lceil>1 / x\<rceil> - 1)"
  have "1 < 1 / x" using False assms by (simp add: field_simps)
  then have m: "0 < m" "of_nat m < 1 / x" "1 / x \<le> of_nat m + 1"
    unfolding m_def by (auto simp: of_nat_nat less_ceiling_iff) linarith+
  obtain k where k: "bit_count m = Suc k" using bit_count_pos[OF m(1)] by (cases "bit_count m") auto
  have e: "binary_exponent x = - int (Suc k)"
    using False k by (simp add: binary_exponent_def m_def)
  have "(2 :: rat) ^ k \<le> of_nat m"
    using bit_count_lower[OF m(1)] k by (metis diff_Suc_1 of_nat_le_iff of_nat_numeral of_nat_power)
  then have lo: "2 ^ k < 1 / x" using m(2) by linarith
  have "(of_nat m :: rat) + 1 \<le> 2 ^ Suc k"
    using bit_count_upper[of m] k by (metis Suc_leI add.commute of_nat_Suc of_nat_le_iff of_nat_numeral of_nat_power)
  then have hi: "1 / x \<le> 2 ^ Suc k" using m(3) by linarith
  have a: "2 powi binary_exponent x = (1 / 2 ^ Suc k :: rat)"
    unfolding e by (simp only: power_int_minus power_int_of_nat inverse_eq_divide)
  have b: "2 powi (binary_exponent x + 1) = (1 / 2 ^ k :: rat)"
    unfolding e by (simp add: power_int_minus inverse_eq_divide)
  have "1 / 2 ^ Suc k \<le> x" and "x < 1 / 2 ^ k"
    using lo hi assms by (simp_all add: field_simps)
  then show ?thesis by (simp only: a b)
qed

text \<open>The ulp of \<open>x\<close>, and \<open>x\<close> measured in ulps: between \<open>2 ^ 52\<close> and \<open>2 ^ 53\<close>.\<close>

definition ulp :: "rat \<Rightarrow> rat" where
  "ulp x = 2 powi (binary_exponent x - 52)"

lemma ulp_pos: "0 < ulp x"
  by (simp add: ulp_def)

lemma fl64_pos_ulp: "fl64_pos x = of_int (round_half_even (x / ulp x)) * ulp x"
  by (simp add: fl64_pos_def ulp_def Let_def)

lemma powi_split: "(2 :: rat) powi e = 2 powi k * 2 powi (e - k)"
  using power_int_add[of "2 :: rat" k "e - k"] by simp

lemma ulp_scale: "2 ^ 52 * ulp x = 2 powi binary_exponent x"
  using powi_split[of "binary_exponent x" 52] by (simp add: ulp_def)

lemma ulp_scale_Suc: "2 ^ 53 * ulp x = 2 powi (binary_exponent x + 1)"
  using powi_split[of "binary_exponent x + 1" 53] by (simp add: ulp_def)

lemma fl64_pos_bounds:
  assumes "0 < x"
  shows "2 powi binary_exponent x \<le> fl64_pos x \<and> fl64_pos x \<le> 2 powi (binary_exponent x + 1)"
proof -
  have "2 ^ 52 * ulp x \<le> x" "x < 2 ^ 53 * ulp x"
    using binary_exponent_bounds[OF assms] by (simp_all only: ulp_scale ulp_scale_Suc)
  then have "of_int (2 ^ 52) \<le> x / ulp x" "x / ulp x \<le> of_int (2 ^ 53)"
    using ulp_pos[of x] by (simp_all add: field_simps)
  then have "2 ^ 52 \<le> round_half_even (x / ulp x)" "round_half_even (x / ulp x) \<le> 2 ^ 53"
    by (blast intro: half_even.ge half_even.le)+
  then have "(2 :: rat) ^ 52 \<le> of_int (round_half_even (x / ulp x))"
    and "of_int (round_half_even (x / ulp x)) \<le> (2 :: rat) ^ 53"
    by (metis of_int_le_iff of_int_numeral of_int_power)+
  then have "2 ^ 52 * ulp x \<le> fl64_pos x" "fl64_pos x \<le> 2 ^ 53 * ulp x"
    unfolding fl64_pos_ulp using ulp_pos[of x] by (auto intro!: mult_right_mono)
  then show ?thesis by (simp only: ulp_scale ulp_scale_Suc)
qed

lemma fl64_pos_positive: "0 < x \<Longrightarrow> 0 < fl64_pos x"
  by (rule less_le_trans[of _ "2 powi binary_exponent x"]) (simp_all add: fl64_pos_bounds)

lemma binary_exponent_mono:
  assumes "0 < x" and "x \<le> y"
  shows "binary_exponent x \<le> binary_exponent y"
proof (rule ccontr)
  assume "\<not> binary_exponent x \<le> binary_exponent y"
  then have "(2 :: rat) powi (binary_exponent y + 1) \<le> 2 powi binary_exponent x"
    by (intro power_int_increasing) auto
  moreover have "2 powi binary_exponent x \<le> x" "y < 2 powi (binary_exponent y + 1)"
    using binary_exponent_bounds assms by auto
  ultimately show False using assms by linarith
qed

lemma fl64_pos_mono:
  assumes "0 < x" and "x \<le> y"
  shows "fl64_pos x \<le> fl64_pos y"
proof (cases "binary_exponent x = binary_exponent y")
  case True
  then have u: "ulp x = ulp y" by (simp add: ulp_def)
  have "x / ulp y \<le> y / ulp y"
    using assms(2) ulp_pos[of y] by (simp add: divide_right_mono)
  then have "round_half_even (x / ulp y) \<le> round_half_even (y / ulp y)"
    by (rule round_half_even_mono)
  then show ?thesis
    unfolding fl64_pos_ulp u using ulp_pos[of y] by (simp add: mult_right_mono)
next
  case False
  with binary_exponent_mono[OF assms] have "binary_exponent x + 1 \<le> binary_exponent y" by simp
  then have "(2 :: rat) powi (binary_exponent x + 1) \<le> 2 powi binary_exponent y"
    by (intro power_int_increasing) auto
  with fl64_pos_bounds[of x] fl64_pos_bounds[of y] assms show ?thesis by fastforce
qed

text \<open>A value that is a whole number of ulps is kept, so every integer up to \<open>2 ^ 53\<close> is.\<close>

lemma fl64_pos_int:
  assumes "0 < n" and "n \<le> 2 ^ 53"
  shows "fl64_pos (of_int n) = of_int n"
proof -
  let ?x = "of_int n :: rat"
  have x: "0 < ?x" using assms by simp
  have whole: "\<exists>k. ?x = of_int k * ulp ?x"
  proof (cases "n = 2 ^ 53")
    case True
    have lo: "2 powi binary_exponent ?x \<le> (2 powi 53 :: rat)"
      and hi: "(2 powi 53 :: rat) < 2 powi (binary_exponent ?x + 1)"
      using binary_exponent_bounds[OF x] True by simp_all
    have "\<not> 54 \<le> binary_exponent ?x"
    proof
      assume "54 \<le> binary_exponent ?x"
      then have "(2 :: rat) powi 54 \<le> 2 powi binary_exponent ?x" by (intro power_int_increasing) auto
      with lo show False by simp
    qed
    moreover have "\<not> binary_exponent ?x + 1 \<le> 53"
    proof
      assume "binary_exponent ?x + 1 \<le> 53"
      then have "(2 :: rat) powi (binary_exponent ?x + 1) \<le> 2 powi 53" by (intro power_int_increasing) auto
      with hi show False by simp
    qed
    ultimately have "binary_exponent ?x = 53" by simp
    then have "ulp ?x = 2" by (simp add: ulp_def)
    then have "?x = of_int (2 ^ 52) * ulp ?x" using True by simp
    then show ?thesis by blast
  next
    case False
    with assms have "n < 2 ^ 53" by simp
    then have "?x < of_int (2 ^ 53)" by (simp only: of_int_less_iff)
    moreover have "2 powi binary_exponent ?x \<le> ?x" using binary_exponent_bounds[OF x] by simp
    ultimately have lt: "2 powi binary_exponent ?x < (2 powi 53 :: rat)" by simp
    have "binary_exponent ?x < 53"
    proof (rule ccontr)
      assume "\<not> binary_exponent ?x < 53"
      then have "(2 :: rat) powi 53 \<le> 2 powi binary_exponent ?x" by (intro power_int_increasing) auto
      with lt show False by simp
    qed
    then obtain k where k: "52 - binary_exponent ?x = int k"
      using zero_le_imp_eq_int[of "52 - binary_exponent ?x"] by auto
    have "binary_exponent ?x - 52 = - int k" using k by simp
    then have u: "ulp ?x = inverse (2 ^ k)"
      unfolding ulp_def by (simp only: power_int_minus power_int_of_nat)
    have "?x = of_int (n * 2 ^ k) * ulp ?x" unfolding u by simp
    then show ?thesis by blast
  qed
  then obtain k where k: "?x = of_int k * ulp ?x" by blast
  then have "?x / ulp ?x = of_int k"
    using ulp_pos[of ?x] by (metis less_numeral_extra(3) nonzero_mult_div_cancel_right)
  then show ?thesis unfolding fl64_pos_ulp by (simp only: half_even.rnd_int k[symmetric])
qed

locale float_rounding =
  fixes fl :: "rat \<Rightarrow> rat"
  assumes fl_mono: "x \<le> y \<Longrightarrow> fl x \<le> fl y"
    and fl_int: "\<bar>n\<bar> \<le> 2 ^ 53 \<Longrightarrow> fl (of_int n) = of_int n"
begin

lemma ge: "\<bar>n\<bar> \<le> 2 ^ 53 \<Longrightarrow> of_int n \<le> x \<Longrightarrow> of_int n \<le> fl x"
  using fl_mono[of "of_int n" x] by (simp add: fl_int)

lemma le: "\<bar>n\<bar> \<le> 2 ^ 53 \<Longrightarrow> x \<le> of_int n \<Longrightarrow> fl x \<le> of_int n"
  using fl_mono[of x "of_int n"] by (simp add: fl_int)

lemma zero: "fl 0 = 0"
  using fl_int[of 0] by simp

lemma nonneg: "0 \<le> x \<Longrightarrow> 0 \<le> fl x"
  using fl_mono[of 0 x] by (simp add: zero)

lemma mult: "\<bar>a * b\<bar> \<le> 2 ^ 53 \<Longrightarrow> fl (of_int a * of_int b) = of_int (a * b)"
  using fl_int[of "a * b"] by simp

end

interpretation fl64: float_rounding fl64
proof
  fix x y :: rat
  assume "x \<le> y"
  then show "fl64 x \<le> fl64 y"
    using fl64_pos_mono[of x y] fl64_pos_mono[of "- y" "- x"]
      fl64_pos_positive[of "- x"] fl64_pos_positive[of y]
    by (auto simp: fl64_def)
next
  fix n :: int
  assume "\<bar>n\<bar> \<le> 2 ^ 53"
  then show "fl64 (of_int n) = of_int n"
    using fl64_pos_int[of n] fl64_pos_int[of "- n"] by (auto simp: fl64_def)
qed

section \<open>The score formulas\<close>

text \<open>The ranges the request schemas impose on the scoring fields of a challenge.\<close>

definition scoring_ok :: "int \<Rightarrow> int \<Rightarrow> int \<Rightarrow> bool" where
  "scoring_ok initial minimum decay \<longleftrightarrow>
     0 < minimum \<and> minimum \<le> initial \<and> initial \<le> 1000000 \<and> 0 < decay \<and> decay \<le> 1000000"

definition quotient :: "int \<Rightarrow> int \<Rightarrow> int \<Rightarrow> int \<Rightarrow> rat" where
  "quotient initial minimum decay n = fl64 (of_int ((initial - minimum) * n ^ 2) / of_int (decay ^ 2))"

lemma dynamic_points_alt:
  assumes "scoring_ok i m d" and "0 < n"
  shows "dynamic_points i m d n = max m (round_half_even (fl64 (of_int i - quotient i m d n)))"
proof -
  have "fl64 (of_int i) = of_int i"
    by (rule fl64.fl_int) (use assms in \<open>simp add: scoring_ok_def\<close>)
  then show ?thesis
    using assms by (simp add: dynamic_points_def quotient_def Let_def)
qed

lemma quotient_nonneg: "scoring_ok i m d \<Longrightarrow> 0 \<le> quotient i m d n"
  unfolding quotient_def by (rule fl64.nonneg) (simp add: scoring_ok_def)

lemma quotient_mono:
  assumes "scoring_ok i m d" and "0 \<le> n" and "n \<le> k"
  shows "quotient i m d n \<le> quotient i m d k"
proof -
  have "(i - m) * n ^ 2 \<le> (i - m) * k ^ 2"
    using assms by (intro mult_left_mono power_mono) (auto simp: scoring_ok_def)
  then have "(of_int ((i - m) * n ^ 2) :: rat) \<le> of_int ((i - m) * k ^ 2)"
    by (simp only: of_int_le_iff)
  then show ?thesis
    unfolding quotient_def by (intro fl64.fl_mono divide_right_mono) simp_all
qed

lemma quotient_large:
  assumes "scoring_ok i m d" and "d \<le> n"
  shows "of_int (i - m) \<le> quotient i m d n"
  unfolding quotient_def
proof (rule fl64.ge)
  show "\<bar>i - m\<bar> \<le> 2 ^ 53" using assms by (simp add: scoring_ok_def)
  have "(i - m) * d ^ 2 \<le> (i - m) * n ^ 2"
    using assms by (intro mult_left_mono power_mono) (auto simp: scoring_ok_def)
  then have "(of_int ((i - m) * d ^ 2) :: rat) \<le> of_int ((i - m) * n ^ 2)"
    by (simp only: of_int_le_iff)
  moreover have "(0 :: rat) < of_int (d ^ 2)" using assms by (simp add: scoring_ok_def)
  ultimately show "of_int (i - m) \<le> (of_int ((i - m) * n ^ 2) / of_int (d ^ 2) :: rat)"
    by (simp add: pos_le_divide_eq)
qed

lemma value_le:
  assumes "scoring_ok i m d" and "\<bar>k\<bar> \<le> 2 ^ 53" and "of_int (i - k) \<le> quotient i m d n"
  shows "round_half_even (fl64 (of_int i - quotient i m d n)) \<le> k"
proof (rule half_even.le, rule fl64.le[OF assms(2)])
  show "of_int i - quotient i m d n \<le> of_int k" using assms(3) by simp
qed

lemma dynamic_points_ge: "scoring_ok i m d \<Longrightarrow> m \<le> dynamic_points i m d n"
  by (auto simp: dynamic_points_def scoring_ok_def Let_def)

lemma dynamic_points_le: "scoring_ok i m d \<Longrightarrow> dynamic_points i m d n \<le> i"
proof (cases "0 < n")
  case True
  assume ok: "scoring_ok i m d"
  have "round_half_even (fl64 (of_int i - quotient i m d n)) \<le> i"
    using quotient_nonneg[OF ok] ok by (intro value_le[OF ok]) (auto simp: scoring_ok_def)
  then show ?thesis using True ok by (simp add: dynamic_points_alt scoring_ok_def)
qed (simp add: dynamic_points_def)

lemma dynamic_points_floor:
  assumes "scoring_ok i m d" and "d \<le> n"
  shows "dynamic_points i m d n = m"
proof -
  have "round_half_even (fl64 (of_int i - quotient i m d n)) \<le> m"
    using quotient_large[OF assms] assms by (intro value_le[OF assms(1)]) (auto simp: scoring_ok_def)
  moreover have "0 < n" using assms by (simp add: scoring_ok_def)
  ultimately show ?thesis using assms(1) by (simp add: dynamic_points_alt)
qed

text \<open>The score after \<open>solve_count\<close> solves is between one and the initial points.\<close>

lemma challenge_points_range:
  assumes "scoring_ok (c_initial_points c) (c_minimum_points c) (c_decay c)"
  shows "0 < challenge_points c n \<and> challenge_points c n \<le> c_initial_points c"
  using dynamic_points_ge[OF assms, of n] dynamic_points_le[OF assms, of n] assms
  by (simp add: challenge_points_def scoring_ok_def)

text \<open>
  The dynamic score of a challenge stays between its minimum and its initial points;
  it is the initial points before the first solve and the minimum from \<open>decay\<close> solves
  on. The double rounding of the intermediate values never breaks these bounds.
\<close>

theorem dynamic_points_bounds:
  assumes "scoring_ok i m d"
  shows "m \<le> dynamic_points i m d n \<and> dynamic_points i m d n \<le> i
    \<and> (n \<le> 0 \<longrightarrow> dynamic_points i m d n = i) \<and> (d \<le> n \<longrightarrow> dynamic_points i m d n = m)"
  using dynamic_points_ge[OF assms] dynamic_points_le[OF assms] dynamic_points_floor[OF assms]
  by (simp add: dynamic_points_def)

text \<open>
  A further solve never raises the score of a challenge: the dynamic score is
  antitone in the number of solves.
\<close>

theorem dynamic_points_antitone:
  assumes "scoring_ok i m d" and "n \<le> k"
  shows "dynamic_points i m d k \<le> dynamic_points i m d n"
proof (cases "0 < n")
  case True
  then have "quotient i m d n \<le> quotient i m d k"
    using assms by (intro quotient_mono) auto
  then have "round_half_even (fl64 (of_int i - quotient i m d k))
      \<le> round_half_even (fl64 (of_int i - quotient i m d n))"
    by (intro round_half_even_mono fl64.fl_mono) simp
  then show ?thesis
    using True assms by (auto simp: dynamic_points_alt)
next
  case False
  then have "dynamic_points i m d n = i" by (simp add: dynamic_points_def)
  then show ?thesis using dynamic_points_le[OF assms(1)] by simp
qed

lemma sql_quotient_eq:
  assumes "scoring_ok i m d" and "0 < n" and "(i - m) * n ^ 2 \<le> 2 ^ 53" and "n \<le> 2 ^ 53"
  shows "fl64 (fl64 (fl64 (fl64 (of_int (i - m)) * fl64 (of_int n)) * fl64 (of_int n))
           / fl64 (fl64 (of_int d) * fl64 (of_int d))) = quotient i m d n"
proof -
  have b: "0 \<le> i - m" "i - m \<le> 2 ^ 53" "0 < d" "d * d \<le> 2 ^ 53" "d \<le> 2 ^ 53"
    using assms(1) mult_mono[of d 1000000 d 1000000] by (auto simp: scoring_ok_def)
  have "(i - m) * n \<le> (i - m) * n ^ 2"
    using assms(2) b(1) by (intro mult_left_mono) (simp_all add: power2_eq_square)
  then have p: "\<bar>(i - m) * n\<bar> \<le> 2 ^ 53" "\<bar>(i - m) * n * n\<bar> \<le> 2 ^ 53"
    using assms b(1) by (simp_all add: power2_eq_square mult.assoc)
  have "fl64 (of_int (i - m)) = of_int (i - m)"
    by (rule fl64.fl_int) (use b in simp)
  moreover have "fl64 (of_int n) = of_int n"
    by (rule fl64.fl_int) (use assms in simp)
  moreover have "fl64 (of_int d) = of_int d"
    by (rule fl64.fl_int) (use b in simp)
  moreover have "fl64 (of_int (i - m) * of_int n) = of_int ((i - m) * n)"
    by (rule fl64.mult[OF p(1)])
  moreover have "fl64 (of_int ((i - m) * n) * of_int n) = of_int ((i - m) * n * n)"
    by (rule fl64.mult[OF p(2)])
  moreover have "fl64 (of_int d * of_int d) = of_int (d * d)"
    by (rule fl64.mult) (use b in simp)
  ultimately show ?thesis
    by (simp only: quotient_def power2_eq_square mult.assoc)
qed

lemma sql_points_eq:
  assumes "scoring_ok (c_initial_points c) (c_minimum_points c) (c_decay c)"
    and "0 < n" and "n \<le> 2 ^ 53"
    and "(c_initial_points c - c_minimum_points c) * n ^ 2 \<le> 2 ^ 53"
  shows "sql_solve_points round_half_even c n = challenge_points c n"
proof -
  have i: "fl64 (of_int (c_initial_points c)) = of_int (c_initial_points c)"
    by (rule fl64.fl_int) (use assms(1) in \<open>simp add: scoring_ok_def\<close>)
  have "sql_raw_points (c_initial_points c) (c_minimum_points c) (c_decay c) n
      = fl64 (of_int (c_initial_points c)
          - quotient (c_initial_points c) (c_minimum_points c) (c_decay c) n)"
    unfolding sql_raw_points_def Let_def i sql_quotient_eq[OF assms(1,2,4,3)] ..
  then show ?thesis
    using assms(1,2) by (simp add: sql_solve_points_def challenge_points_def dynamic_points_alt Let_def)
qed

text \<open>
  The two implementations agree. When the database rounds ties to even (PostgreSQL)
  the SQL expression of the scoreboard gives the points that \<open>challenge_points\<close> awards,
  as long as the integer products stay exact in a double: \<open>(i - m) * n\<^sup>2 \<le> 2\<^sup>5\<^sup>3\<close>, which
  holds for up to 94906 solves with the largest configurable scores.
\<close>

theorem sql_points_agree:
  assumes "scoring_ok (c_initial_points c) (c_minimum_points c) (c_decay c)"
    and "0 < n" and "n \<le> 2 ^ 53"
    and "(c_initial_points c - c_minimum_points c) * n ^ 2 \<le> 2 ^ 53"
  shows "sql_solve_points round_half_even c n = challenge_points c n"
  by (rule sql_points_eq[OF assms])

definition tie_challenge :: challenge where
  "tie_challenge = \<lparr>c_id = 1, c_event_id = 1, c_slug = ''tie'', c_title = ''Tie'', c_category = ''Misc'',
     c_description_md = ''d'', c_connection_info = None, c_scoring_type = DynamicScoring,
     c_initial_points = 3, c_minimum_points = 1, c_decay = 2, c_visible = True, c_visible_at = None,
     c_max_attempts = 0, c_flag_type = ExactFlag, c_flag_hash = None, c_flag_regex = None,
     c_created_at = 0, c_updated_at = 0\<rparr>"

text \<open>
  On a database that rounds ties away from zero (SQLite, the development default)
  they do not agree: a challenge with 3 initial points, a minimum of 1 and a decay of 2
  is worth 2 points on the challenge page and 3 on the scoreboard after one solve.
\<close>

theorem sql_points_differ_on_ties:
  "scoring_ok (c_initial_points tie_challenge) (c_minimum_points tie_challenge) (c_decay tie_challenge)
   \<and> challenge_points tie_challenge 1 = 2 \<and> sql_solve_points round_half_away tie_challenge 1 = 3"
  by code_simp

lemma dynamic_points_bounds_witness:
  "scoring_ok 500 100 20 \<and> dynamic_points 500 100 20 25 = 100 \<and> dynamic_points 500 100 20 0 = 500"
proof -
  have s: "scoring_ok 500 100 20" by (simp add: scoring_ok_def)
  show ?thesis using dynamic_points_bounds[OF s, of 25] dynamic_points_bounds[OF s, of 0] s by simp
qed

lemma dynamic_points_antitone_witness:
  "dynamic_points 500 100 20 7 \<le> dynamic_points 500 100 20 3 \<and> dynamic_points 500 100 20 3 = 491"
proof -
  have s: "scoring_ok 500 100 20" by (simp add: scoring_ok_def)
  have "dynamic_points 500 100 20 3 = 491" by code_simp
  then show ?thesis using dynamic_points_antitone[OF s, of 3 7] by simp
qed

lemma sql_points_agree_witness:
  "sql_solve_points round_half_even tie_challenge 1 = challenge_points tie_challenge 1
   \<and> challenge_points tie_challenge 1 = 2"
proof -
  have s: "scoring_ok (c_initial_points tie_challenge) (c_minimum_points tie_challenge) (c_decay tie_challenge)"
    by (simp add: scoring_ok_def tie_challenge_def)
  have "challenge_points tie_challenge 1 = 2" by code_simp
  then show ?thesis
    using sql_points_agree[OF s, of 1] by (simp add: tie_challenge_def)
qed

end
