(* ===== verification/Prerequisites.thy ===== *)
theory Prerequisites
  imports Services
begin

text \<open>
  \<open>load_prerequisites\<close> of services.py: the checks on a list of prerequisite ids and the
  depth first search for a cycle. The graph is the association table
  \<open>challenge_prerequisites\<close>; \<open>reaches_any\<close> is
  \<open>any(reaches_target(item, seen) for item in nodes)\<close> with the shared mutable set
  \<open>seen\<close> threaded through, so \<open>reaches_target node seen\<close> is \<open>reaches_any [node] seen\<close>.
  Python's recursion limit is not modelled.
\<close>

type_synonym graph = "(uuid \<times> uuid) list"

definition prerequisites_of :: "graph \<Rightarrow> uuid \<Rightarrow> uuid list" where
  "prerequisites_of g c = map snd (filter (\<lambda>e. fst e = c) g)"

definition nodes_of :: "graph \<Rightarrow> uuid set" where
  "nodes_of g = fst ` set g"

lemma finite_nodes [simp]: "finite (nodes_of g - s)"
  by (simp add: nodes_of_def)

lemma no_prerequisites: "c \<notin> nodes_of g \<Longrightarrow> prerequisites_of g c = []"
  by (auto simp: prerequisites_of_def nodes_of_def filter_empty_conv)

lemma set_prerequisites_of: "set (prerequisites_of g c) = {p. (c, p) \<in> set g}"
  by (auto simp: prerequisites_of_def) force

function reaches_any :: "graph \<Rightarrow> uuid \<Rightarrow> uuid list \<Rightarrow> uuid set \<Rightarrow> bool \<times> uuid set" where
  "reaches_any g target [] seen = (False, seen)"
| "reaches_any g target (node # nodes) seen =
     (if node = target then (True, seen)
      else if node \<in> seen then reaches_any g target nodes seen
      else case reaches_any g target (prerequisites_of g node) (insert node seen) of
             (True, seen') \<Rightarrow> (True, seen')
           | (False, seen') \<Rightarrow> reaches_any g target nodes seen')"
  by pat_completeness auto

lemma reaches_any_seen:
  "reaches_any_dom (g, target, ns, seen) \<Longrightarrow> seen \<subseteq> snd (reaches_any g target ns seen)"
proof (induction g target ns seen rule: reaches_any.pinduct)
  case (1 g target seen)
  then show ?case by (simp add: reaches_any.psimps)
next
  case (2 g target node nodes seen)
  show ?case
  proof (cases "node = target \<or> node \<in> seen")
    case True
    then show ?thesis using 2 by (auto simp: reaches_any.psimps)
  next
    case False
    obtain b s where r: "reaches_any g target (prerequisites_of g node) (insert node seen) = (b, s)"
      by fastforce
    have "insert node seen \<subseteq> s" using 2(3) False r by simp
    moreover have "\<not> b \<Longrightarrow> s \<subseteq> snd (reaches_any g target nodes s)"
      using 2(4) False r by auto
    ultimately show ?thesis
      using 2(1) False r by (cases b) (auto simp: reaches_any.psimps)
  qed
qed

termination reaches_any
proof (relation "inv_image (finite_psubset <*lex*> less_than)
    (\<lambda>(g, target, ns, seen). (nodes_of g - seen, length ns))", goal_cases)
  case 1
  then show ?case by auto
next
  case (2 g target node nodes seen)
  then show ?case by simp
next
  case (3 g target node nodes seen)
  show ?case
  proof (cases "node \<in> nodes_of g")
    case True
    then have "nodes_of g - insert node seen \<subset> nodes_of g - seen" using 3 by blast
    then show ?thesis by (simp add: finite_psubset_def)
  next
    case False
    then have "nodes_of g - insert node seen = nodes_of g - seen" by blast
    then show ?thesis using False by (simp add: no_prerequisites)
  qed
next
  case (4 g target node nodes seen r seen')
  then have "insert node seen \<subseteq> seen'"
    using reaches_any_seen[of g target "prerequisites_of g node" "insert node seen"]
    by (metis snd_conv)
  then have "nodes_of g - seen' \<subseteq> nodes_of g - seen" by blast
  then show ?case by (auto simp: finite_psubset_def)
qed

definition reaches_target :: "graph \<Rightarrow> uuid \<Rightarrow> uuid \<Rightarrow> bool" where
  "reaches_target g target node = fst (reaches_any g target [node] {})"

section \<open>The search is reachability\<close>

lemma reaches_any_sound:
  "fst (reaches_any g target ns seen) \<Longrightarrow> \<exists>n \<in> set ns. (n, target) \<in> (set g)\<^sup>*"
proof (induction g target ns seen rule: reaches_any.induct)
  case (1 g target seen)
  then show ?case by simp
next
  case (2 g target node nodes seen)
  show ?case
  proof (cases "node = target \<or> node \<in> seen")
    case True
    then show ?thesis using 2 by (auto split: if_splits)
  next
    case False
    obtain b s where r: "reaches_any g target (prerequisites_of g node) (insert node seen) = (b, s)"
      by fastforce
    show ?thesis
    proof (cases b)
      case True
      then obtain p where "p \<in> set (prerequisites_of g node)" "(p, target) \<in> (set g)\<^sup>*"
        using 2(2) False r by auto
      then have "(node, target) \<in> (set g)\<^sup>*"
        by (auto simp: set_prerequisites_of intro: converse_rtrancl_into_rtrancl)
      then show ?thesis by simp
    next
      case no: False
      then have "fst (reaches_any g target nodes s)" using 2(4) False r by simp
      then show ?thesis using 2(3)[OF _ _ r[symmetric]] False no by auto
    qed
  qed
qed

text \<open>
  When the search fails, the visited set contains the start nodes, not the target, and
  every node visited on the way has its prerequisites visited as well.
\<close>

lemma reaches_any_closed:
  assumes "reaches_any g target ns seen = (False, s)" and "target \<notin> seen"
  shows "set ns \<subseteq> s \<and> seen \<subseteq> s \<and> target \<notin> s
    \<and> (\<forall>x \<in> s - seen. set (prerequisites_of g x) \<subseteq> s)"
  using assms
proof (induction g target ns seen arbitrary: s rule: reaches_any.induct)
  case (1 g target seen)
  then show ?case by simp
next
  case (2 g target node nodes seen)
  have nt: "node \<noteq> target" using 2(4) by auto
  show ?case
  proof (cases "node \<in> seen")
    case True
    then show ?thesis using 2(1)[of s] 2(4,5) nt by auto
  next
    case False
    obtain b s1 where r: "reaches_any g target (prerequisites_of g node) (insert node seen) = (b, s1)"
      by fastforce
    have b: "\<not> b" and rest: "reaches_any g target nodes s1 = (False, s)"
      using 2(4) False nt r by (auto split: bool.splits)
    have one: "set (prerequisites_of g node) \<subseteq> s1 \<and> insert node seen \<subseteq> s1 \<and> target \<notin> s1
        \<and> (\<forall>x \<in> s1 - insert node seen. set (prerequisites_of g x) \<subseteq> s1)"
      using 2(2)[OF nt False, of s1] r b 2(5) nt by auto
    have two: "set nodes \<subseteq> s \<and> s1 \<subseteq> s \<and> target \<notin> s
        \<and> (\<forall>x \<in> s - s1. set (prerequisites_of g x) \<subseteq> s)"
      using 2(3)[OF nt False r[symmetric], of s] b rest one by auto
    show ?thesis using one two by auto blast
  qed
qed

lemma closed_reach:
  assumes "\<forall>x \<in> s. set (prerequisites_of g x) \<subseteq> s" and "(n, m) \<in> (set g)\<^sup>*" and "n \<in> s"
  shows "m \<in> s"
  using assms(2,3,1) by (induction rule: rtrancl_induct) (auto simp: set_prerequisites_of)

lemma reaches_target_reachable: "reaches_target g target node \<longleftrightarrow> (node, target) \<in> (set g)\<^sup>*"
proof
  assume "reaches_target g target node"
  then show "(node, target) \<in> (set g)\<^sup>*"
    using reaches_any_sound[of g target "[node]" "{}"] by (simp add: reaches_target_def)
next
  assume path: "(node, target) \<in> (set g)\<^sup>*"
  show "reaches_target g target node"
  proof (rule ccontr)
    assume "\<not> reaches_target g target node"
    then obtain s where "reaches_any g target [node] {} = (False, s)"
      by (cases "reaches_any g target [node] {}") (simp add: reaches_target_def)
    from reaches_any_closed[OF this] have "node \<in> s" "target \<notin> s"
      "\<forall>x \<in> s. set (prerequisites_of g x) \<subseteq> s"
      by auto
    with closed_reach[OF _ path] show False by blast
  qed
qed

section \<open>load_prerequisites\<close>

definition position_in :: "uuid list \<Rightarrow> uuid \<Rightarrow> nat" where
  "position_in ids x = (case index_of x ids of None \<Rightarrow> length ids | Some n \<Rightarrow> n)"

text \<open>The result is the list of the rows' ids, in the order of the request.\<close>

definition load_prerequisites ::
  "database \<Rightarrow> uuid \<Rightarrow> uuid list \<Rightarrow> uuid option \<Rightarrow> uuid list result" where
  "load_prerequisites db event_id ids challenge_id =
     (if \<not> distinct ids then err 422 ''duplicate_prerequisite''
      else if (case challenge_id of None \<Rightarrow> False | Some c \<Rightarrow> c \<in> set ids) then err 422 ''self_prerequisite''
      else if ids = [] then Inr []
      else
        let rows = filter (\<lambda>c. c_event_id c = event_id \<and> c_id c \<in> set ids) (challenges db)
        in if length rows \<noteq> length ids then err 422 ''invalid_prerequisite''
           else if (case challenge_id of None \<Rightarrow> False
                    | Some c \<Rightarrow> \<exists>row \<in> set rows. reaches_target (prereqs db) c (c_id row))
           then err 422 ''prerequisite_cycle''
           else Inr (sort_key (position_in ids) (map c_id rows)))"

text \<open>Assigning \<open>challenge.prerequisites\<close> replaces the rows of that challenge.\<close>

definition set_prerequisites :: "uuid \<Rightarrow> uuid list \<Rightarrow> graph \<Rightarrow> graph" where
  "set_prerequisites c ps g = filter (\<lambda>e. fst e \<noteq> c) g @ map (Pair c) ps"

lemma load_prerequisites_ids:
  assumes "load_prerequisites db ev ids ch = Inr ps" and "conflict_free challenge_clash (challenges db)"
  shows "set ps = set ids \<and> (\<forall>p \<in> set ids. \<exists>c \<in> set (challenges db). c_id c = p \<and> c_event_id c = ev)"
proof (cases "ids = []")
  case True
  then show ?thesis using assms by (auto simp: load_prerequisites_def split: option.splits if_splits)
next
  case False
  define rows where "rows = filter (\<lambda>c. c_event_id c = ev \<and> c_id c \<in> set ids) (challenges db)"
  have d: "distinct ids" and l: "length rows = length ids" and ps: "set ps = c_id ` set rows"
    using assms(1) False
    by (auto simp: load_prerequisites_def rows_def Let_def split: option.splits if_splits)
  have "distinct (map c_id rows)"
    unfolding rows_def
    by (rule distinct_map_filter, rule challenge_table.distinct_key[OF assms(2)]) (simp add: challenge_clash_def)
  then have "card (c_id ` set rows) = length ids"
    using l by (metis distinct_card length_map set_map)
  moreover have "c_id ` set rows \<subseteq> set ids" by (auto simp: rows_def)
  ultimately have "c_id ` set rows = set ids"
    using d by (metis card_subset_eq distinct_card finite_set)
  moreover have "\<forall>p \<in> c_id ` set rows. \<exists>c \<in> set (challenges db). c_id c = p \<and> c_event_id c = ev"
    by (auto simp: rows_def)
  ultimately show ?thesis using ps by simp
qed

text \<open>Paths to \<open>c\<close> do not use the edges that leave \<open>c\<close>.\<close>

lemma reach_without_out_edges:
  assumes "(x, c) \<in> (E \<union> {c} \<times> P)\<^sup>*"
  shows "(x, c) \<in> E\<^sup>*"
  using assms by (induction rule: converse_rtrancl_induct) (auto intro: converse_rtrancl_into_rtrancl)

lemma acyclic_add_edges:
  assumes "finite P" and "acyclic E" and "\<forall>p \<in> P. (p, c) \<notin> E\<^sup>*"
  shows "acyclic (E \<union> {c} \<times> P)"
  using assms
proof (induction P)
  case empty
  then show ?case by simp
next
  case (insert p P)
  then have "acyclic (E \<union> {c} \<times> P)" by simp
  moreover have "(p, c) \<notin> (E \<union> {c} \<times> P)\<^sup>*"
    using reach_without_out_edges[of p c E P] insert by blast
  moreover have "E \<union> {c} \<times> insert p P = insert (c, p) (E \<union> {c} \<times> P)" by blast
  ultimately show ?case by (simp add: acyclic_insert)
qed

lemma load_prerequisites_unreachable:
  assumes "load_prerequisites db ev ids (Some c) = Inr ps"
  shows "\<forall>p \<in> set ps. (p, c) \<notin> (set (prereqs db))\<^sup>*"
  using assms
  by (auto simp: load_prerequisites_def Let_def reaches_target_reachable split: if_splits)

lemma set_prerequisites_acyclic:
  assumes "acyclic (set g)" and "\<forall>p \<in> set ps. (p, c) \<notin> (set g)\<^sup>*"
  shows "acyclic (set (set_prerequisites c ps g))"
proof -
  have "acyclic (set g \<union> {c} \<times> set ps)"
    by (rule acyclic_add_edges) (use assms in auto)
  moreover have "set (set_prerequisites c ps g) \<subseteq> set g \<union> {c} \<times> set ps"
    by (auto simp: set_prerequisites_def)
  ultimately show ?thesis by (rule acyclic_subset)
qed

text \<open>A challenge that is not yet in the graph cannot be on a cycle.\<close>

lemma new_challenge_acyclic:
  assumes "acyclic (set g)" and "c \<notin> snd ` set g" and "c \<notin> set ps"
  shows "acyclic (set (g @ map (Pair c) ps))"
proof -
  have "(p, c) \<notin> (set g)\<^sup>*" if "p \<in> set ps" for p
  proof
    assume "(p, c) \<in> (set g)\<^sup>*"
    then show False using that assms(2,3) by (cases rule: rtranclE) force+
  qed
  then have "acyclic (set g \<union> {c} \<times> set ps)"
    by (intro acyclic_add_edges) (use assms(1) in auto)
  moreover have "set (g @ map (Pair c) ps) = set g \<union> {c} \<times> set ps" by auto
  ultimately show ?thesis by simp
qed

text \<open>
  C16: the depth first search with its shared \<open>seen\<close> set terminates and decides
  reachability: \<open>reaches_target\<close> is true exactly when the challenge under update can be
  reached from the node along stored prerequisites.
\<close>

theorem reaches_target_iff:
  "reaches_target (prereqs db) challenge_id node \<longleftrightarrow> (node, challenge_id) \<in> (set (prereqs db))\<^sup>*"
  by (rule reaches_target_reachable)

text \<open>
  The prerequisite graph stays acyclic. Whatever list of ids a request carries, when
  \<open>load_prerequisites\<close> accepts it for an existing challenge, storing it as that
  challenge's prerequisites creates no cycle.
\<close>

theorem load_prerequisites_keeps_acyclic:
  assumes "acyclic (set (prereqs db))" and "load_prerequisites db ev ids (Some c) = Inr ps"
  shows "acyclic (set (set_prerequisites c ps (prereqs db)))"
  by (rule set_prerequisites_acyclic[OF assms(1) load_prerequisites_unreachable[OF assms(2)]])

lemma position_in_nth: "distinct ids \<Longrightarrow> i < length ids \<Longrightarrow> position_in ids (ids ! i) = i"
proof -
  have "distinct xs \<Longrightarrow> j < length xs \<Longrightarrow> index_of (xs ! j) xs = Some j" for j and xs :: "uuid list"
  proof (induction xs arbitrary: j)
    case Nil
    then show ?case by simp
  next
    case (Cons x xs)
    then show ?case by (cases j) auto
  qed
  then show "distinct ids \<Longrightarrow> i < length ids \<Longrightarrow> position_in ids (ids ! i) = i"
    by (simp add: position_in_def)
qed

lemma sort_position_in:
  assumes "distinct ids" and "distinct xs" and "set xs = set ids"
  shows "sort_key (position_in ids) xs = ids"
proof -
  let ?f = "position_in ids"
  have inj: "inj_on ?f (set ids)"
    using assms(1) by (auto simp: inj_on_def in_set_conv_nth position_in_nth)
  have "map ?f (sort_key ?f xs) = map ?f ids"
  proof (rule sorted_distinct_set_unique)
    show "sorted (map ?f (sort_key ?f xs))" by simp
    show "sorted (map ?f ids)"
      using assms(1) by (simp add: sorted_iff_nth_mono position_in_nth)
    show "distinct (map ?f (sort_key ?f xs))" and "distinct (map ?f ids)"
      using assms inj by (simp_all add: distinct_map)
    show "set (map ?f (sort_key ?f xs)) = set (map ?f ids)"
      using assms(3) by simp
  qed
  then show ?thesis
    by (rule map_inj_on) (use assms(3) inj in simp)
qed

lemma load_prerequisites_complete:
  assumes cf: "conflict_free challenge_clash (challenges db)" and d: "distinct ids"
    and known: "\<forall>p \<in> set ids. \<exists>c \<in> set (challenges db). c_id c = p \<and> c_event_id c = ev"
    and c: "\<And>c. ch = Some c \<Longrightarrow> c \<notin> set ids \<and> (\<forall>p \<in> set ids. (p, c) \<notin> (set (prereqs db))\<^sup>*)"
  shows "load_prerequisites db ev ids ch = Inr ids"
proof (cases "ids = []")
  case True
  then show ?thesis by (simp add: load_prerequisites_def split: option.splits)
next
  case False
  define rows where "rows = filter (\<lambda>c. c_event_id c = ev \<and> c_id c \<in> set ids) (challenges db)"
  have dr: "distinct (map c_id rows)"
    unfolding rows_def
    by (rule distinct_map_filter, rule challenge_table.distinct_key[OF cf]) (simp add: challenge_clash_def)
  have sr: "c_id ` set rows = set ids"
    using known by (auto simp: rows_def)
  then have l: "length rows = length ids"
    by (metis d distinct_card dr length_map set_map)
  have nc: "\<not> (case ch of None \<Rightarrow> False | Some c \<Rightarrow> \<exists>row \<in> set rows. reaches_target (prereqs db) c (c_id row))"
    using c sr by (auto simp: reaches_target_reachable split: option.splits)
  have "sort_key (position_in ids) (map c_id rows) = ids"
    by (rule sort_position_in[OF d dr]) (simp add: sr)
  then show ?thesis
    using False d c l nc
    by (auto simp: load_prerequisites_def Let_def rows_def[symmetric] split: option.splits)
qed

text \<open>
  The check is exact. A list of prerequisites for a challenge of the event is
  accepted, unchanged and in its order, exactly when it has no duplicate, does not name
  the challenge itself, names challenges of the same event only, and closes no cycle.
\<close>

theorem load_prerequisites_exact:
  assumes "conflict_free challenge_clash (challenges db)"
  shows "load_prerequisites db ev ids (Some c) = Inr ids \<longleftrightarrow>
     distinct ids \<and> c \<notin> set ids
     \<and> (\<forall>p \<in> set ids. \<exists>ch \<in> set (challenges db). c_id ch = p \<and> c_event_id ch = ev)
     \<and> (\<forall>p \<in> set ids. (p, c) \<notin> (set (prereqs db))\<^sup>*)"
proof
  assume l: "load_prerequisites db ev ids (Some c) = Inr ids"
  then have "distinct ids \<and> c \<notin> set ids"
    by (auto simp: load_prerequisites_def split: if_splits)
  then show "distinct ids \<and> c \<notin> set ids
     \<and> (\<forall>p \<in> set ids. \<exists>ch \<in> set (challenges db). c_id ch = p \<and> c_event_id ch = ev)
     \<and> (\<forall>p \<in> set ids. (p, c) \<notin> (set (prereqs db))\<^sup>*)"
    using load_prerequisites_ids[OF l assms] load_prerequisites_unreachable[OF l] by blast
next
  assume "distinct ids \<and> c \<notin> set ids
     \<and> (\<forall>p \<in> set ids. \<exists>ch \<in> set (challenges db). c_id ch = p \<and> c_event_id ch = ev)
     \<and> (\<forall>p \<in> set ids. (p, c) \<notin> (set (prereqs db))\<^sup>*)"
  then show "load_prerequisites db ev ids (Some c) = Inr ids"
    by (intro load_prerequisites_complete[OF assms]) auto
qed

section \<open>Examples\<close>

definition sample_challenge :: "uuid \<Rightarrow> string \<Rightarrow> challenge" where
  "sample_challenge i slug = \<lparr>c_id = i, c_event_id = 1, c_slug = slug, c_title = ''T'', c_category = ''Misc'',
     c_description_md = ''d'', c_connection_info = None, c_scoring_type = FixedScoring,
     c_initial_points = 100, c_minimum_points = 100, c_decay = 20, c_visible = True, c_visible_at = None,
     c_max_attempts = 0, c_flag_type = ExactFlag, c_flag_hash = None, c_flag_regex = None,
     c_created_at = 0, c_updated_at = 0\<rparr>"

text \<open>Three challenges, the second with the first as its prerequisite.\<close>

definition chain_db :: database where
  "chain_db = empty_db\<lparr>challenges := [sample_challenge 1 ''a'', sample_challenge 2 ''b'', sample_challenge 3 ''c''],
     prereqs := [(2, 1)]\<rparr>"

lemma chain_db_acyclic: "acyclic (set (prereqs chain_db))"
  by (simp add: chain_db_def acyclic_insert) (simp add: acyclic_def)

lemma load_prerequisites_keeps_acyclic_witness:
  "acyclic (set (set_prerequisites 3 [2, 1] (prereqs chain_db)))
   \<and> load_prerequisites chain_db 1 [2] (Some 1) = err 422 ''prerequisite_cycle''"
proof -
  have l: "load_prerequisites chain_db 1 [2, 1] (Some 3) = Inr [2, 1]"
    and e: "load_prerequisites chain_db 1 [2] (Some 1) = err 422 ''prerequisite_cycle''"
    by code_simp+
  show ?thesis using load_prerequisites_keeps_acyclic[OF chain_db_acyclic l] e by simp
qed

lemma load_prerequisites_exact_witness:
  "load_prerequisites chain_db 1 [2, 1] (Some 3) = Inr [2, 1]"
proof -
  have cf: "conflict_free challenge_clash (challenges chain_db)"
    by (simp add: chain_db_def sample_challenge_def conflict_free_def challenge_clash_def)
  have n: "(p, 3) \<notin> (set (prereqs chain_db))\<^sup>*" if "p \<in> {1, 2}" for p
  proof
    assume "(p, 3) \<in> (set (prereqs chain_db))\<^sup>*"
    then show False using that by (cases rule: rtranclE) (auto simp: chain_db_def)
  qed
  show ?thesis
    by (subst load_prerequisites_exact[OF cf])
      (use n in \<open>simp add: chain_db_def sample_challenge_def\<close>)
qed

end
