(* ===== verification/Store.thy ===== *)
theory Store
  imports Services
begin

text \<open>
  The ephemeral store of backend/src/alpha/store.py. \<open>store_ops\<close> is the protocol
  \<open>EphemeralStore\<close>: every operation takes the store and returns its result with the new
  store, or \<open>None\<close> when it raises. \<open>memory_store\<close> and the \<open>ms_\<close> functions are
  \<open>MemoryStore\<close>. The readings of \<open>time.monotonic\<close> and the random lease token are
  arguments; monotonic time is counted in microseconds.

  A key of the store is one of the formatted strings of the code; the datatype
  \<open>store_key\<close> has one constructor per format.
\<close>

datatype store_key =
    SubmitTeam uuid uuid | SubmitIp uuid string | SubmitChallenge uuid uuid
  | TeamMutationSession string | TeamMutationIp string
  | AuthIdentity string string | AuthIp string string | AuthRegisterGlobal
  | ScoreboardPublic uuid cache_phase | ScoreboardGeneration uuid | ScoreboardBuild uuid cache_phase

text \<open>Every format is used with one kind of operation only.\<close>

datatype key_use = RateKey | JsonKey | CounterKey | LeaseKey

fun key_kind :: "store_key \<Rightarrow> key_use" where
  "key_kind (ScoreboardPublic _ _) = JsonKey"
| "key_kind (ScoreboardGeneration _) = CounterKey"
| "key_kind (ScoreboardBuild _ _) = LeaseKey"
| "key_kind _ = RateKey"

record rate_limit_result =
  allowed :: bool
  retry_after :: int

record ('j, 's) store_ops =
  op_check_rate :: "instant \<Rightarrow> store_key \<Rightarrow> int \<Rightarrow> int \<Rightarrow> 's \<Rightarrow> (rate_limit_result \<times> 's) option"
  op_get_json :: "instant \<Rightarrow> store_key \<Rightarrow> 's \<Rightarrow> ('j option \<times> 's) option"
  op_set_json :: "instant \<Rightarrow> store_key \<Rightarrow> 'j \<Rightarrow> int \<Rightarrow> 's \<Rightarrow> 's option"
  op_delete :: "store_key \<Rightarrow> 's \<Rightarrow> 's option"
  op_get_counter :: "store_key \<Rightarrow> 's \<Rightarrow> (int \<times> 's) option"
  op_increment :: "store_key \<Rightarrow> 's \<Rightarrow> (int \<times> 's) option"
  op_acquire_lease :: "instant \<Rightarrow> string \<Rightarrow> store_key \<Rightarrow> int \<Rightarrow> 's \<Rightarrow> (string option \<times> 's) option"
  op_release_lease :: "store_key \<Rightarrow> string \<Rightarrow> 's \<Rightarrow> (bool \<times> 's) option"

section \<open>MemoryStore\<close>

text \<open>A value of \<open>_values\<close> is a request count or a JSON object.\<close>

datatype 'j stored = Counted int | Cached 'j

record 'j memory_store =
  ms_values :: "store_key \<Rightarrow> (instant \<times> 'j stored) option"
  ms_counters :: "store_key \<Rightarrow> int option"
  ms_leases :: "store_key \<Rightarrow> (instant \<times> string) option"

definition memory_store_init :: "'j memory_store" where
  "memory_store_init = \<lparr>ms_values = (\<lambda>_. None), ms_counters = (\<lambda>_. None), ms_leases = (\<lambda>_. None)\<rparr>"

text \<open>
  Counting on a live JSON object is the \<open>TypeError\<close> of \<open>count += 1\<close>; an expired entry is
  replaced first.
\<close>

definition ms_check_rate ::
  "instant \<Rightarrow> store_key \<Rightarrow> int \<Rightarrow> int \<Rightarrow> 'j memory_store \<Rightarrow>
   (rate_limit_result \<times> 'j memory_store) option" where
  "ms_check_rate now key limit window_seconds s =
     (let fresh = now + window_seconds * second;
          (expires, count) = (case ms_values s key of None \<Rightarrow> (fresh, Counted 0) | Some e \<Rightarrow> e);
          (expires, count) = (if expires \<le> now then (fresh, Counted 0) else (expires, count))
      in case count of
           Cached _ \<Rightarrow> None
         | Counted n \<Rightarrow>
             let n = n + 1;
                 s' = s\<lparr>ms_values := (ms_values s)(key \<mapsto> (expires, Counted n))\<rparr>
             in if n > limit
                then Some (\<lparr>allowed = False, retry_after = max 1 ((expires - now) div second + 1)\<rparr>, s')
                else Some (\<lparr>allowed = True, retry_after = 0\<rparr>, s'))"

definition ms_get_json ::
  "instant \<Rightarrow> store_key \<Rightarrow> 'j memory_store \<Rightarrow> ('j option \<times> 'j memory_store) option" where
  "ms_get_json now key s =
     (case ms_values s key of
        None \<Rightarrow> Some (None, s)
      | Some (expires, value) \<Rightarrow>
          if expires \<le> now then Some (None, s\<lparr>ms_values := (ms_values s)(key := None)\<rparr>)
          else Some (case value of Cached j \<Rightarrow> Some j | Counted _ \<Rightarrow> None, s))"

definition ms_set_json ::
  "instant \<Rightarrow> store_key \<Rightarrow> 'j \<Rightarrow> int \<Rightarrow> 'j memory_store \<Rightarrow> 'j memory_store option" where
  "ms_set_json now key value ttl_seconds s =
     (if ttl_seconds \<le> 0 then Some s
      else Some (s\<lparr>ms_values := (ms_values s)(key \<mapsto> (now + ttl_seconds * second, Cached value))\<rparr>))"

definition ms_delete :: "store_key \<Rightarrow> 'j memory_store \<Rightarrow> 'j memory_store option" where
  "ms_delete key s = Some (s\<lparr>ms_values := (ms_values s)(key := None)\<rparr>)"

definition ms_get_counter :: "store_key \<Rightarrow> 'j memory_store \<Rightarrow> (int \<times> 'j memory_store) option" where
  "ms_get_counter key s = Some (case ms_counters s key of None \<Rightarrow> 0 | Some n \<Rightarrow> n, s)"

definition ms_increment :: "store_key \<Rightarrow> 'j memory_store \<Rightarrow> (int \<times> 'j memory_store) option" where
  "ms_increment key s =
     (let n = (case ms_counters s key of None \<Rightarrow> 0 | Some n \<Rightarrow> n) + 1
      in Some (n, s\<lparr>ms_counters := (ms_counters s)(key \<mapsto> n)\<rparr>))"

definition ms_acquire_lease ::
  "instant \<Rightarrow> string \<Rightarrow> store_key \<Rightarrow> int \<Rightarrow> 'j memory_store \<Rightarrow>
   (string option \<times> 'j memory_store) option" where
  "ms_acquire_lease now token key ttl_seconds s =
     (if ttl_seconds \<le> 0 then None
      else case ms_leases s key of
             Some (expires, owner) \<Rightarrow>
               if expires > now then Some (None, s)
               else Some (Some token, s\<lparr>ms_leases := (ms_leases s)(key \<mapsto> (now + ttl_seconds * second, token))\<rparr>)
           | None \<Rightarrow>
               Some (Some token, s\<lparr>ms_leases := (ms_leases s)(key \<mapsto> (now + ttl_seconds * second, token))\<rparr>))"

definition ms_release_lease ::
  "store_key \<Rightarrow> string \<Rightarrow> 'j memory_store \<Rightarrow> (bool \<times> 'j memory_store) option" where
  "ms_release_lease key token s =
     (case ms_leases s key of
        None \<Rightarrow> Some (False, s)
      | Some (expires, owner) \<Rightarrow>
          if owner \<noteq> token then Some (False, s)
          else Some (True, s\<lparr>ms_leases := (ms_leases s)(key := None)\<rparr>))"

definition ms_close :: "'j memory_store \<Rightarrow> 'j memory_store" where
  "ms_close s = s\<lparr>ms_values := (\<lambda>_. None), ms_counters := (\<lambda>_. None), ms_leases := (\<lambda>_. None)\<rparr>"

definition memory_ops :: "('j, 'j memory_store) store_ops" where
  "memory_ops = \<lparr>op_check_rate = ms_check_rate, op_get_json = ms_get_json, op_set_json = ms_set_json,
     op_delete = ms_delete, op_get_counter = ms_get_counter, op_increment = ms_increment,
     op_acquire_lease = ms_acquire_lease, op_release_lease = ms_release_lease\<rparr>"

lemmas memory_ops_defs = memory_ops_def ms_check_rate_def ms_get_json_def ms_set_json_def ms_delete_def
  ms_get_counter_def ms_increment_def ms_acquire_lease_def ms_release_lease_def

section \<open>Rate checks of several tiers\<close>

text \<open>
  The loop shared by \<open>_check_submission_rate\<close>, \<open>_check_team_mutation_rate\<close> and
  \<open>_check_auth_rate\<close>: the tiers are charged in order until one refuses; a store failure
  closes the gate.
\<close>

fun check_rates ::
  "('j, 's) store_ops \<Rightarrow> (nat \<Rightarrow> instant) \<Rightarrow> string \<Rightarrow> nat \<Rightarrow> (store_key \<times> int \<times> int) list \<Rightarrow> 's \<Rightarrow>
   unit result \<times> 's" where
  "check_rates ops monotonic code i [] s = (Inr (), s)"
| "check_rates ops monotonic code i ((key, limit, window) # tiers) s =
     (case op_check_rate ops (monotonic i) key limit window s of
        None \<Rightarrow> (err 503 ''rate_limit_unavailable'', s)
      | Some (result, s') \<Rightarrow>
          if \<not> allowed result then (err_retry 429 code (retry_after result), s')
          else check_rates ops monotonic code (Suc i) tiers s')"

section \<open>The contract of a store\<close>

text \<open>
  What the code relies on, over four observations of a store: the counter of a key, the
  JSON object that is live under a key at a time, the lease that is live, and the requests
  charged to a key in its running window. Each law is about the keys its operation is used
  with. Nothing here says when an entry expires, so that a server with a clock of its own
  keeps the contract as well.
\<close>

locale ephemeral_store =
  fixes ops :: "('j, 's) store_ops"
    and counter :: "'s \<Rightarrow> store_key \<Rightarrow> int"
    and live_json :: "'s \<Rightarrow> instant \<Rightarrow> store_key \<Rightarrow> 'j option"
    and live_lease :: "'s \<Rightarrow> instant \<Rightarrow> store_key \<Rightarrow> string option"
    and spent :: "'s \<Rightarrow> instant \<Rightarrow> store_key \<Rightarrow> int"
  assumes get_counter: "op_get_counter ops k s = Some (n, s') \<Longrightarrow> key_kind k = CounterKey \<Longrightarrow>
      n = counter s k \<and> s' = s"
    and increment: "op_increment ops k s = Some (n, s') \<Longrightarrow> key_kind k = CounterKey \<Longrightarrow>
      n = counter s k + 1 \<and> counter s' = (counter s)(k := n)
      \<and> live_json s' = live_json s \<and> live_lease s' = live_lease s"
    and get_json: "op_get_json ops now k s = Some (v, s') \<Longrightarrow> key_kind k = JsonKey \<Longrightarrow>
      (\<forall>c. v = Some c \<longrightarrow> (\<exists>t. live_json s t k = Some c)) \<and> counter s' = counter s \<and> live_lease s' = live_lease s"
    and set_json: "op_set_json ops now k j ttl s = Some s' \<Longrightarrow> key_kind k = JsonKey \<Longrightarrow>
      counter s' = counter s \<and> live_lease s' = live_lease s"
    and delete: "op_delete ops k s = Some s' \<Longrightarrow> key_kind k = JsonKey \<Longrightarrow> counter s' = counter s
      \<and> live_lease s' = live_lease s \<and> (\<forall>t. live_json s' t k = None)"
    and acquire: "op_acquire_lease ops now token k ttl s = Some (g, s') \<Longrightarrow> key_kind k = LeaseKey \<Longrightarrow>
      counter s' = counter s \<and> (g = None \<longrightarrow> s' = s) \<and> (g \<noteq> None \<longrightarrow> g = Some token)"
    and release: "op_release_lease ops k token s = Some (b, s') \<Longrightarrow> key_kind k = LeaseKey \<Longrightarrow>
      counter s' = counter s \<and> (\<forall>t. live_lease s' t k \<noteq> Some token)
      \<and> (\<forall>t other. other \<noteq> token \<longrightarrow> live_lease s t k = Some other \<longrightarrow> live_lease s' t k = Some other)"
    and check_rate: "op_check_rate ops now k limit window s = Some (r, s') \<Longrightarrow> key_kind k = RateKey \<Longrightarrow>
      0 < window \<Longrightarrow> (allowed r \<longleftrightarrow> spent s now k < limit) \<and> spent s' now k = spent s now k + 1
      \<and> (\<forall>k' t. k' \<noteq> k \<longrightarrow> spent s' t k' = spent s t k') \<and> counter s' = counter s \<and> 0 \<le> retry_after r"
begin

lemma increment_counter: "op_increment ops k s = Some (n, s') \<Longrightarrow> key_kind k = CounterKey \<Longrightarrow> counter s k < counter s' k"
  by (auto dest!: increment)

text \<open>A request that passes was below the limit in each of its tiers.\<close>

lemma check_rates_pass:
  assumes "check_rates ops clk code i tiers s = (Inr (), s')"
    and "distinct (map fst tiers)" and "\<forall>(k, limit, window) \<in> set tiers. key_kind k = RateKey \<and> 0 < window"
    and "(k, limit, window) \<in> set tiers"
  shows "\<exists>t. spent s t k < limit"
  using assms
proof (induction tiers arbitrary: s i)
  case Nil
  then show ?case by simp
next
  case (Cons tier tiers)
  obtain k1 l1 w1 where t: "tier = (k1, l1, w1)" by (cases tier)
  obtain r s1 where c: "op_check_rate ops (clk i) k1 l1 w1 s = Some (r, s1)"
    and a: "allowed r" and rest: "check_rates ops clk code (Suc i) tiers s1 = (Inr (), s')"
    using Cons.prems(1) t by (auto split: option.splits if_splits)
  have w: "key_kind k1 = RateKey" "0 < w1" using Cons.prems(3) t by auto
  note law = check_rate[OF c w]
  show ?case
  proof (cases "(k, limit, window) = tier")
    case True
    then show ?thesis using law a t by blast
  next
    case False
    then have "(k, limit, window) \<in> set tiers" using Cons.prems(4) by simp
    moreover have "k \<noteq> k1" using Cons.prems(2) t calculation by force
    ultimately show ?thesis
      using Cons.IH[OF rest] Cons.prems(2,3) law by auto
  qed
qed

lemma check_rates_counter:
  assumes "check_rates ops clk code i tiers s = (r, s')" and "\<forall>(k, limit, window) \<in> set tiers. key_kind k = RateKey \<and> 0 < window"
  shows "counter s' = counter s"
  using assms
proof (induction tiers arbitrary: s i)
  case Nil
  then show ?case by simp
next
  case (Cons tier tiers)
  obtain k1 l1 w1 where t: "tier = (k1, l1, w1)" by (cases tier)
  have w: "key_kind k1 = RateKey" "0 < w1" using Cons.prems(2) t by auto
  show ?case
  proof (cases "op_check_rate ops (clk i) k1 l1 w1 s")
    case None
    then show ?thesis using Cons.prems(1) t by simp
  next
    case (Some p)
    obtain q s1 where p: "p = (q, s1)" by (cases p)
    have "counter s1 = counter s" using check_rate[OF Some[unfolded p] w] by blast
    then show ?thesis
      using Cons.IH[of "Suc i" s1] Cons.prems Some p t by (auto split: if_splits)
  qed
qed

text \<open>The two ways a gate can refuse.\<close>

lemma check_rates_error:
  assumes "check_rates ops clk code i tiers s = (Inl e, s')"
    and "\<forall>(k, limit, window) \<in> set tiers. key_kind k = RateKey \<and> 0 < window"
  shows "e = ApiError 503 ''rate_limit_unavailable'' None
    \<or> (\<exists>n. e = ApiError 429 code (Some n) \<and> 0 \<le> n)"
  using assms(1,2)
proof (induction tiers arbitrary: s i)
  case Nil
  then show ?case by simp
next
  case (Cons tier tiers)
  obtain k1 l1 w1 where t: "tier = (k1, l1, w1)" by (cases tier)
  show ?case
  proof (cases "op_check_rate ops (clk i) k1 l1 w1 s")
    case None
    then show ?thesis using Cons.prems t by simp
  next
    case (Some p)
    obtain q s1 where p: "p = (q, s1)" by (cases p)
    show ?thesis
    proof (cases "allowed q")
      case True
      then show ?thesis using Cons.IH[of "Suc i" s1] Cons.prems Some p t by simp
    next
      case False
      then have "e = ApiError 429 code (Some (retry_after q))" using Cons.prems Some p t by simp
      moreover have "key_kind k1 = RateKey" "0 < w1" using Cons.prems(2) t by auto
      ultimately show ?thesis using check_rate[OF Some[unfolded p]] by blast
    qed
  qed
qed

end

text \<open>A store on the clock of its callers also promises when what it stored expires.\<close>

locale timed_store = ephemeral_store ops counter live_json live_lease spent
  for ops :: "('j, 's) store_ops"
    and counter :: "'s \<Rightarrow> store_key \<Rightarrow> int"
    and live_json :: "'s \<Rightarrow> instant \<Rightarrow> store_key \<Rightarrow> 'j option"
    and live_lease :: "'s \<Rightarrow> instant \<Rightarrow> store_key \<Rightarrow> string option"
    and spent :: "'s \<Rightarrow> instant \<Rightarrow> store_key \<Rightarrow> int" +
  assumes get_json_now: "op_get_json ops now k s = Some (v, s') \<Longrightarrow> v = live_json s now k"
    and set_json_until: "op_set_json ops now k j ttl s = Some s' \<Longrightarrow> 0 < ttl \<Longrightarrow>
      live_json s' t k = (if t < now + ttl * second then Some j else None)"
    and acquire_held: "op_acquire_lease ops now token k ttl s = Some (None, s') \<Longrightarrow> live_lease s now k \<noteq> None"
    and acquire_until: "op_acquire_lease ops now token k ttl s = Some (Some token', s') \<Longrightarrow>
      live_lease s now k = None \<and> live_lease s' t k = (if t < now + ttl * second then Some token else None)"
begin

text \<open>What was cached is read back until it expires, and a lease excludes every other until then.\<close>

lemma cached_until:
  assumes "op_set_json ops now k j ttl s = Some s1" and "0 < ttl" and "op_get_json ops t k s1 = Some (v, s2)"
  shows "v = (if t < now + ttl * second then Some j else None)"
  using set_json_until[OF assms(1,2)] get_json_now[OF assms(3)] by simp

lemma lease_excludes:
  assumes "op_acquire_lease ops now token k ttl s = Some (Some token', s1)"
    and "op_acquire_lease ops t other k ttl' s1 = Some (g, s2)"
  shows "g = None \<longleftrightarrow> t < now + ttl * second"
  using acquire_until[OF assms(1), of t] acquire_held[of t other k ttl' s1 s2] acquire_until[of t other k ttl' s1 _ s2]
    assms(2)
  by (cases g) (auto split: if_splits)

end

section \<open>MemoryStore keeps the contract\<close>

definition ms_counter :: "'j memory_store \<Rightarrow> store_key \<Rightarrow> int" where
  "ms_counter s k = (case ms_counters s k of None \<Rightarrow> 0 | Some n \<Rightarrow> n)"

definition ms_live_json :: "'j memory_store \<Rightarrow> instant \<Rightarrow> store_key \<Rightarrow> 'j option" where
  "ms_live_json s now k = (case ms_values s k of
     Some (expires, Cached j) \<Rightarrow> if expires \<le> now then None else Some j | _ \<Rightarrow> None)"

definition ms_live_lease :: "'j memory_store \<Rightarrow> instant \<Rightarrow> store_key \<Rightarrow> string option" where
  "ms_live_lease s now k = (case ms_leases s k of
     Some (expires, owner) \<Rightarrow> if now < expires then Some owner else None | None \<Rightarrow> None)"

definition ms_spent :: "'j memory_store \<Rightarrow> instant \<Rightarrow> store_key \<Rightarrow> int" where
  "ms_spent s now k = (case ms_values s k of
     Some (expires, Counted n) \<Rightarrow> if expires \<le> now then 0 else n | _ \<Rightarrow> 0)"

lemmas ms_observers = ms_counter_def ms_live_json_def ms_live_lease_def ms_spent_def

lemma second_pos: "0 < second"
  by (simp add: second_def)

lemma ms_check_rate_Some:
  assumes "ms_check_rate now k limit window s = Some (r, s')" and "0 < window"
  shows "\<exists>e. now < e
    \<and> s' = s\<lparr>ms_values := (ms_values s)(k \<mapsto> (e, Counted (ms_spent s now k + 1)))\<rparr>
    \<and> (allowed r \<longleftrightarrow> ms_spent s now k < limit)"
proof -
  have w: "now < now + window * second" using assms(2) second_pos by simp
  show ?thesis
  proof (cases "ms_values s k")
    case None
    then show ?thesis using assms(1) w
      by (intro exI[of _ "now + window * second"])
        (auto simp: ms_check_rate_def ms_spent_def Let_def split: if_splits)
  next
    case (Some p)
    obtain e v where p: "p = (e, v)" by (cases p)
    show ?thesis
    proof (cases "e \<le> now")
      case True
      then show ?thesis using assms(1) w Some p
        by (intro exI[of _ "now + window * second"]; cases v) (auto simp: ms_check_rate_def ms_spent_def Let_def split: if_splits)
    next
      case False
      then show ?thesis using assms(1) Some p
        by (intro exI[of _ e]; cases v) (auto simp: ms_check_rate_def ms_spent_def Let_def split: if_splits)
    qed
  qed
qed

lemma ms_check_rate_spent:
  assumes "ms_check_rate now k limit window s = Some (r, s')" and "0 < window"
  shows "(allowed r \<longleftrightarrow> ms_spent s now k < limit) \<and> ms_spent s' now k = ms_spent s now k + 1
    \<and> (\<forall>k' t. k' \<noteq> k \<longrightarrow> ms_spent s' t k' = ms_spent s t k') \<and> ms_counter s' = ms_counter s"
proof -
  obtain e where "now < e" and a: "allowed r \<longleftrightarrow> ms_spent s now k < limit"
    and s': "s' = s\<lparr>ms_values := (ms_values s)(k \<mapsto> (e, Counted (ms_spent s now k + 1)))\<rparr>"
    using ms_check_rate_Some[OF assms] by blast
  then have "ms_spent s' now k = ms_spent s now k + 1"
    and "\<forall>k' t. k' \<noteq> k \<longrightarrow> ms_spent s' t k' = ms_spent s t k'" and "ms_counter s' = ms_counter s"
    by (simp_all add: ms_spent_def ms_counter_def fun_eq_iff)
  with a show ?thesis by blast
qed

interpretation memory: timed_store memory_ops ms_counter ms_live_json ms_live_lease ms_spent
proof (unfold_locales, goal_cases)
  case (1 k s n s')
  then show ?case by (auto simp: memory_ops_defs ms_counter_def)
next
  case (2 k s n s')
  then show ?case by (auto simp: memory_ops_defs ms_observers Let_def fun_eq_iff)
next
  case (3 now k s v s')
  then have "v = ms_live_json s now k"
    by (auto simp: memory_ops_defs ms_observers split: option.splits stored.splits if_splits)
  then show ?case using 3
    by (auto simp: memory_ops_defs ms_counter_def ms_live_lease_def fun_eq_iff split: option.splits if_splits)
next
  case (4 now k v ttl s s')
  then show ?case by (auto simp: memory_ops_defs ms_observers fun_eq_iff split: if_splits)
next
  case (5 k s s')
  then show ?case by (auto simp: memory_ops_defs ms_observers fun_eq_iff)
next
  case (6 now token k ttl s r s')
  then show ?case
    by (auto simp: memory_ops_defs ms_observers fun_eq_iff split: option.splits if_splits)
next
  case (7 k token s b s')
  then show ?case
    by (auto simp: memory_ops_defs ms_observers fun_eq_iff split: option.splits if_splits)
next
  case (8 now k limit window s r s')
  have "0 \<le> retry_after r"
    using 8(1) by (auto simp: memory_ops_defs Let_def split: option.splits prod.splits stored.splits if_splits)
  then show ?case using ms_check_rate_spent[of now k limit window s r s'] 8 by (simp add: memory_ops_def)
next
  case (9 now k s v s')
  then show ?case
    by (auto simp: memory_ops_defs ms_observers split: option.splits stored.splits if_splits)
next
  case (10 now k v ttl s s' t)
  then show ?case by (auto simp: memory_ops_defs ms_observers split: if_splits)
next
  case (11 now token k ttl s s')
  then show ?case by (auto simp: memory_ops_defs ms_observers split: option.splits if_splits)
next
  case (12 now token k ttl s g s' t)
  then show ?case by (auto simp: memory_ops_defs ms_observers split: option.splits if_splits)
qed

section \<open>Rate windows and leases over time\<close>

text \<open>A run of rate checks on one key; the result lists which were allowed.\<close>

fun rate_run ::
  "store_key \<Rightarrow> int \<Rightarrow> int \<Rightarrow> instant list \<Rightarrow> 'j memory_store \<Rightarrow> (bool list \<times> 'j memory_store) option" where
  "rate_run key limit window [] s = Some ([], s)"
| "rate_run key limit window (t # ts) s =
     (case ms_check_rate t key limit window s of
        None \<Rightarrow> None
      | Some (r, s') \<Rightarrow>
          (case rate_run key limit window ts s' of
             None \<Rightarrow> None
           | Some (rs, s'') \<Rightarrow> Some (allowed r # rs, s'')))"

lemma rate_run_open_window:
  assumes "ms_values s key = Some (e, Counted n)" and "\<forall>t \<in> set ts. t < e"
  shows "\<exists>rs s'. rate_run key limit window ts s = Some (rs, s')
    \<and> length (filter (\<lambda>b. b) rs) = min (length ts) (nat (limit - n))"
  using assms
proof (induction ts arbitrary: s n)
  case Nil
  then show ?case by simp
next
  case (Cons t ts)
  define s1 where "s1 = s\<lparr>ms_values := (ms_values s)(key \<mapsto> (e, Counted (n + 1)))\<rparr>"
  obtain r where r: "ms_check_rate t key limit window s = Some (r, s1)" "allowed r \<longleftrightarrow> n + 1 \<le> limit"
    using Cons.prems by (cases "n + 1 \<le> limit") (auto simp: ms_check_rate_def Let_def s1_def)
  have "ms_values s1 key = Some (e, Counted (n + 1))" by (simp add: s1_def)
  then obtain rs s' where rs: "rate_run key limit window ts s1 = Some (rs, s')"
    "length (filter (\<lambda>b. b) rs) = min (length ts) (nat (limit - (n + 1)))"
    using Cons.IH[of s1 "n + 1"] Cons.prems(2) by auto
  have "length (filter (\<lambda>b. b) (allowed r # rs)) = min (Suc (length ts)) (nat (limit - n))"
    using r(2) rs(2) by auto
  then show ?case using r(1) rs(1) by simp
qed

definition window_closed :: "'j memory_store \<Rightarrow> instant \<Rightarrow> store_key \<Rightarrow> bool" where
  "window_closed s t key = (case ms_values s key of None \<Rightarrow> True | Some (e, _) \<Rightarrow> e \<le> t)"

text \<open>
  The fixed window. Of any sequence of requests charged to one key within one window
  the store allows exactly \<open>limit\<close> (all of them when they are fewer), and it never raises.
\<close>

theorem rate_window_exact:
  assumes "window_closed s t key" and "0 < window"
    and "\<forall>u \<in> set ts. u < t + window * second"
  shows "\<exists>rs s'. rate_run key limit window (t # ts) s = Some (rs, s')
    \<and> length (filter (\<lambda>b. b) rs) = min (Suc (length ts)) (nat limit)"
proof -
  define e where "e = t + window * second"
  define s1 where "s1 = s\<lparr>ms_values := (ms_values s)(key \<mapsto> (e, Counted 1))\<rparr>"
  have "t < e" using assms(2) second_pos by (simp add: e_def)
  then obtain r where r: "ms_check_rate t key limit window s = Some (r, s1)" "allowed r \<longleftrightarrow> 1 \<le> limit"
    using assms(1)
    by (cases "1 \<le> limit"; cases "ms_values s key")
      (auto simp: ms_check_rate_def window_closed_def Let_def s1_def e_def)
  have "ms_values s1 key = Some (e, Counted 1)" by (simp add: s1_def)
  then obtain rs s' where rs: "rate_run key limit window ts s1 = Some (rs, s')"
    "length (filter (\<lambda>b. b) rs) = min (length ts) (nat (limit - 1))"
    using rate_run_open_window[of s1 key e 1 ts limit window] assms(3) by (auto simp: e_def)
  have "length (filter (\<lambda>b. b) (allowed r # rs)) = min (Suc (length ts)) (nat limit)"
    using r(2) rs(2) by auto
  then show ?thesis using r(1) rs(1) by simp
qed

lemma rate_window_exact_witness:
  "\<exists>rs s'. rate_run AuthRegisterGlobal 2 10 [0, 1, 2, 3] (memory_store_init :: nat memory_store) = Some (rs, s')
     \<and> length (filter (\<lambda>b. b) rs) = 2"
proof -
  have w: "window_closed (memory_store_init :: nat memory_store) 0 AuthRegisterGlobal"
    by (simp add: window_closed_def memory_store_init_def)
  show ?thesis using rate_window_exact[OF w, of 10 "[1, 2, 3]" 2]
    by (simp add: second_def numeral_2_eq_2 del: rate_run.simps)
qed

text \<open>A run of lease operations of several builders; the result lists the granted tokens.\<close>

datatype lease_op = Acquire instant string int | Release string

fun lease_run :: "store_key \<Rightarrow> lease_op list \<Rightarrow> 'j memory_store \<Rightarrow> (string list \<times> 'j memory_store) option" where
  "lease_run key [] s = Some ([], s)"
| "lease_run key (Acquire now token ttl # acts) s =
     (case ms_acquire_lease now token key ttl s of
        None \<Rightarrow> None
      | Some (g, s') \<Rightarrow>
          map_option (\<lambda>(gs, s''). (case g of None \<Rightarrow> gs | Some tok \<Rightarrow> tok # gs, s'')) (lease_run key acts s'))"
| "lease_run key (Release token # acts) s =
     (case ms_release_lease key token s of
        None \<Rightarrow> None
      | Some (b, s') \<Rightarrow> lease_run key acts s')"

lemma lease_run_held:
  assumes "ms_leases s key = Some (e, owner)"
    and "\<forall>act \<in> set acts. case act of Acquire now token ttl \<Rightarrow> now < e \<and> 0 < ttl | Release token \<Rightarrow> token \<noteq> owner"
  shows "lease_run key acts s = Some ([], s)"
  using assms(2)
proof (induction acts)
  case Nil
  then show ?case by simp
next
  case (Cons act acts)
  then show ?case
    using assms(1) by (cases act) (auto simp: ms_acquire_lease_def ms_release_lease_def)
qed

text \<open>
  A lease is exclusive. Once a builder holds the lease, no sequence of acquires by
  others before its expiry and of releases with other tokens grants or ends it.
\<close>

theorem lease_exclusive:
  assumes "ms_acquire_lease now owner key ttl s = Some (Some tok, s1)"
    and "\<forall>act \<in> set acts. case act of
           Acquire t token ttl' \<Rightarrow> t < now + ttl * second \<and> 0 < ttl' | Release token \<Rightarrow> token \<noteq> owner"
  shows "tok = owner \<and> lease_run key acts s1 = Some ([], s1)
    \<and> (\<exists>s2. ms_release_lease key owner s1 = Some (True, s2))"
proof -
  have "tok = owner" and l: "ms_leases s1 key = Some (now + ttl * second, owner)"
    using assms(1) by (auto simp: ms_acquire_lease_def split: if_splits option.splits)
  then show ?thesis
    using lease_run_held[OF l assms(2)] by (simp add: ms_release_lease_def)
qed

lemma lease_exclusive_witness:
  "\<exists>s1. ms_acquire_lease 0 ''a'' (ScoreboardBuild 1 LivePhase) 45 (memory_store_init :: nat memory_store)
        = Some (Some ''a'', s1)
     \<and> lease_run (ScoreboardBuild 1 LivePhase) [Acquire 44000000 ''b'' 45, Release ''b''] s1 = Some ([], s1)"
proof -
  let ?k = "ScoreboardBuild 1 LivePhase"
  obtain s1 where a: "ms_acquire_lease 0 ''a'' ?k 45 (memory_store_init :: nat memory_store) = Some (Some ''a'', s1)"
    by (simp add: ms_acquire_lease_def memory_store_init_def)
  show ?thesis
    using lease_exclusive[OF a, of "[Acquire 44000000 ''b'' 45, Release ''b'']"] a by (simp add: second_def)
qed

end
