(* ===== verification/Auth.thy ===== *)
theory Auth
  imports Store "HOL-Library.Monad_Syntax" "HOL-Library.Multiset"
begin

text \<open>
  Accounts and sessions: backend/src/alpha/dependencies.py and routes_auth.py.

  A request handler is a function of the settings, the runtime, the \<open>world\<close> of the
  request (the readings and draws, indexed in the order of the code), the request, and
  the database. It returns the response with the new database, or the error, in which
  case the transaction is rolled back and the database is the one before. A handler
  that gives its connection back and locks rows later reads a database of its own for
  each phase, so that what other requests committed in between is any difference
  between them. The rate limit store is threaded separately.
\<close>

section \<open>Requests and responses\<close>

record request =
  rq_cookies :: "(string \<times> string) list"
  rq_client :: "string option"

text \<open>Every cookie the service sets has the path \<open>/\<close>, \<open>HttpOnly\<close> and \<open>SameSite=lax\<close>.\<close>

datatype cookie =
    SetCookie (cookie_name: string) string (cookie_max_age: int) (cookie_secure: bool)
  | DeleteCookie (cookie_name: string) (cookie_secure: bool)

record http_response =
  rs_status :: nat
  rs_body :: json
  rs_cookies :: "cookie list"
  rs_csrf :: "string option"

definition json_response :: "json \<Rightarrow> http_response" where
  "json_response body = \<lparr>rs_status = 200, rs_body = body, rs_cookies = [], rs_csrf = None\<rparr>"

section \<open>dependencies.py\<close>

definition cookie_of :: "request \<Rightarrow> string \<Rightarrow> string option" where
  "cookie_of rq name = map_of (rq_cookies rq) name"

definition current_user ::
  "settings \<Rightarrow> runtime \<Rightarrow> request \<Rightarrow> instant \<Rightarrow> database \<Rightarrow> user result" where
  "current_user st rt rq now db =
     (case cookie_of rq (session_cookie_name st) of
        None \<Rightarrow> err 401 ''authentication_required''
      | Some token \<Rightarrow>
          if token = [] then err 401 ''authentication_required''
          else case fetch s_token_hash (hash_session rt (st_secret_key st) token) (sessions db) of
                 None \<Rightarrow> err 401 ''invalid_session''
               | Some s \<Rightarrow>
                   if s_expires_at s \<le> now then err 401 ''invalid_session''
                   else case fetch u_id (s_user_id s) (users db) of
                          None \<Rightarrow> Inl (Uncaught ''AttributeError'')
                        | Some u \<Rightarrow>
                            if \<not> u_active u \<or> s_credential_version s \<noteq> u_credential_version u
                            then err 401 ''invalid_session'' else Inr u)"

definition require_user ::
  "settings \<Rightarrow> runtime \<Rightarrow> request \<Rightarrow> instant \<Rightarrow> database \<Rightarrow> user result" where
  "require_user st rt rq now db = current_user st rt rq now db"

definition require_admin ::
  "settings \<Rightarrow> runtime \<Rightarrow> request \<Rightarrow> instant \<Rightarrow> database \<Rightarrow> user result" where
  "require_admin st rt rq now db =
     bindR (current_user st rt rq now db) (\<lambda>u.
       if u_role u \<noteq> Admin then err 403 ''admin_required''
       else if u_password_change_required u then err 403 ''password_change_required''
       else Inr u)"

definition membership_for :: "database \<Rightarrow> user \<Rightarrow> membership option" where
  "membership_for db u = fetch m_user_id (u_id u) (memberships db)"

definition require_membership :: "database \<Rightarrow> user \<Rightarrow> membership result" where
  "require_membership db u =
     (case membership_for db u of None \<Rightarrow> err 409 ''team_required'' | Some m \<Rightarrow> Inr m)"

fun role_name :: "user_role \<Rightarrow> string" where
  "role_name Participant = ''participant''"
| "role_name Admin = ''admin''"

fun member_role_name :: "member_role \<Rightarrow> string" where
  "member_role_name Owner = ''owner''"
| "member_role_name Member = ''member''"

text \<open>The foreign key of a membership makes the lookup of its team succeed.\<close>

definition user_dict :: "database \<Rightarrow> user \<Rightarrow> json" where
  "user_dict db u =
     JObj [(''id'', JId (u_id u)), (''email'', JStr (u_email u)), (''username'', JStr (u_username u)),
       (''role'', JStr (role_name (u_role u))), (''active'', JBool (u_active u)),
       (''password_change_required'', JBool (u_password_change_required u)),
       (''team'',
          case membership_for db u of
            None \<Rightarrow> JNull
          | Some m \<Rightarrow>
              (case fetch t_id (m_team_id m) (teams db) of
                 None \<Rightarrow> JNull
               | Some t \<Rightarrow> JObj [(''id'', JId (t_id t)),
                   (''name'', JStr (team_display_name db (current_event db) t)),
                   (''role'', JStr (member_role_name (m_role m)))]))]"

section \<open>Rate limits\<close>

definition client_ip :: "request \<Rightarrow> string" where
  "client_ip rq = (case rq_client rq of None \<Rightarrow> ''unknown'' | Some ip \<Rightarrow> ip)"

definition auth_tiers ::
  "settings \<Rightarrow> runtime \<Rightarrow> request \<Rightarrow> string \<Rightarrow> string \<Rightarrow> (store_key \<times> int \<times> int) list" where
  "auth_tiers st rt rq scope identity =
     (let identity_hash = keyed_hash rt (st_secret_key st) ''auth-identity'' (lower identity)
      in [(AuthIdentity scope identity_hash, st_auth_rate_limit st, st_auth_rate_window_seconds st),
          (AuthIp scope (client_ip rq), st_auth_ip_rate_limit st, st_auth_rate_window_seconds st)]
         @ (if scope = ''register''
            then [(AuthRegisterGlobal, st_registration_global_rate_limit st,
                   st_registration_global_rate_window_seconds st)]
            else []))"

definition check_auth_rate ::
  "('j, 's) store_ops \<Rightarrow> settings \<Rightarrow> runtime \<Rightarrow> world \<Rightarrow> nat \<Rightarrow> request \<Rightarrow> string \<Rightarrow> string \<Rightarrow> 's \<Rightarrow>
   unit result \<times> 's" where
  "check_auth_rate ops st rt w i rq scope identity s =
     check_rates ops (w_monotonic w) ''authentication_rate_limited'' i (auth_tiers st rt rq scope identity) s"

section \<open>Cookies\<close>

definition set_session_cookie :: "settings \<Rightarrow> string \<Rightarrow> http_response \<Rightarrow> http_response" where
  "set_session_cookie st token resp = resp\<lparr>rs_cookies := rs_cookies resp
     @ [SetCookie (session_cookie_name st) token (st_session_ttl_hours st * 3600) (secure_cookies st)]
     @ (if st_environment st = Production then [DeleteCookie ''alpha_session'' True] else [])\<rparr>"

text \<open>
  \<open>session_token\<close> is \<open>None\<close> when the caller passes none: the cookie of the request is
  used. \<open>fresh\<close> and \<open>nonce\<close> are the two random tokens of 24 bytes.
\<close>

definition set_csrf_cookie ::
  "settings \<Rightarrow> runtime \<Rightarrow> request \<Rightarrow> string \<Rightarrow> string \<Rightarrow> instant \<Rightarrow> string option \<Rightarrow>
   http_response \<Rightarrow> string \<times> http_response" where
  "set_csrf_cookie st rt rq fresh nonce now session_token resp =
     (let secret = st_secret_key st;
          session_token = (case session_token of
             Some t \<Rightarrow> t
           | None \<Rightarrow> (case cookie_of rq (session_cookie_name st) of None \<Rightarrow> [] | Some t \<Rightarrow> t));
          browser_token =
            (if session_token \<noteq> [] then []
             else case cookie_of rq (browser_cookie_name st) of
                    None \<Rightarrow> fresh | Some t \<Rightarrow> if t = [] then fresh else t);
          browser_cookie =
            (if session_token \<noteq> [] then DeleteCookie (browser_cookie_name st) (secure_cookies st)
             else SetCookie (browser_cookie_name st) browser_token (st_csrf_ttl_seconds st)
                    (secure_cookies st));
          token = issue_csrf rt secret nonce (csrf_context rt secret session_token browser_token) now
      in (token, resp\<lparr>
            rs_cookies := rs_cookies resp
              @ [browser_cookie,
                 SetCookie (csrf_cookie_name st) token (st_csrf_ttl_seconds st) (secure_cookies st)]
              @ (if st_environment st = Production
                 then [DeleteCookie ''alpha_csrf'' True, DeleteCookie ''alpha_browser'' True] else []),
            rs_csrf := Some token\<rparr>))"

text \<open>\<open>GET /auth/csrf\<close>.\<close>

definition csrf_endpoint :: "settings \<Rightarrow> runtime \<Rightarrow> world \<Rightarrow> request \<Rightarrow> http_response" where
  "csrf_endpoint st rt w rq =
     (let (token, resp) = set_csrf_cookie st rt rq (w_token w 0) (w_token w 1) (w_utcnow w 0) None
                            (json_response JNull)
      in resp\<lparr>rs_body := JObj [(''csrf_token'', JStr token)]\<rparr>)"

section \<open>Sessions\<close>

text \<open>
  Expired sessions are deleted oldest first, at most \<open>batch_size\<close> of them. Rows another
  transaction has locked are skipped by the database; here no row is locked.
\<close>

definition cleanup_expired_sessions :: "instant \<Rightarrow> int \<Rightarrow> database \<Rightarrow> database" where
  "cleanup_expired_sessions now batch_size db =
     (let expired_ids = map s_id (take (nat batch_size)
            (sort_key s_expires_at (filter (\<lambda>s. s_expires_at s \<le> now) (sessions db))))
      in db\<lparr>sessions := delete_where (\<lambda>s. s_id s \<in> set expired_ids) (sessions db)\<rparr>)"

definition active_sessions :: "uuid \<Rightarrow> instant \<Rightarrow> session_token list \<Rightarrow> session_token list" where
  "active_sessions u now xs = filter (\<lambda>s. s_user_id s = u \<and> now < s_expires_at s) xs"

definition newest_first :: "session_token list \<Rightarrow> session_token list" where
  "newest_first xs = rev (sort_key (\<lambda>s. (s_created_at s, s_id s)) xs)"

text \<open>
  \<open>new_session\<close> reads the clock at \<open>c\<close>, \<open>c + 1\<close> and \<open>c + 2\<close>, draws the identifier
  \<open>i\<close> and the token \<open>t\<close>.
\<close>

definition new_session ::
  "settings \<Rightarrow> runtime \<Rightarrow> world \<Rightarrow> nat \<Rightarrow> nat \<Rightarrow> nat \<Rightarrow> user \<Rightarrow> database \<Rightarrow> (string \<times> database) option" where
  "new_session st rt w c i t u db =
     (let now = w_utcnow w c;
          db = cleanup_expired_sessions now (st_session_cleanup_batch_size st) db;
          excess_ids = map s_id (drop (MAX_ACTIVE_SESSIONS_PER_USER - 1)
                         (newest_first (active_sessions (u_id u) now (sessions db))));
          db = db\<lparr>sessions := delete_where (\<lambda>s. s_id s \<in> set excess_ids) (sessions db)\<rparr>;
          token = w_token w t
      in do {
           db \<leftarrow> insert_session \<lparr>s_id = w_uuid4 w i,
                   s_token_hash = hash_session rt (st_secret_key st) token,
                   s_user_id = u_id u, s_credential_version = u_credential_version u,
                   s_expires_at = now + st_session_ttl_hours st * 3600 * second,
                   s_last_seen_at = w_utcnow w (c + 1), s_created_at = w_utcnow w (c + 2)\<rparr> db;
           Some (token, db) })"

section \<open>Registration\<close>

definition registration_code_or_denied ::
  "settings \<Rightarrow> runtime \<Rightarrow> instant \<Rightarrow> database \<Rightarrow> event \<Rightarrow> string option \<Rightarrow> registration_code option result" where
  "registration_code_or_denied st rt now db e access_code =
     (if e_registration_access_mode e \<noteq> CodeAccess then Inr None
      else
        let candidate_hash = hash_registration_access rt (st_secret_key st)
              (case access_code of None \<Rightarrow> [] | Some c \<Rightarrow> c)
        in case find (\<lambda>r. r_event_id r = e_id e \<and> r_token_hash r = candidate_hash) (registration_codes db) of
             None \<Rightarrow> err 403 ''registration_access_denied''
           | Some r \<Rightarrow>
               if \<not> r_active r
                 \<or> r_revoked_at r \<noteq> None
                 \<or> (case aware (r_expires_at r) of None \<Rightarrow> False | Some t \<Rightarrow> t \<le> now)
                 \<or> (case r_max_uses r of None \<Rightarrow> False | Some n \<Rightarrow> n \<le> r_use_count r)
               then err 403 ''registration_access_denied'' else Inr (Some r))"

record register_request =
  rg_email :: string
  rg_username :: string
  rg_password :: string
  rg_access_code :: "string option"

text \<open>
  The checks before and after the password is hashed are the same; \<open>gate_now\<close> and
  \<open>code_now\<close> are the clock readings of the two gates.
\<close>

definition registration_gate ::
  "settings \<Rightarrow> runtime \<Rightarrow> instant \<Rightarrow> instant \<Rightarrow> register_request \<Rightarrow> string \<Rightarrow> string \<Rightarrow> database \<Rightarrow>
   (event \<times> registration_code option) result" where
  "registration_gate st rt gate_now code_now p email username db =
     (case current_event db of
        None \<Rightarrow> err 409 ''registration_closed''
      | Some e \<Rightarrow>
          if \<not> state_allows_registration e gate_now then err 409 ''registration_closed''
          else bindR (registration_code_or_denied st rt code_now db e (rg_access_code p)) (\<lambda>code.
            if \<exists>u \<in> set (users db). lower (u_email u) = email \<or> lower (u_username u) = lower username
            then err 409 ''account_exists''
            else if MAX_PARTICIPANT_USERS \<le> count_where (\<lambda>u. u_role u = Participant) (users db)
            then err 409 ''participant_capacity_reached''
            else Inr (e, code)))"

fun hex_digits :: "nat \<Rightarrow> nat \<Rightarrow> string" where
  "hex_digits 0 n = []"
| "hex_digits (Suc k) n = hex_digits k (n div 16) @ [''0123456789abcdef'' ! (n mod 16)]"

text \<open>\<open>uuid.hex[:8]\<close>: the eight high digits of a 128 bit number.\<close>

definition uuid_hex8 :: "uuid \<Rightarrow> string" where
  "uuid_hex8 u = hex_digits 8 (u div 2 ^ 96)"

text \<open>\<open>str(uuid)\<close>.\<close>

definition uuid_text :: "uuid \<Rightarrow> string" where
  "uuid_text u =
     (let h = hex_digits 32 u
      in take 8 h @ ''-'' @ take 4 (drop 8 h) @ ''-'' @ take 4 (drop 12 h) @ ''-''
         @ take 4 (drop 16 h) @ ''-'' @ drop 20 h)"

text \<open>A participant of an individual event gets a team of one.\<close>

definition create_solo_team ::
  "settings \<Rightarrow> runtime \<Rightarrow> world \<Rightarrow> string \<Rightarrow> uuid \<Rightarrow> database \<Rightarrow> database option" where
  "create_solo_team st rt w username u db = do {
     db \<leftarrow> insert_team \<lparr>t_id = w_uuid4 w 1, t_name = username @ ''-'' @ uuid_hex8 u,
            t_invite_hash = hash_invite rt (st_secret_key st) (w_token w 2), t_creator_id = u,
            t_created_at = w_utcnow w 5\<rparr> db;
     db \<leftarrow> insert_membership \<lparr>m_id = w_uuid4 w 2, m_user_id = u, m_team_id = w_uuid4 w 1,
            m_role = Owner, m_joined_at = w_utcnow w 6\<rparr> db;
     add_audit (w_uuid4 w 3) (w_utcnow w 7) (Some u) ''team.solo_created'' ''team''
       (Some (w_uuid4 w 1)) [] db }"

text \<open>\<open>registration_code.use_count += 1\<close>, refused by the CHECK constraint past \<open>max_uses\<close>.\<close>

definition use_registration_code :: "registration_code option \<Rightarrow> database \<Rightarrow> database option" where
  "use_registration_code code db =
     (case code of
        None \<Rightarrow> Some db
      | Some r \<Rightarrow>
          if \<not> code_check (r\<lparr>r_use_count := r_use_count r + 1\<rparr>) then None
          else Some (db\<lparr>registration_codes := update_where (\<lambda>x. r_id x = r_id r)
                 (\<lambda>x. x\<lparr>r_use_count := r_use_count r + 1\<rparr>) (registration_codes db)\<rparr>))"

definition registered_user :: "world \<Rightarrow> string \<Rightarrow> string \<Rightarrow> string \<Rightarrow> user" where
  "registered_user w email username password_hash =
     \<lparr>u_id = w_uuid4 w 0, u_email = email, u_username = username, u_password_hash = password_hash,
      u_role = Participant, u_active = True, u_password_change_required = False,
      u_credential_version = 0, u_created_at = w_utcnow w 4\<rparr>"

text \<open>The rows one registration writes, in one transaction.\<close>

definition register_rows ::
  "settings \<Rightarrow> runtime \<Rightarrow> world \<Rightarrow> user \<Rightarrow> event \<Rightarrow> registration_code option \<Rightarrow> database \<Rightarrow>
   (string \<times> database) option" where
  "register_rows st rt w u e code db = do {
     db \<leftarrow> insert_user u db;
     db \<leftarrow> (if e_team_mode e = IndividualMode
            then create_solo_team st rt w (u_username u) (u_id u) db else Some db);
     (token, db) \<leftarrow> new_session st rt w 8 4 1 u db;
     db \<leftarrow> add_audit (w_uuid4 w 5) (w_utcnow w 11) (Some (u_id u)) ''auth.register'' ''user''
             (Some (u_id u)) [] db;
     db \<leftarrow> add_outbox (w_uuid4 w 6) (w_utcnow w 12) ''user.registered'' ''user'' (u_id u)
             [(''user_id'', JId (u_id u))] db;
     db \<leftarrow> use_registration_code code db;
     Some (token, db) }"

definition session_response ::
  "settings \<Rightarrow> runtime \<Rightarrow> world \<Rightarrow> request \<Rightarrow> nat \<Rightarrow> nat \<Rightarrow> nat \<Rightarrow> string \<Rightarrow> http_response \<Rightarrow> http_response" where
  "session_response st rt w rq c t n token resp =
     snd (set_csrf_cookie st rt rq (w_token w t) (w_token w n) (w_utcnow w c) (Some token)
            (set_session_cookie st token resp))"

text \<open>
  \<open>register\<close> after its rate check: the gate on \<open>db1\<close>, the password hash with no
  connection held, the gate again and the writes on \<open>db2\<close>.
\<close>

definition register ::
  "settings \<Rightarrow> runtime \<Rightarrow> world \<Rightarrow> request \<Rightarrow> register_request \<Rightarrow> database \<Rightarrow> database \<Rightarrow>
   (http_response \<times> database) result" where
  "register st rt w rq p db1 db2 =
     (let email = lower (strip (rg_email p));
          username = strip (rg_username p)
      in bindR (registration_gate st rt (w_utcnow w 0) (w_utcnow w 1) p email username db1) (\<lambda>_.
         bindR (hash_password rt (w_slot_free w 0) (w_token w 0) (rg_password p)) (\<lambda>password_hash.
         bindR (registration_gate st rt (w_utcnow w 2) (w_utcnow w 3) p email username db2) (\<lambda>(e, code).
         let u = registered_user w email username password_hash
         in bindR (or_error (ApiError 409 ''account_exists'' None) (register_rows st rt w u e code db2))
           (\<lambda>(token, db).
         Inr (session_response st rt w rq 13 3 4 token
                ((json_response (user_dict db u))\<lparr>rs_status := 201\<rparr>), db))))))"

definition register_endpoint ::
  "('j, 's) store_ops \<Rightarrow> settings \<Rightarrow> runtime \<Rightarrow> world \<Rightarrow> request \<Rightarrow> register_request \<Rightarrow>
   database \<Rightarrow> database \<Rightarrow> 's \<Rightarrow> (http_response \<times> database) result \<times> 's" where
  "register_endpoint ops st rt w rq p db1 db2 s =
     (case check_auth_rate ops st rt w 0 rq ''register'' (rg_email p) s of
        (Inl e, s) \<Rightarrow> (Inl e, s)
      | (Inr _, s) \<Rightarrow> (register st rt w rq p db1 db2, s))"

section \<open>Login\<close>

record login_request =
  lg_email :: string
  lg_password :: string

definition replacement_hash_for ::
  "runtime \<Rightarrow> bool \<Rightarrow> string \<Rightarrow> string \<Rightarrow> string \<Rightarrow> string option result" where
  "replacement_hash_for rt slot_free salt password_hash password =
     (if password_needs_rehash rt password_hash
      then bindR (hash_password rt slot_free salt password) (\<lambda>h. Inr (Some h))
      else Inr None)"

text \<open>
  The loop of three attempts. \<open>dbs k\<close> is the database of attempt \<open>k\<close>. The result is
  the locked user with its replacement hash, and the database of that attempt with the
  replacement stored.
\<close>

fun login_attempts ::
  "runtime \<Rightarrow> world \<Rightarrow> (nat \<Rightarrow> database) \<Rightarrow> uuid \<Rightarrow> string \<Rightarrow> string \<Rightarrow> string option \<Rightarrow> nat list \<Rightarrow>
   (user \<times> database) result" where
  "login_attempts rt w dbs candidate password verified_hash replacement [] = err 409 ''credential_changed''"
| "login_attempts rt w dbs candidate password verified_hash replacement (k # ks) =
     (case fetch u_id candidate (users (dbs k)) of
        None \<Rightarrow> err 401 ''invalid_credentials''
      | Some u \<Rightarrow>
          if \<not> u_active u then err 401 ''invalid_credentials''
          else if u_password_hash u = verified_hash
          then (case replacement of
                  None \<Rightarrow> Inr (u, dbs k)
                | Some h \<Rightarrow> Inr (u\<lparr>u_password_hash := h\<rparr>,
                    (dbs k)\<lparr>users := update_where (\<lambda>x. u_id x = candidate)
                       (\<lambda>x. x\<lparr>u_password_hash := h\<rparr>) (users (dbs k))\<rparr>))
          else bindR (verify_password rt (w_slot_free w (2 + 2 * k)) (u_password_hash u) password) (\<lambda>valid.
            if \<not> valid then err 401 ''invalid_credentials''
            else bindR (replacement_hash_for rt (w_slot_free w (3 + 2 * k)) (w_token w (4 + k))
                          (u_password_hash u) password) (\<lambda>replacement.
              login_attempts rt w dbs candidate password (u_password_hash u) replacement ks)))"

text \<open>\<open>dummy_hash\<close> is \<open>_DUMMY_PASSWORD_HASH\<close>, an Argon2 hash made at import.\<close>

definition login ::
  "string \<Rightarrow> settings \<Rightarrow> runtime \<Rightarrow> world \<Rightarrow> request \<Rightarrow> login_request \<Rightarrow> database \<Rightarrow> (nat \<Rightarrow> database) \<Rightarrow>
   (http_response \<times> database) result" where
  "login dummy_hash st rt w rq p db1 dbs =
     (let email = lower (strip (lg_email p));
          candidate = find (\<lambda>u. lower (u_email u) = email) (users db1);
          candidate_hash = (case candidate of None \<Rightarrow> dummy_hash | Some u \<Rightarrow> u_password_hash u)
      in bindR (verify_password rt (w_slot_free w 0) candidate_hash (lg_password p)) (\<lambda>valid.
         case candidate of
           None \<Rightarrow> err 401 ''invalid_credentials''
         | Some c \<Rightarrow>
             if \<not> valid \<or> \<not> u_active c then err 401 ''invalid_credentials''
             else bindR (replacement_hash_for rt (w_slot_free w 1) (w_token w 3) candidate_hash (lg_password p))
               (\<lambda>replacement.
             bindR (login_attempts rt w dbs (u_id c) (lg_password p) candidate_hash replacement [0, 1, 2])
               (\<lambda>(u, db).
             bindR (or_error integrity_error (do {
                 (token, db) \<leftarrow> new_session st rt w 0 0 0 u db;
                 db \<leftarrow> add_coalesced_audit (w_uuid4 w 1) (w_utcnow w 3) (u_id u) ''auth.login'' ''user''
                         (u_id u) [] db;
                 Some (token, db) })) (\<lambda>(token, db).
             Inr (session_response st rt w rq 4 1 2 token (json_response (user_dict db u)), db))))))"

definition login_endpoint ::
  "('j, 's) store_ops \<Rightarrow> string \<Rightarrow> settings \<Rightarrow> runtime \<Rightarrow> world \<Rightarrow> request \<Rightarrow> login_request \<Rightarrow>
   database \<Rightarrow> (nat \<Rightarrow> database) \<Rightarrow> 's \<Rightarrow> (http_response \<times> database) result \<times> 's" where
  "login_endpoint ops dummy_hash st rt w rq p db1 dbs s =
     (case check_auth_rate ops st rt w 0 rq ''login'' (lower (strip (lg_email p))) s of
        (Inl e, s) \<Rightarrow> (Inl e, s)
      | (Inr _, s) \<Rightarrow> (login dummy_hash st rt w rq p db1 dbs, s))"

section \<open>Logout and password change\<close>

text \<open>
  \<open>db1\<close> is read without a lock to learn the owner of the session, \<open>db2\<close> after the locks
  on the user and the session are held.
\<close>

definition logout_rows ::
  "settings \<Rightarrow> runtime \<Rightarrow> world \<Rightarrow> string \<Rightarrow> database \<Rightarrow> database \<Rightarrow> database option" where
  "logout_rows st rt w token db1 db2 =
     (let token_hash = hash_session rt (st_secret_key st) token
      in case fetch s_token_hash token_hash (sessions db1) of
           None \<Rightarrow> Some db2
         | Some s \<Rightarrow>
             (case (fetch u_id (s_user_id s) (users db2), fetch s_token_hash token_hash (sessions db2)) of
                (Some u, Some s2) \<Rightarrow>
                  add_coalesced_audit (w_uuid4 w 0) (w_utcnow w 0) (s_user_id s) ''auth.logout'' ''user''
                    (s_user_id s) []
                    (db2\<lparr>sessions := delete_where (\<lambda>x. s_id x = s_id s2) (sessions db2)\<rparr>)
              | _ \<Rightarrow> Some db2))"

definition logout ::
  "settings \<Rightarrow> runtime \<Rightarrow> world \<Rightarrow> request \<Rightarrow> database \<Rightarrow> database \<Rightarrow> (http_response \<times> database) result" where
  "logout st rt w rq db1 db2 =
     bindR (case cookie_of rq (session_cookie_name st) of
              None \<Rightarrow> Inr db2
            | Some token \<Rightarrow>
                if token = [] then Inr db2
                else or_error integrity_error (logout_rows st rt w token db1 db2)) (\<lambda>db.
       let resp = (json_response JNull)\<lparr>rs_status := 204,
             rs_cookies := DeleteCookie (session_cookie_name st) (secure_cookies st)
               # (if st_environment st = Production then [DeleteCookie ''alpha_session'' True] else [])\<rparr>
       in Inr (snd (set_csrf_cookie st rt rq (w_token w 0) (w_token w 1) (w_utcnow w 1) (Some []) resp), db))"

text \<open>\<open>GET /auth/me\<close>.\<close>

definition me :: "settings \<Rightarrow> runtime \<Rightarrow> world \<Rightarrow> request \<Rightarrow> database \<Rightarrow> http_response result" where
  "me st rt w rq db =
     bindR (require_user st rt rq (w_utcnow w 0) db) (\<lambda>u. Inr (json_response (user_dict db u)))"

record change_password_request =
  cp_current_password :: string
  cp_new_password :: string

definition session_identity :: "settings \<Rightarrow> request \<Rightarrow> string" where
  "session_identity st rq =
     (case cookie_of rq (session_cookie_name st) of None \<Rightarrow> ''missing-session'' | Some t \<Rightarrow> t)"

fun change_password_attempts ::
  "runtime \<Rightarrow> world \<Rightarrow> (nat \<Rightarrow> database) \<Rightarrow> uuid \<Rightarrow> string \<Rightarrow> string \<Rightarrow> string \<Rightarrow> nat list \<Rightarrow>
   (user \<times> database) result" where
  "change_password_attempts rt w dbs uid session_hash password verified_hash [] =
     err 409 ''credential_changed''"
| "change_password_attempts rt w dbs uid session_hash password verified_hash (k # ks) =
     (case fetch u_id uid (users (dbs k)) of
        None \<Rightarrow> err 401 ''invalid_session''
      | Some u \<Rightarrow>
          if \<not> u_active u then err 401 ''invalid_session''
          else case find (\<lambda>s. s_token_hash s = session_hash \<and> s_user_id s = uid) (sessions (dbs k)) of
                 None \<Rightarrow> err 401 ''invalid_session''
               | Some s \<Rightarrow>
                   if s_expires_at s \<le> w_utcnow w (1 + k)
                     \<or> s_credential_version s \<noteq> u_credential_version u
                   then err 401 ''invalid_session''
                   else if u_password_hash u = verified_hash then Inr (u, dbs k)
                   else bindR (verify_password rt (w_slot_free w (2 + k)) (u_password_hash u) password) (\<lambda>valid.
                     if \<not> valid then err 401 ''invalid_current_password''
                     else change_password_attempts rt w dbs uid session_hash password
                            (u_password_hash u) ks))"

text \<open>The writes of a password change: the user, all its sessions, one new session.\<close>

definition change_password_rows ::
  "settings \<Rightarrow> runtime \<Rightarrow> world \<Rightarrow> string \<Rightarrow> user \<Rightarrow> database \<Rightarrow> (user \<times> string \<times> database) option" where
  "change_password_rows st rt w replacement_hash u db =
     (let u' = u\<lparr>u_password_hash := replacement_hash, u_password_change_required := False,
                  u_credential_version := u_credential_version u + 1\<rparr>;
          db = db\<lparr>users := update_where (\<lambda>x. u_id x = u_id u) (\<lambda>_. u') (users db),
                  sessions := delete_where (\<lambda>s. s_user_id s = u_id u) (sessions db)\<rparr>
      in do {
           (token, db) \<leftarrow> new_session st rt w 4 0 1 u' db;
           db \<leftarrow> add_coalesced_audit (w_uuid4 w 1) (w_utcnow w 7) (u_id u) ''auth.password_changed''
                   ''user'' (u_id u) [] db;
           db \<leftarrow> add_coalesced_outbox (w_uuid4 w 2) (w_utcnow w 8) ''user.password_changed'' ''user''
                   (u_id u) [(''user_id'', JId (u_id u))] db;
           Some (u', token, db) })"

text \<open>\<open>change_password\<close> between its two rate checks and the end; \<open>a\<close> is the signed in user.\<close>

definition change_password ::
  "settings \<Rightarrow> runtime \<Rightarrow> world \<Rightarrow> request \<Rightarrow> change_password_request \<Rightarrow> user \<Rightarrow> (nat \<Rightarrow> database) \<Rightarrow>
   (http_response \<times> database) result" where
  "change_password st rt w rq p a dbs =
     bindR (verify_password rt (w_slot_free w 0) (u_password_hash a) (cp_current_password p)) (\<lambda>valid.
       if \<not> valid then err 401 ''invalid_current_password''
       else
         bindR (hash_password rt (w_slot_free w 1) (w_token w 0) (cp_new_password p)) (\<lambda>replacement_hash.
         bindR (change_password_attempts rt w dbs (u_id a)
                  (hash_session rt (st_secret_key st) (session_identity st rq))
                  (cp_current_password p) (u_password_hash a) [0, 1, 2]) (\<lambda>(u, db).
         bindR (or_error integrity_error (change_password_rows st rt w replacement_hash u db))
           (\<lambda>(u', token, db).
         Inr (session_response st rt w rq 9 2 3 token (json_response (user_dict db u')), db)))))"

definition change_password_endpoint ::
  "('j, 's) store_ops \<Rightarrow> settings \<Rightarrow> runtime \<Rightarrow> world \<Rightarrow> request \<Rightarrow>
   change_password_request \<Rightarrow> database \<Rightarrow> (nat \<Rightarrow> database) \<Rightarrow> 's \<Rightarrow> (http_response \<times> database) result \<times> 's" where
  "change_password_endpoint ops st rt w rq p db1 dbs s =
     (case check_auth_rate ops st rt w 0 rq ''change-password'' (session_identity st rq) s of
        (Inl e, s) \<Rightarrow> (Inl e, s)
      | (Inr _, s) \<Rightarrow>
          (case require_user st rt rq (w_utcnow w 0) db1 of
             Inl e \<Rightarrow> (Inl e, s)
           | Inr a \<Rightarrow>
               (case check_auth_rate ops st rt w 2 rq ''change-password-user'' (uuid_text (u_id a)) s of
                  (Inl e, s) \<Rightarrow> (Inl e, s)
                | (Inr _, s) \<Rightarrow> (change_password st rt w rq p a dbs, s))))"

section \<open>What a new session changes\<close>

lemma cleanup_sessions:
  "cleanup_expired_sessions now n db = db\<lparr>sessions := sessions (cleanup_expired_sessions now n db)\<rparr>"
  by (simp add: cleanup_expired_sessions_def Let_def)

lemma set_newest_first [simp]: "set (newest_first xs) = set xs"
  by (simp add: newest_first_def)

lemma length_newest_first [simp]: "length (newest_first xs) = length xs"
  by (simp add: newest_first_def)

text \<open>The table of sessions after the cleanup and the eviction.\<close>

definition evicted_ids :: "uuid \<Rightarrow> instant \<Rightarrow> session_token list \<Rightarrow> uuid set" where
  "evicted_ids u now xs =
     s_id ` set (drop (MAX_ACTIVE_SESSIONS_PER_USER - 1) (newest_first (active_sessions u now xs)))"

definition kept_sessions :: "settings \<Rightarrow> instant \<Rightarrow> uuid \<Rightarrow> database \<Rightarrow> session_token list" where
  "kept_sessions st now u db =
     (let xs = sessions (cleanup_expired_sessions now (st_session_cleanup_batch_size st) db)
      in delete_where (\<lambda>s. s_id s \<in> evicted_ids u now xs) xs)"

definition session_row :: "settings \<Rightarrow> runtime \<Rightarrow> world \<Rightarrow> nat \<Rightarrow> nat \<Rightarrow> nat \<Rightarrow> user \<Rightarrow> session_token" where
  "session_row st rt w c i t u =
     \<lparr>s_id = w_uuid4 w i, s_token_hash = hash_session rt (st_secret_key st) (w_token w t),
      s_user_id = u_id u, s_credential_version = u_credential_version u,
      s_expires_at = w_utcnow w c + st_session_ttl_hours st * 3600 * second,
      s_last_seen_at = w_utcnow w (c + 1), s_created_at = w_utcnow w (c + 2)\<rparr>"

lemma new_session_eq:
  "new_session st rt w c i t u db =
     map_option (Pair (w_token w t)) (insert_session (session_row st rt w c i t u)
       (db\<lparr>sessions := kept_sessions st (w_utcnow w c) (u_id u) db\<rparr>))"
  by (simp add: new_session_def Let_def evicted_ids_def kept_sessions_def session_row_def
      cleanup_expired_sessions_def map_conv_bind_option comp_def)

lemma new_session_Some:
  "new_session st rt w c i t u db = Some (token, db') \<longleftrightarrow>
     token = w_token w t
     \<and> db' = db\<lparr>sessions := kept_sessions st (w_utcnow w c) (u_id u) db @ [session_row st rt w c i t u]\<rparr>
     \<and> u_id u \<in> user_ids db
     \<and> (\<forall>x \<in> set (kept_sessions st (w_utcnow w c) (u_id u) db).
          \<not> session_clash x (session_row st rt w c i t u))"
  by (auto simp: new_session_eq insert_session_Some session_row_def)

lemma new_session_frame:
  "new_session st rt w c i t u db = Some (token, db') \<Longrightarrow> \<exists>xs. db' = db\<lparr>sessions := xs\<rparr>"
  by (auto simp: new_session_Some)

lemma length_filter_newest: "length (filter P (newest_first xs)) = length (filter P xs)"
proof -
  have "mset (newest_first xs) = mset xs" by (simp add: newest_first_def)
  then show ?thesis by (metis mset_filter size_mset)
qed

lemma eviction_cap:
  "count_where (\<lambda>s. s_user_id s = u \<and> now < s_expires_at s)
     (delete_where (\<lambda>s. s_id s \<in> evicted_ids u now xs) xs) \<le> MAX_ACTIVE_SESSIONS_PER_USER - 1"
proof -
  let ?k = "MAX_ACTIVE_SESSIONS_PER_USER - 1" and ?ys = "newest_first (active_sessions u now xs)"
  have "count_where (\<lambda>s. s_user_id s = u \<and> now < s_expires_at s)
          (delete_where (\<lambda>s. s_id s \<in> evicted_ids u now xs) xs)
        = length (filter (\<lambda>s. s_id s \<notin> evicted_ids u now xs) (active_sessions u now xs))"
    by (simp add: count_where_def delete_where_def active_sessions_def conj_commute)
  also have "\<dots> = length (filter (\<lambda>s. s_id s \<notin> evicted_ids u now xs) (take ?k ?ys @ drop ?k ?ys))"
    by (simp add: length_filter_newest del: filter_append)
  also have "\<dots> = length (filter (\<lambda>s. s_id s \<notin> evicted_ids u now xs) (take ?k ?ys))"
    by (subst filter_append) (auto simp: evicted_ids_def filter_empty_conv)
  also have "\<dots> \<le> ?k"
    by (rule order.trans[OF length_filter_le]) simp
  finally show ?thesis .
qed

lemma set_kept_sessions: "set (kept_sessions st now u db) \<subseteq> set (sessions db)"
  by (auto simp: kept_sessions_def Let_def cleanup_expired_sessions_def)

lemma kept_sessions_cap:
  "count_where (\<lambda>s. s_user_id s = u \<and> now < s_expires_at s) (kept_sessions st now u db)
     \<le> MAX_ACTIVE_SESSIONS_PER_USER - 1"
  unfolding kept_sessions_def Let_def by (rule eviction_cap)

lemma newest_first_sorted:
  "sorted_wrt (\<lambda>a b. (s_created_at b, s_id b) \<le> (s_created_at a, s_id a)) (newest_first xs)"
proof -
  let ?key = "\<lambda>s. (s_created_at s, s_id s)"
  have "sorted_wrt (\<lambda>a b. ?key a \<le> ?key b) (sort_key ?key xs)"
    using sorted_sort_key[of ?key xs] by (simp only: sorted_wrt_map)
  then show ?thesis by (simp add: newest_first_def sorted_wrt_rev)
qed

lemma distinct_newest_first: "distinct xs \<Longrightarrow> distinct (newest_first xs)"
  by (simp add: newest_first_def)

lemma evicted_is_old:
  assumes "distinct xs" and "x \<in> set (drop k (newest_first (active_sessions u now xs)))"
  shows "k \<le> count_where (\<lambda>y. s_user_id y = u \<and> now < s_expires_at y \<and> y \<noteq> x
           \<and> (s_created_at x, s_id x) \<le> (s_created_at y, s_id y)) xs"
proof -
  let ?ys = "newest_first (active_sessions u now xs)"
  let ?Q = "\<lambda>y. y \<noteq> x \<and> (s_created_at x, s_id x) \<le> (s_created_at y, s_id y)"
  have d: "distinct (take k ?ys @ drop k ?ys)"
    using assms(1) by (simp only: append_take_drop_id active_sessions_def distinct_filter distinct_newest_first)
  have s: "sorted_wrt (\<lambda>a b. (s_created_at b, s_id b) \<le> (s_created_at a, s_id a)) (take k ?ys @ drop k ?ys)"
    using newest_first_sorted[of "active_sessions u now xs"] by simp
  have q: "\<forall>y \<in> set (take k ?ys). ?Q y"
    using d s assms(2) by (auto simp: sorted_wrt_append simp del: append_take_drop_id)
  have l: "length (take k ?ys) = k"
    using assms(2) by (cases "k \<le> length ?ys") auto
  have "k = length (filter ?Q (take k ?ys))"
    using q l by (simp add: filter_id_conv[THEN iffD2])
  also have "\<dots> \<le> length (filter ?Q (take k ?ys @ drop k ?ys))"
    by (simp only: filter_append length_append le_add1)
  also have "\<dots> = length (filter ?Q (active_sessions u now xs))"
    by (simp add: length_filter_newest)
  also have "\<dots> = count_where (\<lambda>y. s_user_id y = u \<and> now < s_expires_at y \<and> ?Q y) xs"
    by (simp add: count_where_def active_sessions_def conj_ac)
  finally show ?thesis .
qed

lemma kept_or_old:
  assumes c: "conflict_free session_clash (sessions db)"
    and x: "x \<in> set (sessions db)" "now < s_expires_at x"
    and n: "x \<notin> set (kept_sessions st now u db)"
  shows "s_user_id x = u \<and> MAX_ACTIVE_SESSIONS_PER_USER - 1
           \<le> count_where (\<lambda>y. s_user_id y = u \<and> now < s_expires_at y \<and> y \<noteq> x
               \<and> (s_created_at x, s_id x) \<le> (s_created_at y, s_id y)) (sessions db)"
proof -
  define xs where "xs = sessions (cleanup_expired_sessions now (st_session_cleanup_batch_size st) db)"
  have same: "y = x" if "y \<in> set (sessions db)" "s_id y = s_id x" for y
    using session_table.unique[OF c that(1) x(1)] that(2) by (simp add: session_clash_def)
  have xs_sub: "set xs \<subseteq> set (sessions db)"
    by (auto simp: xs_def cleanup_expired_sessions_def Let_def)
  have x_in: "x \<in> set xs"
  proof (rule ccontr)
    assume "x \<notin> set xs"
    then have "s_id x \<in> s_id ` {s \<in> set (sessions db). s_expires_at s \<le> now}"
      using x(1) by (auto simp: xs_def cleanup_expired_sessions_def Let_def dest: in_set_takeD)
    then obtain y where "y \<in> set (sessions db)" "s_id y = s_id x" "s_expires_at y \<le> now"
      by auto
    with same[of y] x(2) show False by simp
  qed
  have d: "distinct xs"
    using session_table.distinct_rows[OF c]
    by (simp add: xs_def cleanup_expired_sessions_def Let_def delete_where_def)
  have "s_id x \<in> evicted_ids u now xs"
    using n x_in by (auto simp: kept_sessions_def xs_def[symmetric] Let_def)
  then obtain y where y: "y \<in> set (drop (MAX_ACTIVE_SESSIONS_PER_USER - 1) (newest_first (active_sessions u now xs)))"
    and "s_id x = s_id y"
    by (auto simp: evicted_ids_def)
  moreover have "y \<in> set (active_sessions u now xs)"
    using in_set_dropD[OF y] by simp
  ultimately have e: "x \<in> set (drop (MAX_ACTIVE_SESSIONS_PER_USER - 1) (newest_first (active_sessions u now xs)))"
    and u: "s_user_id x = u"
    using same[of y] xs_sub by (auto simp: active_sessions_def)
  have "count_where P xs \<le> count_where P (sessions db)" for P
    by (simp add: xs_def cleanup_expired_sessions_def Let_def count_where_delete_le)
  then show ?thesis
    using evicted_is_old[OF d e] u order.trans by blast
qed

section \<open>Signing in\<close>

lemma verify_password_ok [simp]:
  "verify_password rt free h pw = Inr b \<longleftrightarrow> free \<and> b = (rt_argon_verify rt h pw = Verified)"
  by (auto simp: verify_password_def split: argon_outcome.splits)

lemma update_where_same:
  assumes "fetch key k xs = Some r" and "key (f r) = k"
  shows "fetch key k (update_where (\<lambda>x. key x = k) f xs) = Some (f r)"
  using assms by (induction xs) (auto split: if_splits)

text \<open>
  What a successful sequence of attempts found: the account as stored in the database of
  one attempt, active, with a hash the given password verifies against. \<open>H\<close> says that
  the hash the loop starts with was verified.
\<close>

lemma login_attempts_sound:
  assumes "login_attempts rt w dbs cand pw h repl ks = Inr (u, db)"
    and H: "rt_argon_verify rt h pw = Verified"
  shows "\<exists>k \<in> set ks. \<exists>u0. fetch u_id cand (users (dbs k)) = Some u0 \<and> u_active u0
    \<and> rt_argon_verify rt (u_password_hash u0) pw = Verified
    \<and> (\<exists>h'. u = u0\<lparr>u_password_hash := h'\<rparr>) \<and> (\<exists>xs. db = (dbs k)\<lparr>users := xs\<rparr>)
    \<and> fetch u_id cand (users db) = Some u"
  using assms
proof (induction ks arbitrary: h repl)
  case Nil
  then show ?case by simp
next
  case (Cons k ks)
  obtain u0 where f: "fetch u_id cand (users (dbs k)) = Some u0" and a: "u_active u0"
    using Cons.prems(1) by (auto split: option.splits if_splits)
  show ?case
  proof (cases "u_password_hash u0 = h")
    case True
    have eq: "u = (case repl of None \<Rightarrow> u0 | Some h' \<Rightarrow> u0\<lparr>u_password_hash := h'\<rparr>)"
      and db: "db = (case repl of None \<Rightarrow> dbs k | Some h' \<Rightarrow> (dbs k)\<lparr>users :=
        update_where (\<lambda>x. u_id x = cand) (\<lambda>x. x\<lparr>u_password_hash := h'\<rparr>) (users (dbs k))\<rparr>)"
      using Cons.prems(1) f a True by (auto split: option.splits)
    have "u = u0\<lparr>u_password_hash := (case repl of None \<Rightarrow> u_password_hash u0 | Some h' \<Rightarrow> h')\<rparr>"
      using eq by (cases repl) simp_all
    then have "\<exists>h'. u = u0\<lparr>u_password_hash := h'\<rparr>" by blast
    moreover have "db = (dbs k)\<lparr>users := (case repl of None \<Rightarrow> users (dbs k) | Some h' \<Rightarrow>
        update_where (\<lambda>x. u_id x = cand) (\<lambda>x. x\<lparr>u_password_hash := h'\<rparr>) (users (dbs k)))\<rparr>"
      using db by (cases repl) simp_all
    moreover from this have "\<exists>xs. db = (dbs k)\<lparr>users := xs\<rparr>" by blast
    moreover have "fetch u_id cand (users db) = Some u"
      using eq db f by (cases repl) (auto intro!: update_where_same dest: fetch_Some)
    ultimately show ?thesis
      using f a True Cons.prems(2) by (intro bexI[of _ k] exI[of _ u0]) auto
  next
    case False
    then obtain repl' where v: "rt_argon_verify rt (u_password_hash u0) pw = Verified"
      and r: "login_attempts rt w dbs cand pw (u_password_hash u0) repl' ks = Inr (u, db)"
      using Cons.prems(1) f a by (auto split: if_splits)
    show ?thesis using Cons.IH[OF r v] by auto
  qed
qed

lemma session_cookie_response:
  "SetCookie (session_cookie_name st) token (st_session_ttl_hours st * 3600) (secure_cookies st)
     \<in> set (rs_cookies (session_response st rt w rq c t n token resp))"
  by (simp add: session_response_def set_csrf_cookie_def set_session_cookie_def Let_def)

text \<open>A session row just written is the one its token finds.\<close>

lemma current_user_new_session:
  assumes n: "new_session st rt w c i t u db = Some (token, db1)"
    and f: "\<exists>xs. db2 = db1\<lparr>audit_events := xs\<rparr>"
    and u: "fetch u_id (u_id u) (users db) = Some u" "u_active u"
    and k: "cookie_of rq (session_cookie_name st) = Some (w_token w t)" "w_token w t \<noteq> []"
  shows "current_user st rt rq now db2 =
    (if now < w_utcnow w c + st_session_ttl_hours st * 3600 * second then Inr u
     else err 401 ''invalid_session'')"
proof -
  let ?r = "session_row st rt w c i t u"
  have d: "db1 = db\<lparr>sessions := kept_sessions st (w_utcnow w c) (u_id u) db @ [?r]\<rparr>"
    and nc: "\<forall>x \<in> set (kept_sessions st (w_utcnow w c) (u_id u) db). \<not> session_clash x ?r"
    using n by (simp_all add: new_session_Some)
  have "fetch s_token_hash (s_token_hash ?r) (kept_sessions st (w_utcnow w c) (u_id u) db) = None"
    using nc by (auto simp: fetch_None session_clash_def)
  then have "fetch s_token_hash (hash_session rt (st_secret_key st) (w_token w t)) (sessions db2) = Some ?r"
    using f d by (auto simp: fetch_append session_row_def)
  moreover have "users db2 = users db" using f d by auto
  ultimately show ?thesis
    using u k by (simp add: current_user_def session_row_def not_less)
qed

text \<open>
  C8: login. It succeeds only for an account that, in the database of the committing
  attempt, exists, is active and has a password hash that Argon2 verified against the
  submitted password; the session cookie it sets then authenticates exactly this account,
  exactly until the session's expiry.
\<close>

theorem login_signs_in:
  assumes "login dummy_hash st rt w rq p db1 dbs = Inr (resp, db')" and "w_token w 0 \<noteq> []"
  shows "\<exists>k \<in> {0, 1, 2}. \<exists>c \<in> set (users db1). \<exists>u0 u.
    lower (u_email c) = lower (strip (lg_email p))
    \<and> fetch u_id (u_id c) (users (dbs k)) = Some u0 \<and> u_active u0
    \<and> rt_argon_verify rt (u_password_hash u0) (lg_password p) = Verified
    \<and> (\<exists>h. u = u0\<lparr>u_password_hash := h\<rparr>)
    \<and> SetCookie (session_cookie_name st) (w_token w 0) (st_session_ttl_hours st * 3600)
        (secure_cookies st) \<in> set (rs_cookies resp)
    \<and> (\<forall>rq' now. cookie_of rq' (session_cookie_name st) = Some (w_token w 0) \<longrightarrow>
        current_user st rt rq' now db' =
        (if now < w_utcnow w 0 + st_session_ttl_hours st * 3600 * second then Inr u
         else err 401 ''invalid_session''))"
proof -
  obtain c repl u db token db2 where c: "find (\<lambda>u. lower (u_email u) = lower (strip (lg_email p))) (users db1) = Some c"
    and v: "rt_argon_verify rt (u_password_hash c) (lg_password p) = Verified"
    and a: "login_attempts rt w dbs (u_id c) (lg_password p) (u_password_hash c) repl [0, 1, 2] = Inr (u, db)"
    and n: "new_session st rt w 0 0 0 u db = Some (token, db2)"
    and au: "add_coalesced_audit (w_uuid4 w 1) (w_utcnow w 3) (u_id u) ''auth.login'' ''user''
               (u_id u) [] db2 = Some db'"
    and r: "resp = session_response st rt w rq 4 1 2 token (json_response (user_dict db' u))"
    using assms(1)
    by (auto simp: login_def Let_def bind_eq_Some_conv simp del: login_attempts.simps
        split: option.splits if_splits)
  obtain k u0 where k: "k \<in> {0, 1, 2}" and u0: "fetch u_id (u_id c) (users (dbs k)) = Some u0"
    "u_active u0" "rt_argon_verify rt (u_password_hash u0) (lg_password p) = Verified"
    and u: "\<exists>h. u = u0\<lparr>u_password_hash := h\<rparr>" and fu: "fetch u_id (u_id c) (users db) = Some u"
    using login_attempts_sound[OF a v] by auto
  have t: "token = w_token w 0" using n by (simp add: new_session_Some)
  have ua: "u_active u" "u_id u = u_id c" using u u0(2) fu by (auto dest: fetch_Some)
  have "current_user st rt rq' now db' =
      (if now < w_utcnow w 0 + st_session_ttl_hours st * 3600 * second then Inr u
       else err 401 ''invalid_session'')"
    if "cookie_of rq' (session_cookie_name st) = Some (w_token w 0)" for rq' now
    using current_user_new_session[OF n add_coalesced_audit_frame[OF au] _ ua(1) that assms(2)] fu ua(2)
    by simp
  moreover have "c \<in> set (users db1)" "lower (u_email c) = lower (strip (lg_email p))"
    using c by (auto simp: find_Some_iff)
  moreover have "SetCookie (session_cookie_name st) (w_token w 0) (st_session_ttl_hours st * 3600)
      (secure_cookies st) \<in> set (rs_cookies resp)"
    using session_cookie_response r t by blast
  ultimately show ?thesis
    using k u0 u
    by (intro bexI[of _ k] bexI[of _ c] exI[of _ u0] exI[of _ u] conjI allI impI) assumption+
qed

section \<open>Changing the password\<close>

lemma change_password_attempts_sound:
  assumes "change_password_attempts rt w dbs uid sh pw h ks = Inr (u, db)"
    and H: "rt_argon_verify rt h pw = Verified"
  shows "\<exists>k \<in> set ks. db = dbs k \<and> fetch u_id uid (users db) = Some u \<and> u_active u
    \<and> rt_argon_verify rt (u_password_hash u) pw = Verified
    \<and> (\<exists>s \<in> set (sessions db). s_token_hash s = sh \<and> s_user_id s = uid
          \<and> s_credential_version s = u_credential_version u \<and> w_utcnow w (1 + k) < s_expires_at s)"
  using assms
proof (induction ks arbitrary: h)
  case Nil
  then show ?case by simp
next
  case (Cons k ks)
  obtain u0 s where f: "fetch u_id uid (users (dbs k)) = Some u0" and a: "u_active u0"
    and s: "find (\<lambda>s. s_token_hash s = sh \<and> s_user_id s = uid) (sessions (dbs k)) = Some s"
      "w_utcnow w (1 + k) < s_expires_at s" "s_credential_version s = u_credential_version u0"
    using Cons.prems(1) by (auto split: option.splits if_splits)
  show ?case
  proof (cases "u_password_hash u0 = h")
    case True
    then have "u = u0" "db = dbs k"
      using Cons.prems(1) f a s by auto
    with f a s True Cons.prems(2) show ?thesis
      by (intro bexI[of _ k]) (auto simp: find_Some_iff)
  next
    case False
    then have v: "rt_argon_verify rt (u_password_hash u0) pw = Verified"
      and r: "change_password_attempts rt w dbs uid sh pw (u_password_hash u0) ks = Inr (u, db)"
      using Cons.prems(1) f a s by (auto split: if_splits)
    show ?thesis using Cons.IH[OF r v] by auto
  qed
qed

lemma current_user_sessions:
  assumes "current_user st rt rq now db = Inr v"
  shows "\<exists>token s. cookie_of rq (session_cookie_name st) = Some token
    \<and> s \<in> set (sessions db) \<and> s_token_hash s = hash_session rt (st_secret_key st) token
    \<and> now < s_expires_at s \<and> fetch u_id (s_user_id s) (users db) = Some v
    \<and> u_active v \<and> s_credential_version s = u_credential_version v"
  using assms
  by (auto simp: current_user_def not_le split: option.splits if_splits dest: fetch_Some)

lemma kept_none_of_user:
  assumes "\<forall>s \<in> set (sessions db). s_user_id s \<noteq> u"
  shows "filter (\<lambda>s. s_user_id s = u) (kept_sessions st now u' db) = []"
  using assms set_kept_sessions by (fastforce simp: filter_empty_conv)

lemma change_password_rows_Some:
  assumes "change_password_rows st rt w h u db = Some (u', token, db')"
  defines "db0 \<equiv> db\<lparr>users := update_where (\<lambda>x. u_id x = u_id u) (\<lambda>_. u') (users db),
                  sessions := delete_where (\<lambda>s. s_user_id s = u_id u) (sessions db)\<rparr>"
  shows "u' = u\<lparr>u_password_hash := h, u_password_change_required := False,
                 u_credential_version := u_credential_version u + 1\<rparr>
    \<and> token = w_token w 1 \<and> users db' = users db0
    \<and> sessions db' = kept_sessions st (w_utcnow w 4) (u_id u) db0 @ [session_row st rt w 4 0 1 u']"
  using assms(1) unfolding db0_def
  by (auto simp: change_password_rows_def Let_def bind_eq_Some_conv new_session_Some
      dest!: add_coalesced_audit_frame add_coalesced_outbox_frame)

text \<open>
  C9: a password change revokes every session of the account. It succeeds only when the
  current password was verified against the stored hash of the database it commits to;
  afterwards the account has exactly one session, the one the response carries, so no
  cookie with another session hash authenticates as the account any more, and whoever
  does has the new hash and the next credential version.
\<close>

theorem change_password_revokes:
  assumes "change_password st rt w rq p a dbs = Inr (resp, db')"
  shows "\<exists>k \<in> {0, 1, 2}. \<exists>u. fetch u_id (u_id a) (users (dbs k)) = Some u
    \<and> rt_argon_verify rt (u_password_hash u) (cp_current_password p) = Verified
    \<and> filter (\<lambda>s. s_user_id s = u_id a) (sessions db')
        = [session_row st rt w 4 0 1 (u\<lparr>u_credential_version := u_credential_version u + 1\<rparr>)]
    \<and> (\<forall>rq' now v. current_user st rt rq' now db' = Inr v \<longrightarrow> u_id v = u_id a \<longrightarrow>
        u_credential_version v = u_credential_version u + 1
        \<and> u_password_hash v = rt_argon_hash rt (w_token w 0) (cp_new_password p)
        \<and> (\<exists>token. cookie_of rq' (session_cookie_name st) = Some token
            \<and> hash_session rt (st_secret_key st) token
              = hash_session rt (st_secret_key st) (w_token w 1)))"
proof -
  let ?h = "rt_argon_hash rt (w_token w 0) (cp_new_password p)"
  obtain u db u' token where v: "rt_argon_verify rt (u_password_hash a) (cp_current_password p) = Verified"
    and at: "change_password_attempts rt w dbs (u_id a)
       (hash_session rt (st_secret_key st) (session_identity st rq)) (cp_current_password p)
       (u_password_hash a) [0, 1, 2] = Inr (u, db)"
    and rows: "change_password_rows st rt w ?h u db = Some (u', token, db')"
    using assms
    by (auto simp: change_password_def hash_password_def simp del: change_password_attempts.simps
        split: if_splits)
  obtain k where k: "k \<in> {0, 1, 2}" "db = dbs k" and f: "fetch u_id (u_id a) (users db) = Some u"
    and ver: "rt_argon_verify rt (u_password_hash u) (cp_current_password p) = Verified"
    using change_password_attempts_sound[OF at v] by auto
  have id: "u_id u = u_id a" using f by (auto dest: fetch_Some)
  note R = change_password_rows_Some[OF rows]
  have only: "filter (\<lambda>s. s_user_id s = u_id a) (sessions db') = [session_row st rt w 4 0 1 u']"
    using R by (simp add: kept_none_of_user id) (simp add: session_row_def id)
  have row: "session_row st rt w 4 0 1 u' =
      session_row st rt w 4 0 1 (u\<lparr>u_credential_version := u_credential_version u + 1\<rparr>)"
    using R by (simp add: session_row_def)
  have fu: "fetch u_id (u_id a) (users db') = Some u'"
    using R f id by (simp add: update_where_same)
  have "u_credential_version v = u_credential_version u + 1 \<and> u_password_hash v = ?h
      \<and> (\<exists>token. cookie_of rq' (session_cookie_name st) = Some token
          \<and> hash_session rt (st_secret_key st) token = hash_session rt (st_secret_key st) (w_token w 1))"
    if c: "current_user st rt rq' now db' = Inr v" "u_id v = u_id a" for rq' now v
  proof -
    obtain t s where s: "cookie_of rq' (session_cookie_name st) = Some t" "s \<in> set (sessions db')"
      "s_token_hash s = hash_session rt (st_secret_key st) t"
      "fetch u_id (s_user_id s) (users db') = Some v"
      using current_user_sessions[OF c(1)] by auto
    then have su: "s_user_id s = u_id a" using c(2) by (auto dest: fetch_Some)
    then have "s \<in> set (filter (\<lambda>s. s_user_id s = u_id a) (sessions db'))" using s(2) by simp
    then have "s = session_row st rt w 4 0 1 u'" unfolding only by simp
    moreover have "v = u'" using s(4) fu su by simp
    ultimately show ?thesis using s R by (auto simp: session_row_def)
  qed
  then show ?thesis using k f ver only row
    by (intro bexI[of _ k] exI[of _ u] conjI allI impI) auto
qed

section \<open>Signing out\<close>

text \<open>
  Logout. When the session was found, the cookie that was sent does not authenticate
  anybody afterwards, whatever else happened between the two reads of the session, and
  the response deletes it.
\<close>

theorem logout_ends_session:
  assumes "logout st rt w rq db1 db2 = Inr (resp, db')"
    and "cookie_of rq (session_cookie_name st) = Some token" and "token \<noteq> []"
    and "fetch s_token_hash (hash_session rt (st_secret_key st) token) (sessions db1) = Some s"
    and "s_user_id s \<in> user_ids db2" and "conflict_free session_clash (sessions db2)"
  shows "current_user st rt rq now db' = err 401 ''invalid_session''
    \<and> DeleteCookie (session_cookie_name st) (secure_cookies st) \<in> set (rs_cookies resp)"
proof -
  let ?h = "hash_session rt (st_secret_key st) token"
  obtain u where u: "fetch u_id (s_user_id s) (users db2) = Some u"
    using assms(5) by (metis fetch_None not_None_eq)
  have rows: "logout_rows st rt w token db1 db2 = Some db'"
    and resp: "DeleteCookie (session_cookie_name st) (secure_cookies st) \<in> set (rs_cookies resp)"
    using assms(1-3) by (auto simp: logout_def Let_def set_csrf_cookie_def)
  have "fetch s_token_hash ?h (sessions db') = None"
  proof (cases "fetch s_token_hash ?h (sessions db2)")
    case None
    then show ?thesis using rows assms(4) u by (simp add: logout_rows_def Let_def)
  next
    case (Some s2)
    then have "sessions db' = delete_where (\<lambda>x. s_id x = s_id s2) (sessions db2)"
      using rows assms(4) u
      by (auto simp: logout_rows_def Let_def dest!: add_coalesced_audit_frame)
    moreover have "x = s2" if "x \<in> set (sessions db2)" "s_token_hash x = ?h" for x
      using session_table.unique[OF assms(6) that(1)] fetch_Some[OF Some] that(2)
      by (auto simp: session_clash_def)
    ultimately show ?thesis by (auto simp: fetch_None)
  qed
  then show ?thesis using assms(2,3) resp by (simp add: current_user_def)
qed

section \<open>Registering\<close>

lemma use_registration_code_Some:
  "use_registration_code code db = Some db' \<longleftrightarrow>
     (case code of None \<Rightarrow> db' = db
      | Some r \<Rightarrow> code_check (r\<lparr>r_use_count := r_use_count r + 1\<rparr>)
          \<and> db' = db\<lparr>registration_codes := update_where (\<lambda>x. r_id x = r_id r)
                 (\<lambda>x. x\<lparr>r_use_count := r_use_count r + 1\<rparr>) (registration_codes db)\<rparr>)"
  by (auto simp: use_registration_code_def split: option.splits)

lemma registration_code_sound:
  assumes "registration_code_or_denied st rt now db e access_code = Inr code"
  shows "(e_registration_access_mode e = OpenAccess \<longrightarrow> code = None)
    \<and> (e_registration_access_mode e = CodeAccess \<longrightarrow> (\<exists>r. code = Some r
        \<and> r \<in> set (registration_codes db) \<and> r_event_id r = e_id e
        \<and> r_token_hash r = hash_registration_access rt (st_secret_key st)
            (case access_code of None \<Rightarrow> [] | Some c \<Rightarrow> c)
        \<and> r_active r \<and> r_revoked_at r = None
        \<and> (\<forall>t. aware (r_expires_at r) = Some t \<longrightarrow> now < t)
        \<and> (\<forall>n. r_max_uses r = Some n \<longrightarrow> r_use_count r < n)))"
  using assms
  by (cases "e_registration_access_mode e")
    (auto simp: registration_code_or_denied_def Let_def find_Some_iff not_le
      split: option.splits if_splits)

lemma register_rows_Some:
  assumes "register_rows st rt w u e code db = Some (token, db')"
  shows "users db' = users db @ [u] \<and> (\<forall>x \<in> set (users db). \<not> user_clash x u)
    \<and> registration_codes db' = (case code of None \<Rightarrow> registration_codes db
        | Some r \<Rightarrow> update_where (\<lambda>x. r_id x = r_id r)
            (\<lambda>x. x\<lparr>r_use_count := r_use_count r + 1\<rparr>) (registration_codes db))
    \<and> (if e_team_mode e = IndividualMode
       then \<exists>t m. teams db' = teams db @ [t] \<and> memberships db' = memberships db @ [m]
         \<and> t_creator_id t = u_id u \<and> m_user_id m = u_id u \<and> m_team_id m = t_id t \<and> m_role m = Owner
         \<and> t_id t \<notin> team_ids db \<and> (\<forall>x \<in> set (memberships db). m_user_id x \<noteq> u_id u)
       else teams db' = teams db \<and> memberships db' = memberships db)"
  using assms
  by (cases code)
    (force simp: register_rows_def create_solo_team_def bind_eq_Some_conv insert_Some new_session_Some
      add_audit_Some add_outbox_Some use_registration_code_Some team_clash_def membership_clash_def
      split: if_splits)+

text \<open>
  C7: registration. What a successful registration commits: the event is open in the
  database it commits to, one participant is added, never past the capacity, under an
  email and name nobody holds in any case; in code mode one active, unexpired code of
  this event with uses left is charged exactly one use and no other code changes; in an
  individual event the participant owns a new team of one.
\<close>

theorem register_commits:
  assumes "register st rt w rq p db1 db2 = Inr (resp, db')"
  shows "\<exists>e u. current_event db2 = Some e \<and> state_allows_registration e (w_utcnow w 2)
    \<and> users db' = users db2 @ [u] \<and> u_role u = Participant \<and> u_email u = lower (strip (rg_email p))
    \<and> u_password_hash u = rt_argon_hash rt (w_token w 0) (rg_password p)
    \<and> (\<forall>x \<in> set (users db2). lower (u_email x) \<noteq> u_email u \<and> lower (u_username x) \<noteq> lower (u_username u))
    \<and> count_where (\<lambda>x. u_role x = Participant) (users db') \<le> MAX_PARTICIPANT_USERS
    \<and> (e_registration_access_mode e = OpenAccess \<longrightarrow> registration_codes db' = registration_codes db2)
    \<and> (e_registration_access_mode e = CodeAccess \<longrightarrow> (\<exists>r \<in> set (registration_codes db2).
        r_event_id r = e_id e \<and> r_active r \<and> r_revoked_at r = None
        \<and> r_token_hash r = hash_registration_access rt (st_secret_key st)
            (case rg_access_code p of None \<Rightarrow> [] | Some c \<Rightarrow> c)
        \<and> (\<forall>t. aware (r_expires_at r) = Some t \<longrightarrow> w_utcnow w 3 < t)
        \<and> (\<forall>n. r_max_uses r = Some n \<longrightarrow> r_use_count r < n)
        \<and> registration_codes db' = update_where (\<lambda>x. r_id x = r_id r)
            (\<lambda>x. x\<lparr>r_use_count := r_use_count r + 1\<rparr>) (registration_codes db2)))
    \<and> (e_team_mode e = IndividualMode \<longrightarrow>
        (\<exists>t m. teams db' = teams db2 @ [t] \<and> memberships db' = memberships db2 @ [m]
          \<and> m_user_id m = u_id u \<and> m_team_id m = t_id t \<and> m_role m = Owner))"
proof -
  let ?email = "lower (strip (rg_email p))" and ?name = "strip (rg_username p)"
  let ?u = "registered_user w ?email ?name (rt_argon_hash rt (w_token w 0) (rg_password p))"
  obtain e code token where
    g: "registration_gate st rt (w_utcnow w 2) (w_utcnow w 3) p ?email ?name db2 = Inr (e, code)"
    and rows: "register_rows st rt w ?u e code db2 = Some (token, db')"
    using assms
    by (auto simp: register_def Let_def hash_password_def split: if_splits)
  have e: "current_event db2 = Some e" "state_allows_registration e (w_utcnow w 2)"
    and code: "registration_code_or_denied st rt (w_utcnow w 3) db2 e (rg_access_code p) = Inr code"
    and fresh: "\<forall>x \<in> set (users db2). lower (u_email x) \<noteq> ?email \<and> lower (u_username x) \<noteq> lower ?name"
    and cap: "count_where (\<lambda>x. u_role x = Participant) (users db2) < MAX_PARTICIPANT_USERS"
    using g by (auto simp: registration_gate_def split: option.splits if_splits)
  note R = register_rows_Some[OF rows]
  note S = registration_code_sound[OF code]
  have us: "users db' = users db2 @ [?u]" using R by blast
  have op: "registration_codes db' = registration_codes db2" if "e_registration_access_mode e = OpenAccess"
    using R S that by simp
  have cd: "\<exists>r \<in> set (registration_codes db2).
        r_event_id r = e_id e \<and> r_active r \<and> r_revoked_at r = None
        \<and> r_token_hash r = hash_registration_access rt (st_secret_key st)
            (case rg_access_code p of None \<Rightarrow> [] | Some c \<Rightarrow> c)
        \<and> (\<forall>t. aware (r_expires_at r) = Some t \<longrightarrow> w_utcnow w 3 < t)
        \<and> (\<forall>n. r_max_uses r = Some n \<longrightarrow> r_use_count r < n)
        \<and> registration_codes db' = update_where (\<lambda>x. r_id x = r_id r)
            (\<lambda>x. x\<lparr>r_use_count := r_use_count r + 1\<rparr>) (registration_codes db2)"
    if m: "e_registration_access_mode e = CodeAccess"
  proof -
    obtain r where r: "code = Some r" "r \<in> set (registration_codes db2)"
      using S m by blast
    then show ?thesis using R S m by (intro bexI[of _ r]) auto
  qed
  have tm: "\<exists>t m. teams db' = teams db2 @ [t] \<and> memberships db' = memberships db2 @ [m]
          \<and> m_user_id m = u_id ?u \<and> m_team_id m = t_id t \<and> m_role m = Owner"
    if "e_team_mode e = IndividualMode"
    using R that by auto
  show ?thesis
    using e us fresh cap op cd tm
    by (intro exI[of _ e] exI[of _ ?u] conjI impI) (simp_all add: registered_user_def)
qed

section \<open>The bound on sessions\<close>

text \<open>
  Opening a session leaves the account with at most ten unexpired sessions, and an
  unexpired session is only dropped when it belongs to the account and at least nine
  sessions of the account are at least as new; every other unexpired session is kept.
\<close>

theorem session_table_bounded:
  assumes "new_session st rt w c i t u db = Some (token, db')"
    and "conflict_free session_clash (sessions db)"
  shows "count_where (\<lambda>s. s_user_id s = u_id u \<and> w_utcnow w c < s_expires_at s) (sessions db')
      \<le> MAX_ACTIVE_SESSIONS_PER_USER
    \<and> (\<forall>x \<in> set (sessions db). w_utcnow w c < s_expires_at x \<longrightarrow> x \<notin> set (sessions db') \<longrightarrow>
        s_user_id x = u_id u \<and> MAX_ACTIVE_SESSIONS_PER_USER - 1
          \<le> count_where (\<lambda>y. s_user_id y = u_id u \<and> w_utcnow w c < s_expires_at y \<and> y \<noteq> x
              \<and> (s_created_at x, s_id x) \<le> (s_created_at y, s_id y)) (sessions db))"
proof -
  let ?kept = "kept_sessions st (w_utcnow w c) (u_id u) db"
  have d: "sessions db' = ?kept @ [session_row st rt w c i t u]"
    using assms(1) by (simp add: new_session_Some)
  have "count_where (\<lambda>s. s_user_id s = u_id u \<and> w_utcnow w c < s_expires_at s) ?kept
      \<le> MAX_ACTIVE_SESSIONS_PER_USER - 1"
    by (rule kept_sessions_cap)
  moreover have "0 < MAX_ACTIVE_SESSIONS_PER_USER" by (simp add: MAX_ACTIVE_SESSIONS_PER_USER_def)
  ultimately have cap: "count_where (\<lambda>s. s_user_id s = u_id u \<and> w_utcnow w c < s_expires_at s) (sessions db')
      \<le> MAX_ACTIVE_SESSIONS_PER_USER"
    by (simp add: d) linarith
  have "x \<in> set (sessions db) \<Longrightarrow> w_utcnow w c < s_expires_at x \<Longrightarrow> x \<notin> set (sessions db') \<Longrightarrow>
      s_user_id x = u_id u \<and> MAX_ACTIVE_SESSIONS_PER_USER - 1
        \<le> count_where (\<lambda>y. s_user_id y = u_id u \<and> w_utcnow w c < s_expires_at y \<and> y \<noteq> x
              \<and> (s_created_at x, s_id x) \<le> (s_created_at y, s_id y)) (sessions db)" for x
    by (rule kept_or_old[OF assms(2), where st = st]) (simp_all add: d)
  with cap show ?thesis by blast
qed

section \<open>Examples\<close>

definition sample_world :: world where
  "sample_world = \<lparr>w_utcnow = (\<lambda>_. 0), w_monotonic = (\<lambda>_. 0), w_uuid4 = (\<lambda>i. 100 + i),
     w_token = (\<lambda>i. CHR ''t'' # replicate i (CHR ''x'')), w_slot_free = (\<lambda>_. True)\<rparr>"

definition sample_event :: event where
  "sample_event = \<lparr>e_id = 1, e_name = ''CTF'', e_slug = ''ctf'', e_description_md = [],
     e_state = Registration, e_registration_at = None, e_start_at = None, e_freeze_at = None,
     e_end_at = None, e_team_mode = TeamMode, e_registration_access_mode = OpenAccess,
     e_created_at = 0, e_updated_at = 0\<rparr>"

definition sample_user :: "uuid \<Rightarrow> string \<Rightarrow> user" where
  "sample_user i name = \<lparr>u_id = i, u_email = name @ ''@a.b'', u_username = name,
     u_password_hash = ''s$secret'', u_role = Participant, u_active = True,
     u_password_change_required = False, u_credential_version = 0, u_created_at = 0\<rparr>"

definition sample_session :: "uuid \<Rightarrow> uuid \<Rightarrow> session_token" where
  "sample_session i u = \<lparr>s_id = i, s_token_hash = hash_session sample_runtime
       (st_secret_key sample_settings) ''old'', s_user_id = u, s_credential_version = 0,
     s_expires_at = 10, s_last_seen_at = 0, s_created_at = 0\<rparr>"

definition auth_db :: database where
  "auth_db = empty_db\<lparr>events := [sample_event], users := [sample_user 7 ''ann'', sample_user 8 ''bob''],
     sessions := [sample_session 20 7]\<rparr>"

definition sample_request :: "string \<Rightarrow> request" where
  "sample_request token = \<lparr>rq_cookies = [(session_cookie_name sample_settings, token)],
     rq_client = Some ''10.0.0.1''\<rparr>"

lemmas sample_defs = sample_world_def sample_event_def sample_user_def sample_session_def auth_db_def
  sample_request_def empty_db_def sample_runtime_def sample_settings_def

lemma auth_db_sessions: "conflict_free session_clash (sessions auth_db)"
  by (simp add: auth_db_def conflict_free_def)

lemma session_table_bounded_witness:
  "\<exists>token db'. new_session sample_settings sample_runtime sample_world 0 0 0 (sample_user 7 ''ann'') auth_db
      = Some (token, db')
    \<and> count_where (\<lambda>s. s_user_id s = 7 \<and> 0 < s_expires_at s) (sessions db') \<le> 10"
proof -
  let ?n = "new_session sample_settings sample_runtime sample_world 0 0 0 (sample_user 7 ''ann'') auth_db"
  have "?n \<noteq> None"
    by (simp add: new_session_eq insert_session_def kept_sessions_def Let_def cleanup_expired_sessions_def
        evicted_ids_def session_row_def insert_row_def session_clash_def sample_defs
        hash_session_def keyed_hash_def hash_message_def)
  then obtain token db' where n: "?n = Some (token, db')" by auto
  show ?thesis
    using session_table_bounded[OF n auth_db_sessions] n
    by (auto simp: sample_world_def sample_user_def MAX_ACTIVE_SESSIONS_PER_USER_def)
qed

text \<open>Ann logs in, changes her password and logs out; Eve registers.\<close>

lemmas run_defs = new_session_eq insert_session_def kept_sessions_def cleanup_expired_sessions_def
  evicted_ids_def session_row_def insert_row_def session_clash_def sample_defs hash_session_def
  keyed_hash_def hash_message_def first_by_def

definition login_example :: "(http_response \<times> database) result" where
  "login_example = login ''s$'' sample_settings sample_runtime sample_world (sample_request [])
     \<lparr>lg_email = '' Ann@A.b'', lg_password = ''secret''\<rparr> auth_db (\<lambda>_. auth_db)"

definition password_example :: "(http_response \<times> database) result" where
  "password_example = change_password sample_settings sample_runtime sample_world (sample_request ''old'')
     \<lparr>cp_current_password = ''secret'', cp_new_password = ''another secret''\<rparr> (sample_user 7 ''ann'')
     (\<lambda>_. auth_db)"

definition logout_example :: "(http_response \<times> database) result" where
  "logout_example = logout sample_settings sample_runtime sample_world (sample_request ''old'') auth_db auth_db"

definition register_example :: "(http_response \<times> database) result" where
  "register_example = register sample_settings sample_runtime sample_world (sample_request [])
     \<lparr>rg_email = ''Eve@a.b'', rg_username = ''eve'', rg_password = ''a long password'',
      rg_access_code = None\<rparr> auth_db auth_db"

lemma login_example_ok: "is_ok login_example"
  by code_simp

lemma password_example_ok: "is_ok password_example"
  by code_simp

lemma logout_example_ok: "is_ok logout_example"
  by code_simp

lemma register_example_ok: "is_ok register_example"
  by (simp add: register_example_def register_def Let_def registration_gate_def
      registration_code_or_denied_def state_allows_registration_def at_or_before_def still_before_def
      current_event_def current_event_query_def lower_def lower_char_def strip_def is_space_def
      hash_password_def registered_user_def register_rows_def insert_user_def user_clash_def
      MAX_PARTICIPANT_USERS_def add_audit_def add_outbox_def insert_audit_def insert_outbox_def
      use_registration_code_def run_defs char_of_def bit_0)

lemma login_signs_in_witness:
  "\<exists>resp db' u. login_example = Inr (resp, db') \<and> u_active u
     \<and> current_user sample_settings sample_runtime (sample_request ''t'') 5 db' = Inr u"
proof -
  obtain resp db' where l: "login_example = Inr (resp, db')"
    using is_ok_pair[OF login_example_ok] by auto
  have t: "w_token sample_world 0 \<noteq> []" "w_token sample_world 0 = ''t''"
    by (simp_all add: sample_world_def)
  have c: "cookie_of (sample_request ''t'') (session_cookie_name sample_settings) = Some (w_token sample_world 0)"
    by (simp add: cookie_of_def sample_request_def t(2))
  have e: "(5 :: int) < w_utcnow sample_world 0 + st_session_ttl_hours sample_settings * 3600 * second"
    by (simp add: sample_world_def sample_settings_def second_def)
  obtain u0 u h where u: "u_active u0" "u = u0\<lparr>u_password_hash := h\<rparr>"
    and a: "\<And>rq' now. cookie_of rq' (session_cookie_name sample_settings) = Some (w_token sample_world 0) \<Longrightarrow>
        current_user sample_settings sample_runtime rq' now db' =
        (if now < w_utcnow sample_world 0 + st_session_ttl_hours sample_settings * 3600 * second
         then Inr u else err 401 ''invalid_session'')"
    using login_signs_in[OF l[unfolded login_example_def] t(1)] by blast
  have "current_user sample_settings sample_runtime (sample_request ''t'') 5 db' = Inr u"
    using a[OF c] e by simp
  then show ?thesis using l u by (intro exI[of _ resp] exI[of _ db'] exI[of _ u] conjI) simp_all
qed

lemma change_password_revokes_witness:
  "\<exists>resp db'. password_example = Inr (resp, db')
     \<and> length (filter (\<lambda>s. s_user_id s = 7) (sessions db')) = 1"
proof -
  obtain resp db' where l: "password_example = Inr (resp, db')"
    using is_ok_pair[OF password_example_ok] by auto
  show ?thesis
    using change_password_revokes[OF l[unfolded password_example_def]] l
    by (intro exI[of _ resp] exI[of _ db']) (auto simp: sample_user_def)
qed

lemma logout_ends_session_witness:
  "\<exists>resp db'. logout_example = Inr (resp, db')
     \<and> current_user sample_settings sample_runtime (sample_request ''old'') 5 db'
       = err 401 ''invalid_session''"
proof -
  obtain resp db' where l: "logout_example = Inr (resp, db')"
    using is_ok_pair[OF logout_example_ok] by auto
  have f: "fetch s_token_hash (hash_session sample_runtime (st_secret_key sample_settings) ''old'')
      (sessions auth_db) = Some (sample_session 20 7)"
    by (simp add: auth_db_def sample_session_def)
  have c: "cookie_of (sample_request ''old'') (session_cookie_name sample_settings) = Some ''old''"
    by (simp add: cookie_of_def sample_request_def)
  have u: "s_user_id (sample_session 20 7) \<in> user_ids auth_db"
    by (simp add: auth_db_def sample_session_def sample_user_def)
  show ?thesis
    using logout_ends_session[OF l[unfolded logout_example_def] c _ f u auth_db_sessions] l
    by (intro exI[of _ resp] exI[of _ db']) simp
qed

lemma register_commits_witness:
  "\<exists>resp db'. register_example = Inr (resp, db')
     \<and> length (users db') = 3 \<and> registration_codes db' = []"
proof -
  obtain resp db' where l: "register_example = Inr (resp, db')"
    using is_ok_pair[OF register_example_ok] by auto
  have e: "current_event auth_db = Some sample_event"
    by (simp add: auth_db_def current_event_def current_event_query_def first_by_def sample_event_def)
  show ?thesis
    using register_commits[OF l[unfolded register_example_def]] l e
    by (intro exI[of _ resp] exI[of _ db']) (auto simp: auth_db_def empty_db_def sample_event_def)
qed

end
