(* ===== verification/Teams.thy ===== *)
theory Teams
  imports Auth
begin

text \<open>
  Teams: backend/src/alpha/routes_teams.py. \<open>db1\<close> is the database the session is read
  in; \<open>db2\<close> the one seen once the locks are held (event, users, memberships, team), in
  which everything else is read and written; \<open>create_team\<close> locks no team, so other teams
  may appear between its checks (\<open>db2\<close>) and its writes (\<open>db3\<close>).

  Clock readings: 0 session, 1 event gate, 2 team, 3 membership, 4 audit, 5 outbox.
  Identifiers: 0 team, 1 membership, 2 audit, 3 outbox. Token 0 is the invite.
\<close>

definition TEAM_MUTATION_ACTIONS :: "string list" where
  "TEAM_MUTATION_ACTIONS =
     [''team.created'', ''team.joined'', ''team.invite_rotated'', ''team.left'',
      ''team.owner_transferred'', ''team.member_removed'']"

definition team_mutation_tiers ::
  "settings \<Rightarrow> runtime \<Rightarrow> request \<Rightarrow> (store_key \<times> int \<times> int) list" where
  "team_mutation_tiers st rt rq =
     (let secret = st_secret_key st;
          session_identity = (case cookie_of rq (session_cookie_name st) of
            None \<Rightarrow> ''anonymous'' | Some t \<Rightarrow> t)
      in [(TeamMutationSession (keyed_hash rt secret ''team-mutation-session'' session_identity),
           st_team_mutation_rate_limit st, st_team_mutation_rate_window_seconds st),
          (TeamMutationIp (keyed_hash rt secret ''team-mutation-ip'' (client_ip rq)),
           st_team_mutation_ip_rate_limit st, st_team_mutation_rate_window_seconds st)])"

definition check_team_mutation_rate ::
  "('j, 's) store_ops \<Rightarrow> settings \<Rightarrow> runtime \<Rightarrow> world \<Rightarrow> request \<Rightarrow> 's \<Rightarrow> unit result \<times> 's" where
  "check_team_mutation_rate ops st rt w rq s =
     check_rates ops (w_monotonic w) ''team_mutation_rate_limited'' 0 (team_mutation_tiers st rt rq) s"

text \<open>Every team endpoint charges the tiers first and runs its transaction only then.\<close>

definition team_endpoint ::
  "('j, 's) store_ops \<Rightarrow> settings \<Rightarrow> runtime \<Rightarrow> world \<Rightarrow> request \<Rightarrow> 'a result \<Rightarrow> 's \<Rightarrow> 'a result \<times> 's" where
  "team_endpoint ops st rt w rq handled s =
     (case check_team_mutation_rate ops st rt w rq s of
        (Inl e, s) \<Rightarrow> (Inl e, s)
      | (Inr _, s) \<Rightarrow> (handled, s))"

section \<open>Locks and guards\<close>

text \<open>\<open>{item.id: item}\<close> over the rows with these ids, in the order of the ids.\<close>

definition lock_users :: "database \<Rightarrow> uuid list \<Rightarrow> uuid \<Rightarrow> user option" where
  "lock_users db ids =
     map_of (map (\<lambda>u. (u_id u, u)) (sort_key u_id (filter (\<lambda>u. u_id u \<in> set ids) (users db))))"

definition lock_memberships :: "database \<Rightarrow> uuid list \<Rightarrow> uuid \<Rightarrow> membership option" where
  "lock_memberships db ids =
     map_of (map (\<lambda>m. (m_user_id m, m))
       (sort_key (\<lambda>m. (m_user_id m, m_id m)) (filter (\<lambda>m. m_user_id m \<in> set ids) (memberships db))))"

definition team_mutations :: "uuid \<Rightarrow> uuid \<Rightarrow> database \<Rightarrow> nat" where
  "team_mutations user_id event_id db =
     count_where (\<lambda>a. a_actor_id a = Some user_id \<and> a_action a \<in> set TEAM_MUTATION_ACTIONS
       \<and> map_of (a_metadata a) ''event_id'' = Some (JId event_id)) (audit_events db)"

definition assert_lifetime_limit :: "database \<Rightarrow> uuid \<Rightarrow> uuid \<Rightarrow> unit result" where
  "assert_lifetime_limit db user_id event_id =
     (if MAX_TEAM_MUTATIONS_PER_USER_EVENT \<le> team_mutations user_id event_id db
      then err 409 ''team_mutation_limit_reached'' else Inr ())"

definition lock_actor_and_assert_lifetime_limit ::
  "database \<Rightarrow> uuid \<Rightarrow> uuid \<Rightarrow> int \<Rightarrow> unit result" where
  "lock_actor_and_assert_lifetime_limit db user_id event_id expected_credential_version =
     (case lock_users db [user_id] user_id of
        None \<Rightarrow> err 401 ''invalid_session''
      | Some actor \<Rightarrow>
          if \<not> u_active actor \<or> u_credential_version actor \<noteq> expected_credential_version
          then err 401 ''invalid_session''
          else assert_lifetime_limit db user_id event_id)"

definition ensure_team_changes_open :: "database \<Rightarrow> instant \<Rightarrow> event result" where
  "ensure_team_changes_open db now =
     (case current_event db of
        None \<Rightarrow> err 409 ''team_changes_closed''
      | Some e \<Rightarrow>
          if e_team_mode e = IndividualMode then err 409 ''individual_mode''
          else if \<not> state_allows_registration e now then err 409 ''team_changes_closed''
          else Inr e)"

definition locked_membership :: "database \<Rightarrow> uuid \<Rightarrow> membership option" where
  "locked_membership db user_id = fetch m_user_id user_id (memberships db)"

definition locked_team :: "database \<Rightarrow> uuid \<Rightarrow> team option" where
  "locked_team db team_id = fetch t_id team_id (teams db)"

section \<open>Responses\<close>

definition members_of :: "uuid \<Rightarrow> database \<Rightarrow> membership list" where
  "members_of t db = filter (\<lambda>m. m_team_id m = t) (memberships db)"

text \<open>The foreign keys of a membership make the lookups of its user and team succeed.\<close>

definition team_dict :: "database \<Rightarrow> event option \<Rightarrow> membership \<Rightarrow> json" where
  "team_dict db e m =
     (case fetch t_id (m_team_id m) (teams db) of
        None \<Rightarrow> JNull
      | Some t \<Rightarrow>
          JObj [(''id'', JId (t_id t)), (''name'', JStr (team_display_name db e t)),
            (''role'', JStr (member_role_name (m_role m))),
            (''members'', JList (map (\<lambda>x. JObj [(''id'', JId (m_user_id x)),
                 (''username'', case fetch u_id (m_user_id x) (users db) of
                    None \<Rightarrow> JNull | Some u \<Rightarrow> JStr (u_username u)),
                 (''role'', JStr (member_role_name (m_role x)))])
               (sort_key (\<lambda>x. (m_role x \<noteq> Owner, m_joined_at x, uuid_text (m_user_id x)))
                  (members_of (t_id t) db))))])"

definition reload_team :: "database \<Rightarrow> user \<Rightarrow> event \<Rightarrow> json result" where
  "reload_team db u e =
     (case membership_for db u of
        None \<Rightarrow> Inl (Uncaught ''RuntimeError'')
      | Some m \<Rightarrow> Inr (JObj [(''team'', team_dict db (Some e) m)]))"

definition my_team :: "settings \<Rightarrow> runtime \<Rightarrow> world \<Rightarrow> request \<Rightarrow> database \<Rightarrow> http_response result" where
  "my_team st rt w rq db =
     bindR (require_user st rt rq (w_utcnow w 0) db) (\<lambda>u.
       Inr (json_response (JObj [(''team'',
         case membership_for db u of None \<Rightarrow> JNull | Some m \<Rightarrow> team_dict db (current_event db) m)])))"

section \<open>Creating and joining\<close>

definition create_team ::
  "settings \<Rightarrow> runtime \<Rightarrow> world \<Rightarrow> request \<Rightarrow> string \<Rightarrow> database \<Rightarrow> database \<Rightarrow> database \<Rightarrow>
   (http_response \<times> database) result" where
  "create_team st rt w rq name db1 db2 db3 =
     bindR (require_user st rt rq (w_utcnow w 0) db1) (\<lambda>u.
     bindR (ensure_team_changes_open db2 (w_utcnow w 1)) (\<lambda>e.
     bindR (lock_actor_and_assert_lifetime_limit db2 (u_id u) (e_id e) (u_credential_version u)) (\<lambda>_.
     if locked_membership db2 (u_id u) \<noteq> None then err 409 ''already_on_team''
     else if \<exists>t \<in> set (teams db2). lower (t_name t) = lower name then err 409 ''team_name_exists''
     else
       let invite = w_token w 0;
           t = \<lparr>t_id = w_uuid4 w 0, t_name = name,
                t_invite_hash = hash_invite rt (st_secret_key st) invite,
                t_creator_id = u_id u, t_created_at = w_utcnow w 2\<rparr>;
           m = \<lparr>m_id = w_uuid4 w 1, m_user_id = u_id u, m_team_id = t_id t, m_role = Owner,
                m_joined_at = w_utcnow w 3\<rparr>
       in bindR (or_error integrity_error (insert_team t db3)) (\<lambda>db.
          bindR (or_error (ApiError 409 ''team_conflict'' None) (do {
              db \<leftarrow> insert_membership m db;
              db \<leftarrow> add_audit (w_uuid4 w 2) (w_utcnow w 4) (Some (u_id u)) ''team.created'' ''team''
                      (Some (t_id t)) [(''event_id'', JId (e_id e))] db;
              add_outbox (w_uuid4 w 3) (w_utcnow w 5) ''team.created'' ''team'' (t_id t)
                [(''team_id'', JId (t_id t))] db })) (\<lambda>db.
          Inr ((json_response (JObj [(''team'', team_dict db (Some e) m), (''invite_code'', JStr invite)]))
                 \<lparr>rs_status := 201\<rparr>, db))))))"

definition join_team ::
  "settings \<Rightarrow> runtime \<Rightarrow> world \<Rightarrow> request \<Rightarrow> string \<Rightarrow> database \<Rightarrow> database \<Rightarrow>
   (http_response \<times> database) result" where
  "join_team st rt w rq invite_code db1 db2 =
     bindR (require_user st rt rq (w_utcnow w 0) db1) (\<lambda>u.
     bindR (ensure_team_changes_open db2 (w_utcnow w 1)) (\<lambda>e.
     bindR (lock_actor_and_assert_lifetime_limit db2 (u_id u) (e_id e) (u_credential_version u)) (\<lambda>_.
     if locked_membership db2 (u_id u) \<noteq> None then err 409 ''already_on_team''
     else case fetch t_invite_hash (hash_invite rt (st_secret_key st) invite_code) (teams db2) of
       None \<Rightarrow> err 404 ''invalid_invite''
     | Some t \<Rightarrow>
         if MAX_MEMBERS_PER_TEAM \<le> count_where (\<lambda>m. m_team_id m = t_id t) (memberships db2)
         then err 409 ''team_capacity_reached''
         else bindR (or_error (ApiError 409 ''team_join_conflict'' None) (do {
             db \<leftarrow> insert_membership \<lparr>m_id = w_uuid4 w 1, m_user_id = u_id u, m_team_id = t_id t,
                     m_role = Member, m_joined_at = w_utcnow w 3\<rparr> db2;
             db \<leftarrow> add_audit (w_uuid4 w 2) (w_utcnow w 4) (Some (u_id u)) ''team.joined'' ''team''
                     (Some (t_id t)) [(''event_id'', JId (e_id e))] db;
             add_outbox (w_uuid4 w 3) (w_utcnow w 5) ''team.member_joined'' ''team'' (t_id t)
               [(''team_id'', JId (t_id t)), (''user_id'', JId (u_id u))] db })) (\<lambda>db.
           bindR (reload_team db u e) (\<lambda>body.
           Inr (json_response body, db))))))"

section \<open>Invites, ownership and removal\<close>

text \<open>A new invite hash, refused when another team has it.\<close>

definition set_invite_hash :: "uuid \<Rightarrow> string \<Rightarrow> database \<Rightarrow> database option" where
  "set_invite_hash team_id h db =
     (if \<exists>t \<in> set (teams db). t_id t \<noteq> team_id \<and> t_invite_hash t = h then None
      else Some (db\<lparr>teams := update_where (\<lambda>t. t_id t = team_id) (\<lambda>t. t\<lparr>t_invite_hash := h\<rparr>) (teams db)\<rparr>))"

definition rotate_invite ::
  "settings \<Rightarrow> runtime \<Rightarrow> world \<Rightarrow> request \<Rightarrow> database \<Rightarrow> database \<Rightarrow> (http_response \<times> database) result" where
  "rotate_invite st rt w rq db1 db2 =
     bindR (require_user st rt rq (w_utcnow w 0) db1) (\<lambda>u.
     bindR (ensure_team_changes_open db2 (w_utcnow w 1)) (\<lambda>e.
     bindR (lock_actor_and_assert_lifetime_limit db2 (u_id u) (e_id e) (u_credential_version u)) (\<lambda>_.
     case locked_membership db2 (u_id u) of
       None \<Rightarrow> err 409 ''team_required''
     | Some m \<Rightarrow>
         (case locked_team db2 (m_team_id m) of
            None \<Rightarrow> err 409 ''team_required''
          | Some t \<Rightarrow>
              if m_role m \<noteq> Owner then err 403 ''team_owner_required''
              else
                let invite = w_token w 0
                in bindR (or_error integrity_error (do {
                     db \<leftarrow> set_invite_hash (t_id t) (hash_invite rt (st_secret_key st) invite) db2;
                     add_audit (w_uuid4 w 2) (w_utcnow w 4) (Some (u_id u)) ''team.invite_rotated'' ''team''
                       (Some (m_team_id m)) [(''event_id'', JId (e_id e))] db })) (\<lambda>db.
                   Inr (json_response (JObj [(''invite_code'', JStr invite)]), db))))))"

record owner_and_target =
  ot_actor :: user
  ot_actor_membership :: membership
  ot_target :: user
  ot_target_membership :: membership
  ot_team :: team

definition lock_owner_and_target ::
  "database \<Rightarrow> uuid \<Rightarrow> uuid \<Rightarrow> uuid \<Rightarrow> int \<Rightarrow> owner_and_target result" where
  "lock_owner_and_target db actor_id target_id event_id expected_credential_version =
     (let locked = lock_users db [actor_id, target_id]
      in case locked actor_id of
        None \<Rightarrow> err 401 ''invalid_session''
      | Some actor \<Rightarrow>
          if \<not> u_active actor \<or> u_credential_version actor \<noteq> expected_credential_version
          then err 401 ''invalid_session''
          else bindR (assert_lifetime_limit db actor_id event_id) (\<lambda>_.
            let ms = lock_memberships db [actor_id, target_id]
            in case ms actor_id of
              None \<Rightarrow> err 409 ''team_required''
            | Some am \<Rightarrow>
                (case locked_team db (m_team_id am) of
                   None \<Rightarrow> err 409 ''team_required''
                 | Some t \<Rightarrow>
                     if m_role am \<noteq> Owner then err 403 ''team_owner_required''
                     else if actor_id = target_id then err 409 ''cannot_target_self''
                     else (case (locked target_id, ms target_id) of
                             (Some target, Some tm) \<Rightarrow>
                               if m_team_id tm \<noteq> t_id t \<or> m_role tm \<noteq> Member
                               then err 404 ''team_member_not_found''
                               else Inr \<lparr>ot_actor = actor, ot_actor_membership = am, ot_target = target,
                                         ot_target_membership = tm, ot_team = t\<rparr>
                           | _ \<Rightarrow> err 404 ''team_member_not_found''))))"

definition set_member_role :: "uuid \<Rightarrow> member_role \<Rightarrow> database \<Rightarrow> database" where
  "set_member_role m r db =
     db\<lparr>memberships := update_where (\<lambda>x. m_id x = m) (\<lambda>x. x\<lparr>m_role := r\<rparr>) (memberships db)\<rparr>"

definition transfer_owner ::
  "settings \<Rightarrow> runtime \<Rightarrow> world \<Rightarrow> request \<Rightarrow> uuid \<Rightarrow> database \<Rightarrow> database \<Rightarrow>
   (http_response \<times> database) result" where
  "transfer_owner st rt w rq target_id db1 db2 =
     bindR (require_user st rt rq (w_utcnow w 0) db1) (\<lambda>u.
     bindR (ensure_team_changes_open db2 (w_utcnow w 1)) (\<lambda>e.
     bindR (lock_owner_and_target db2 (u_id u) target_id (e_id e) (u_credential_version u)) (\<lambda>l.
     if \<not> u_active (ot_target l) \<or> u_role (ot_target l) \<noteq> Participant
     then err 409 ''owner_target_ineligible''
     else
       let db = set_member_role (m_id (ot_target_membership l)) Owner
                  (set_member_role (m_id (ot_actor_membership l)) Member db2);
           metadata = [(''event_id'', JId (e_id e)), (''previous_owner_id'', JId (u_id (ot_actor l))),
                       (''new_owner_id'', JId (u_id (ot_target l)))]
       in bindR (or_error integrity_error (do {
            db \<leftarrow> add_audit (w_uuid4 w 2) (w_utcnow w 4) (Some (u_id (ot_actor l))) ''team.owner_transferred''
                    ''team'' (Some (t_id (ot_team l))) metadata db;
            add_outbox (w_uuid4 w 3) (w_utcnow w 5) ''team.owner_transferred'' ''team'' (t_id (ot_team l))
              ((''team_id'', JId (t_id (ot_team l))) # metadata) db })) (\<lambda>db.
          bindR (reload_team db (ot_actor l) e) (\<lambda>body.
          Inr (json_response body, db))))))"

definition remove_member ::
  "settings \<Rightarrow> runtime \<Rightarrow> world \<Rightarrow> request \<Rightarrow> uuid \<Rightarrow> database \<Rightarrow> database \<Rightarrow>
   (http_response \<times> database) result" where
  "remove_member st rt w rq target_id db1 db2 =
     bindR (require_user st rt rq (w_utcnow w 0) db1) (\<lambda>u.
     bindR (ensure_team_changes_open db2 (w_utcnow w 1)) (\<lambda>e.
     bindR (lock_owner_and_target db2 (u_id u) target_id (e_id e) (u_credential_version u)) (\<lambda>l.
     if count_where (\<lambda>b. b_user_id b = u_id (ot_target l) \<and> b_team_id b = t_id (ot_team l))
          (submissions db2) \<noteq> 0
     then err 409 ''member_has_activity''
     else
       let invite = w_token w 0;
           metadata = [(''event_id'', JId (e_id e)), (''removed_user_id'', JId (u_id (ot_target l)))]
       in bindR (or_error integrity_error (do {
            db \<leftarrow> set_invite_hash (t_id (ot_team l)) (hash_invite rt (st_secret_key st) invite) db2;
            db \<leftarrow> Some (db\<lparr>memberships :=
                    delete_where (\<lambda>x. m_id x = m_id (ot_target_membership l)) (memberships db)\<rparr>);
            db \<leftarrow> add_audit (w_uuid4 w 2) (w_utcnow w 4) (Some (u_id (ot_actor l))) ''team.member_removed''
                    ''team'' (Some (t_id (ot_team l))) metadata db;
            add_outbox (w_uuid4 w 3) (w_utcnow w 5) ''team.member_removed'' ''team'' (t_id (ot_team l))
              ((''team_id'', JId (t_id (ot_team l))) # metadata) db })) (\<lambda>db.
          bindR (reload_team db (ot_actor l) e) (\<lambda>body.
          Inr (json_response (case body of JObj d \<Rightarrow> JObj (d @ [(''invite_code'', JStr invite)]) | j \<Rightarrow> j),
               db))))))"

definition leave_team ::
  "settings \<Rightarrow> runtime \<Rightarrow> world \<Rightarrow> request \<Rightarrow> database \<Rightarrow> database \<Rightarrow> (http_response \<times> database) result" where
  "leave_team st rt w rq db1 db2 =
     bindR (require_user st rt rq (w_utcnow w 0) db1) (\<lambda>u.
     bindR (ensure_team_changes_open db2 (w_utcnow w 1)) (\<lambda>e.
     bindR (lock_actor_and_assert_lifetime_limit db2 (u_id u) (e_id e) (u_credential_version u)) (\<lambda>_.
     case locked_membership db2 (u_id u) of
       None \<Rightarrow> err 409 ''team_required''
     | Some m \<Rightarrow>
         (case locked_team db2 (m_team_id m) of
            None \<Rightarrow> err 409 ''team_required''
          | Some t \<Rightarrow>
              if m_role m = Owner \<and> 1 < length (members_of (t_id t) db2)
              then err 409 ''owner_cannot_leave''
              else if count_where (\<lambda>b. b_user_id b = u_id u \<and> b_team_id b = m_team_id m) (submissions db2) \<noteq> 0
              then err 409 ''member_has_activity''
              else if m_role m = Owner
                \<and> count_where (\<lambda>b. b_team_id b = m_team_id m) (submissions db2) \<noteq> 0
              then err 409 ''team_has_activity''
              else
                let db = db2\<lparr>memberships := delete_where (\<lambda>x. m_id x = m_id m) (memberships db2)\<rparr>;
                    db = (if m_role m = Owner then delete_team (t_id t) db else db)
                in bindR (or_error integrity_error (do {
                     db \<leftarrow> add_audit (w_uuid4 w 2) (w_utcnow w 4) (Some (u_id u)) ''team.left'' ''team''
                             (Some (m_team_id m)) [(''event_id'', JId (e_id e))] db;
                     add_outbox (w_uuid4 w 3) (w_utcnow w 5) ''team.member_left'' ''team'' (m_team_id m)
                       [(''team_id'', JId (m_team_id m)), (''user_id'', JId (u_id u))] db })) (\<lambda>db.
                   Inr ((json_response JNull)\<lparr>rs_status := 204\<rparr>, db))))))"

section \<open>The roster\<close>

text \<open>
  The invariant of the tables of teams and memberships: the uniqueness constraints, so
  nobody is on two teams; every membership is of a stored team; every team has exactly
  one owner and at most \<open>MAX_MEMBERS_PER_TEAM\<close> members.
\<close>

definition owner_count :: "uuid \<Rightarrow> membership list \<Rightarrow> nat" where
  "owner_count t ms = count_where (\<lambda>m. m_team_id m = t \<and> m_role m = Owner) ms"

definition member_count :: "uuid \<Rightarrow> membership list \<Rightarrow> nat" where
  "member_count t ms = count_where (\<lambda>m. m_team_id m = t) ms"

definition roster_ok :: "team list \<Rightarrow> membership list \<Rightarrow> bool" where
  "roster_ok ts ms \<longleftrightarrow> conflict_free team_clash ts \<and> conflict_free membership_clash ms
     \<and> (\<forall>m \<in> set ms. m_team_id m \<in> t_id ` set ts)
     \<and> (\<forall>t \<in> set ts. owner_count (t_id t) ms = 1 \<and> member_count (t_id t) ms \<le> MAX_MEMBERS_PER_TEAM)"

lemma conflict_free_append1:
  "conflict_free clash (xs @ [r]) \<longleftrightarrow> conflict_free clash xs \<and> (\<forall>x \<in> set xs. \<not> clash x r)"
  by (auto simp: conflict_free_def sorted_wrt_append)

lemma roster_new_team:
  assumes "roster_ok ts ms" and "\<forall>x \<in> set ts. \<not> team_clash x t"
    and "\<forall>x \<in> set ms. \<not> membership_clash x m" and "m_role m = Owner" and "m_team_id m = t_id t"
  shows "roster_ok (ts @ [t]) (ms @ [m])"
proof -
  have new: "\<forall>x \<in> set ts. t_id x \<noteq> t_id t"
    using assms(2) by (auto simp: team_clash_def)
  then have none: "\<forall>x \<in> set ms. m_team_id x \<noteq> t_id t"
    using assms(1) by (fastforce simp: roster_ok_def)
  then have "owner_count (t_id t) ms = 0" "member_count (t_id t) ms = 0"
    by (auto simp: owner_count_def member_count_def count_where_0)
  then show ?thesis
    using assms new none
    by (auto simp: roster_ok_def conflict_free_append1 owner_count_def member_count_def
        MAX_MEMBERS_PER_TEAM_def)
qed

lemma roster_new_member:
  assumes "roster_ok ts ms" and "t \<in> set ts" and "\<forall>x \<in> set ms. \<not> membership_clash x m"
    and "m_role m = Member" and "m_team_id m = t_id t" and "member_count (t_id t) ms < MAX_MEMBERS_PER_TEAM"
  shows "roster_ok ts (ms @ [m])"
  using assms by (auto simp: roster_ok_def conflict_free_append1 owner_count_def member_count_def)

lemma roster_new_invite:
  assumes "roster_ok ts ms" and "\<forall>t \<in> set ts. t_id t \<noteq> i \<longrightarrow> t_invite_hash t \<noteq> h"
  shows "roster_ok (update_where (\<lambda>t. t_id t = i) (\<lambda>t. t\<lparr>t_invite_hash := h\<rparr>) ts) ms"
proof -
  let ?ts = "update_where (\<lambda>t. t_id t = i) (\<lambda>t. t\<lparr>t_invite_hash := h\<rparr>) ts"
  have ids: "t_id ` set ?ts = t_id ` set ts" by (rule key_update_where) simp
  have "conflict_free team_clash ts" using assms(1) by (simp add: roster_ok_def)
  then have c: "conflict_free team_clash ?ts"
    unfolding conflict_free_def update_where_def sorted_wrt_map
    by (rule sorted_wrt_mono_rel[rotated]) (use assms(2) in \<open>auto simp: team_clash_def\<close>)
  have "owner_count (t_id t) ms = 1 \<and> member_count (t_id t) ms \<le> MAX_MEMBERS_PER_TEAM"
    if "t \<in> set ?ts" for t
  proof -
    have "t_id t \<in> t_id ` set ts" using ids that by blast
    then show ?thesis using assms(1) by (auto simp: roster_ok_def)
  qed
  then show ?thesis
    using assms(1) c by (simp add: roster_ok_def ids del: set_update_where)
qed

lemma roster_remove_member:
  assumes "roster_ok ts ms" and "m \<in> set ms" and "m_role m = Member"
  shows "roster_ok ts (delete_where (\<lambda>x. m_id x = m_id m) ms)"
proof -
  have c: "conflict_free membership_clash ms" using assms(1) by (simp add: roster_ok_def)
  have same: "x = m" if "x \<in> set ms" "m_id x = m_id m" for x
    using membership_table.unique[OF c that(1) assms(2)] that(2) by (simp add: membership_clash_def)
  have "owner_count t (delete_where (\<lambda>x. m_id x = m_id m) ms) = owner_count t ms" for t
    unfolding owner_count_def count_where_delete
    by (rule count_where_cong) (use same assms(3) in fastforce)
  moreover have "member_count t (delete_where (\<lambda>x. m_id x = m_id m) ms) \<le> member_count t ms" for t
    unfolding member_count_def by (rule count_where_delete_le)
  ultimately show ?thesis
    using assms(1) order.trans by (fastforce simp: roster_ok_def conflict_free_delete)
qed

lemma roster_remove_team:
  assumes "roster_ok ts ms" and "m \<in> set ms" and "m_role m = Owner" and "m_team_id m = t"
    and "length (filter (\<lambda>x. m_team_id x = t) ms) \<le> 1"
  shows "roster_ok (delete_where (\<lambda>x. t_id x = t) ts)
           (delete_where (\<lambda>x. m_team_id x = t) (delete_where (\<lambda>x. m_id x = m_id m) ms))"
    and "delete_where (\<lambda>x. m_id x = m_id m) ms = delete_where (\<lambda>x. m_team_id x = t) ms"
proof -
  have c: "conflict_free membership_clash ms" using assms(1) by (simp add: roster_ok_def)
  have "m \<in> set (filter (\<lambda>x. m_team_id x = t) ms)" using assms(2,4) by simp
  then have "filter (\<lambda>x. m_team_id x = t) ms = [m]"
    using assms(5) by (cases "filter (\<lambda>x. m_team_id x = t) ms") auto
  then have "set (filter (\<lambda>x. m_team_id x = t) ms) = {m}" by simp
  then have "{x \<in> set ms. m_team_id x = t} = {m}" unfolding set_filter .
  then have only: "m_team_id x = t \<longleftrightarrow> m_id x = m_id m" if "x \<in> set ms" for x
    using that membership_table.unique[OF c that assms(2)] by (fastforce simp: membership_clash_def)
  then show e: "delete_where (\<lambda>x. m_id x = m_id m) ms = delete_where (\<lambda>x. m_team_id x = t) ms"
    by (auto simp: delete_where_def cong: filter_cong)
  have o: "owner_count t' (delete_where (\<lambda>x. m_team_id x = t) ms) = owner_count t' ms"
    "member_count t' (delete_where (\<lambda>x. m_team_id x = t) ms) = member_count t' ms" if "t' \<noteq> t" for t'
    unfolding owner_count_def member_count_def count_where_delete
    by (rule count_where_cong, use that in auto)+
  show "roster_ok (delete_where (\<lambda>x. t_id x = t) ts)
           (delete_where (\<lambda>x. m_team_id x = t) (delete_where (\<lambda>x. m_id x = m_id m) ms))"
    unfolding e using assms(1) o
    by (auto simp: roster_ok_def conflict_free_delete delete_where_def[of _ "filter _ _"]
        simp del: count_where_delete) (auto simp: delete_where_def)
qed

lemma roster_transfer:
  assumes "roster_ok ts ms" and "a \<in> set ms" "b \<in> set ms" and "m_role a = Owner" "m_role b = Member"
    and "m_team_id b = m_team_id a" and "m_team_id a \<in> t_id ` set ts"
  shows "roster_ok ts (update_where (\<lambda>x. m_id x = m_id b) (\<lambda>x. x\<lparr>m_role := Owner\<rparr>)
           (update_where (\<lambda>x. m_id x = m_id a) (\<lambda>x. x\<lparr>m_role := Member\<rparr>) ms))"
    (is "roster_ok ts ?ms")
proof -
  have c: "conflict_free membership_clash ms" using assms(1) by (simp add: roster_ok_def)
  have id: "m_id x = m_id y \<longleftrightarrow> x = y" if "x \<in> set ms" "y \<in> set ms" for x y
    using membership_table.unique[OF c that] by (auto simp: membership_clash_def)
  have ab: "a \<noteq> b" using assms(4,5) by auto
  have ms: "?ms = map (\<lambda>x. if m_id x = m_id b then x\<lparr>m_role := Owner\<rparr>
      else if m_id x = m_id a then x\<lparr>m_role := Member\<rparr> else x) ms"
    using ab id[OF assms(2,3)] by (auto simp: update_where_def)
  have c': "conflict_free membership_clash ?ms"
    unfolding ms by (rule conflict_free_map[OF c]) (auto simp: membership_clash_def split: if_splits)
  have one: "owner_count (m_team_id a) ms = 1" using assms(1,7) by (auto simp: roster_ok_def)
  have owner: "x = a" if "x \<in> set ms" "m_team_id x = m_team_id a" "m_role x = Owner" for x
    using count_where_1D[OF one[unfolded owner_count_def] assms(2) _ that(1)] that assms(4) by simp
  have teams: "member_count t ?ms = member_count t ms" for t
    unfolding ms member_count_def count_where_def filter_map
    by (simp, rule arg_cong[where f = length], rule filter_cong) (auto split: if_splits)
  have count: "owner_count t ?ms = count_where (\<lambda>x. m_team_id x = t \<and>
      (x = b \<or> (x \<noteq> a \<and> m_role x = Owner))) ms" for t
    unfolding ms owner_count_def count_where_def filter_map
    by (simp, rule arg_cong[where f = length], rule filter_cong)
      (use id assms(2,3) in \<open>auto split: if_splits\<close>)
  have "owner_count t ?ms = owner_count t ms" for t
  proof (cases "t = m_team_id a")
    case True
    have "owner_count t ?ms = 1"
      unfolding count
      by (rule count_where_1I[OF membership_table.distinct_rows[OF c] assms(3)])
        (use True owner assms(6) in auto)
    with one True show ?thesis by simp
  next
    case False
    then show ?thesis
      unfolding count unfolding owner_count_def
      by (intro count_where_cong) (use assms(6) in auto)
  qed
  then show ?thesis
    using assms(1) c' teams by (auto simp: roster_ok_def ms)
qed

section \<open>What each operation commits\<close>

lemma lock_users_Some: "lock_users db ids i = Some u \<Longrightarrow> u \<in> set (users db) \<and> u_id u = i"
  by (auto simp: lock_users_def dest!: map_of_SomeD)

lemma lock_memberships_Some:
  "lock_memberships db ids i = Some m \<Longrightarrow> m \<in> set (memberships db) \<and> m_user_id m = i"
  by (auto simp: lock_memberships_def dest!: map_of_SomeD)

lemma ensure_open_Inr:
  "ensure_team_changes_open db now = Inr e \<longleftrightarrow>
     current_event db = Some e \<and> e_team_mode e \<noteq> IndividualMode \<and> state_allows_registration e now"
  by (auto simp: ensure_team_changes_open_def split: option.splits)

lemma lifetime_Inr [simp]:
  "assert_lifetime_limit db u e = Inr x \<longleftrightarrow>
     team_mutations u e db < MAX_TEAM_MUTATIONS_PER_USER_EVENT"
  by (auto simp: assert_lifetime_limit_def)

lemma lock_actor_Inr:
  "lock_actor_and_assert_lifetime_limit db u e v = Inr x \<Longrightarrow>
     team_mutations u e db < MAX_TEAM_MUTATIONS_PER_USER_EVENT
     \<and> (\<exists>actor \<in> set (users db). u_id actor = u \<and> u_active actor \<and> u_credential_version actor = v)"
  by (auto simp: lock_actor_and_assert_lifetime_limit_def split: option.splits if_splits
      dest: lock_users_Some)

text \<open>
  The audit row of a team operation. It is what the lifetime limit counts; \<open>team_audit\<close>
  relates the audit tables before and after.
\<close>

definition team_audit :: "uuid \<Rightarrow> uuid \<Rightarrow> database \<Rightarrow> database \<Rightarrow> bool" where
  "team_audit actor event_id db db' \<longleftrightarrow>
     team_mutations actor event_id db' = team_mutations actor event_id db + 1
     \<and> (\<forall>u e. (u, e) \<noteq> (actor, event_id) \<longrightarrow> team_mutations u e db' = team_mutations u e db)"

lemma team_audit_append:
  assumes "audit_events db' = audit_events db @ [a]" and "a_actor_id a = Some u"
    and "a_action a \<in> set TEAM_MUTATION_ACTIONS"
    and "map_of (a_metadata a) ''event_id'' = Some (JId e)"
  shows "team_audit u e db db'"
  using assms by (auto simp: team_audit_def team_mutations_def)

lemma create_team_effect:
  assumes "create_team st rt w rq name db1 db2 db3 = Inr (resp, db')"
  shows "\<exists>u e t m xs ys. require_user st rt rq (w_utcnow w 0) db1 = Inr u
    \<and> ensure_team_changes_open db2 (w_utcnow w 1) = Inr e
    \<and> team_mutations (u_id u) (e_id e) db2 < MAX_TEAM_MUTATIONS_PER_USER_EVENT
    \<and> db' = db3\<lparr>teams := teams db3 @ [t], memberships := memberships db3 @ [m],
         audit_events := xs, outbox_events := ys\<rparr>
    \<and> (\<forall>x \<in> set (teams db3). \<not> team_clash x t)
    \<and> (\<forall>x \<in> set (memberships db3). \<not> membership_clash x m)
    \<and> m_role m = Owner \<and> m_user_id m = u_id u \<and> m_team_id m = t_id t \<and> t_name t = name
    \<and> t_creator_id t = u_id u \<and> team_audit (u_id u) (e_id e) db3 db'"
proof -
  obtain u e db4 db5 db6 where u: "require_user st rt rq (w_utcnow w 0) db1 = Inr u"
    and e: "ensure_team_changes_open db2 (w_utcnow w 1) = Inr e"
    and l: "lock_actor_and_assert_lifetime_limit db2 (u_id u) (e_id e) (u_credential_version u) = Inr ()"
    and t: "insert_team \<lparr>t_id = w_uuid4 w 0, t_name = name,
                t_invite_hash = hash_invite rt (st_secret_key st) (w_token w 0),
                t_creator_id = u_id u, t_created_at = w_utcnow w 2\<rparr> db3 = Some db4"
    and m: "insert_membership \<lparr>m_id = w_uuid4 w 1, m_user_id = u_id u, m_team_id = w_uuid4 w 0,
                m_role = Owner, m_joined_at = w_utcnow w 3\<rparr> db4 = Some db5"
    and a: "add_audit (w_uuid4 w 2) (w_utcnow w 4) (Some (u_id u)) ''team.created'' ''team''
              (Some (w_uuid4 w 0)) [(''event_id'', JId (e_id e))] db5 = Some db6"
    and o: "add_outbox (w_uuid4 w 3) (w_utcnow w 5) ''team.created'' ''team'' (w_uuid4 w 0)
              [(''team_id'', JId (w_uuid4 w 0))] db6 = Some db'"
    using assms by (auto simp: create_team_def Let_def bind_eq_Some_conv split: if_splits)
  have "team_audit (u_id u) (e_id e) db3 db'"
    using t m a o by (intro team_audit_append)
      (auto simp: insert_Some add_audit_Some add_outbox_Some TEAM_MUTATION_ACTIONS_def)
  with u e lock_actor_Inr[OF l] t m a o show ?thesis
    by (intro exI[of _ u] exI[of _ e] exI[of _ "last (teams db')"] exI[of _ "last (memberships db')"]
        exI[of _ "audit_events db'"] exI[of _ "outbox_events db'"])
      (auto simp: insert_Some add_audit_Some add_outbox_Some)
qed

lemma join_team_effect:
  assumes "join_team st rt w rq code db1 db2 = Inr (resp, db')"
  shows "\<exists>u e t m xs ys. require_user st rt rq (w_utcnow w 0) db1 = Inr u
    \<and> ensure_team_changes_open db2 (w_utcnow w 1) = Inr e
    \<and> team_mutations (u_id u) (e_id e) db2 < MAX_TEAM_MUTATIONS_PER_USER_EVENT
    \<and> t \<in> set (teams db2) \<and> t_invite_hash t = hash_invite rt (st_secret_key st) code
    \<and> member_count (t_id t) (memberships db2) < MAX_MEMBERS_PER_TEAM
    \<and> db' = db2\<lparr>memberships := memberships db2 @ [m], audit_events := xs, outbox_events := ys\<rparr>
    \<and> (\<forall>x \<in> set (memberships db2). \<not> membership_clash x m)
    \<and> m_role m = Member \<and> m_user_id m = u_id u \<and> m_team_id m = t_id t
    \<and> team_audit (u_id u) (e_id e) db2 db'"
proof -
  obtain u e t db5 db6 where u: "require_user st rt rq (w_utcnow w 0) db1 = Inr u"
    and e: "ensure_team_changes_open db2 (w_utcnow w 1) = Inr e"
    and l: "lock_actor_and_assert_lifetime_limit db2 (u_id u) (e_id e) (u_credential_version u) = Inr ()"
    and t: "fetch t_invite_hash (hash_invite rt (st_secret_key st) code) (teams db2) = Some t"
    and c: "count_where (\<lambda>m. m_team_id m = t_id t) (memberships db2) < MAX_MEMBERS_PER_TEAM"
    and m: "insert_membership \<lparr>m_id = w_uuid4 w 1, m_user_id = u_id u, m_team_id = t_id t,
                     m_role = Member, m_joined_at = w_utcnow w 3\<rparr> db2 = Some db5"
    and a: "add_audit (w_uuid4 w 2) (w_utcnow w 4) (Some (u_id u)) ''team.joined'' ''team''
                     (Some (t_id t)) [(''event_id'', JId (e_id e))] db5 = Some db6"
    and o: "add_outbox (w_uuid4 w 3) (w_utcnow w 5) ''team.member_joined'' ''team'' (t_id t)
               [(''team_id'', JId (t_id t)), (''user_id'', JId (u_id u))] db6 = Some db'"
    using assms
    by (auto simp: join_team_def Let_def bind_eq_Some_conv split: if_splits option.splits)
  have "team_audit (u_id u) (e_id e) db2 db'"
    using m a o by (intro team_audit_append)
      (auto simp: insert_Some add_audit_Some add_outbox_Some TEAM_MUTATION_ACTIONS_def)
  with u e lock_actor_Inr[OF l] m a o c fetch_Some[OF t] show ?thesis
    by (intro exI[of _ u] exI[of _ e] exI[of _ t] exI[of _ "last (memberships db')"]
        exI[of _ "audit_events db'"] exI[of _ "outbox_events db'"])
      (auto simp: insert_Some add_audit_Some add_outbox_Some member_count_def)
qed

lemma set_invite_hash_Some:
  "set_invite_hash i h db = Some db' \<longleftrightarrow>
     db' = db\<lparr>teams := update_where (\<lambda>t. t_id t = i) (\<lambda>t. t\<lparr>t_invite_hash := h\<rparr>) (teams db)\<rparr>
     \<and> (\<forall>t \<in> set (teams db). t_id t \<noteq> i \<longrightarrow> t_invite_hash t \<noteq> h)"
  by (auto simp: set_invite_hash_def)

lemma rotate_invite_effect:
  assumes "rotate_invite st rt w rq db1 db2 = Inr (resp, db')"
  shows "\<exists>u e m xs. require_user st rt rq (w_utcnow w 0) db1 = Inr u
    \<and> ensure_team_changes_open db2 (w_utcnow w 1) = Inr e
    \<and> team_mutations (u_id u) (e_id e) db2 < MAX_TEAM_MUTATIONS_PER_USER_EVENT
    \<and> m \<in> set (memberships db2) \<and> m_user_id m = u_id u \<and> m_role m = Owner
    \<and> (\<forall>t \<in> set (teams db2). t_id t \<noteq> m_team_id m \<longrightarrow>
          t_invite_hash t \<noteq> hash_invite rt (st_secret_key st) (w_token w 0))
    \<and> db' = db2\<lparr>teams := update_where (\<lambda>t. t_id t = m_team_id m)
         (\<lambda>t. t\<lparr>t_invite_hash := hash_invite rt (st_secret_key st) (w_token w 0)\<rparr>) (teams db2),
         audit_events := xs\<rparr>
    \<and> team_audit (u_id u) (e_id e) db2 db'"
proof -
  let ?h = "hash_invite rt (st_secret_key st) (w_token w 0)"
  obtain u e m t db5 where u: "require_user st rt rq (w_utcnow w 0) db1 = Inr u"
    and e: "ensure_team_changes_open db2 (w_utcnow w 1) = Inr e"
    and l: "lock_actor_and_assert_lifetime_limit db2 (u_id u) (e_id e) (u_credential_version u) = Inr ()"
    and m: "fetch m_user_id (u_id u) (memberships db2) = Some m" "m_role m = Owner"
    and t: "fetch t_id (m_team_id m) (teams db2) = Some t"
    and h: "set_invite_hash (t_id t) ?h db2 = Some db5"
    and a: "add_audit (w_uuid4 w 2) (w_utcnow w 4) (Some (u_id u)) ''team.invite_rotated'' ''team''
                     (Some (m_team_id m)) [(''event_id'', JId (e_id e))] db5 = Some db'"
    using assms
    by (simp add: rotate_invite_def Let_def bind_eq_Some_conv locked_membership_def locked_team_def
        split: if_split_asm option.split_asm) blast+
  have "team_audit (u_id u) (e_id e) db2 db'"
    using h a by (intro team_audit_append)
      (auto simp: set_invite_hash_Some add_audit_Some TEAM_MUTATION_ACTIONS_def)
  with u e lock_actor_Inr[OF l] m fetch_Some[OF t] fetch_Some[OF m(1)] h a show ?thesis
    by (intro exI[of _ u] exI[of _ e] exI[of _ m] exI[of _ "audit_events db'"])
      (auto simp: set_invite_hash_Some add_audit_Some)
qed

text \<open>Both operations on another member rest on the same authorization.\<close>

lemma lock_owner_and_target_Inr:
  assumes "lock_owner_and_target db a b e v = Inr l"
  shows "ot_actor l \<in> set (users db) \<and> u_id (ot_actor l) = a \<and> u_active (ot_actor l)
    \<and> u_credential_version (ot_actor l) = v
    \<and> team_mutations a e db < MAX_TEAM_MUTATIONS_PER_USER_EVENT
    \<and> ot_actor_membership l \<in> set (memberships db) \<and> m_user_id (ot_actor_membership l) = a
    \<and> m_role (ot_actor_membership l) = Owner
    \<and> ot_team l \<in> set (teams db) \<and> t_id (ot_team l) = m_team_id (ot_actor_membership l) \<and> a \<noteq> b
    \<and> ot_target l \<in> set (users db) \<and> u_id (ot_target l) = b
    \<and> ot_target_membership l \<in> set (memberships db) \<and> m_user_id (ot_target_membership l) = b
    \<and> m_role (ot_target_membership l) = Member
    \<and> m_team_id (ot_target_membership l) = t_id (ot_team l)"
  using assms
  by (auto simp: lock_owner_and_target_def Let_def locked_team_def split: option.splits if_splits
      dest!: lock_users_Some lock_memberships_Some fetch_Some)

lemma transfer_owner_effect:
  assumes "transfer_owner st rt w rq target db1 db2 = Inr (resp, db')"
  shows "\<exists>u e l xs ys. require_user st rt rq (w_utcnow w 0) db1 = Inr u
    \<and> ensure_team_changes_open db2 (w_utcnow w 1) = Inr e
    \<and> lock_owner_and_target db2 (u_id u) target (e_id e) (u_credential_version u) = Inr l
    \<and> u_active (ot_target l) \<and> u_role (ot_target l) = Participant
    \<and> db' = db2\<lparr>memberships := update_where (\<lambda>x. m_id x = m_id (ot_target_membership l))
           (\<lambda>x. x\<lparr>m_role := Owner\<rparr>)
           (update_where (\<lambda>x. m_id x = m_id (ot_actor_membership l)) (\<lambda>x. x\<lparr>m_role := Member\<rparr>)
              (memberships db2)),
         audit_events := xs, outbox_events := ys\<rparr>
    \<and> team_audit (u_id u) (e_id e) db2 db'"
proof -
  define f where "f = (\<lambda>l :: owner_and_target.
    set_member_role (m_id (ot_target_membership l)) Owner
      (set_member_role (m_id (ot_actor_membership l)) Member db2))"
  obtain u e l db5 where u: "require_user st rt rq (w_utcnow w 0) db1 = Inr u"
    and e: "ensure_team_changes_open db2 (w_utcnow w 1) = Inr e"
    and l: "lock_owner_and_target db2 (u_id u) target (e_id e) (u_credential_version u) = Inr l"
    and ok: "u_active (ot_target l)" "u_role (ot_target l) = Participant"
    and a: "add_audit (w_uuid4 w 2) (w_utcnow w 4) (Some (u_id (ot_actor l))) ''team.owner_transferred''
        ''team'' (Some (t_id (ot_team l))) [(''event_id'', JId (e_id e)),
          (''previous_owner_id'', JId (u_id (ot_actor l))), (''new_owner_id'', JId (u_id (ot_target l)))]
        (f l) = Some db5"
    and o: "add_outbox (w_uuid4 w 3) (w_utcnow w 5) ''team.owner_transferred'' ''team'' (t_id (ot_team l))
        [(''team_id'', JId (t_id (ot_team l))), (''event_id'', JId (e_id e)),
         (''previous_owner_id'', JId (u_id (ot_actor l))), (''new_owner_id'', JId (u_id (ot_target l)))]
        db5 = Some db'"
    using assms
    by (auto simp: transfer_owner_def Let_def bind_eq_Some_conv f_def split: if_splits)
  have "u_id (ot_actor l) = u_id u" using lock_owner_and_target_Inr[OF l] by simp
  then have "team_audit (u_id u) (e_id e) db2 db'"
    using a o by (intro team_audit_append)
      (auto simp: add_audit_Some add_outbox_Some TEAM_MUTATION_ACTIONS_def f_def set_member_role_def)
  with u e l ok a o show ?thesis
    by (intro exI[of _ u] exI[of _ e] exI[of _ l] exI[of _ "audit_events db'"]
        exI[of _ "outbox_events db'"])
      (auto simp: add_audit_Some add_outbox_Some f_def set_member_role_def)
qed

lemma remove_member_effect:
  assumes "remove_member st rt w rq target db1 db2 = Inr (resp, db')"
  shows "\<exists>u e l xs ys. require_user st rt rq (w_utcnow w 0) db1 = Inr u
    \<and> ensure_team_changes_open db2 (w_utcnow w 1) = Inr e
    \<and> lock_owner_and_target db2 (u_id u) target (e_id e) (u_credential_version u) = Inr l
    \<and> count_where (\<lambda>b. b_user_id b = target \<and> b_team_id b = t_id (ot_team l)) (submissions db2) = 0
    \<and> (\<forall>t \<in> set (teams db2). t_id t \<noteq> t_id (ot_team l) \<longrightarrow>
          t_invite_hash t \<noteq> hash_invite rt (st_secret_key st) (w_token w 0))
    \<and> db' = db2\<lparr>teams := update_where (\<lambda>t. t_id t = t_id (ot_team l))
         (\<lambda>t. t\<lparr>t_invite_hash := hash_invite rt (st_secret_key st) (w_token w 0)\<rparr>) (teams db2),
         memberships := delete_where (\<lambda>x. m_id x = m_id (ot_target_membership l)) (memberships db2),
         audit_events := xs, outbox_events := ys\<rparr>
    \<and> team_audit (u_id u) (e_id e) db2 db'"
proof -
  let ?h = "hash_invite rt (st_secret_key st) (w_token w 0)"
  define f where "f = (\<lambda>(l :: owner_and_target) (db :: database).
    db\<lparr>memberships := delete_where (\<lambda>x. m_id x = m_id (ot_target_membership l)) (memberships db)\<rparr>)"
  obtain u e l db4 db5 where u: "require_user st rt rq (w_utcnow w 0) db1 = Inr u"
    and e: "ensure_team_changes_open db2 (w_utcnow w 1) = Inr e"
    and l: "lock_owner_and_target db2 (u_id u) target (e_id e) (u_credential_version u) = Inr l"
    and ok: "count_where (\<lambda>b. b_user_id b = u_id (ot_target l) \<and> b_team_id b = t_id (ot_team l))
        (submissions db2) = 0"
    and h: "set_invite_hash (t_id (ot_team l)) ?h db2 = Some db4"
    and a: "add_audit (w_uuid4 w 2) (w_utcnow w 4) (Some (u_id (ot_actor l))) ''team.member_removed''
        ''team'' (Some (t_id (ot_team l))) [(''event_id'', JId (e_id e)),
          (''removed_user_id'', JId (u_id (ot_target l)))] (f l db4) = Some db5"
    and o: "add_outbox (w_uuid4 w 3) (w_utcnow w 5) ''team.member_removed'' ''team'' (t_id (ot_team l))
        [(''team_id'', JId (t_id (ot_team l))), (''event_id'', JId (e_id e)),
         (''removed_user_id'', JId (u_id (ot_target l)))] db5 = Some db'"
    using assms
    by (auto simp: remove_member_def Let_def bind_eq_Some_conv f_def split: if_splits)
  have i: "u_id (ot_actor l) = u_id u" "u_id (ot_target l) = target"
    using lock_owner_and_target_Inr[OF l] by simp_all
  have "team_audit (u_id u) (e_id e) db2 db'"
    using h a o i by (intro team_audit_append)
      (auto simp: set_invite_hash_Some add_audit_Some add_outbox_Some TEAM_MUTATION_ACTIONS_def f_def)
  with u e l ok h a o i show ?thesis
    by (intro exI[of _ u] exI[of _ e] exI[of _ l] exI[of _ "audit_events db'"]
        exI[of _ "outbox_events db'"])
      (auto simp: set_invite_hash_Some add_audit_Some add_outbox_Some f_def)
qed

lemma leave_team_effect:
  assumes "leave_team st rt w rq db1 db2 = Inr (resp, db')"
  shows "\<exists>u e m xs ys. require_user st rt rq (w_utcnow w 0) db1 = Inr u
    \<and> ensure_team_changes_open db2 (w_utcnow w 1) = Inr e
    \<and> team_mutations (u_id u) (e_id e) db2 < MAX_TEAM_MUTATIONS_PER_USER_EVENT
    \<and> m \<in> set (memberships db2) \<and> m_user_id m = u_id u
    \<and> count_where (\<lambda>b. b_user_id b = u_id u \<and> b_team_id b = m_team_id m) (submissions db2) = 0
    \<and> (m_role m = Owner \<longrightarrow> length (members_of (m_team_id m) db2) \<le> 1
        \<and> count_where (\<lambda>b. b_team_id b = m_team_id m) (submissions db2) = 0)
    \<and> (let db = db2\<lparr>memberships := delete_where (\<lambda>x. m_id x = m_id m) (memberships db2)\<rparr>
       in db' = (if m_role m = Owner then delete_team (m_team_id m) db else db)
                \<lparr>audit_events := xs, outbox_events := ys\<rparr>)
    \<and> team_audit (u_id u) (e_id e) db2 db'"
proof -
  define f where "f = (\<lambda>(m :: membership) (t :: team).
    let db = db2\<lparr>memberships := delete_where (\<lambda>x. m_id x = m_id m) (memberships db2)\<rparr>
    in if m_role m = Owner then delete_team (t_id t) db else db)"
  obtain u e where u: "require_user st rt rq (w_utcnow w 0) db1 = Inr u"
    and e: "ensure_team_changes_open db2 (w_utcnow w 1) = Inr e"
    and l: "lock_actor_and_assert_lifetime_limit db2 (u_id u) (e_id e) (u_credential_version u) = Inr ()"
    using assms by (auto simp: leave_team_def)
  note run = assms[unfolded leave_team_def u e l bindR_Inr]
  obtain m t where m: "fetch m_user_id (u_id u) (memberships db2) = Some m"
    and t: "fetch t_id (m_team_id m) (teams db2) = Some t"
    using run by (auto simp: locked_membership_def locked_team_def split: option.split_asm)
  obtain db5 where
    g: "\<not> (m_role m = Owner \<and> 1 < length (members_of (t_id t) db2))"
      "count_where (\<lambda>b. b_user_id b = u_id u \<and> b_team_id b = m_team_id m) (submissions db2) = 0"
      "\<not> (m_role m = Owner \<and> count_where (\<lambda>b. b_team_id b = m_team_id m) (submissions db2) \<noteq> 0)"
    and a: "add_audit (w_uuid4 w 2) (w_utcnow w 4) (Some (u_id u)) ''team.left'' ''team''
         (Some (m_team_id m)) [(''event_id'', JId (e_id e))] (f m t) = Some db5"
    and o: "add_outbox (w_uuid4 w 3) (w_utcnow w 5) ''team.member_left'' ''team'' (m_team_id m)
         [(''team_id'', JId (m_team_id m)), (''user_id'', JId (u_id u))] db5 = Some db'"
    using run unfolding locked_membership_def locked_team_def m t f_def
    by (simp add: bind_eq_Some_conv m t Let_def del: One_nat_def split: if_split_asm) blast+
  have ti: "t_id t = m_team_id m" using fetch_Some[OF t] by simp
  have fa: "audit_events (f m t) = audit_events db2" by (simp add: f_def delete_team_def Let_def)
  have "team_audit (u_id u) (e_id e) db2 db'"
    using a o by (intro team_audit_append)
      (auto simp: add_audit_Some add_outbox_Some TEAM_MUTATION_ACTIONS_def fa)
  with u e lock_actor_Inr[OF l] fetch_Some[OF m] g a o ti show ?thesis
    by (intro exI[of _ u] exI[of _ e] exI[of _ m] exI[of _ "audit_events db'"]
        exI[of _ "outbox_events db'"])
      (auto simp: add_audit_Some add_outbox_Some f_def Let_def delete_team_def)
qed

section \<open>Every operation keeps the roster\<close>

abbreviation roster :: "database \<Rightarrow> bool" where
  "roster db \<equiv> roster_ok (teams db) (memberships db)"

lemma create_team_roster:
  "create_team st rt w rq name db1 db2 db3 = Inr (resp, db') \<Longrightarrow> roster db3 \<Longrightarrow> roster db'"
  by (drule create_team_effect) (auto intro!: roster_new_team)

lemma join_team_roster:
  "join_team st rt w rq code db1 db2 = Inr (resp, db') \<Longrightarrow> roster db2 \<Longrightarrow> roster db'"
  by (drule join_team_effect) (auto intro: roster_new_member)

lemma rotate_invite_roster:
  "rotate_invite st rt w rq db1 db2 = Inr (resp, db') \<Longrightarrow> roster db2 \<Longrightarrow> roster db'"
  by (drule rotate_invite_effect) (auto intro!: roster_new_invite)

lemma transfer_owner_roster:
  assumes "transfer_owner st rt w rq target db1 db2 = Inr (resp, db')" and "roster db2"
  shows "roster db'"
proof -
  obtain u :: user and e :: event and l xs ys where l: "lock_owner_and_target db2 (u_id u) target (e_id e) (u_credential_version u) = Inr l"
    and d: "db' = db2\<lparr>memberships := update_where (\<lambda>x. m_id x = m_id (ot_target_membership l))
           (\<lambda>x. x\<lparr>m_role := Owner\<rparr>)
           (update_where (\<lambda>x. m_id x = m_id (ot_actor_membership l)) (\<lambda>x. x\<lparr>m_role := Member\<rparr>)
              (memberships db2)), audit_events := xs, outbox_events := ys\<rparr>"
    using transfer_owner_effect[OF assms(1)] by (elim exE conjE) (rule that, assumption+)
  note L = lock_owner_and_target_Inr[OF l]
  have "roster_ok (teams db2) (update_where (\<lambda>x. m_id x = m_id (ot_target_membership l))
           (\<lambda>x. x\<lparr>m_role := Owner\<rparr>)
           (update_where (\<lambda>x. m_id x = m_id (ot_actor_membership l)) (\<lambda>x. x\<lparr>m_role := Member\<rparr>)
              (memberships db2)))"
    by (rule roster_transfer[OF assms(2)]) (use L in \<open>auto simp: rev_image_eqI\<close>)
  then show ?thesis by (simp add: d)
qed

lemma remove_member_roster:
  assumes "remove_member st rt w rq target db1 db2 = Inr (resp, db')" and "roster db2"
  shows "roster db'"
proof -
  obtain u :: user and e :: event and l where l: "lock_owner_and_target db2 (u_id u) target (e_id e) (u_credential_version u) = Inr l"
    and h: "\<forall>t \<in> set (teams db2). t_id t \<noteq> t_id (ot_team l) \<longrightarrow>
          t_invite_hash t \<noteq> hash_invite rt (st_secret_key st) (w_token w 0)"
    and d: "teams db' = update_where (\<lambda>t. t_id t = t_id (ot_team l))
         (\<lambda>t. t\<lparr>t_invite_hash := hash_invite rt (st_secret_key st) (w_token w 0)\<rparr>) (teams db2)"
      "memberships db' = delete_where (\<lambda>x. m_id x = m_id (ot_target_membership l)) (memberships db2)"
    using remove_member_effect[OF assms(1)] by (elim exE conjE) (rule that, (assumption | simp)+)
  note L = lock_owner_and_target_Inr[OF l]
  have "roster_ok (teams db2) (memberships db')"
    unfolding d by (rule roster_remove_member[OF assms(2)]) (use L in simp_all)
  then show ?thesis unfolding d(1) by (rule roster_new_invite[OF _ h])
qed

lemma leave_team_shape:
  assumes "leave_team st rt w rq db1 db2 = Inr (resp, db')"
  shows "\<exists>m \<in> set (memberships db2).
    (if m_role m = Owner
     then length (filter (\<lambda>x. m_team_id x = m_team_id m) (memberships db2)) \<le> 1
       \<and> count_where (\<lambda>b. b_team_id b = m_team_id m) (submissions db2) = 0
       \<and> teams db' = delete_where (\<lambda>x. t_id x = m_team_id m) (teams db2)
       \<and> memberships db' = delete_where (\<lambda>x. m_team_id x = m_team_id m)
           (delete_where (\<lambda>x. m_id x = m_id m) (memberships db2))
       \<and> submissions db' = delete_where (\<lambda>b. b_team_id b = m_team_id m) (submissions db2)
       \<and> solves db' = delete_where (\<lambda>b. v_team_id b = m_team_id m) (solves db2)
       \<and> score_events db' = delete_where (\<lambda>b. p_team_id b = m_team_id m) (score_events db2)
     else teams db' = teams db2
       \<and> memberships db' = delete_where (\<lambda>x. m_id x = m_id m) (memberships db2)
       \<and> submissions db' = submissions db2 \<and> solves db' = solves db2
       \<and> score_events db' = score_events db2)"
proof -
  obtain m xs ys where m: "m \<in> set (memberships db2)"
    and o: "m_role m = Owner \<longrightarrow> length (members_of (m_team_id m) db2) \<le> 1
        \<and> count_where (\<lambda>b. b_team_id b = m_team_id m) (submissions db2) = 0"
    and d: "db' = (if m_role m = Owner
         then delete_team (m_team_id m)
           (db2\<lparr>memberships := delete_where (\<lambda>x. m_id x = m_id m) (memberships db2)\<rparr>)
         else db2\<lparr>memberships := delete_where (\<lambda>x. m_id x = m_id m) (memberships db2)\<rparr>)
           \<lparr>audit_events := xs, outbox_events := ys\<rparr>"
    using leave_team_effect[OF assms] unfolding Let_def by blast
  show ?thesis using m o d by (intro bexI[of _ m]) (auto simp: delete_team_def members_of_def)
qed

lemma leave_team_roster:
  assumes "leave_team st rt w rq db1 db2 = Inr (resp, db')" and "roster db2"
  shows "roster db'"
proof -
  obtain m where m: "m \<in> set (memberships db2)" and d: "if m_role m = Owner
     then length (filter (\<lambda>x. m_team_id x = m_team_id m) (memberships db2)) \<le> 1
       \<and> teams db' = delete_where (\<lambda>x. t_id x = m_team_id m) (teams db2)
       \<and> memberships db' = delete_where (\<lambda>x. m_team_id x = m_team_id m)
           (delete_where (\<lambda>x. m_id x = m_id m) (memberships db2))
     else teams db' = teams db2
       \<and> memberships db' = delete_where (\<lambda>x. m_id x = m_id m) (memberships db2)"
    using leave_team_shape[OF assms(1)] by (auto split: if_splits)
  show ?thesis
  proof (cases "m_role m")
    case Owner
    with d show ?thesis using roster_remove_team(1)[OF assms(2) m Owner refl] by simp
  next
    case Member
    with d show ?thesis using roster_remove_member[OF assms(2) m] by simp
  qed
qed

lemma delete_where_none: "count_where P xs = 0 \<Longrightarrow> delete_where P xs = xs"
  by (auto simp: count_where_0 delete_where_def)

section \<open>Properties\<close>

text \<open>
  C12: only the owner of a team manages its members. A successful transfer or removal was
  made by an active account, with the credential version of its session, that owns the
  team the other account is a plain member of; a removal changes no other membership.
\<close>

theorem members_managed_by_owner:
  assumes "remove_member st rt w rq target db1 db2 = Inr (resp, db')" and "roster db2"
  shows "\<exists>u am tm. require_user st rt rq (w_utcnow w 0) db1 = Inr u
    \<and> am \<in> set (memberships db2) \<and> m_user_id am = u_id u \<and> m_role am = Owner
    \<and> tm \<in> set (memberships db2) \<and> m_user_id tm = target \<and> m_role tm = Member
    \<and> m_team_id tm = m_team_id am \<and> target \<noteq> u_id u
    \<and> (\<exists>x \<in> set (users db2). u_id x = u_id u \<and> u_active x
          \<and> u_credential_version x = u_credential_version u)
    \<and> set (memberships db') = set (memberships db2) - {tm}
    \<and> (\<forall>m \<in> set (memberships db'). m_user_id m \<noteq> target)"
proof -
  obtain u and e :: event and l where u: "require_user st rt rq (w_utcnow w 0) db1 = Inr u"
    and l: "lock_owner_and_target db2 (u_id u) target (e_id e) (u_credential_version u) = Inr l"
    and d: "memberships db' = delete_where (\<lambda>x. m_id x = m_id (ot_target_membership l)) (memberships db2)"
    using remove_member_effect[OF assms(1)] by (elim exE conjE) (rule that, (assumption | simp)+)
  let ?tm = "ot_target_membership l"
  note L = lock_owner_and_target_Inr[OF l]
  have c: "conflict_free membership_clash (memberships db2)"
    using assms(2) by (simp add: roster_ok_def)
  have same: "x = ?tm" if "x \<in> set (memberships db2)" "m_id x = m_id ?tm \<or> m_user_id x = target" for x
    using membership_table.unique[OF c that(1), of ?tm] that(2) L by (auto simp: membership_clash_def)
  have s: "set (memberships db') = set (memberships db2) - {?tm}"
    using same by (auto simp: d)
  have gone: "\<forall>m \<in> set (memberships db'). m_user_id m \<noteq> target"
    using same s by auto
  have actor: "\<exists>x \<in> set (users db2). u_id x = u_id u \<and> u_active x
      \<and> u_credential_version x = u_credential_version u"
    using L by blast
  show ?thesis
    by (rule exI[of _ u], rule exI[of _ "ot_actor_membership l"], rule exI[of _ ?tm],
        intro conjI u s gone actor) (use L in \<open>blast | simp\<close>)+
qed

text \<open>
  C13: a removed member cannot come back with the invite everybody on the team has seen:
  after a removal the code that joined the team before joins no team any more, unless the
  keyed hash of the fresh invite collides with that of the old one.
\<close>

theorem removed_member_cannot_rejoin:
  assumes "remove_member st rt w rq target db1 db2 = Inr (resp, db')" and "roster db2"
    and "fetch t_invite_hash (hash_invite rt (st_secret_key st) code) (teams db2) = Some t"
    and "\<exists>m \<in> set (memberships db2). m_user_id m = target \<and> m_team_id m = t_id t"
    and "hash_invite rt (st_secret_key st) (w_token w 0) \<noteq> hash_invite rt (st_secret_key st) code"
  shows "join_team st rt w' rq' code db1' db' \<noteq> Inr result"
proof
  let ?old = "hash_invite rt (st_secret_key st) code" and ?new = "hash_invite rt (st_secret_key st) (w_token w 0)"
  assume "join_team st rt w' rq' code db1' db' = Inr result"
  then obtain t' where t': "t' \<in> set (teams db')" "t_invite_hash t' = ?old"
    using join_team_effect[of st rt w' rq' code db1' db' "fst result" "snd result"] by auto
  obtain u :: user and e :: event and l where l: "lock_owner_and_target db2 (u_id u) target (e_id e) (u_credential_version u) = Inr l"
    and d: "teams db' = update_where (\<lambda>t. t_id t = t_id (ot_team l)) (\<lambda>t. t\<lparr>t_invite_hash := ?new\<rparr>) (teams db2)"
    using remove_member_effect[OF assms(1)] by (elim exE conjE) (rule that, (assumption | simp)+)
  note L = lock_owner_and_target_Inr[OF l]
  have cm: "conflict_free membership_clash (memberships db2)" and ct: "conflict_free team_clash (teams db2)"
    using assms(2) by (simp_all add: roster_ok_def)
  obtain m where m: "m \<in> set (memberships db2)" "m_user_id m = target" "m_team_id m = t_id t"
    using assms(4) by blast
  have "m = ot_target_membership l"
    using membership_table.unique[OF cm m(1), of "ot_target_membership l"] m(2) L
    by (auto simp: membership_clash_def)
  then have tt: "t_id t = t_id (ot_team l)" using m(3) L by simp
  have x: "t' \<in> set (teams db2)" "t_id t' \<noteq> t_id (ot_team l)"
    using t' assms(5) by (auto simp: d split: if_splits)
  have "t' = t"
    using team_table.unique[OF ct x(1), of t] fetch_Some[OF assms(3)] t'(2)
    by (auto simp: team_clash_def)
  with x tt show False by simp
qed

text \<open>
  Changing teams never loses activity. Leaving (which deletes the team of a last
  owner) keeps every submission, solve and score event, since the code refuses to let go
  of a member or a team that has submitted.
\<close>

theorem leaving_keeps_activity:
  assumes "leave_team st rt w rq db1 db2 = Inr (resp, db')"
    and "\<forall>v \<in> set (solves db2). \<exists>b \<in> set (submissions db2). b_id b = v_submission_id v \<and> b_team_id b = v_team_id v"
    and "\<forall>p \<in> set (score_events db2). \<exists>v \<in> set (solves db2). p_solve_id p = Some (v_id v) \<and> v_team_id v = p_team_id p"
  shows "submissions db' = submissions db2 \<and> solves db' = solves db2 \<and> score_events db' = score_events db2"
proof (rule bexE[OF leave_team_shape[OF assms(1)]], goal_cases)
  case (1 m)
  show ?case
  proof (cases "m_role m")
    case Owner
    then have n: "\<forall>b \<in> set (submissions db2). b_team_id b \<noteq> m_team_id m"
      using 1(2) by (simp add: count_where_0)
    then have v: "\<forall>v \<in> set (solves db2). v_team_id v \<noteq> m_team_id m" using assms(2) by metis
    then have "\<forall>p \<in> set (score_events db2). p_team_id p \<noteq> m_team_id m" using assms(3) by metis
    then show ?thesis using 1(2) Owner n v by (simp add: delete_where_none count_where_0)
  next
    case Member
    then show ?thesis using 1(2) by simp
  qed
qed

text \<open>
  C28: The name check of \<open>create_team\<close> and its insert are not one step: no row is locked
  for a team that does not exist yet. When another request commits a team with that name
  in between, the flush raises \<open>IntegrityError\<close> outside the \<open>try\<close>, and the response is an
  internal error, not \<open>team_conflict\<close>.
\<close>

theorem create_team_name_race:
  assumes "require_user st rt rq (w_utcnow w 0) db1 = Inr u"
    and "ensure_team_changes_open db2 (w_utcnow w 1) = Inr e"
    and "lock_actor_and_assert_lifetime_limit db2 (u_id u) (e_id e) (u_credential_version u) = Inr ()"
    and "\<forall>m \<in> set (memberships db2). m_user_id m \<noteq> u_id u"
    and "\<forall>t \<in> set (teams db2). lower (t_name t) \<noteq> lower name"
    and "\<exists>t \<in> set (teams db3). lower (t_name t) = lower name"
  shows "create_team st rt w rq name db1 db2 db3 = Inl (Uncaught ''IntegrityError'')"
proof -
  have l: "locked_membership db2 (u_id u) = None"
    using assms(4) by (auto simp: locked_membership_def fetch_None)
  have "insert_team \<lparr>t_id = w_uuid4 w 0, t_name = name,
      t_invite_hash = hash_invite rt (st_secret_key st) (w_token w 0), t_creator_id = u_id u,
      t_created_at = w_utcnow w 2\<rparr> db3 = None"
    using assms(6) by (auto simp: insert_team_def insert_row_def team_clash_def)
  then show ?thesis
    unfolding create_team_def assms(1-3) bindR_Inr using l assms(5) by (auto simp: Let_def)
qed

section \<open>Examples\<close>

definition sample_team :: "uuid \<Rightarrow> string \<Rightarrow> uuid \<Rightarrow> team" where
  "sample_team i name creator = \<lparr>t_id = i, t_name = name,
     t_invite_hash = hash_invite sample_runtime (st_secret_key sample_settings) (''seen invite'' @ name),
     t_creator_id = creator, t_created_at = 0\<rparr>"

definition sample_membership :: "uuid \<Rightarrow> uuid \<Rightarrow> uuid \<Rightarrow> member_role \<Rightarrow> membership" where
  "sample_membership i u t r = \<lparr>m_id = i, m_user_id = u, m_team_id = t, m_role = r, m_joined_at = 0\<rparr>"

text \<open>Ann (7) owns the team, Bob (8) is a member of it.\<close>

definition team_db :: database where
  "team_db = auth_db\<lparr>teams := [sample_team 30 ''red'' 7],
     memberships := [sample_membership 40 7 30 Owner, sample_membership 41 8 30 Member]\<rparr>"

definition solo_db :: database where
  "solo_db = auth_db\<lparr>teams := [sample_team 30 ''red'' 7], memberships := [sample_membership 40 7 30 Owner]\<rparr>"

definition remove_example :: "(http_response \<times> database) result" where
  "remove_example =
     remove_member sample_settings sample_runtime sample_world (sample_request ''old'') 8 team_db team_db"

definition leave_example :: "(http_response \<times> database) result" where
  "leave_example =
     leave_team sample_settings sample_runtime sample_world (sample_request ''old'') solo_db solo_db"

lemma team_db_roster: "roster team_db"
  by (simp add: roster_ok_def team_db_def sample_team_def sample_membership_def conflict_free_def
      membership_clash_def owner_count_def member_count_def MAX_MEMBERS_PER_TEAM_def)

lemmas team_run_defs = require_user_def current_user_def cookie_of_def ensure_team_changes_open_def
  current_event_def current_event_query_def state_allows_registration_def at_or_before_def
  still_before_def lock_users_def lock_memberships_def locked_team_def locked_membership_def
  assert_lifetime_limit_def lock_actor_and_assert_lifetime_limit_def lock_owner_and_target_def
  team_mutations_def MAX_TEAM_MUTATIONS_PER_USER_EVENT_def set_invite_hash_def reload_team_def
  membership_for_def add_audit_def add_outbox_def insert_audit_def insert_outbox_def hash_invite_def
  sample_team_def sample_membership_def team_db_def solo_db_def run_defs

lemma remove_example_ok: "is_ok remove_example"
  by (simp add: remove_example_def remove_member_def Let_def team_run_defs)

lemma leave_example_ok: "is_ok leave_example"
  by code_simp

lemma members_managed_by_owner_witness:
  "\<exists>resp db'. remove_example = Inr (resp, db') \<and> (\<forall>m \<in> set (memberships db'). m_user_id m \<noteq> 8)"
proof -
  obtain resp db' where l: "remove_example = Inr (resp, db')"
    using is_ok_pair[OF remove_example_ok] by auto
  show ?thesis
    using members_managed_by_owner[OF l[unfolded remove_example_def] team_db_roster] l by blast
qed

lemma removed_member_cannot_rejoin_witness:
  "\<exists>resp db'. remove_example = Inr (resp, db')
     \<and> join_team sample_settings sample_runtime sample_world (sample_request ''bob'') ''seen invitered'' db' db'
       \<noteq> Inr (resp, db')"
proof -
  let ?h = "hash_invite sample_runtime (st_secret_key sample_settings)"
  obtain resp db' where l: "remove_example = Inr (resp, db')"
    using is_ok_pair[OF remove_example_ok] by auto
  have f: "fetch t_invite_hash (?h ''seen invitered'') (teams team_db) = Some (sample_team 30 ''red'' 7)"
    by (simp add: team_db_def sample_team_def)
  have m: "\<exists>m \<in> set (memberships team_db). m_user_id m = 8 \<and> m_team_id m = t_id (sample_team 30 ''red'' 7)"
    by (simp add: team_db_def sample_membership_def sample_team_def)
  have n: "?h (w_token sample_world 0) \<noteq> ?h ''seen invitered''"
    by (simp add: hash_invite_def keyed_hash_def hash_message_def sample_runtime_def sample_world_def)
  show ?thesis
    using removed_member_cannot_rejoin[OF l[unfolded remove_example_def] team_db_roster f m n] l by blast
qed

lemma leaving_keeps_activity_witness:
  "\<exists>resp db'. leave_example = Inr (resp, db') \<and> submissions db' = submissions solo_db"
proof -
  obtain resp db' where l: "leave_example = Inr (resp, db')"
    using is_ok_pair[OF leave_example_ok] by auto
  have e: "solves solo_db = []" "score_events solo_db = []"
    by (simp_all add: solo_db_def auth_db_def empty_db_def)
  show ?thesis
    using leaving_keeps_activity[OF l[unfolded leave_example_def]] l e by auto
qed

lemma create_team_name_race_witness:
  "create_team sample_settings sample_runtime sample_world (sample_request ''old'') ''RED''
     auth_db auth_db (auth_db\<lparr>teams := [sample_team 31 ''red'' 8]\<rparr>)
   = Inl (Uncaught ''IntegrityError'')"
proof (rule create_team_name_race)
  show "require_user sample_settings sample_runtime (sample_request ''old'') (w_utcnow sample_world 0) auth_db
      = Inr (sample_user 7 ''ann'')"
    by (simp add: require_user_def current_user_def cookie_of_def run_defs)
  show "ensure_team_changes_open auth_db (w_utcnow sample_world 1) = Inr sample_event"
    by (simp add: ensure_open_Inr current_event_def current_event_query_def state_allows_registration_def
        at_or_before_def still_before_def run_defs)
  show "lock_actor_and_assert_lifetime_limit auth_db (u_id (sample_user 7 ''ann'')) (e_id sample_event)
      (u_credential_version (sample_user 7 ''ann'')) = Inr ()"
    by (simp add: lock_actor_and_assert_lifetime_limit_def lock_users_def team_mutations_def
        MAX_TEAM_MUTATIONS_PER_USER_EVENT_def run_defs assert_lifetime_limit_def)
qed (simp_all add: auth_db_def empty_db_def sample_team_def lower_def lower_char_def char_of_def bit_0)

end
