(* ===== verification/Participant.thy ===== *)
theory Participant
  imports Teams Scoring Prerequisites
begin

text \<open>
  The participant endpoints of backend/src/alpha/routes_participant.py: what a participant
  sees of the challenges, and the submission of a flag. The scoreboard is in the theory
  \<open>Scoreboard\<close>.

  \<open>submit_flag\<close> reads four databases: \<open>db1\<close> before the rate check (the event row stays
  share locked from here on), \<open>db2\<close> under the locks on the user, the membership and the
  team, \<open>db3\<close> when the rows are written (for a correct flag under the lock on the
  challenge), and \<open>db4\<close> after a rollback.
\<close>

section \<open>Visibility\<close>

definition visibility_context :: "database \<Rightarrow> uuid option \<Rightarrow> uuid set" where
  "visibility_context db team_id =
     (case team_id of
        None \<Rightarrow> {}
      | Some t \<Rightarrow> set (map v_challenge_id (filter (\<lambda>v. v_team_id v = t) (solves db))))"

definition is_accessible :: "instant \<Rightarrow> database \<Rightarrow> challenge \<Rightarrow> uuid set \<Rightarrow> bool" where
  "is_accessible now db c solved_ids \<longleftrightarrow>
     c_visible c
     \<and> (case aware (c_visible_at c) of None \<Rightarrow> True | Some t \<Rightarrow> t \<le> now)
     \<and> (\<forall>p \<in> set (prerequisites_of (prereqs db) (c_id c)). p \<in> solved_ids)"

text \<open>
  The three results of \<open>_challenge_stats\<close>: solves per challenge, attempts of the team per
  challenge, challenges the team has solved. A challenge outside the list counts 0.
\<close>

definition challenge_stats ::
  "database \<Rightarrow> challenge list \<Rightarrow> uuid option \<Rightarrow> (uuid \<Rightarrow> int) \<times> (uuid \<Rightarrow> int) \<times> uuid set" where
  "challenge_stats db cs team_id =
     (let ids = map c_id cs
      in (\<lambda>c. if c \<in> set ids then int (count_where (\<lambda>v. v_challenge_id v = c) (solves db)) else 0,
          case team_id of
            None \<Rightarrow> (\<lambda>c. 0)
          | Some t \<Rightarrow> (\<lambda>c. if c \<in> set ids
              then int (count_where (\<lambda>b. b_team_id b = t \<and> b_challenge_id b = c) (submissions db)) else 0),
          case team_id of
            None \<Rightarrow> {}
          | Some t \<Rightarrow> set (map v_challenge_id
              (filter (\<lambda>v. v_team_id v = t \<and> v_challenge_id v \<in> set ids) (solves db)))))"

fun scoring_name :: "scoring_type \<Rightarrow> string" where
  "scoring_name FixedScoring = ''fixed''"
| "scoring_name DynamicScoring = ''dynamic''"

definition challenge_dict :: "database \<Rightarrow> challenge \<Rightarrow> int \<Rightarrow> int \<Rightarrow> bool \<Rightarrow> json_object" where
  "challenge_dict db c solve_count attempts solved =
     [(''id'', JId (c_id c)),
      (''slug'', JStr (c_slug c)),
      (''title'', JStr (c_title c)),
      (''category'', JStr (c_category c)),
      (''description_md'', JStr (c_description_md c)),
      (''connection_info'', case c_connection_info c of None \<Rightarrow> JNull | Some x \<Rightarrow> JStr x),
      (''scoring_type'', JStr (scoring_name (c_scoring_type c))),
      (''current_points'', JInt (challenge_points c solve_count)),
      (''solve_count'', JInt solve_count),
      (''solved'', JBool solved),
      (''max_attempts'', JInt (c_max_attempts c)),
      (''attempts'', JInt attempts),
      (''visible_at'', iso (c_visible_at c)),
      (''prerequisite_ids'', JList (map JId (prerequisites_of (prereqs db) (c_id c))))]"

section \<open>Read endpoints\<close>

definition get_current_event :: "database \<Rightarrow> json_object result" where
  "get_current_event db =
     (case current_event db of None \<Rightarrow> err 404 ''event_not_found'' | Some e \<Rightarrow> Inr (event_dict e))"

definition announcement_dict :: "announcement \<Rightarrow> json" where
  "announcement_dict n =
     JObj [(''id'', JId (n_id n)), (''title'', JStr (n_title n)), (''body_md'', JStr (n_body_md n)),
       (''publish_at'', JTime (n_publish_at n)), (''created_at'', JTime (n_created_at n)),
       (''updated_at'', JTime (n_updated_at n))]"

definition published_announcements :: "database \<Rightarrow> instant \<Rightarrow> announcement list" where
  "published_announcements db now =
     (case current_event db of
        None \<Rightarrow> []
      | Some e \<Rightarrow> sort_key (\<lambda>n. - n_publish_at n)
          (filter (\<lambda>n. n_event_id n = e_id e \<and> n_publish_at n \<le> now) (announcements db)))"

definition announcements_endpoint :: "database \<Rightarrow> instant \<Rightarrow> json" where
  "announcements_endpoint db now =
     JObj [(''items'', JList (map announcement_dict (published_announcements db now)))]"

text \<open>Challenge \<open>i\<close> of the list is judged at the reading \<open>2 + i\<close> of the clock.\<close>

definition visible_challenges :: "world \<Rightarrow> database \<Rightarrow> event \<Rightarrow> uuid option \<Rightarrow> challenge list" where
  "visible_challenges w db e team_id =
     (let rows = sort_key (\<lambda>c. (c_category c, c_initial_points c, c_title c))
                   (filter (\<lambda>c. c_event_id c = e_id e) (challenges db));
          (_, _, solved_ids) = challenge_stats db rows team_id
      in map snd (filter (\<lambda>(i, c). is_accessible (w_utcnow w (2 + i)) db c solved_ids)
           (enumerate 0 rows)))"

definition challenge_list ::
  "settings \<Rightarrow> runtime \<Rightarrow> world \<Rightarrow> request \<Rightarrow> database \<Rightarrow> json result" where
  "challenge_list st rt w rq db =
     bindR (require_user st rt rq (w_utcnow w 0) db) (\<lambda>u.
       case current_event db of
         None \<Rightarrow> Inr (JObj [(''items'', JList [])])
       | Some e \<Rightarrow>
           if \<not> state_allows_challenge_access e (w_utcnow w 1) then Inr (JObj [(''items'', JList [])])
           else
             let team_id = map_option m_team_id (membership_for db u);
                 rows = filter (\<lambda>c. c_event_id c = e_id e) (challenges db);
                 (solve_counts, attempt_counts, solved_ids) = challenge_stats db rows team_id
             in Inr (JObj [(''items'', JList (map (\<lambda>c. JObj (challenge_dict db c (solve_counts (c_id c))
                  (attempt_counts (c_id c)) (c_id c \<in> solved_ids)))
                  (visible_challenges w db e team_id)))]))"

definition challenge_detail ::
  "settings \<Rightarrow> runtime \<Rightarrow> world \<Rightarrow> request \<Rightarrow> uuid \<Rightarrow> database \<Rightarrow> json_object result" where
  "challenge_detail st rt w rq challenge_id db =
     bindR (require_user st rt rq (w_utcnow w 0) db) (\<lambda>u.
       let team_id = map_option m_team_id (membership_for db u)
       in case current_event db of
            None \<Rightarrow> err 404 ''challenge_not_found''
          | Some e \<Rightarrow>
              if \<not> state_allows_challenge_access e (w_utcnow w 1) then err 404 ''challenge_not_found''
              else case find (\<lambda>c. c_id c = challenge_id \<and> c_event_id c = e_id e) (challenges db) of
                None \<Rightarrow> err 404 ''challenge_not_found''
              | Some c \<Rightarrow>
                  let solved_ids = visibility_context db team_id
                  in if \<not> is_accessible (w_utcnow w 2) db c solved_ids
                     then err 404 ''challenge_not_found''
                     else
                       let (solve_counts, attempt_counts, _) = challenge_stats db [c] team_id
                       in Inr (challenge_dict db c (solve_counts (c_id c)) (attempt_counts (c_id c))
                                 (c_id c \<in> solved_ids)))"

section \<open>Submissions\<close>

datatype answer_message = AnswerCorrect | AnswerWrong | AlreadySolved

record submission_reply =
  sr_correct :: bool
  sr_message :: answer_message
  sr_awarded_points :: int
  sr_solved_at :: "instant option"

record submit_request =
  su_flag :: string
  su_idempotency_key :: string

definition submission_result :: "database \<Rightarrow> submission \<Rightarrow> submission_reply" where
  "submission_result db b =
     (let v = (if b_correct b then fetch v_submission_id (b_id b) (solves db) else None)
      in \<lparr>sr_correct = b_correct b,
          sr_message = (if b_correct b then AnswerCorrect else AnswerWrong),
          sr_awarded_points = b_awarded_points b,
          sr_solved_at = map_option v_solved_at v\<rparr>)"

definition already_solved :: "solve \<Rightarrow> submission_reply" where
  "already_solved v = \<lparr>sr_correct = True, sr_message = AlreadySolved, sr_awarded_points = 0,
     sr_solved_at = Some (v_solved_at v)\<rparr>"

definition submission_tiers ::
  "settings \<Rightarrow> runtime \<Rightarrow> uuid \<Rightarrow> uuid \<Rightarrow> uuid \<Rightarrow> string \<Rightarrow> (store_key \<times> int \<times> int) list" where
  "submission_tiers st rt event_id team_id challenge_id ip =
     [(SubmitTeam event_id team_id, st_submission_rate_limit st, st_submission_rate_window_seconds st),
      (SubmitIp event_id (keyed_hash rt (st_secret_key st) ''submission-ip'' ip),
       st_submission_ip_rate_limit st, st_submission_rate_window_seconds st),
      (SubmitChallenge event_id challenge_id, st_submission_challenge_rate_limit st,
       st_submission_rate_window_seconds st)]"

definition check_submission_rate ::
  "('j, 's) store_ops \<Rightarrow> settings \<Rightarrow> runtime \<Rightarrow> world \<Rightarrow> uuid \<Rightarrow> uuid \<Rightarrow> uuid \<Rightarrow> string \<Rightarrow> 's \<Rightarrow>
   unit result \<times> 's" where
  "check_submission_rate ops st rt w event_id team_id challenge_id ip s =
     check_rates ops (w_monotonic w) ''submission_rate_limited'' 0
       (submission_tiers st rt event_id team_id challenge_id ip) s"

definition find_submission :: "uuid \<Rightarrow> uuid \<Rightarrow> string \<Rightarrow> database \<Rightarrow> submission option" where
  "find_submission team_id challenge_id key db =
     find (\<lambda>b. b_team_id b = team_id \<and> b_challenge_id b = challenge_id \<and> b_idempotency_key b = key)
       (submissions db)"

definition find_solve :: "uuid \<Rightarrow> uuid \<Rightarrow> database \<Rightarrow> solve option" where
  "find_solve team_id challenge_id db =
     find (\<lambda>v. v_team_id v = team_id \<and> v_challenge_id v = challenge_id) (solves db)"

definition flag_matches :: "settings \<Rightarrow> runtime \<Rightarrow> challenge \<Rightarrow> string \<Rightarrow> bool" where
  "flag_matches st rt c flag =
     (case c_flag_type c of
        ExactFlag \<Rightarrow> compare_exact_flag rt (st_secret_key st) (c_flag_hash c) flag
      | RegexFlag \<Rightarrow> matched (compare_regex_flag rt (c_flag_regex c) flag))"

text \<open>
  The submission up to the rate check, on \<open>db1\<close>. The left alternative is a replay: the
  stored reply is returned and nothing else happens. The right one carries the user, the
  event and the team the rest of the handler works with.

  Clock readings: 0 session, 1 gate, 2 session again, 3 visibility, 4 submission, 5 solve,
  6 score event, 7 gate before the commit, 8 audit, 9 outbox. Identifiers: 0 submission,
  1 solve, 2 score event, 3 audit, 4 outbox.
\<close>

definition submit_admission ::
  "settings \<Rightarrow> runtime \<Rightarrow> world \<Rightarrow> request \<Rightarrow> uuid \<Rightarrow> submit_request \<Rightarrow> database \<Rightarrow>
   (submission_reply + user \<times> event \<times> uuid) result" where
  "submit_admission st rt w rq challenge_id p db =
     bindR (require_user st rt rq (w_utcnow w 0) db) (\<lambda>u.
       case current_event db of
         None \<Rightarrow> err 409 ''submissions_closed''
       | Some e \<Rightarrow>
           if \<not> state_allows_submission e (w_utcnow w 1) then err 409 ''submissions_closed''
           else case fetch m_user_id (u_id u) (memberships db) of
             None \<Rightarrow> err 409 ''team_required''
           | Some m \<Rightarrow>
               if int (length (su_flag p)) > st_max_flag_length st then err 422 ''flag_too_long''
               else (case find_submission (m_team_id m) challenge_id (su_idempotency_key p) db of
                       Some b \<Rightarrow> Inr (Inl (submission_result db b))
                     | None \<Rightarrow> Inr (Inr (u, e, m_team_id m))))"

text \<open>The limits on stored submissions; \<open>max_attempts\<close> 0 stands for the general limit.\<close>

definition effective_challenge_limit :: "challenge \<Rightarrow> int" where
  "effective_challenge_limit c =
     min (if c_max_attempts c \<noteq> 0 then c_max_attempts c else MAX_CHALLENGE_ATTEMPTS) MAX_CHALLENGE_ATTEMPTS"

definition challenge_attempts :: "uuid \<Rightarrow> uuid \<Rightarrow> database \<Rightarrow> nat" where
  "challenge_attempts team_id challenge_id db =
     count_where (\<lambda>b. b_team_id b = team_id \<and> b_challenge_id b = challenge_id) (submissions db)"

definition event_attempts :: "uuid \<Rightarrow> uuid \<Rightarrow> database \<Rightarrow> nat" where
  "event_attempts team_id event_id db =
     count_where (\<lambda>b. b_team_id b = team_id
       \<and> (\<exists>c \<in> set (challenges db). c_id c = b_challenge_id b \<and> c_event_id c = event_id)) (submissions db)"

definition check_attempts :: "database \<Rightarrow> uuid \<Rightarrow> uuid \<Rightarrow> challenge \<Rightarrow> unit result" where
  "check_attempts db event_id team_id c =
     (if effective_challenge_limit c \<le> int (challenge_attempts team_id (c_id c) db)
      then err 409 (if c_max_attempts c \<noteq> 0 then ''attempt_limit_reached''
                    else ''submission_storage_limit_reached'')
      else if MAX_SUBMISSIONS_PER_TEAM_EVENT \<le> event_attempts team_id event_id db
      then err 409 ''submission_storage_limit_reached''
      else Inr ())"

text \<open>
  Under the locks, on \<open>db2\<close>: the account, the session and the membership are checked
  again. The right alternative is the challenge with the outcome of the first match.
\<close>

definition submit_locked ::
  "settings \<Rightarrow> runtime \<Rightarrow> world \<Rightarrow> request \<Rightarrow> uuid \<Rightarrow> submit_request \<Rightarrow> user \<Rightarrow> event \<Rightarrow> uuid \<Rightarrow> database \<Rightarrow>
   (submission_reply + challenge \<times> bool) result" where
  "submit_locked st rt w rq challenge_id p u e team_id db =
     (case fetch u_id (u_id u) (users db) of
        None \<Rightarrow> err 401 ''invalid_session''
      | Some locked \<Rightarrow>
          if \<not> u_active locked then err 401 ''invalid_session''
          else bindR (require_user st rt rq (w_utcnow w 2) db) (\<lambda>again.
            if u_id again \<noteq> u_id locked then err 401 ''invalid_session''
            else if map_option m_team_id (fetch m_user_id (u_id locked) (memberships db)) \<noteq> Some team_id
            then err 409 ''team_membership_changed''
            else if fetch t_id team_id (teams db) = None then err 409 ''team_required''
            else case find_submission team_id challenge_id (su_idempotency_key p) db of
              Some b \<Rightarrow> Inr (Inl (submission_result db b))
            | None \<Rightarrow>
                (case find (\<lambda>c. c_id c = challenge_id \<and> c_event_id c = e_id e) (challenges db) of
                   None \<Rightarrow> err 404 ''challenge_not_found''
                 | Some c \<Rightarrow>
                     if \<not> is_accessible (w_utcnow w 3) db c (visibility_context db (Some team_id))
                     then err 404 ''challenge_not_found''
                     else (case find_solve team_id (c_id c) db of
                             Some v \<Rightarrow> Inr (Inl (already_solved v))
                           | None \<Rightarrow>
                               bindR (check_attempts db (e_id e) team_id c) (\<lambda>_.
                               Inr (Inr (c, flag_matches st rt c (su_flag p))))))))"

text \<open>
  A flag that seems correct is matched again against the challenge as it is once its row
  is locked (\<open>db3\<close>).
\<close>

definition rematch ::
  "settings \<Rightarrow> runtime \<Rightarrow> submit_request \<Rightarrow> event \<Rightarrow> challenge \<Rightarrow> bool \<Rightarrow> database \<Rightarrow> (challenge \<times> bool) result" where
  "rematch st rt p e c correct db =
     (if \<not> correct then Inr (c, False)
      else case find (\<lambda>x. c_id x = c_id c \<and> c_event_id x = e_id e) (challenges db) of
             None \<Rightarrow> err 404 ''challenge_not_found''
           | Some locked \<Rightarrow> Inr (locked, flag_matches st rt locked (su_flag p)))"

definition submission_row ::
  "settings \<Rightarrow> runtime \<Rightarrow> world \<Rightarrow> request \<Rightarrow> submit_request \<Rightarrow> uuid \<Rightarrow> uuid \<Rightarrow> uuid \<Rightarrow> bool \<Rightarrow> submission" where
  "submission_row st rt w rq p user_id team_id challenge_id correct =
     \<lparr>b_id = w_uuid4 w 0, b_team_id = team_id, b_challenge_id = challenge_id, b_user_id = user_id,
      b_submitted_hash = hash_submission rt (st_secret_key st) (su_flag p), b_correct = correct,
      b_awarded_points = 0, b_idempotency_key = su_idempotency_key p,
      b_ip_hash = hash_ip rt (st_secret_key st) (client_ip rq), b_created_at = w_utcnow w 4\<rparr>"

definition solve_row :: "world \<Rightarrow> uuid \<Rightarrow> uuid \<Rightarrow> uuid \<Rightarrow> solve" where
  "solve_row w user_id team_id challenge_id =
     \<lparr>v_id = w_uuid4 w 1, v_team_id = team_id, v_challenge_id = challenge_id, v_user_id = user_id,
      v_submission_id = w_uuid4 w 0, v_solved_at = w_utcnow w 5\<rparr>"

text \<open>\<open>score_row\<close> is stored with 0 points; the points are set once the solve is counted.\<close>

definition score_row :: "world \<Rightarrow> uuid \<Rightarrow> uuid \<Rightarrow> uuid \<Rightarrow> score_event" where
  "score_row w event_id team_id challenge_id =
     \<lparr>p_id = w_uuid4 w 2, p_event_id = event_id, p_team_id = team_id,
      p_challenge_id = Some challenge_id, p_solve_id = Some (w_uuid4 w 1), p_kind = SolveScore,
      p_points = 0, p_active = True, p_created_at = w_utcnow w 6\<rparr>"

definition set_awarded_points :: "uuid \<Rightarrow> uuid \<Rightarrow> int \<Rightarrow> database \<Rightarrow> database" where
  "set_awarded_points submission_id score_event_id points db = db\<lparr>
     submissions := update_where (\<lambda>b. b_id b = submission_id) (\<lambda>b. b\<lparr>b_awarded_points := points\<rparr>)
       (submissions db),
     score_events := update_where (\<lambda>p. p_id p = score_event_id) (\<lambda>p. p\<lparr>p_points := points\<rparr>)
       (score_events db)\<rparr>"

definition flush_rows ::
  "settings \<Rightarrow> runtime \<Rightarrow> world \<Rightarrow> request \<Rightarrow> submit_request \<Rightarrow> uuid \<Rightarrow> event \<Rightarrow> uuid \<Rightarrow> challenge \<Rightarrow> bool \<Rightarrow>
   database \<Rightarrow> database option" where
  "flush_rows st rt w rq p user_id e team_id c correct db = do {
     db \<leftarrow> insert_submission (submission_row st rt w rq p user_id team_id (c_id c) correct) db;
     if \<not> correct then Some db
     else do {
       db \<leftarrow> insert_solve (solve_row w user_id team_id (c_id c)) db;
       insert_score_event (score_row w (e_id e) team_id (c_id c)) db } }"

definition commit_rows ::
  "world \<Rightarrow> uuid \<Rightarrow> event \<Rightarrow> uuid \<Rightarrow> challenge \<Rightarrow> bool \<Rightarrow> int \<Rightarrow> database \<Rightarrow> database option" where
  "commit_rows w user_id e team_id c correct points db =
     (if \<not> correct then Some db
      else do {
        db \<leftarrow> add_audit (w_uuid4 w 3) (w_utcnow w 8) (Some user_id) ''challenge.solved'' ''challenge''
                (Some (c_id c)) [(''team_id'', JId team_id)]
                (set_awarded_points (w_uuid4 w 0) (w_uuid4 w 2) points db);
        add_outbox (w_uuid4 w 4) (w_utcnow w 9) ''challenge.solved'' ''challenge'' (c_id c)
          [(''event_id'', JId (e_id e)), (''challenge_id'', JId (c_id c)), (''team_id'', JId team_id),
           (''points'', JInt points)] db })"

text \<open>After an \<open>IntegrityError\<close>, on \<open>db4\<close>.\<close>

definition submit_conflict :: "uuid \<Rightarrow> submit_request \<Rightarrow> uuid \<Rightarrow> database \<Rightarrow> submission_reply result" where
  "submit_conflict challenge_id p team_id db =
     (case find_solve team_id challenge_id db of
        Some v \<Rightarrow> Inr (already_solved v)
      | None \<Rightarrow>
          (case find_submission team_id challenge_id (su_idempotency_key p) db of
             Some b \<Rightarrow> Inr (submission_result db b)
           | None \<Rightarrow> err 409 ''submission_conflict''))"

text \<open>
  The writes. The result is the reply, the committed database (\<open>None\<close> when nothing is
  committed) and whether the scoreboard changed.
\<close>

definition submit_write ::
  "settings \<Rightarrow> runtime \<Rightarrow> world \<Rightarrow> request \<Rightarrow> uuid \<Rightarrow> submit_request \<Rightarrow> uuid \<Rightarrow> event \<Rightarrow> uuid \<Rightarrow> challenge \<Rightarrow>
   bool \<Rightarrow> database \<Rightarrow> database \<Rightarrow> (submission_reply \<times> database option \<times> bool) result" where
  "submit_write st rt w rq challenge_id p user_id e team_id c correct db3 db4 =
     (let conflict = bindR (submit_conflict challenge_id p team_id db4) (\<lambda>r. Inr (r, None, False))
      in case flush_rows st rt w rq p user_id e team_id c correct db3 of
           None \<Rightarrow> conflict
         | Some db \<Rightarrow>
             let solve_count = int (count_where (\<lambda>v. v_challenge_id v = c_id c) (solves db));
                 points = (if correct then challenge_points c solve_count else 0)
             in if \<not> state_allows_submission e (w_utcnow w 7) then err 409 ''submissions_closed''
                else (case commit_rows w user_id e team_id c correct points db of
                        None \<Rightarrow> conflict
                      | Some db \<Rightarrow>
                          Inr (\<lparr>sr_correct = correct,
                                sr_message = (if correct then AnswerCorrect else AnswerWrong),
                                sr_awarded_points = points,
                                sr_solved_at = (if correct then Some (w_utcnow w 5) else None)\<rparr>,
                               Some db, correct)))"

definition submit_transaction ::
  "settings \<Rightarrow> runtime \<Rightarrow> world \<Rightarrow> request \<Rightarrow> uuid \<Rightarrow> submit_request \<Rightarrow> user \<Rightarrow> event \<Rightarrow> uuid \<Rightarrow>
   database \<Rightarrow> database \<Rightarrow> database \<Rightarrow> (submission_reply \<times> database option \<times> bool) result" where
  "submit_transaction st rt w rq challenge_id p u e team_id db2 db3 db4 =
     bindR (submit_locked st rt w rq challenge_id p u e team_id db2) (\<lambda>r.
       case r of
         Inl reply \<Rightarrow> Inr (reply, None, False)
       | Inr (c, correct) \<Rightarrow>
           bindR (rematch st rt p e c correct db3) (\<lambda>(c, correct).
           submit_write st rt w rq challenge_id p (u_id u) e team_id c correct db3 db4))"

text \<open>
  After a correct flag the generation of the scoreboard is incremented and its cached
  forms are dropped; a failure of the store is logged and ignored.
\<close>

definition drop_cached :: "('j, 's) store_ops \<Rightarrow> uuid \<Rightarrow> cache_phase \<Rightarrow> 's \<Rightarrow> 's" where
  "drop_cached ops event_id phase s =
     (case op_delete ops (ScoreboardPublic event_id phase) s of None \<Rightarrow> s | Some s' \<Rightarrow> s')"

definition invalidate_scoreboard :: "('j, 's) store_ops \<Rightarrow> uuid \<Rightarrow> 's \<Rightarrow> 's" where
  "invalidate_scoreboard ops event_id s =
     fold (drop_cached ops event_id) [LivePhase, FrozenPhase, FinalPhase]
       (case op_increment ops (ScoreboardGeneration event_id) s of None \<Rightarrow> s | Some (_, s') \<Rightarrow> s')"

definition submit_flag ::
  "('j, 's) store_ops \<Rightarrow> settings \<Rightarrow> runtime \<Rightarrow> world \<Rightarrow> request \<Rightarrow> uuid \<Rightarrow> submit_request \<Rightarrow>
   database \<Rightarrow> database \<Rightarrow> database \<Rightarrow> database \<Rightarrow> 's \<Rightarrow> (submission_reply \<times> database option) result \<times> 's" where
  "submit_flag ops st rt w rq challenge_id p db1 db2 db3 db4 s =
     (case submit_admission st rt w rq challenge_id p db1 of
        Inl e \<Rightarrow> (Inl e, s)
      | Inr (Inl reply) \<Rightarrow> (Inr (reply, None), s)
      | Inr (Inr (u, e, team_id)) \<Rightarrow>
          (case check_submission_rate ops st rt w (e_id e) team_id challenge_id (client_ip rq) s of
             (Inl x, s) \<Rightarrow> (Inl x, s)
           | (Inr _, s) \<Rightarrow>
               (case submit_transaction st rt w rq challenge_id p u e team_id db2 db3 db4 of
                  Inl x \<Rightarrow> (Inl x, s)
                | Inr (reply, db, changed) \<Rightarrow>
                    (Inr (reply, db), if changed then invalidate_scoreboard ops (e_id e) s else s))))"

section \<open>What a submission commits\<close>

lemma update_where_last:
  assumes "\<forall>x \<in> set xs. key x \<noteq> k"
  shows "update_where (\<lambda>x. key x = k) f xs = xs"
  using assms by (induction xs) auto

lemma flush_rows_Some:
  assumes "flush_rows st rt w rq p uid e t c correct db = Some db'"
  shows "db' = db\<lparr>submissions := submissions db @ [submission_row st rt w rq p uid t (c_id c) correct],
      solves := solves db @ (if correct then [solve_row w uid t (c_id c)] else []),
      score_events := score_events db @ (if correct then [score_row w (e_id e) t (c_id c)] else [])\<rparr>
    \<and> (\<forall>x \<in> set (submissions db). \<not> submission_clash x (submission_row st rt w rq p uid t (c_id c) correct))
    \<and> (correct \<longrightarrow> (\<forall>x \<in> set (solves db). \<not> solve_clash x (solve_row w uid t (c_id c)))
        \<and> (\<forall>x \<in> set (score_events db). \<not> score_event_clash x (score_row w (e_id e) t (c_id c))))
    \<and> t \<in> team_ids db \<and> c_id c \<in> challenge_ids db \<and> uid \<in> user_ids db"
  using assms
  by (auto simp: flush_rows_def bind_eq_Some_conv insert_submission_Some insert_solve_Some
      insert_score_event_Some submission_row_def split: if_splits)

text \<open>The database after the commit, from the rows flushed and the points awarded.\<close>

lemma submit_write_commit:
  assumes "submit_write st rt w rq cid p uid e t c correct db3 db4 = Inr (reply, Some db', changed)"
  defines "points \<equiv> (if correct
      then challenge_points c (int (count_where (\<lambda>v. v_challenge_id v = c_id c) (solves db3)) + 1) else 0)"
  shows "state_allows_submission e (w_utcnow w 7) \<and> changed = correct
    \<and> reply = \<lparr>sr_correct = correct, sr_message = (if correct then AnswerCorrect else AnswerWrong),
        sr_awarded_points = points, sr_solved_at = (if correct then Some (w_utcnow w 5) else None)\<rparr>
    \<and> (\<exists>xs ys. db' = db3\<lparr>
        submissions := submissions db3
          @ [(submission_row st rt w rq p uid t (c_id c) correct)\<lparr>b_awarded_points := points\<rparr>],
        solves := solves db3 @ (if correct then [solve_row w uid t (c_id c)] else []),
        score_events := score_events db3
          @ (if correct then [(score_row w (e_id e) t (c_id c))\<lparr>p_points := points\<rparr>] else []),
        audit_events := xs, outbox_events := ys\<rparr>)
    \<and> (\<forall>x \<in> set (submissions db3). \<not> submission_clash x (submission_row st rt w rq p uid t (c_id c) correct))
    \<and> (correct \<longrightarrow> (\<forall>x \<in> set (solves db3). \<not> solve_clash x (solve_row w uid t (c_id c))))"
proof -
  let ?b = "submission_row st rt w rq p uid t (c_id c) correct"
  have no_commit: "bindR (submit_conflict cid p t db4) (\<lambda>r. Inr (r, None, False)) \<noteq> Inr (reply, Some db', changed)"
    by (cases "submit_conflict cid p t db4") auto
  obtain db5 where f: "flush_rows st rt w rq p uid e t c correct db3 = Some db5"
    using assms(1) no_commit by (auto simp: submit_write_def Let_def split: option.split_asm)
  note F = flush_rows_Some[OF f]
  have n: "(if correct then challenge_points c (int (count_where (\<lambda>v. v_challenge_id v = c_id c) (solves db5)))
      else 0) = points"
    using F by (auto simp: points_def solve_row_def add.commute)
  have g: "state_allows_submission e (w_utcnow w 7)"
    and r: "\<exists>db6. commit_rows w uid e t c correct points db5 = Some db6 \<and> db' = db6
      \<and> changed = correct
      \<and> reply = \<lparr>sr_correct = correct, sr_message = (if correct then AnswerCorrect else AnswerWrong),
          sr_awarded_points = points, sr_solved_at = (if correct then Some (w_utcnow w 5) else None)\<rparr>"
    using assms(1) no_commit unfolding submit_write_def Let_def f n
    by (auto simp: n split: option.split_asm if_split_asm)
  obtain k: "commit_rows w uid e t c correct points db5 = Some db'" using r by blast
  have sb: "update_where (\<lambda>b. b_id b = w_uuid4 w 0) (\<lambda>b. b\<lparr>b_awarded_points := points\<rparr>) (submissions db3)
      = submissions db3"
    by (rule update_where_last) (use F in \<open>auto simp: submission_clash_def submission_row_def\<close>)
  have sp: "update_where (\<lambda>x. p_id x = w_uuid4 w 2) (\<lambda>x. x\<lparr>p_points := points\<rparr>) (score_events db3)
      = score_events db3" if correct
    by (rule update_where_last) (use F that in \<open>auto simp: score_event_clash_def score_row_def\<close>)
  have "\<exists>xs ys. db' = db3\<lparr>
        submissions := submissions db3 @ [?b\<lparr>b_awarded_points := points\<rparr>],
        solves := solves db3 @ (if correct then [solve_row w uid t (c_id c)] else []),
        score_events := score_events db3
          @ (if correct then [(score_row w (e_id e) t (c_id c))\<lparr>p_points := points\<rparr>] else []),
        audit_events := xs, outbox_events := ys\<rparr>"
  proof (cases correct)
    case True
    have i: "b_id ?b = w_uuid4 w 0" "p_id (score_row w (e_id e) t (c_id c)) = w_uuid4 w 2"
      by (simp_all add: submission_row_def score_row_def)
    show ?thesis
      using k True F sb sp[OF True] i
      by (intro exI[of _ "audit_events db'"] exI[of _ "outbox_events db'"])
        (auto simp: commit_rows_def bind_eq_Some_conv add_audit_Some add_outbox_Some set_awarded_points_def)
  next
    case False
    then have "points = 0" "db' = db5" using k by (simp_all add: points_def commit_rows_def)
    then show ?thesis
      using False F
      by (intro exI[of _ "audit_events db3"] exI[of _ "outbox_events db3"])
        (auto simp: submission_row_def)
  qed
  then show ?thesis using g r F by auto
qed

lemma check_attempts_Inr [simp]:
  "check_attempts db e t c = Inr x \<longleftrightarrow>
     int (challenge_attempts t (c_id c) db) < effective_challenge_limit c
     \<and> event_attempts t e db < MAX_SUBMISSIONS_PER_TEAM_EVENT"
  by (auto simp: check_attempts_def not_le)

lemma submit_locked_go:
  assumes "submit_locked st rt w rq cid p u e t db = Inr (Inr (c, correct))"
  shows "(\<exists>x. fetch u_id (u_id u) (users db) = Some x \<and> u_active x)
    \<and> (\<exists>again. require_user st rt rq (w_utcnow w 2) db = Inr again \<and> u_id again = u_id u)
    \<and> map_option m_team_id (fetch m_user_id (u_id u) (memberships db)) = Some t
    \<and> c \<in> set (challenges db) \<and> c_id c = cid \<and> c_event_id c = e_id e
    \<and> is_accessible (w_utcnow w 3) db c (visibility_context db (Some t))
    \<and> find_submission t cid (su_idempotency_key p) db = None \<and> find_solve t cid db = None
    \<and> int (challenge_attempts t cid db) < effective_challenge_limit c
    \<and> event_attempts t (e_id e) db < MAX_SUBMISSIONS_PER_TEAM_EVENT
    \<and> correct = flag_matches st rt c (su_flag p)"
proof -
  obtain x where x: "fetch u_id (u_id u) (users db) = Some x" "u_active x"
    using assms by (auto simp: submit_locked_def split: option.split_asm if_split_asm)
  have xi: "u_id x = u_id u" using x(1) by (auto dest: fetch_Some)
  obtain again where a: "require_user st rt rq (w_utcnow w 2) db = Inr again"
    using assms x by (auto simp: submit_locked_def)
  note run = assms[unfolded submit_locked_def x(1) option.simps a bindR_Inr xi]
  obtain cc where cc: "find (\<lambda>c. c_id c = cid \<and> c_event_id c = e_id e) (challenges db) = Some cc"
    using run x by (auto split: option.split_asm if_split_asm)
  have "cc = c \<and> u_id again = u_id u
    \<and> map_option m_team_id (fetch m_user_id (u_id u) (memberships db)) = Some t
    \<and> is_accessible (w_utcnow w 3) db c (visibility_context db (Some t))
    \<and> find_submission t cid (su_idempotency_key p) db = None \<and> find_solve t (c_id cc) db = None
    \<and> check_attempts db (e_id e) t c = Inr ()
    \<and> correct = flag_matches st rt c (su_flag p)"
    using run x unfolding cc option.simps
    by (simp split: option.split_asm if_split_asm) blast
  moreover have "cc \<in> set (challenges db)" "c_id cc = cid" "c_event_id cc = e_id e"
    using cc by (auto simp: find_Some_iff)
  ultimately show ?thesis using x a by auto
qed

lemma rematch_Inr:
  assumes "rematch st rt p e c correct db = Inr (c', correct')"
  shows "(correct' \<longrightarrow> c' \<in> set (challenges db) \<and> flag_matches st rt c' (su_flag p))
    \<and> c_id c' = c_id c \<and> (correct \<longrightarrow> correct' = flag_matches st rt c' (su_flag p) \<and> c' \<in> set (challenges db))
    \<and> (\<not> correct \<longrightarrow> \<not> correct' \<and> c' = c)"
  using assms by (auto simp: rematch_def find_Some_iff split: if_splits option.splits)

lemma submit_transaction_commit:
  assumes "submit_transaction st rt w rq cid p u e t db2 db3 db4 = Inr (reply, Some db', changed)"
  shows "\<exists>c first c' correct. submit_locked st rt w rq cid p u e t db2 = Inr (Inr (c, first))
    \<and> rematch st rt p e c first db3 = Inr (c', correct)
    \<and> submit_write st rt w rq cid p (u_id u) e t c' correct db3 db4 = Inr (reply, Some db', changed)"
proof -
  obtain a where "submit_locked st rt w rq cid p u e t db2 = Inr a"
    and "(case a of Inl reply \<Rightarrow> Inr (reply, None, False)
      | Inr (c, correct) \<Rightarrow> bindR (rematch st rt p e c correct db3) (\<lambda>(c, correct).
          submit_write st rt w rq cid p (u_id u) e t c correct db3 db4)) = Inr (reply, Some db', changed)"
    using assms by (auto simp: submit_transaction_def)
  then show ?thesis by (cases a) auto
qed

section \<open>Properties\<close>

text \<open>
  C1: what a submission records. A committed submission adds exactly one submission row;
  a correct one adds with it, in the same transaction, one solve and one score event and
  changes no other solve or score event; the points of the reply, of the submission and
  of the score event are the value of the challenge at its new number of solves. It is
  recorded as correct only when the flag matches the challenge as stored when it commits,
  the team had not solved it yet, and the event is still open.
\<close>

theorem submission_recorded:
  assumes "submit_transaction st rt w rq cid p u e t db2 db3 db4 = Inr (reply, Some db', changed)"
  shows "\<exists>c correct points xs ys. c_id c = cid \<and> state_allows_submission e (w_utcnow w 7)
    \<and> changed = correct \<and> sr_correct reply = correct \<and> sr_awarded_points reply = points
    \<and> (correct \<longrightarrow> c \<in> set (challenges db3) \<and> flag_matches st rt c (su_flag p)
        \<and> find_solve t cid db3 = None
        \<and> points = challenge_points c (int (count_where (\<lambda>v. v_challenge_id v = cid) (solves db3)) + 1))
    \<and> (\<not> correct \<longrightarrow> points = 0)
    \<and> find_submission t cid (su_idempotency_key p) db3 = None
    \<and> db' = db3\<lparr>
        submissions := submissions db3
          @ [(submission_row st rt w rq p (u_id u) t cid correct)\<lparr>b_awarded_points := points\<rparr>],
        solves := solves db3 @ (if correct then [solve_row w (u_id u) t cid] else []),
        score_events := score_events db3
          @ (if correct then [(score_row w (e_id e) t cid)\<lparr>p_points := points\<rparr>] else []),
        audit_events := xs, outbox_events := ys\<rparr>"
proof -
  obtain c0 first c correct where l: "submit_locked st rt w rq cid p u e t db2 = Inr (Inr (c0, first))"
    and r: "rematch st rt p e c0 first db3 = Inr (c, correct)"
    and wr: "submit_write st rt w rq cid p (u_id u) e t c correct db3 db4 = Inr (reply, Some db', changed)"
    using submit_transaction_commit[OF assms] by blast
  have id: "c_id c = cid" using submit_locked_go[OF l] rematch_Inr[OF r] by simp
  note W = submit_write_commit[OF wr, unfolded id]
  define points where "points = (if correct
    then challenge_points c (int (count_where (\<lambda>v. v_challenge_id v = cid) (solves db3)) + 1) else 0)"
  note W = W[folded points_def]
  have s: "find_submission t cid (su_idempotency_key p) db3 = None"
    using W by (auto simp: find_submission_def find_None_iff submission_clash_def submission_row_def)
  have v: "correct \<longrightarrow> find_solve t cid db3 = None"
    using W by (auto simp: find_solve_def find_None_iff solve_clash_def solve_row_def)
  obtain xs ys where d: "db' = db3\<lparr>
        submissions := submissions db3
          @ [(submission_row st rt w rq p (u_id u) t cid correct)\<lparr>b_awarded_points := points\<rparr>],
        solves := solves db3 @ (if correct then [solve_row w (u_id u) t cid] else []),
        score_events := score_events db3
          @ (if correct then [(score_row w (e_id e) t cid)\<lparr>p_points := points\<rparr>] else []),
        audit_events := xs, outbox_events := ys\<rparr>"
    using W by blast
  have pt: "correct \<longrightarrow> points = challenge_points c (int (count_where (\<lambda>v. v_challenge_id v = cid) (solves db3)) + 1)"
    "\<not> correct \<longrightarrow> points = 0"
    by (simp_all add: points_def)
  have rp: "sr_correct reply = correct" "sr_awarded_points reply = points"
    "state_allows_submission e (w_utcnow w 7)" "changed = correct"
    using W by auto
  have m: "correct \<longrightarrow> c \<in> set (challenges db3) \<and> flag_matches st rt c (su_flag p)"
    using rematch_Inr[OF r] by blast
  show ?thesis
    by (intro exI[of _ c] exI[of _ correct] exI[of _ points] exI[of _ xs] exI[of _ ys] conjI impI)
      (use id s v d pt rp m in \<open>(assumption | simp)+\<close>)
qed

text \<open>
  C2: who may submit. A submission is only committed for an account that, under the locks,
  is active, holds the session of the request and is on the team, for a challenge of the
  event that is visible, released and whose prerequisites the team has solved; and only
  while both limits leave room.
\<close>

theorem submission_authorised:
  assumes "submit_transaction st rt w rq cid p u e t db2 db3 db4 = Inr (reply, Some db', changed)"
  shows "(\<exists>x \<in> set (users db2). u_id x = u_id u \<and> u_active x)
    \<and> (\<exists>x. require_user st rt rq (w_utcnow w 2) db2 = Inr x \<and> u_id x = u_id u)
    \<and> (\<exists>m \<in> set (memberships db2). m_user_id m = u_id u \<and> m_team_id m = t)
    \<and> find_solve t cid db2 = None
    \<and> (\<exists>c \<in> set (challenges db2). c_id c = cid \<and> c_event_id c = e_id e \<and> c_visible c
        \<and> (\<forall>a. aware (c_visible_at c) = Some a \<longrightarrow> a \<le> w_utcnow w 3)
        \<and> (\<forall>q. (cid, q) \<in> set (prereqs db2) \<longrightarrow> (\<exists>v \<in> set (solves db2). v_team_id v = t \<and> v_challenge_id v = q))
        \<and> int (challenge_attempts t cid db2) < effective_challenge_limit c)
    \<and> event_attempts t (e_id e) db2 < MAX_SUBMISSIONS_PER_TEAM_EVENT"
proof -
  obtain c first where l: "submit_locked st rt w rq cid p u e t db2 = Inr (Inr (c, first))"
    using submit_transaction_commit[OF assms] by blast
  note G = submit_locked_go[OF l]
  have u: "\<exists>x \<in> set (users db2). u_id x = u_id u \<and> u_active x"
    using G by (auto dest: fetch_Some)
  have m: "\<exists>m \<in> set (memberships db2). m_user_id m = u_id u \<and> m_team_id m = t"
    using G by (auto dest: fetch_Some)
  have a: "is_accessible (w_utcnow w 3) db2 c (visibility_context db2 (Some t))" "c_id c = cid"
    using G by simp_all
  then have v: "c_visible c" "\<forall>x. aware (c_visible_at c) = Some x \<longrightarrow> x \<le> w_utcnow w 3"
    "\<forall>q. (cid, q) \<in> set (prereqs db2) \<longrightarrow> (\<exists>v \<in> set (solves db2). v_team_id v = t \<and> v_challenge_id v = q)"
    by (auto simp: is_accessible_def visibility_context_def set_prerequisites_of split: option.splits)
  show ?thesis using G u m v by blast
qed

lemma effective_limit_le: "effective_challenge_limit c \<le> MAX_CHALLENGE_ATTEMPTS"
  by (simp add: effective_challenge_limit_def)

text \<open>
  C10: the storage limits hold after every commit. The team row is locked between the count
  and the insert, so the team's own submissions are the same in \<open>db3\<close> as in \<open>db2\<close>; then
  the team never has more than the limit of the challenge (at most 1000) on it, nor more
  than 10000 in the event.
\<close>

theorem submission_limits:
  assumes "submit_transaction st rt w rq cid p u e t db2 db3 db4 = Inr (reply, Some db', changed)"
    and "challenge_attempts t cid db3 = challenge_attempts t cid db2"
    and "event_attempts t (e_id e) db3 = event_attempts t (e_id e) db2"
  shows "int (challenge_attempts t cid db') \<le> MAX_CHALLENGE_ATTEMPTS
    \<and> (\<exists>c \<in> set (challenges db2). c_id c = cid \<and>
          int (challenge_attempts t cid db') \<le> effective_challenge_limit c)
    \<and> event_attempts t (e_id e) db' \<le> MAX_SUBMISSIONS_PER_TEAM_EVENT"
proof -
  obtain c0 first c correct where l: "submit_locked st rt w rq cid p u e t db2 = Inr (Inr (c0, first))"
    and r: "rematch st rt p e c0 first db3 = Inr (c, correct)"
    and wr: "submit_write st rt w rq cid p (u_id u) e t c correct db3 db4 = Inr (reply, Some db', changed)"
    using submit_transaction_commit[OF assms(1)] by blast
  note G = submit_locked_go[OF l]
  have s: "\<exists>b. submissions db' = submissions db3 @ [b]" "challenges db' = challenges db3"
    using submit_write_commit[OF wr] by auto
  then have n: "challenge_attempts t cid db' \<le> challenge_attempts t cid db2 + 1"
    "event_attempts t (e_id e) db' \<le> event_attempts t (e_id e) db2 + 1"
    using assms(2,3) by (auto simp: challenge_attempts_def event_attempts_def)
  have "int (challenge_attempts t cid db') \<le> effective_challenge_limit c0" using G n by linarith
  moreover have "c0 \<in> set (challenges db2)" "c_id c0 = cid" using G by simp_all
  moreover have "event_attempts t (e_id e) db' \<le> MAX_SUBMISSIONS_PER_TEAM_EVENT" using G n by linarith
  ultimately show ?thesis using effective_limit_le[of c0] by force
qed

text \<open>
  C11: replaying a submission. Once a submission is committed, the same idempotency key
  on the same challenge by anybody on the team gets the stored reply back, whatever flag
  it carries, without a rate charge, a write or a second award.
\<close>

theorem submission_replay:
  assumes "submit_transaction st rt w rq cid p u e t db2 db3 db4 = Inr (reply, Some db', changed)"
    and "require_user st rt rq' (w_utcnow w' 0) db' = Inr u'"
    and "current_event db' = Some e'" and "state_allows_submission e' (w_utcnow w' 1)"
    and "fetch m_user_id (u_id u') (memberships db') = Some m" and "m_team_id m = t"
    and "su_idempotency_key p' = su_idempotency_key p"
    and "int (length (su_flag p')) \<le> st_max_flag_length st"
    and "\<forall>v \<in> set (solves db3). v_submission_id v \<noteq> w_uuid4 w 0"
  shows "submit_flag ops st rt w' rq' cid p' db' db2' db3' db4' s = (Inr (reply, None), s)"
proof -
  obtain c correct where wr: "submit_write st rt w rq cid p (u_id u) e t c correct db3 db4
      = Inr (reply, Some db', changed)" and id: "c_id c = cid"
    using submit_transaction_commit[OF assms(1)] submit_locked_go rematch_Inr by metis
  note W = submit_write_commit[OF wr, unfolded id]
  define points where "points = (if correct
    then challenge_points c (int (count_where (\<lambda>v. v_challenge_id v = cid) (solves db3)) + 1) else 0)"
  let ?b = "(submission_row st rt w rq p (u_id u) t cid correct)\<lparr>b_awarded_points := points\<rparr>"
  have d: "submissions db' = submissions db3 @ [?b]"
    "solves db' = solves db3 @ (if correct then [solve_row w (u_id u) t cid] else [])"
    using W[folded points_def] by auto
  have "find_submission t cid (su_idempotency_key p) db3 = None"
    using W by (auto simp: find_submission_def find_None_iff submission_clash_def submission_row_def)
  then have f: "find_submission t cid (su_idempotency_key p) db' = Some ?b"
    unfolding find_submission_def d(1)
    by (simp add: find_append) (simp add: submission_row_def)
  have n: "fetch v_submission_id (w_uuid4 w 0) (solves db3) = None"
    using assms(9) by (auto simp: fetch_None)
  have "submission_result db' ?b = reply"
    using W[folded points_def] n d(2)
    by (auto simp: submission_result_def Let_def submission_row_def fetch_append solve_row_def)
  then have "submit_admission st rt w' rq' cid p' db' = Inr (Inl reply)"
    using assms(2-8) f by (simp add: submit_admission_def)
  then show ?thesis by (simp add: submit_flag_def)
qed

section \<open>What a participant sees\<close>

definition hide_flag :: "challenge \<Rightarrow> challenge" where
  "hide_flag c = c\<lparr>c_flag_type := ExactFlag, c_flag_hash := None, c_flag_regex := None\<rparr>"

definition hide_flags :: "database \<Rightarrow> database" where
  "hide_flags db = db\<lparr>challenges := map hide_flag (challenges db)\<rparr>"

lemma hide_flag_fields [simp]:
  "c_id (hide_flag c) = c_id c" "c_event_id (hide_flag c) = c_event_id c"
  "c_category (hide_flag c) = c_category c" "c_initial_points (hide_flag c) = c_initial_points c"
  "c_title (hide_flag c) = c_title c"
  by (simp_all add: hide_flag_def)

lemma hide_flags_db [simp]:
  "users (hide_flags db) = users db" "sessions (hide_flags db) = sessions db"
  "events (hide_flags db) = events db" "memberships (hide_flags db) = memberships db"
  "prereqs (hide_flags db) = prereqs db" "solves (hide_flags db) = solves db"
  "submissions (hide_flags db) = submissions db"
  "challenges (hide_flags db) = map hide_flag (challenges db)"
  by (simp_all add: hide_flags_def)

lemma hide_flags_reads [simp]:
  "require_user st rt rq now (hide_flags db) = require_user st rt rq now db"
  "current_event (hide_flags db) = current_event db"
  "membership_for (hide_flags db) u = membership_for db u"
  unfolding require_user_def current_user_def current_event_def current_event_query_def
    membership_for_def hide_flags_db by (rule refl)+

lemma insort_key_map: "insort_key f (g x) (map g xs) = map g (insort_key (\<lambda>x. f (g x)) x xs)"
  by (induction xs) auto

lemma sort_key_map: "sort_key f (map g xs) = map g (sort_key (\<lambda>x. f (g x)) xs)"
  by (induction xs) (auto simp: insort_key_map)

lemma challenge_stats_hide [simp]:
  "challenge_stats (hide_flags db) (map hide_flag cs) t = challenge_stats db cs t"
proof -
  have ids: "map c_id (map hide_flag cs) = map c_id cs" by simp
  show ?thesis unfolding challenge_stats_def ids hide_flags_db by (rule refl)
qed

lemma is_accessible_hide [simp]:
  "is_accessible now (hide_flags db) (hide_flag c) s = is_accessible now db c s"
  by (simp add: is_accessible_def) (simp add: hide_flag_def)

lemma challenge_dict_hide [simp]:
  "challenge_dict (hide_flags db) (hide_flag c) n a b = challenge_dict db c n a b"
  by (simp add: challenge_dict_def challenge_points_def) (simp add: hide_flag_def)

lemma visible_challenges_hide:
  "visible_challenges w (hide_flags db) e t = map hide_flag (visible_challenges w db e t)"
proof -
  let ?rows = "sort_key (\<lambda>c. (c_category c, c_initial_points c, c_title c))
                 (filter (\<lambda>c. c_event_id c = e_id e) (challenges db))"
  have r: "sort_key (\<lambda>c. (c_category c, c_initial_points c, c_title c))
      (filter (\<lambda>c. c_event_id c = e_id e) (challenges (hide_flags db))) = map hide_flag ?rows"
    by (simp add: filter_map comp_def sort_key_map)
  have "map snd (filter (\<lambda>(i, c). is_accessible (w_utcnow w (2 + i)) (hide_flags db) c s)
      (enumerate k (map hide_flag cs)))
    = map hide_flag (map snd (filter (\<lambda>(i, c). is_accessible (w_utcnow w (2 + i)) db c s) (enumerate k cs)))"
    for cs k s
    by (induction cs arbitrary: k) auto
  then show ?thesis
    unfolding visible_challenges_def Let_def r challenge_stats_hide by (simp split: prod.split)
qed

text \<open>
  C14: no endpoint for participants reveals anything about a flag: what the list of
  challenges and the detail of a challenge return is the same for every content of the
  flag columns.
\<close>

theorem responses_independent_of_flags:
  "challenge_list st rt w rq (hide_flags db) = challenge_list st rt w rq db
   \<and> challenge_detail st rt w rq cid (hide_flags db) = challenge_detail st rt w rq cid db"
proof
  show "challenge_list st rt w rq (hide_flags db) = challenge_list st rt w rq db"
    unfolding challenge_list_def hide_flags_reads visible_challenges_hide
    by (intro bindR_cong refl)
      (auto simp: Let_def filter_map comp_def split: option.split prod.split)
  have f: "find P (map hide_flag cs) = map_option hide_flag (find (\<lambda>c. P (hide_flag c)) cs)" for P cs
    by (induction cs) auto
  have stats: "challenge_stats (hide_flags db) [hide_flag c] t = challenge_stats db [c] t" for c t
    using challenge_stats_hide[of db "[c]" t] by simp
  have v: "visibility_context (hide_flags db) t = visibility_context db t" for t
    unfolding visibility_context_def hide_flags_db by (rule refl)
  show "challenge_detail st rt w rq cid (hide_flags db) = challenge_detail st rt w rq cid db"
    unfolding challenge_detail_def hide_flags_reads
    by (intro bindR_cong refl)
      (auto simp: Let_def f stats v split: option.split prod.split)
qed

text \<open>
  C15: the detail of a challenge is returned only to a signed in account, while the event
  grants access, for a challenge of the event that is visible and released and whose
  prerequisites the account's team has solved; anything else is one and the same 404.
\<close>

theorem hidden_challenges_stay_hidden:
  assumes "challenge_detail st rt w rq cid db = Inr d"
  shows "\<exists>u e c. require_user st rt rq (w_utcnow w 0) db = Inr u \<and> current_event db = Some e
    \<and> state_allows_challenge_access e (w_utcnow w 1)
    \<and> c \<in> set (challenges db) \<and> c_id c = cid \<and> c_event_id c = e_id e \<and> c_visible c
    \<and> (\<forall>a. aware (c_visible_at c) = Some a \<longrightarrow> a \<le> w_utcnow w 2)
    \<and> (\<forall>q. (cid, q) \<in> set (prereqs db) \<longrightarrow>
        (\<exists>m v. membership_for db u = Some m \<and> v \<in> set (solves db) \<and> v_team_id v = m_team_id m
           \<and> v_challenge_id v = q))"
proof -
  obtain u where u: "require_user st rt rq (w_utcnow w 0) db = Inr u"
    using assms by (auto simp: challenge_detail_def)
  note run = assms[unfolded challenge_detail_def u bindR_Inr Let_def]
  obtain e where e: "current_event db = Some e" "state_allows_challenge_access e (w_utcnow w 1)"
    using run by (auto split: option.split_asm if_split_asm)
  obtain c where c: "find (\<lambda>c. c_id c = cid \<and> c_event_id c = e_id e) (challenges db) = Some c"
    and a: "is_accessible (w_utcnow w 2) db c (visibility_context db (map_option m_team_id (membership_for db u)))"
    using run e by (auto split: option.split_asm if_split_asm)
  have "c \<in> set (challenges db)" "c_id c = cid" "c_event_id c = e_id e"
    using c by (auto simp: find_Some_iff)
  then show ?thesis using u e a
    by (intro exI[of _ u] exI[of _ e] exI[of _ c])
      (fastforce simp: is_accessible_def set_prerequisites_of visibility_context_def split: option.splits)
qed

section \<open>Examples\<close>

definition live_event :: event where
  "live_event = sample_event\<lparr>e_state := Live\<rparr>"

definition flag_challenge :: challenge where
  "flag_challenge = (sample_challenge 50 ''web'')\<lparr>
     c_flag_hash := Some (hash_flag sample_runtime (st_secret_key sample_settings) ''flag{x}'')\<rparr>"

definition live_db :: database where
  "live_db = team_db\<lparr>events := [live_event], challenges := [flag_challenge]\<rparr>"

definition submit_example :: "(submission_reply \<times> database option \<times> bool) result" where
  "submit_example = submit_transaction sample_settings sample_runtime sample_world (sample_request ''old'') 50
     \<lparr>su_flag = ''flag{x}'', su_idempotency_key = ''key-0001''\<rparr> (sample_user 7 ''ann'') live_event 30
     live_db live_db live_db"

lemmas submit_run_defs = submit_locked_def rematch_def submit_write_def flush_rows_def commit_rows_def
  find_submission_def find_solve_def is_accessible_def visibility_context_def prerequisites_of_def
  check_attempts_def challenge_attempts_def event_attempts_def effective_challenge_limit_def
  MAX_CHALLENGE_ATTEMPTS_def MAX_SUBMISSIONS_PER_TEAM_EVENT_def flag_matches_def compare_exact_flag_def
  hash_flag_def submission_row_def solve_row_def score_row_def insert_submission_def insert_solve_def
  insert_score_event_def state_allows_submission_def live_db_def live_event_def flag_challenge_def
  sample_challenge_def set_awarded_points_def challenge_points_def

lemma submit_example_ok: "\<exists>reply db'. submit_example = Inr (reply, Some db', True) \<and> sr_correct reply
   \<and> users db' = users live_db \<and> sessions db' = sessions live_db \<and> events db' = events live_db
   \<and> memberships db' = memberships live_db"
  by (simp add: submit_example_def submit_transaction_def Let_def team_run_defs submit_run_defs)

lemma submission_recorded_witness:
  "\<exists>reply db'. submit_example = Inr (reply, Some db', True) \<and> length (solves db') = 1
     \<and> sr_awarded_points reply = 100"
proof -
  obtain reply db' where l: "submit_example = Inr (reply, Some db', True)"
    using submit_example_ok by blast
  have c: "challenges live_db = [flag_challenge]" "solves live_db = []"
    "challenge_points flag_challenge 1 = 100"
    by (simp_all add: live_db_def team_db_def auth_db_def empty_db_def flag_challenge_def
        sample_challenge_def challenge_points_def)
  show ?thesis
    using submission_recorded[OF l[unfolded submit_example_def]] l c
    by (intro exI[of _ reply] exI[of _ db']) auto
qed

lemma submission_authorised_witness:
  "\<exists>reply db'. submit_example = Inr (reply, Some db', True)
     \<and> (\<exists>m \<in> set (memberships live_db). m_user_id m = 7 \<and> m_team_id m = 30)"
proof -
  obtain reply db' where l: "submit_example = Inr (reply, Some db', True)"
    using submit_example_ok by blast
  have "u_id (sample_user 7 ''ann'') = 7" by (simp add: sample_user_def)
  then show ?thesis using submission_authorised[OF l[unfolded submit_example_def]] l by auto
qed

lemma submission_limits_witness:
  "\<exists>reply db'. submit_example = Inr (reply, Some db', True) \<and> challenge_attempts 30 50 db' \<le> 1000"
proof -
  obtain reply db' where l: "submit_example = Inr (reply, Some db', True)"
    using submit_example_ok by blast
  show ?thesis
    using submission_limits[OF l[unfolded submit_example_def] refl refl] l
    by (auto simp: MAX_CHALLENGE_ATTEMPTS_def)
qed

lemma submission_replay_witness:
  "\<exists>reply db'. submit_example = Inr (reply, Some db', True)
     \<and> submit_flag memory_ops sample_settings sample_runtime sample_world (sample_request ''old'') 50
         \<lparr>su_flag = ''wrong'', su_idempotency_key = ''key-0001''\<rparr> db' live_db live_db live_db memory_store_init
       = (Inr (reply, None), memory_store_init)"
proof -
  obtain reply db' where l: "submit_example = Inr (reply, Some db', True)"
    and d: "users db' = users live_db" "sessions db' = sessions live_db" "events db' = events live_db"
      "memberships db' = memberships live_db"
    using submit_example_ok by blast
  have u: "require_user sample_settings sample_runtime (sample_request ''old'') (w_utcnow sample_world 0) db'
      = Inr (sample_user 7 ''ann'')"
    using d by (simp add: require_user_def current_user_def cookie_of_def live_db_def team_db_def run_defs)
  have e: "current_event db' = Some live_event"
    using d by (simp add: current_event_def current_event_query_def live_db_def live_event_def
        sample_event_def first_by_def)
  have o: "state_allows_submission live_event (w_utcnow sample_world 1)"
    by (simp add: state_allows_submission_def live_event_def sample_event_def at_or_before_def still_before_def)
  have m: "fetch m_user_id (u_id (sample_user 7 ''ann'')) (memberships db') = Some (sample_membership 40 7 30 Owner)"
    using d by (simp add: live_db_def team_db_def sample_user_def sample_membership_def)
  have t: "m_team_id (sample_membership 40 7 30 Owner) = 30" by (simp add: sample_membership_def)
  have v: "\<forall>v \<in> set (solves live_db). v_submission_id v \<noteq> w_uuid4 sample_world 0"
    by (simp add: live_db_def team_db_def auth_db_def empty_db_def)
  have "submit_flag memory_ops sample_settings sample_runtime sample_world (sample_request ''old'') 50
         \<lparr>su_flag = ''wrong'', su_idempotency_key = ''key-0001''\<rparr> db' live_db live_db live_db memory_store_init
       = (Inr (reply, None), memory_store_init)"
    by (rule submission_replay[OF l[unfolded submit_example_def] u e o m t _ _ v])
      (simp_all add: sample_settings_def)
  with l show ?thesis by blast
qed

lemma hidden_challenges_stay_hidden_witness:
  "\<exists>d. challenge_detail sample_settings sample_runtime sample_world (sample_request ''old'') 50 live_db = Inr d
     \<and> (\<exists>c \<in> set (challenges live_db). c_id c = 50 \<and> c_visible c)"
proof -
  have "\<exists>d. challenge_detail sample_settings sample_runtime sample_world (sample_request ''old'') 50 live_db = Inr d"
    by (simp add: challenge_detail_def state_allows_challenge_access_def Let_def challenge_stats_def
        team_run_defs submit_run_defs)
  then obtain d where d: "challenge_detail sample_settings sample_runtime sample_world
      (sample_request ''old'') 50 live_db = Inr d" by blast
  show ?thesis using hidden_challenges_stay_hidden[OF d] d by blast
qed

end
