(* ===== verification/Scoreboard.thy ===== *)
theory Scoreboard
  imports Participant
begin

text \<open>
  The public scoreboard: \<open>public_scoreboard\<close> of backend/src/alpha/services.py (the
  aggregation the database runs) and the cached endpoint of routes_participant.py.

  The SQL statement is translated clause by clause: the \<open>WHERE\<close> clauses are filters, the
  \<open>GROUP BY\<close> of both aggregates is the list of the teams that have a contribution, the
  aggregates are sums and maxima over the rows of one team, the \<open>ORDER BY\<close> is a sort by
  the tuple of its keys. \<open>db_round\<close> is the \<open>ROUND\<close> of the database. Rows the keys do not
  separate stay in the order of the table.
\<close>

section \<open>Aggregation\<close>

definition cutoff_of :: "event \<Rightarrow> instant \<Rightarrow> instant option" where
  "cutoff_of e now = (if public_scoreboard_is_frozen e now then aware (e_freeze_at e) else None)"

definition before_cutoff :: "instant option \<Rightarrow> instant \<Rightarrow> bool" where
  "before_cutoff cutoff t = (case cutoff of None \<Rightarrow> True | Some c \<Rightarrow> t \<le> c)"

definition challenge_of :: "database \<Rightarrow> event \<Rightarrow> uuid \<Rightarrow> challenge option" where
  "challenge_of db e i = find (\<lambda>c. c_id c = i \<and> c_event_id c = e_id e) (challenges db)"

text \<open>The solves of challenges of the event up to the cutoff.\<close>

definition counted_solves :: "database \<Rightarrow> event \<Rightarrow> instant option \<Rightarrow> solve list" where
  "counted_solves db e cutoff =
     filter (\<lambda>v. challenge_of db e (v_challenge_id v) \<noteq> None \<and> before_cutoff cutoff (v_solved_at v)) (solves db)"

definition counted_awards :: "database \<Rightarrow> event \<Rightarrow> instant option \<Rightarrow> score_event list" where
  "counted_awards db e cutoff =
     filter (\<lambda>p. p_event_id p = e_id e \<and> p_kind p = AwardScore \<and> p_active p
       \<and> before_cutoff cutoff (p_created_at p)) (score_events db)"

definition solve_count :: "solve list \<Rightarrow> uuid \<Rightarrow> int" where
  "solve_count vs c = int (count_where (\<lambda>v. v_challenge_id v = c) vs)"

definition solve_value :: "(rat \<Rightarrow> int) \<Rightarrow> database \<Rightarrow> event \<Rightarrow> solve list \<Rightarrow> solve \<Rightarrow> int" where
  "solve_value db_round db e vs v =
     (case challenge_of db e (v_challenge_id v) of
        None \<Rightarrow> 0
      | Some c \<Rightarrow> sql_solve_points db_round c (solve_count vs (v_challenge_id v)))"

text \<open>The totals of one team: score, number of solves, time of the last solve.\<close>

record team_total =
  tt_score :: int
  tt_solves :: int
  tt_last :: "instant option"

fun latest :: "instant list \<Rightarrow> instant option" where
  "latest [] = None"
| "latest (t # ts) = Some (case latest ts of None \<Rightarrow> t | Some m \<Rightarrow> max t m)"

definition team_total_of ::
  "(rat \<Rightarrow> int) \<Rightarrow> database \<Rightarrow> event \<Rightarrow> solve list \<Rightarrow> score_event list \<Rightarrow> uuid \<Rightarrow> team_total" where
  "team_total_of db_round db e vs ps t =
     (let own = filter (\<lambda>v. v_team_id v = t) vs
      in \<lparr>tt_score = sum_list (map (solve_value db_round db e vs) own)
                    + sum_list (map p_points (filter (\<lambda>p. p_team_id p = t) ps)),
          tt_solves = int (length own),
          tt_last = latest (map v_solved_at own)\<rparr>)"

definition contributing_teams :: "solve list \<Rightarrow> score_event list \<Rightarrow> uuid list" where
  "contributing_teams vs ps = remdups (map v_team_id vs @ map p_team_id ps)"

text \<open>\<open>coalesce(User.username, ...)\<close> over an outer join, or the name of the team.\<close>

definition scoreboard_name :: "database \<Rightarrow> event \<Rightarrow> team \<Rightarrow> string" where
  "scoreboard_name db e t =
     (if e_team_mode e = IndividualMode
      then (case fetch u_id (t_creator_id t) (users db) of
              None \<Rightarrow> anonymous_label | Some u \<Rightarrow> u_username u)
      else t_name t)"

definition ranking_key :: "string \<Rightarrow> team_total \<Rightarrow> int \<times> int \<times> nat \<times> int \<times> string" where
  "ranking_key name x =
     (- tt_score x, - tt_solves x, if tt_last x = None then 0 else 1,
      case tt_last x of None \<Rightarrow> 0 | Some t \<Rightarrow> t, lower name)"

record board_entry =
  be_rank :: nat
  be_team_id :: uuid
  be_team_name :: string
  be_score :: int
  be_solves :: int
  be_last_solve_at :: "instant option"

record scoreboard =
  sb_event_id :: uuid
  sb_event_name :: string
  sb_event_state :: event_state
  sb_frozen :: bool
  sb_generated_at :: instant
  sb_total_entries :: nat
  sb_truncated :: bool
  sb_entries :: "board_entry list"

definition ranked_teams ::
  "(rat \<Rightarrow> int) \<Rightarrow> database \<Rightarrow> event \<Rightarrow> instant option \<Rightarrow> (team \<times> team_total) list" where
  "ranked_teams db_round db e cutoff =
     (let vs = counted_solves db e cutoff;
          ps = counted_awards db e cutoff;
          rows = map (\<lambda>t. (t, team_total_of db_round db e vs ps (t_id t)))
                   (filter (\<lambda>t. t_id t \<in> set (contributing_teams vs ps)) (teams db))
      in take MAX_PUBLIC_SCOREBOARD_ENTRIES
           (sort_key (\<lambda>(t, x). ranking_key (scoreboard_name db e t) x) rows))"

definition public_scoreboard :: "(rat \<Rightarrow> int) \<Rightarrow> database \<Rightarrow> event \<Rightarrow> instant \<Rightarrow> scoreboard" where
  "public_scoreboard db_round db e now =
     (let cutoff = cutoff_of e now;
          total_entries = length (contributing_teams (counted_solves db e cutoff) (counted_awards db e cutoff))
      in \<lparr>sb_event_id = e_id e, sb_event_name = e_name e, sb_event_state = e_state e,
          sb_frozen = public_scoreboard_is_frozen e now, sb_generated_at = now,
          sb_total_entries = total_entries,
          sb_truncated = (MAX_PUBLIC_SCOREBOARD_ENTRIES < total_entries),
          sb_entries = map (\<lambda>(rank, t, x).
              \<lparr>be_rank = rank, be_team_id = t_id t, be_team_name = scoreboard_name db e t,
               be_score = tt_score x, be_solves = tt_solves x, be_last_solve_at = tt_last x\<rparr>)
            (enumerate 1 (ranked_teams db_round db e cutoff))\<rparr>)"

section \<open>Ranking\<close>

lemma length_contributing:
  assumes "conflict_free team_clash (teams db)"
    and "set (contributing_teams vs ps) \<subseteq> team_ids db"
  shows "length (filter (\<lambda>t. t_id t \<in> set (contributing_teams vs ps)) (teams db))
    = length (contributing_teams vs ps)"
proof -
  let ?ts = "filter (\<lambda>t. t_id t \<in> set (contributing_teams vs ps)) (teams db)"
  have d: "distinct (map t_id (teams db))"
    by (rule team_table.distinct_key[OF assms(1)]) (simp add: team_clash_def)
  have "distinct (map t_id ?ts)"
    using distinct_map_filter[OF d] .
  moreover have "set (map t_id ?ts) = set (contributing_teams vs ps)"
    using assms(2) by auto
  ultimately have "length (map t_id ?ts) = card (set (contributing_teams vs ps))"
    using distinct_card by metis
  moreover have "distinct (contributing_teams vs ps)" by (simp add: contributing_teams_def)
  ultimately show ?thesis by (simp add: distinct_card)
qed

lemma ranked_teams_sorted:
  "sorted_wrt (\<lambda>(t, x) (t', x'). ranking_key (scoreboard_name db e t) x \<le> ranking_key (scoreboard_name db e t') x')
     (ranked_teams r db e cutoff)"
proof -
  let ?key = "\<lambda>(t, x). ranking_key (scoreboard_name db e t) x"
  have "sorted_wrt (\<lambda>a b. ?key a \<le> ?key b) (take n (sort_key ?key xs))" for n xs
    using sorted_sort_key[of ?key xs]
    by (intro sorted_wrt_take) (simp only: sorted_wrt_map)
  then have "sorted_wrt (\<lambda>a b. ?key a \<le> ?key b) (ranked_teams r db e cutoff)"
    unfolding ranked_teams_def Let_def .
  then show ?thesis by (rule sorted_wrt_mono_rel[rotated]) auto
qed

lemma ranked_teams_total:
  assumes "(t, x) \<in> set (ranked_teams r db e cutoff)"
  shows "t \<in> set (teams db)
    \<and> x = team_total_of r db e (counted_solves db e cutoff) (counted_awards db e cutoff) (t_id t)"
  using assms by (auto simp: ranked_teams_def Let_def dest!: in_set_takeD)

lemma ranked_teams_distinct:
  assumes "conflict_free team_clash (teams db)"
  shows "distinct (map (t_id \<circ> fst) (ranked_teams r db e cutoff))"
proof -
  let ?key = "\<lambda>(t, x). ranking_key (scoreboard_name db e t) x"
  define rows where "rows = map (\<lambda>t. (t, team_total_of r db e (counted_solves db e cutoff)
      (counted_awards db e cutoff) (t_id t))) (filter (\<lambda>t. t_id t \<in>
      set (contributing_teams (counted_solves db e cutoff) (counted_awards db e cutoff))) (teams db))"
  have d: "distinct (map t_id (teams db))"
    by (rule team_table.distinct_key[OF assms]) (simp add: team_clash_def)
  have "distinct (map (t_id \<circ> fst) rows)"
    using distinct_map_filter[OF d] by (simp add: rows_def comp_def)
  moreover have "mset (map (t_id \<circ> fst) (sort_key ?key rows)) = mset (map (t_id \<circ> fst) rows)"
    by (simp only: mset_map mset_sort)
  ultimately have "distinct (map (t_id \<circ> fst) (sort_key ?key rows))"
    using mset_eq_imp_distinct_iff by blast
  then show ?thesis
    by (simp add: ranked_teams_def Let_def rows_def[symmetric] take_map[symmetric] distinct_take)
qed

text \<open>The order of the \<open>ORDER BY\<close> clause, read off two entries.\<close>

definition board_better :: "board_entry \<Rightarrow> board_entry \<Rightarrow> bool" where
  "board_better a b \<longleftrightarrow> be_score b < be_score a
     \<or> (be_score a = be_score b \<and> be_solves b < be_solves a)
     \<or> (be_score a = be_score b \<and> be_solves a = be_solves b
        \<and> ((be_last_solve_at a = None \<and> be_last_solve_at b \<noteq> None)
           \<or> (\<exists>s t. be_last_solve_at a = Some s \<and> be_last_solve_at b = Some t \<and> s < t)
           \<or> (be_last_solve_at a = be_last_solve_at b \<and> lower (be_team_name a) \<le> lower (be_team_name b))))"

lemma ranking_key_better:
  assumes "ranking_key n x \<le> ranking_key m y"
  shows "board_better
    \<lparr>be_rank = i, be_team_id = a, be_team_name = n, be_score = tt_score x, be_solves = tt_solves x,
     be_last_solve_at = tt_last x\<rparr>
    \<lparr>be_rank = j, be_team_id = b, be_team_name = m, be_score = tt_score y, be_solves = tt_solves y,
     be_last_solve_at = tt_last y\<rparr>"
  using assms by (cases "tt_last x"; cases "tt_last y")
    (auto simp: ranking_key_def board_better_def less_eq_prod_def split: if_splits)

text \<open>Numbering the rows keeps an order the numbers do not take part in.\<close>

lemma in_enumerate: "(j, a) \<in> set (enumerate k xs) \<Longrightarrow> a \<in> set xs"
  by (induction xs arbitrary: k) auto

lemma sorted_enumerate:
  assumes "sorted_wrt R xs" and "\<And>j k x y. R x y \<Longrightarrow> Q (f (j, x)) (f (k, y))"
  shows "sorted_wrt Q (map f (enumerate n xs))"
  using assms(1)
proof (induction xs arbitrary: n)
  case (Cons x xs)
  have "Q (f (n, x)) y" if "y \<in> f ` set (enumerate (Suc n) xs)" for y
    using that Cons.prems assms(2) in_enumerate by fastforce
  then show ?case using Cons by simp
qed simp

lemma left_out:
  assumes "sorted_wrt R xs" and "y \<in> set xs" and "y \<notin> set (take n xs)"
  shows "length (take n xs) = n \<and> (\<forall>x \<in> set (take n xs). R x y)"
proof -
  have y: "y \<in> set (drop n xs)"
    using assms(2,3) append_take_drop_id[of n xs] by (metis Un_iff set_append)
  then have "n < length xs" by (metis drop_all empty_iff list.set(1) not_less)
  moreover have "sorted_wrt R (take n xs @ drop n xs)" using assms(1) by simp
  ultimately show ?thesis using y unfolding sorted_wrt_append by simp
qed

text \<open>
  The reference for the board. A solve counts when its challenge is one of the event, an
  award when it is an active award of the event, each when it is in time: on a frozen
  board not after the freeze. The standing of a team is the entry it is due, but its rank.
\<close>

definition in_time :: "event \<Rightarrow> instant \<Rightarrow> instant \<Rightarrow> bool" where
  "in_time e now t \<longleftrightarrow>
     (public_scoreboard_is_frozen e now \<longrightarrow> (\<forall>f. aware (e_freeze_at e) = Some f \<longrightarrow> t \<le> f))"

definition solve_counts :: "database \<Rightarrow> event \<Rightarrow> instant \<Rightarrow> solve \<Rightarrow> bool" where
  "solve_counts db e now v \<longleftrightarrow>
     (\<exists>c \<in> set (challenges db). c_id c = v_challenge_id v \<and> c_event_id c = e_id e) \<and> in_time e now (v_solved_at v)"

definition award_counts :: "event \<Rightarrow> instant \<Rightarrow> score_event \<Rightarrow> bool" where
  "award_counts e now p \<longleftrightarrow>
     p_event_id p = e_id e \<and> p_kind p = AwardScore \<and> p_active p \<and> in_time e now (p_created_at p)"

definition contributes :: "database \<Rightarrow> event \<Rightarrow> instant \<Rightarrow> uuid \<Rightarrow> bool" where
  "contributes db e now i \<longleftrightarrow>
     (\<exists>v \<in> set (solves db). v_team_id v = i \<and> solve_counts db e now v)
     \<or> (\<exists>p \<in> set (score_events db). p_team_id p = i \<and> award_counts e now p)"

definition standing :: "(rat \<Rightarrow> int) \<Rightarrow> database \<Rightarrow> event \<Rightarrow> instant \<Rightarrow> team \<Rightarrow> board_entry" where
  "standing db_round db e now t =
     (let counted = filter (solve_counts db e now) (solves db);
          own = filter (\<lambda>v. v_team_id v = t_id t) counted;
          awards = filter (\<lambda>p. p_team_id p = t_id t \<and> award_counts e now p) (score_events db)
      in \<lparr>be_rank = 0, be_team_id = t_id t, be_team_name = scoreboard_name db e t,
          be_score = (\<Sum>v \<leftarrow> own. solve_value db_round db e counted v) + (\<Sum>p \<leftarrow> awards. p_points p),
          be_solves = int (length own),
          be_last_solve_at = (if own = [] then None else Some (Max (v_solved_at ` set own)))\<rparr>)"

lemma latest_Max: "latest ts = (if ts = [] then None else Some (Max (set ts)))"
  by (induction ts) auto

lemma counted_by_reference:
  "counted_solves db e (cutoff_of e now) = filter (solve_counts db e now) (solves db)"
  "counted_awards db e (cutoff_of e now) = filter (award_counts e now) (score_events db)"
proof -
  have t: "before_cutoff (cutoff_of e now) t \<longleftrightarrow> in_time e now t" for t
    by (auto simp: before_cutoff_def cutoff_of_def in_time_def split: option.splits)
  show "counted_solves db e (cutoff_of e now) = filter (solve_counts db e now) (solves db)"
    by (auto simp: counted_solves_def solve_counts_def t challenge_of_def find_None_iff intro!: filter_cong)
  show "counted_awards db e (cutoff_of e now) = filter (award_counts e now) (score_events db)"
    by (simp add: counted_awards_def award_counts_def[abs_def] t)
qed

lemma contributing_by_reference:
  "set (contributing_teams (counted_solves db e (cutoff_of e now)) (counted_awards db e (cutoff_of e now)))
   = {i. contributes db e now i}"
  by (auto simp: contributing_teams_def counted_by_reference contributes_def)

lemma standing_total:
  "x = team_total_of r db e (counted_solves db e (cutoff_of e now)) (counted_awards db e (cutoff_of e now)) (t_id t)
   \<Longrightarrow> standing r db e now t = \<lparr>be_rank = 0, be_team_id = t_id t, be_team_name = scoreboard_name db e t,
         be_score = tt_score x, be_solves = tt_solves x, be_last_solve_at = tt_last x\<rparr>"
  by (simp add: standing_def team_total_of_def counted_by_reference latest_Max Let_def conj_commute)

text \<open>The rows before the limit, and what the limit keeps of them.\<close>

lemma listed_or_beaten:
  fixes r
  assumes "t \<in> set (teams db)" and "contributes db e now (t_id t)"
  defines "rows \<equiv> ranked_teams r db e (cutoff_of e now)"
  shows "t \<in> fst ` set rows
    \<or> (length rows = MAX_PUBLIC_SCOREBOARD_ENTRIES
       \<and> (\<forall>(t', x) \<in> set rows. ranking_key (scoreboard_name db e t') x
            \<le> ranking_key (scoreboard_name db e t) (team_total_of r db e (counted_solves db e (cutoff_of e now))
                (counted_awards db e (cutoff_of e now)) (t_id t))))"
proof -
  let ?key = "\<lambda>(t, x). ranking_key (scoreboard_name db e t) x"
  let ?total = "\<lambda>t. team_total_of r db e (counted_solves db e (cutoff_of e now))
      (counted_awards db e (cutoff_of e now)) (t_id t)"
  define all where "all = sort_key ?key (map (\<lambda>t. (t, ?total t))
      (filter (\<lambda>t. t_id t \<in> {i. contributes db e now i}) (teams db)))"
  have rows: "rows = take MAX_PUBLIC_SCOREBOARD_ENTRIES all"
    by (simp only: rows_def all_def ranked_teams_def Let_def contributing_by_reference)
  have "sorted_wrt (\<lambda>a b. ?key a \<le> ?key b) all"
    using sorted_sort_key[of ?key] unfolding all_def sorted_wrt_map .
  moreover have "(t, ?total t) \<in> set all" using assms(1,2) by (auto simp: all_def)
  ultimately show ?thesis
    using left_out[of _ all "(t, ?total t)"] rows by (fastforce simp: image_iff)
qed

text \<open>The entries of the board are the ranked rows, numbered.\<close>

definition entry_for :: "database \<Rightarrow> event \<Rightarrow> nat \<times> team \<times> team_total \<Rightarrow> board_entry" where
  "entry_for db e = (\<lambda>(rank, t, x). \<lparr>be_rank = rank, be_team_id = t_id t,
      be_team_name = scoreboard_name db e t, be_score = tt_score x, be_solves = tt_solves x,
      be_last_solve_at = tt_last x\<rparr>)"

lemma board_entries:
  "sb_entries (public_scoreboard r db e now) = map (entry_for db e) (enumerate 1 (ranked_teams r db e (cutoff_of e now)))"
  by (simp add: public_scoreboard_def Let_def entry_for_def)

lemma entry_ranks: "map be_rank (map (entry_for db e) (enumerate 1 rows)) = [1 ..< length rows + 1]"
proof -
  have "be_rank \<circ> entry_for db e = fst" by (auto simp: entry_for_def)
  then show ?thesis by (simp add: enumerate_eq_zip)
qed

lemma entry_ids: "map be_team_id (map (entry_for db e) (enumerate k rows)) = map (t_id \<circ> fst) rows"
  by (induction rows arbitrary: k) (auto simp: entry_for_def)

lemma entries_sorted:
  "sorted_wrt board_better (sb_entries (public_scoreboard r db e now))"
  unfolding board_entries
  by (rule sorted_enumerate[OF ranked_teams_sorted]) (auto simp: entry_for_def intro: ranking_key_better)

lemma entry_standing:
  assumes "x \<in> set (sb_entries (public_scoreboard r db e now))"
  shows "\<exists>t \<in> set (teams db). contributes db e now (t_id t) \<and> x\<lparr>be_rank := 0\<rparr> = standing r db e now t"
proof -
  obtain j t y where j: "(j, t, y) \<in> set (enumerate 1 (ranked_teams r db e (cutoff_of e now)))"
    and x: "x = entry_for db e (j, t, y)"
    using assms by (auto simp: board_entries)
  note m = in_enumerate[OF j]
  have "contributes db e now (t_id t)"
    using m contributing_by_reference[of db e now] by (auto simp: ranked_teams_def Let_def dest!: in_set_takeD)
  then show ?thesis
    using ranked_teams_total[OF m] by (auto simp: x entry_for_def standing_total intro!: bexI[of _ t])
qed

lemma entry_or_beaten:
  fixes r
  assumes t: "t \<in> set (teams db)" "contributes db e now (t_id t)"
  defines "entries \<equiv> sb_entries (public_scoreboard r db e now)"
  shows "t_id t \<in> be_team_id ` set entries
    \<or> (length entries = 1000 \<and> (\<forall>x \<in> set entries. board_better x (standing r db e now t)))"
  using listed_or_beaten[OF t, of r]
proof
  assume "t \<in> fst ` set (ranked_teams r db e (cutoff_of e now))"
  then have "t_id t \<in> set (map be_team_id entries)" unfolding entries_def board_entries entry_ids by force
  then show ?thesis by simp
next
  let ?rows = "ranked_teams r db e (cutoff_of e now)"
    and ?total = "team_total_of r db e (counted_solves db e (cutoff_of e now))
      (counted_awards db e (cutoff_of e now)) (t_id t)"
  assume a: "length ?rows = MAX_PUBLIC_SCOREBOARD_ENTRIES
    \<and> (\<forall>(t', x) \<in> set ?rows. ranking_key (scoreboard_name db e t') x
         \<le> ranking_key (scoreboard_name db e t) ?total)"
  have "board_better x (standing r db e now t)" if x: "x \<in> set entries" for x
  proof -
    obtain j t' y where j: "(j, t', y) \<in> set (enumerate 1 ?rows)" and x: "x = entry_for db e (j, t', y)"
      using x by (auto simp: entries_def board_entries)
    have "ranking_key (scoreboard_name db e t') y \<le> ranking_key (scoreboard_name db e t) ?total"
      using a in_enumerate[OF j] by blast
    then show ?thesis
      unfolding x standing_total[OF refl] entry_for_def prod.case by (rule ranking_key_better)
  qed
  then show ?thesis using a by (simp add: entries_def board_entries MAX_PUBLIC_SCOREBOARD_ENTRIES_def)
qed

text \<open>
  C17: the ranking. Ranks are 1 to n without gaps and no team is listed twice. Every entry
  is the standing of a team that contributes: its counted solves and active awards added
  up, their number and the time of the last one. The entries are in order (score, then
  solves, then the earlier last solve, then the name), and a contributing team is left out
  only from a list of 1000 entries none of which it beats. The total is the number of
  contributing teams, and \<open>truncated\<close> says exactly whether some are missing.
\<close>

theorem scoreboard_ranking:
  assumes "conflict_free team_clash (teams db)"
    and "\<forall>v \<in> set (solves db). v_team_id v \<in> team_ids db"
    and "\<forall>p \<in> set (score_events db). p_team_id p \<in> team_ids db"
  shows "let board = public_scoreboard r db e now; entries = sb_entries board
    in map be_rank entries = [1 ..< length entries + 1]
    \<and> distinct (map be_team_id entries)
    \<and> sorted_wrt board_better entries
    \<and> (\<forall>x \<in> set entries. \<exists>t \<in> set (teams db). contributes db e now (t_id t)
         \<and> x\<lparr>be_rank := 0\<rparr> = standing r db e now t)
    \<and> (\<forall>t \<in> set (teams db). contributes db e now (t_id t) \<longrightarrow> t_id t \<in> be_team_id ` set entries
         \<or> (length entries = 1000 \<and> (\<forall>x \<in> set entries. board_better x (standing r db e now t))))
    \<and> sb_total_entries board = card {i. contributes db e now i}
    \<and> length entries = min 1000 (sb_total_entries board)
    \<and> (sb_truncated board \<longleftrightarrow> length entries < sb_total_entries board)"
proof -
  let ?board = "public_scoreboard r db e now"
  let ?teams = "contributing_teams (counted_solves db e (cutoff_of e now)) (counted_awards db e (cutoff_of e now))"
  have n: "sb_total_entries ?board = length ?teams" "sb_truncated ?board \<longleftrightarrow> 1000 < length ?teams"
    by (simp_all add: public_scoreboard_def Let_def MAX_PUBLIC_SCOREBOARD_ENTRIES_def)
  have "length ?teams = card (set ?teams)" by (metis contributing_teams_def distinct_card distinct_remdups)
  then have total: "sb_total_entries ?board = card {i. contributes db e now i}"
    by (simp only: n contributing_by_reference)
  have "set ?teams \<subseteq> team_ids db"
    using assms(2,3) by (auto simp: contributing_teams_def counted_solves_def counted_awards_def)
  then have len: "length (sb_entries ?board) = min 1000 (sb_total_entries ?board)"
    using length_contributing[OF assms(1)]
    by (simp add: n board_entries ranked_teams_def Let_def min.commute MAX_PUBLIC_SCOREBOARD_ENTRIES_def)
  have "distinct (map be_team_id (sb_entries ?board))"
    unfolding board_entries entry_ids by (rule ranked_teams_distinct[OF assms(1)])
  moreover have "map be_rank (sb_entries ?board) = [1 ..< length (sb_entries ?board) + 1]"
    unfolding board_entries entry_ranks by simp
  moreover have "sb_truncated ?board \<longleftrightarrow> length (sb_entries ?board) < sb_total_entries ?board"
    using len n by auto
  ultimately show ?thesis
    unfolding Let_def using total len entries_sorted entry_standing entry_or_beaten by blast
qed

section \<open>Freezing\<close>

text \<open>The board reads the solves and awards up to the cutoff and nothing later.\<close>

lemma public_scoreboard_cong:
  assumes "teams db' = teams db" "users db' = users db" "challenges db' = challenges db"
    and "counted_solves db' e (cutoff_of e now) = counted_solves db e (cutoff_of e now)"
    and "counted_awards db' e (cutoff_of e now) = counted_awards db e (cutoff_of e now)"
  shows "public_scoreboard r db' e now = public_scoreboard r db e now"
proof -
  have v: "solve_value r db' e vs = solve_value r db e vs" for vs
    unfolding solve_value_def challenge_of_def assms(3) ..
  have n: "scoreboard_name db' e = scoreboard_name db e"
    unfolding scoreboard_name_def assms(2) ..
  have t: "team_total_of r db' e = team_total_of r db e"
    by (intro ext) (simp add: team_total_of_def v)
  show ?thesis
    unfolding public_scoreboard_def ranked_teams_def Let_def assms(1,4,5) n t ..
qed

text \<open>
  C18: a frozen scoreboard hides what happens after the freeze. While the board is frozen
  and the freeze time is set, committing a submission whose solve is later than the
  freeze leaves the whole board as it was, correct or not.
\<close>

theorem frozen_board_hides_submissions:
  assumes "submit_transaction st rt w rq cid p u e t db2 db3 db4 = Inr (reply, Some db', changed)"
    and "public_scoreboard_is_frozen e' now" and "aware (e_freeze_at e') = Some f"
    and "f < w_utcnow w 5"
  shows "public_scoreboard r db' e' now = public_scoreboard r db3 e' now"
proof -
  obtain c correct where wr: "submit_write st rt w rq cid p (u_id u) e t c correct db3 db4
      = Inr (reply, Some db', changed)"
    using submit_transaction_commit[OF assms(1)] by blast
  note W = submit_write_commit[OF wr]
  have d: "teams db' = teams db3" "users db' = users db3" "challenges db' = challenges db3"
    "solves db' = solves db3 @ (if correct then [solve_row w (u_id u) t (c_id c)] else [])"
    "\<exists>ps. score_events db' = score_events db3 @ ps \<and> (\<forall>x \<in> set ps. p_kind x = SolveScore)"
    using W by (auto simp: score_row_def)
  have cut: "cutoff_of e' now = Some f" using assms(2,3) by (simp add: cutoff_of_def)
  have late: "\<not> before_cutoff (Some f) (v_solved_at (solve_row w (u_id u) t (c_id c)))"
    using assms(4) by (simp add: before_cutoff_def solve_row_def)
  obtain ps where ps: "score_events db' = score_events db3 @ ps" "\<forall>x \<in> set ps. p_kind x = SolveScore"
    using d(5) by blast
  have a: "filter (\<lambda>p. p_event_id p = e_id e' \<and> p_kind p = AwardScore \<and> p_active p
       \<and> before_cutoff c (p_created_at p)) ps = []" for c
    using ps(2) by (auto simp: filter_empty_conv)
  show ?thesis
  proof (rule public_scoreboard_cong[OF d(1-3)])
    show "counted_solves db' e' (cutoff_of e' now) = counted_solves db3 e' (cutoff_of e' now)"
      using late by (simp add: counted_solves_def challenge_of_def d(3,4) cut)
    show "counted_awards db' e' (cutoff_of e' now) = counted_awards db3 e' (cutoff_of e' now)"
      using a by (simp add: counted_awards_def ps(1))
  qed
qed

section \<open>The reference for the scores\<close>

definition reference_score :: "database \<Rightarrow> event \<Rightarrow> instant option \<Rightarrow> uuid \<Rightarrow> int" where
  "reference_score db e cutoff t =
     (\<Sum>v \<leftarrow> filter (\<lambda>v. v_team_id v = t) (counted_solves db e cutoff).
        case challenge_of db e (v_challenge_id v) of
          None \<Rightarrow> 0
        | Some c \<Rightarrow> challenge_points c (solve_count (counted_solves db e cutoff) (v_challenge_id v)))
     + (\<Sum>p \<leftarrow> filter (\<lambda>p. p_team_id p = t) (counted_awards db e cutoff). p_points p)"

lemma challenge_of_Some: "challenge_of db e i = Some c \<Longrightarrow> c \<in> set (challenges db)"
  by (auto simp: challenge_of_def find_Some_iff)

lemma solve_value_reference:
  assumes ok: "\<forall>c \<in> set (challenges db). scoring_ok (c_initial_points c) (c_minimum_points c) (c_decay c)"
    and v: "v \<in> set vs" and n: "solve_count vs (v_challenge_id v) \<le> 94906"
  shows "solve_value round_half_even db e vs v =
    (case challenge_of db e (v_challenge_id v) of
       None \<Rightarrow> 0 | Some c \<Rightarrow> challenge_points c (solve_count vs (v_challenge_id v)))"
proof (cases "challenge_of db e (v_challenge_id v)")
  case None
  then show ?thesis by (simp add: solve_value_def)
next
  case (Some c)
  let ?n = "solve_count vs (v_challenge_id v)"
  have c: "scoring_ok (c_initial_points c) (c_minimum_points c) (c_decay c)"
    using ok challenge_of_Some[OF Some] by blast
  have "count_where (\<lambda>x. v_challenge_id x = v_challenge_id v) vs \<noteq> 0"
    using v by (auto simp: count_where_0)
  then have p: "0 < ?n" by (simp add: solve_count_def)
  have "?n ^ 2 \<le> 94906 ^ 2" using n p by (intro power_mono) auto
  moreover have "c_initial_points c - c_minimum_points c \<le> 1000000"
    "0 \<le> c_initial_points c - c_minimum_points c"
    using c by (auto simp: scoring_ok_def)
  ultimately have "(c_initial_points c - c_minimum_points c) * ?n ^ 2 \<le> 1000000 * 94906 ^ 2"
    by (intro mult_mono) auto
  then have "(c_initial_points c - c_minimum_points c) * ?n ^ 2 \<le> 2 ^ 53" by simp
  then have "sql_solve_points round_half_even c ?n = challenge_points c ?n"
    using n by (intro sql_points_eq[OF c p]) auto
  then show ?thesis using Some by (simp add: solve_value_def)
qed

text \<open>
  C19: the aggregation agrees with the points of the challenge pages. On a database that
  rounds half to even, the score of every listed team is the sum over its counted solves
  of \<open>challenge_points\<close> at the number of counted solves of the challenge, plus its active
  awards, and its number of solves is the number of those solves; for challenges as the
  request schemas allow them and up to 94906 solves of each.
\<close>

theorem scores_match_challenge_points:
  assumes "\<forall>c \<in> set (challenges db). scoring_ok (c_initial_points c) (c_minimum_points c) (c_decay c)"
    and "\<forall>i. solve_count (counted_solves db e (cutoff_of e now)) i \<le> 94906"
    and "x \<in> set (sb_entries (public_scoreboard round_half_even db e now))"
  shows "be_score x = reference_score db e (cutoff_of e now) (be_team_id x)
    \<and> be_solves x = int (length (filter (\<lambda>v. v_team_id v = be_team_id x)
        (counted_solves db e (cutoff_of e now))))"
proof -
  let ?vs = "counted_solves db e (cutoff_of e now)" and ?ps = "counted_awards db e (cutoff_of e now)"
  obtain j t y where j: "(j, t, y) \<in> set (enumerate 1 (ranked_teams round_half_even db e (cutoff_of e now)))"
    and x: "be_team_id x = t_id t" "be_score x = tt_score y" "be_solves x = tt_solves y"
    using assms(3) by (auto simp: public_scoreboard_def Let_def)
  have "(t, y) \<in> set (ranked_teams round_half_even db e (cutoff_of e now))"
    using j by (rule in_enumerate)
  then have y: "y = team_total_of round_half_even db e ?vs ?ps (t_id t)"
    using ranked_teams_total by blast
  have "sum_list (map (solve_value round_half_even db e ?vs) (filter (\<lambda>v. v_team_id v = t_id t) ?vs))
    = (\<Sum>v \<leftarrow> filter (\<lambda>v. v_team_id v = t_id t) ?vs. case challenge_of db e (v_challenge_id v) of
        None \<Rightarrow> 0 | Some c \<Rightarrow> challenge_points c (solve_count ?vs (v_challenge_id v)))"
    using assms(2) by (intro arg_cong[where f = sum_list] map_cong refl solve_value_reference[OF assms(1)]) auto
  then show ?thesis by (simp add: x y team_total_of_def reference_score_def Let_def)
qed

section \<open>The cached endpoint\<close>

text \<open>
  \<open>scoreboard_endpoint\<close> is the code of \<open>GET /scoreboard\<close> against any store. Other requests
  run between its calls of the store and before its aggregation: the state is the store
  with the database, and \<open>env i\<close> is what the others do to it before action number \<open>i\<close>:
  0 counter, 1 read, 2 lease, 3 counter, 4 read, 5 aggregation, 6 counter, 7 write,
  8 release. A call that raises (\<open>None\<close>) is the \<open>except\<close> branch of the code and changes
  nothing. The row of the event is the one read at the start, as in the session of the
  request.
\<close>

record cached_board =
  cb_generation :: "int option"
  cb_payload :: "scoreboard option"

text \<open>\<open>cb_payload\<close> is \<open>None\<close> when the payload of the cached object is no dict.\<close>

definition cached_payload :: "cached_board option \<Rightarrow> int \<Rightarrow> scoreboard option" where
  "cached_payload cached generation =
     (case cached of
        None \<Rightarrow> None
      | Some c \<Rightarrow> if cb_generation c \<noteq> Some generation then None else cb_payload c)"

definition call :: "('s \<Rightarrow> ('a \<times> 's) option) \<Rightarrow> 's \<times> database \<Rightarrow> ('a \<times> 's \<times> database) option" where
  "call f \<sigma> = map_option (\<lambda>(a, s). (a, s, snd \<sigma>)) (f (fst \<sigma>))"

definition release_finally ::
  "(cached_board, 's) store_ops \<Rightarrow> (nat \<Rightarrow> 's \<times> database \<Rightarrow> 's \<times> database) \<Rightarrow> store_key \<Rightarrow> string \<Rightarrow>
   scoreboard result \<times> 's \<times> database \<Rightarrow> scoreboard result \<times> 's \<times> database" where
  "release_finally ops env lease_key token = (\<lambda>(r, \<sigma>).
     (r, case call (op_release_lease ops lease_key token) (env 8 \<sigma>) of
           None \<Rightarrow> env 8 \<sigma> | Some (_, \<sigma>') \<Rightarrow> \<sigma>'))"

text \<open>The re-read of generation and cache, shared by the two branches.\<close>

definition reread ::
  "(cached_board, 's) store_ops \<Rightarrow> world \<Rightarrow> (nat \<Rightarrow> 's \<times> database \<Rightarrow> 's \<times> database) \<Rightarrow> uuid \<Rightarrow>
   cache_phase \<Rightarrow> 's \<times> database \<Rightarrow> ((int \<times> scoreboard option) option) \<times> 's \<times> database" where
  "reread ops w env e phase \<sigma> =
     (case call (op_get_counter ops (ScoreboardGeneration e)) (env 3 \<sigma>) of
        None \<Rightarrow> (None, env 3 \<sigma>)
      | Some (generation, \<sigma>) \<Rightarrow>
          (case call (op_get_json ops (w_monotonic w 2) (ScoreboardPublic e phase)) (env 4 \<sigma>) of
             None \<Rightarrow> (None, env 4 \<sigma>)
           | Some (cached, \<sigma>) \<Rightarrow> (Some (generation, cached_payload cached generation), \<sigma>)))"

text \<open>The aggregation and its publication, with the generation read before.\<close>

definition publish ::
  "(cached_board, 's) store_ops \<Rightarrow> settings \<Rightarrow> world \<Rightarrow> (nat \<Rightarrow> 's \<times> database \<Rightarrow> 's \<times> database) \<Rightarrow>
   (rat \<Rightarrow> int) \<Rightarrow> event \<Rightarrow> instant \<Rightarrow> int \<Rightarrow> 's \<times> database \<Rightarrow> scoreboard result \<times> 's \<times> database" where
  "publish ops st w env db_round e now generation \<sigma> =
     (let \<sigma> = env 5 \<sigma>;
          board = public_scoreboard db_round (snd \<sigma>) e now;
          \<sigma> = env 6 \<sigma>
      in case call (op_get_counter ops (ScoreboardGeneration (e_id e))) \<sigma> of
           None \<Rightarrow> (err 503 ''scoreboard_unavailable'', \<sigma>)
         | Some (generation', \<sigma>) \<Rightarrow>
             if generation' \<noteq> generation then (err_retry 503 ''scoreboard_changed'' 1, \<sigma>)
             else (case op_set_json ops (w_monotonic w 3)
                       (ScoreboardPublic (e_id e) (public_scoreboard_cache_phase e now))
                       \<lparr>cb_generation = Some generation, cb_payload = Some board\<rparr>
                       (st_scoreboard_cache_seconds st) (fst (env 7 \<sigma>)) of
                     None \<Rightarrow> (err 503 ''scoreboard_unavailable'', env 7 \<sigma>)
                   | Some s \<Rightarrow> (Inr board, s, snd (env 7 \<sigma>))))"

definition build_and_publish ::
  "(cached_board, 's) store_ops \<Rightarrow> settings \<Rightarrow> world \<Rightarrow> (nat \<Rightarrow> 's \<times> database \<Rightarrow> 's \<times> database) \<Rightarrow>
   (rat \<Rightarrow> int) \<Rightarrow> event \<Rightarrow> instant \<Rightarrow> 's \<times> database \<Rightarrow> scoreboard result \<times> 's \<times> database" where
  "build_and_publish ops st w env db_round e now \<sigma> =
     (case reread ops w env (e_id e) (public_scoreboard_cache_phase e now) \<sigma> of
        (None, \<sigma>) \<Rightarrow> (err 503 ''scoreboard_unavailable'', \<sigma>)
      | (Some (generation, Some payload), \<sigma>) \<Rightarrow> (Inr payload, \<sigma>)
      | (Some (generation, None), \<sigma>) \<Rightarrow> publish ops st w env db_round e now generation \<sigma>)"

text \<open>The endpoint after a miss: with the lease it builds, without it reads once more.\<close>

definition scoreboard_miss ::
  "(cached_board, 's) store_ops \<Rightarrow> settings \<Rightarrow> world \<Rightarrow> (nat \<Rightarrow> 's \<times> database \<Rightarrow> 's \<times> database) \<Rightarrow>
   (rat \<Rightarrow> int) \<Rightarrow> event \<Rightarrow> instant \<Rightarrow> 's \<times> database \<Rightarrow> scoreboard result \<times> 's \<times> database" where
  "scoreboard_miss ops st w env db_round e now \<sigma> =
     (let phase = public_scoreboard_cache_phase e now
      in case call (op_acquire_lease ops (w_monotonic w 1) (w_token w 0)
                (ScoreboardBuild (e_id e) phase) SCOREBOARD_BUILD_LEASE_SECONDS) (env 2 \<sigma>) of
           None \<Rightarrow> (err 503 ''scoreboard_unavailable'', env 2 \<sigma>)
         | Some (None, \<sigma>) \<Rightarrow>
             (case reread ops w env (e_id e) phase \<sigma> of
                (None, \<sigma>) \<Rightarrow> (err 503 ''scoreboard_unavailable'', \<sigma>)
              | (Some (_, Some payload), \<sigma>) \<Rightarrow> (Inr payload, \<sigma>)
              | (Some (_, None), \<sigma>) \<Rightarrow> (err_retry 503 ''scoreboard_busy'' 1, \<sigma>))
         | Some (Some token, \<sigma>) \<Rightarrow>
             release_finally ops env (ScoreboardBuild (e_id e) phase) token
               (build_and_publish ops st w env db_round e now \<sigma>))"

definition scoreboard_endpoint ::
  "(cached_board, 's) store_ops \<Rightarrow> settings \<Rightarrow> world \<Rightarrow> (nat \<Rightarrow> 's \<times> database \<Rightarrow> 's \<times> database) \<Rightarrow>
   (rat \<Rightarrow> int) \<Rightarrow> 's \<times> database \<Rightarrow> scoreboard result \<times> 's \<times> database" where
  "scoreboard_endpoint ops st w env db_round \<sigma> =
     (case current_event (snd \<sigma>) of
        None \<Rightarrow> (err 404 ''event_not_found'', \<sigma>)
      | Some e \<Rightarrow>
          let now = w_utcnow w 0
          in case call (op_get_counter ops (ScoreboardGeneration (e_id e))) (env 0 \<sigma>) of
               None \<Rightarrow> (err 503 ''scoreboard_unavailable'', env 0 \<sigma>)
             | Some (generation, \<sigma>) \<Rightarrow>
                 (case call (op_get_json ops (w_monotonic w 0)
                          (ScoreboardPublic (e_id e) (public_scoreboard_cache_phase e now))) (env 1 \<sigma>) of
                    None \<Rightarrow> (err 503 ''scoreboard_unavailable'', env 1 \<sigma>)
                  | Some (cached, \<sigma>) \<Rightarrow>
                      (case cached_payload cached generation of
                         Some payload \<Rightarrow> (Inr payload, \<sigma>)
                       | None \<Rightarrow> scoreboard_miss ops st w env db_round e now \<sigma>)))"

section \<open>Freshness under interference\<close>

text \<open>
  \<open>since g db\<close> is a ghost: the database \<open>db\<close> holds everything that was committed when the
  generation counter reached \<open>g\<close>. A board is fresh for a generation when it was computed
  from such a database.
\<close>

definition fresh_board ::
  "(rat \<Rightarrow> int) \<Rightarrow> uuid \<Rightarrow> (int \<Rightarrow> database \<Rightarrow> bool) \<Rightarrow> int \<Rightarrow> scoreboard \<Rightarrow> bool" where
  "fresh_board r i since g board \<longleftrightarrow>
     (\<exists>db e now. since g db \<and> e_id e = i \<and> board = public_scoreboard r db e now)"

definition fresh_from ::
  "(rat \<Rightarrow> int) \<Rightarrow> uuid \<Rightarrow> (int \<Rightarrow> database \<Rightarrow> bool) \<Rightarrow> int \<Rightarrow> scoreboard \<Rightarrow> bool" where
  "fresh_from r i since n board \<longleftrightarrow> (\<exists>g \<ge> n. fresh_board r i since g board)"

lemma fresh_from_mono: "fresh_from r i since n board \<Longrightarrow> m \<le> n \<Longrightarrow> fresh_from r i since m board"
  unfolding fresh_from_def using order_trans by blast

lemma fresh_fromI: "fresh_board r i since n board \<Longrightarrow> m \<le> n \<Longrightarrow> fresh_from r i since m board"
  by (auto simp: fresh_from_def)

text \<open>The state the requests keep: every cached board is fresh for the generation it carries.\<close>

definition cache_coherent ::
  "('s \<Rightarrow> store_key \<Rightarrow> int) \<Rightarrow> ('s \<Rightarrow> instant \<Rightarrow> store_key \<Rightarrow> cached_board option) \<Rightarrow> (rat \<Rightarrow> int) \<Rightarrow>
   uuid \<Rightarrow> (int \<Rightarrow> database \<Rightarrow> bool) \<Rightarrow> 's \<times> database \<Rightarrow> bool" where
  "cache_coherent counter live_json r i since \<sigma> \<longleftrightarrow>
     (\<forall>g \<le> counter (fst \<sigma>) (ScoreboardGeneration i). since g (snd \<sigma>))
     \<and> (\<forall>phase t c g board. live_json (fst \<sigma>) t (ScoreboardPublic i phase) = Some c
          \<longrightarrow> cb_generation c = Some g \<longrightarrow> cb_payload c = Some board \<longrightarrow> fresh_board r i since g board)"

text \<open>What every step does, of this request and of the others: it keeps that state and never
  lowers the generation.\<close>

definition keeps ::
  "('s \<Rightarrow> store_key \<Rightarrow> int) \<Rightarrow> ('s \<Rightarrow> instant \<Rightarrow> store_key \<Rightarrow> cached_board option) \<Rightarrow> (rat \<Rightarrow> int) \<Rightarrow>
   uuid \<Rightarrow> (int \<Rightarrow> database \<Rightarrow> bool) \<Rightarrow> 's \<times> database \<Rightarrow> 's \<times> database \<Rightarrow> bool" where
  "keeps counter live_json r i since \<sigma> \<sigma>' \<longleftrightarrow>
     cache_coherent counter live_json r i since \<sigma> \<longrightarrow>
       cache_coherent counter live_json r i since \<sigma>'
       \<and> counter (fst \<sigma>) (ScoreboardGeneration i) \<le> counter (fst \<sigma>') (ScoreboardGeneration i)"

lemma cached_payload_Some:
  "cached_payload cached g = Some board \<longleftrightarrow>
     (\<exists>c. cached = Some c \<and> cb_generation c = Some g \<and> cb_payload c = Some board)"
  by (auto simp: cached_payload_def split: option.splits)

lemma call_Some: "call f \<sigma> = Some (a, \<sigma>') \<longleftrightarrow> (\<exists>s. f (fst \<sigma>) = Some (a, s) \<and> \<sigma>' = (s, snd \<sigma>))"
  by (auto simp: call_def)

lemma keeps_refl [simp]: "keeps c l r i since \<sigma> \<sigma>"
  by (simp add: keeps_def)

lemma keeps_trans [trans]: "keeps c l r i since a b \<Longrightarrow> keeps c l r i since b d \<Longrightarrow> keeps c l r i since a d"
  by (auto simp: keeps_def)

lemma keeps_readI:
  assumes "counter s' = counter s"
    and "\<And>t k c. live_json s' t k = Some c \<Longrightarrow> live_json s t k = Some c"
  shows "keeps counter live_json r i since (s, db) (s', db)"
  using assms(2) by (fastforce simp: keeps_def cache_coherent_def assms(1))

lemma keeps_publish:
  assumes "counter s' = counter s"
    and "\<And>t k c. live_json s' t k = Some c \<Longrightarrow>
          live_json s t k = Some c \<or> c = \<lparr>cb_generation = Some g, cb_payload = Some board\<rparr>"
    and "cache_coherent counter live_json r i since (s, db) \<Longrightarrow> fresh_board r i since g board"
  shows "keeps counter live_json r i since (s, db) (s', db)"
  unfolding keeps_def
proof (intro impI conjI)
  assume ok: "cache_coherent counter live_json r i since (s, db)"
  have "fresh_board r i since g' b"
    if "live_json s' t (ScoreboardPublic i phase) = Some c" "cb_generation c = Some g'" "cb_payload c = Some b"
    for t phase c g' b
    using assms(2)[OF that(1)] that(2,3) assms(3)[OF ok] ok by (fastforce simp: cache_coherent_def)
  then show "cache_coherent counter live_json r i since (s', db)"
    using ok by (auto simp: cache_coherent_def assms(1))
qed (simp add: assms(1))

text \<open>No build lease of the event carries the token.\<close>

definition lease_free ::
  "('s \<Rightarrow> instant \<Rightarrow> store_key \<Rightarrow> string option) \<Rightarrow> uuid \<Rightarrow> cache_phase \<Rightarrow> string \<Rightarrow> 's \<times> database \<Rightarrow> bool" where
  "lease_free live_lease i phase token \<sigma> \<longleftrightarrow>
     (\<forall>t. live_lease (fst \<sigma>) t (ScoreboardBuild i phase) \<noteq> Some token)"

text \<open>The other way to leave: the lease was granted, with its expiry, and giving it back raised.\<close>

definition release_raised ::
  "('j, 's) store_ops \<Rightarrow> uuid \<Rightarrow> cache_phase \<Rightarrow> instant \<Rightarrow> string \<Rightarrow> 's \<times> database \<Rightarrow> bool" where
  "release_raised ops i phase now token \<sigma> \<longleftrightarrow>
     (\<exists>s s'. op_acquire_lease ops now token (ScoreboardBuild i phase) SCOREBOARD_BUILD_LEASE_SECONDS s
        = Some (Some token, s'))
     \<and> op_release_lease ops (ScoreboardBuild i phase) token (fst \<sigma>) = None"

text \<open>What the endpoint relies on beyond the contract of the store: no call invents an object.\<close>

locale scoreboard_store = ephemeral_store ops counter live_json live_lease spent
  for ops :: "(cached_board, 's) store_ops"
    and counter :: "'s \<Rightarrow> store_key \<Rightarrow> int"
    and live_json :: "'s \<Rightarrow> instant \<Rightarrow> store_key \<Rightarrow> cached_board option"
    and live_lease :: "'s \<Rightarrow> instant \<Rightarrow> store_key \<Rightarrow> string option"
    and spent :: "'s \<Rightarrow> instant \<Rightarrow> store_key \<Rightarrow> int" +
  assumes get_json_frame: "op_get_json ops now k s = Some (v, s') \<Longrightarrow>
      live_json s' t k' = Some c \<Longrightarrow> live_json s t k' = Some c"
    and set_json_frame: "op_set_json ops now k j ttl s = Some s' \<Longrightarrow>
      live_json s' t k' = Some c \<Longrightarrow> live_json s t k' = Some c \<or> c = j"
    and acquire_frame: "op_acquire_lease ops now token k ttl s = Some (g, s') \<Longrightarrow> key_kind k = LeaseKey \<Longrightarrow>
      live_json s' t k' = Some c \<Longrightarrow> live_json s t k' = Some c"
    and release_frame: "op_release_lease ops k token s = Some (b, s') \<Longrightarrow>
      live_json s' t k' = Some c \<Longrightarrow> live_json s t k' = Some c"
begin

lemmas generation_counter = get_counter[of "ScoreboardGeneration i", simplified] for i
lemmas board_read = get_json[of _ "ScoreboardPublic i phase", simplified] for i phase
lemmas build_lease = acquire[of _ _ "ScoreboardBuild i phase", simplified] for i phase
lemmas build_release = release[of "ScoreboardBuild i phase", simplified] for i phase

lemma call_counter:
  "call (op_get_counter ops (ScoreboardGeneration i)) \<sigma> = Some (n, \<sigma>') \<Longrightarrow>
     n = counter (fst \<sigma>) (ScoreboardGeneration i) \<and> \<sigma>' = \<sigma>"
  by (auto simp: call_Some dest!: generation_counter)

lemma call_counter_eq:
  "call (op_get_counter ops (ScoreboardGeneration i)) \<sigma> = Some a \<Longrightarrow> a = (counter (fst \<sigma>) (ScoreboardGeneration i), \<sigma>)"
  using call_counter[of i \<sigma> "fst a" "snd a"] by (simp add: prod_eq_iff)

lemma call_get:
  assumes "call (op_get_json ops now (ScoreboardPublic i phase)) \<sigma> = Some (v, \<sigma>')"
  shows "(\<forall>c. v = Some c \<longrightarrow> (\<exists>t. live_json (fst \<sigma>) t (ScoreboardPublic i phase) = Some c))
    \<and> counter (fst \<sigma>') = counter (fst \<sigma>) \<and> keeps counter live_json r i' since \<sigma> \<sigma>'"
proof -
  obtain s where s: "op_get_json ops now (ScoreboardPublic i phase) (fst \<sigma>) = Some (v, s)" "\<sigma>' = (s, snd \<sigma>)"
    using assms by (auto simp: call_Some)
  have "keeps counter live_json r i' since (fst \<sigma>, snd \<sigma>) (s, snd \<sigma>)"
    using board_read[OF s(1)] get_json_frame[OF s(1)] by (intro keeps_readI) auto
  then show ?thesis using board_read[OF s(1)] s(2) by simp
qed

lemma call_acquire:
  assumes "call (op_acquire_lease ops now token (ScoreboardBuild i' phase) ttl) \<sigma> = Some (g, \<sigma>')"
  shows "keeps counter live_json r i since \<sigma> \<sigma>'"
proof -
  obtain s where s: "op_acquire_lease ops now token (ScoreboardBuild i' phase) ttl (fst \<sigma>) = Some (g, s)" "\<sigma>' = (s, snd \<sigma>)"
    using assms by (auto simp: call_Some)
  have "keeps counter live_json r i since (fst \<sigma>, snd \<sigma>) (s, snd \<sigma>)"
    using build_lease[OF s(1)] acquire_frame[OF s(1)] by (intro keeps_readI) auto
  then show ?thesis using s(2) by simp
qed

lemma call_release:
  assumes "call (op_release_lease ops (ScoreboardBuild i' phase) token) \<sigma> = Some (b, \<sigma>')"
  shows "keeps counter live_json r i since \<sigma> \<sigma>'"
proof -
  obtain s where s: "op_release_lease ops (ScoreboardBuild i' phase) token (fst \<sigma>) = Some (b, s)" "\<sigma>' = (s, snd \<sigma>)"
    using assms by (auto simp: call_Some)
  have "keeps counter live_json r i since (fst \<sigma>, snd \<sigma>) (s, snd \<sigma>)"
    using build_release[OF s(1)] release_frame[OF s(1)] by (intro keeps_readI) auto
  then show ?thesis using s(2) by simp
qed

lemma live_fresh:
  assumes "cache_coherent counter live_json r i since \<sigma>"
    and "\<forall>c. v = Some c \<longrightarrow> (\<exists>t. live_json (fst \<sigma>) t (ScoreboardPublic i phase) = Some c)"
    and "cached_payload v g = Some board"
  shows "fresh_board r i since g board"
  using assms by (auto simp: cache_coherent_def cached_payload_Some)

lemma reread_fresh:
  assumes "reread ops w env i phase \<sigma> = (x, \<sigma>')"
    and env: "\<And>j \<sigma>. keeps counter live_json r i since \<sigma> (env j \<sigma>)"
  shows "keeps counter live_json r i since \<sigma> \<sigma>'
    \<and> (\<forall>g p. x = Some (g, p) \<longrightarrow> cache_coherent counter live_json r i since \<sigma> \<longrightarrow>
         counter (fst \<sigma>) (ScoreboardGeneration i) \<le> g \<and> g \<le> counter (fst \<sigma>') (ScoreboardGeneration i)
         \<and> (\<forall>board. p = Some board \<longrightarrow> fresh_board r i since g board))"
proof (cases "call (op_get_counter ops (ScoreboardGeneration i)) (env 3 \<sigma>)")
  case None
  then show ?thesis using assms(1) env[of \<sigma> 3] by (auto simp: reread_def)
next
  case (Some a)
  then obtain n where n: "call (op_get_counter ops (ScoreboardGeneration i)) (env 3 \<sigma>) = Some (n, env 3 \<sigma>)"
    "n = counter (fst (env 3 \<sigma>)) (ScoreboardGeneration i)"
    using call_counter_eq by blast
  let ?\<tau> = "env 4 (env 3 \<sigma>)"
  have k3: "keeps counter live_json r i since \<sigma> (env 3 \<sigma>)" and k4: "keeps counter live_json r i since (env 3 \<sigma>) ?\<tau>"
    by (rule env)+
  show ?thesis
  proof (cases "call (op_get_json ops (w_monotonic w 2) (ScoreboardPublic i phase)) ?\<tau>")
    case None
    then show ?thesis using assms(1) n(1) keeps_trans[OF k3 k4] by (simp add: reread_def)
  next
    case (Some b)
    then obtain v \<sigma>2 where v: "call (op_get_json ops (w_monotonic w 2) (ScoreboardPublic i phase)) ?\<tau> = Some (v, \<sigma>2)"
      by (cases b) blast
    note g = call_get[OF v, of r i since]
    have x: "x = Some (n, cached_payload v n)" "\<sigma>' = \<sigma>2"
      using assms(1) n(1) v by (simp_all add: reread_def)
    have "keeps counter live_json r i since \<sigma> \<sigma>2"
      using keeps_trans[OF keeps_trans[OF k3 k4]] g by blast
    moreover have "counter (fst \<sigma>) (ScoreboardGeneration i) \<le> n \<and> n \<le> counter (fst \<sigma>2) (ScoreboardGeneration i)
        \<and> (\<forall>board. cached_payload v n = Some board \<longrightarrow> fresh_board r i since n board)"
      if ok: "cache_coherent counter live_json r i since \<sigma>"
    proof -
      have ok4: "cache_coherent counter live_json r i since ?\<tau>" using k3 k4 ok by (auto simp: keeps_def)
      show ?thesis using k3 k4 ok g n(2) live_fresh[OF ok4 g[THEN conjunct1]] by (auto simp: keeps_def)
    qed
    ultimately show ?thesis by (auto simp: x)
  qed
qed

lemma publish_fresh:
  assumes "publish ops st w env r e now g \<sigma> = (res, \<sigma>')"
    and env: "\<And>j \<sigma>. keeps counter live_json r (e_id e) since \<sigma> (env j \<sigma>)"
    and ok: "cache_coherent counter live_json r (e_id e) since \<sigma>"
    and g: "g \<le> counter (fst \<sigma>) (ScoreboardGeneration (e_id e))"
  shows "keeps counter live_json r (e_id e) since \<sigma> \<sigma>'
    \<and> (\<forall>board. res = Inr board \<longrightarrow> fresh_board r (e_id e) since g board)"
proof -
  let ?K = "keeps counter live_json r (e_id e) since" and ?G = "ScoreboardGeneration (e_id e)"
  let ?\<tau> = "env 6 (env 5 \<sigma>)" and ?b = "public_scoreboard r (snd (env 5 \<sigma>)) e now"
  let ?entry = "\<lparr>cb_generation = Some g, cb_payload = Some ?b\<rparr>"
  let ?set = "op_set_json ops (w_monotonic w 3) (ScoreboardPublic (e_id e) (public_scoreboard_cache_phase e now))
      ?entry (st_scoreboard_cache_seconds st) (fst (env 7 ?\<tau>))"
  have kt: "?K \<sigma> ?\<tau>" and k7: "?K \<sigma> (env 7 ?\<tau>)" using env keeps_trans by metis+
  have "cache_coherent counter live_json r (e_id e) since (env 5 \<sigma>)" "g \<le> counter (fst (env 5 \<sigma>)) ?G"
    using env[of \<sigma> 5] g ok by (auto simp: keeps_def)
  then have fresh: "fresh_board r (e_id e) since g ?b" by (auto simp: cache_coherent_def fresh_board_def)
  have c: "call (op_get_counter ops ?G) ?\<tau> = None \<or> (\<exists>n. call (op_get_counter ops ?G) ?\<tau> = Some (n, ?\<tau>))"
    using call_counter_eq by (cases "call (op_get_counter ops ?G) ?\<tau>") blast+
  show ?thesis
  proof (cases "\<exists>s. call (op_get_counter ops ?G) ?\<tau> = Some (g, ?\<tau>) \<and> ?set = Some s")
    case False
    then have "(\<sigma>' = ?\<tau> \<or> \<sigma>' = env 7 ?\<tau>) \<and> (\<forall>board. res \<noteq> Inr board)"
      using c assms(1) by (elim disjE exE) (auto simp: publish_def Let_def split: option.splits if_splits)
    then show ?thesis using kt k7 by blast
  next
    case True
    then obtain s where c: "call (op_get_counter ops ?G) ?\<tau> = Some (g, ?\<tau>)" and s: "?set = Some s" by blast
    have r: "res = Inr ?b" "\<sigma>' = (s, snd (env 7 ?\<tau>))" using assms(1) c s by (auto simp: publish_def Let_def)
    have "?K (fst (env 7 ?\<tau>), snd (env 7 ?\<tau>)) \<sigma>'"
      unfolding r(2) using set_json[OF s] set_json_frame[OF s] fresh by (intro keeps_publish) auto
    then show ?thesis using keeps_trans[OF k7] fresh r(1) by simp
  qed
qed

lemma build_fresh:
  assumes "build_and_publish ops st w env r e now \<sigma> = (res, \<sigma>')"
    and env: "\<And>j \<sigma>. keeps counter live_json r (e_id e) since \<sigma> (env j \<sigma>)"
    and ok: "cache_coherent counter live_json r (e_id e) since \<sigma>"
  shows "keeps counter live_json r (e_id e) since \<sigma> \<sigma>'
    \<and> (\<forall>board. res = Inr board \<longrightarrow>
         fresh_from r (e_id e) since (counter (fst \<sigma>) (ScoreboardGeneration (e_id e))) board)"
proof -
  let ?phase = "public_scoreboard_cache_phase e now"
  obtain x \<sigma>1 where rr: "reread ops w env (e_id e) ?phase \<sigma> = (x, \<sigma>1)"
    by (cases "reread ops w env (e_id e) ?phase \<sigma>")
  note R = reread_fresh[OF rr env]
  show ?thesis
  proof (cases "\<exists>g. x = Some (g, None)")
    case True
    then obtain g where g: "x = Some (g, None)" by blast
    then have p: "publish ops st w env r e now g \<sigma>1 = (res, \<sigma>')"
      using assms(1) rr by (simp add: build_and_publish_def)
    have "cache_coherent counter live_json r (e_id e) since \<sigma>1"
      "g \<le> counter (fst \<sigma>1) (ScoreboardGeneration (e_id e))" "counter (fst \<sigma>) (ScoreboardGeneration (e_id e)) \<le> g"
      using R ok g by (auto simp: keeps_def)
    then show ?thesis using publish_fresh[OF p env] R keeps_trans fresh_fromI by metis
  next
    case False
    then have "\<sigma>' = \<sigma>1 \<and> (\<forall>board. res = Inr board \<longrightarrow> (\<exists>g. x = Some (g, Some board)))"
      using assms(1) rr by (auto simp: build_and_publish_def split: option.splits)
    then show ?thesis using R ok fresh_fromI by metis
  qed
qed

lemma release_keeps:
  assumes "release_finally ops env (ScoreboardBuild i' phase) token (res, \<sigma>) = (res', \<sigma>')"
    and env: "\<And>j \<sigma>. keeps counter live_json r i since \<sigma> (env j \<sigma>)"
  shows "res' = res \<and> keeps counter live_json r i since \<sigma> \<sigma>'"
proof (cases "call (op_release_lease ops (ScoreboardBuild i' phase) token) (env 8 \<sigma>)")
  case None
  then show ?thesis using assms(1) env[of \<sigma> 8] by (auto simp: release_finally_def)
next
  case (Some a)
  then obtain b \<tau> where "call (op_release_lease ops (ScoreboardBuild i' phase) token) (env 8 \<sigma>) = Some (b, \<tau>)" by (cases a) blast
  then show ?thesis
    using assms(1) call_release keeps_trans[OF env[of \<sigma> 8]] by (auto simp: release_finally_def)
qed

lemma miss_fresh:
  assumes "scoreboard_miss ops st w env r e now \<sigma> = (res, \<sigma>')"
    and env: "\<And>j \<sigma>. keeps counter live_json r (e_id e) since \<sigma> (env j \<sigma>)"
    and ok: "cache_coherent counter live_json r (e_id e) since \<sigma>"
  shows "keeps counter live_json r (e_id e) since \<sigma> \<sigma>'
    \<and> (\<forall>board. res = Inr board \<longrightarrow>
         fresh_from r (e_id e) since (counter (fst \<sigma>) (ScoreboardGeneration (e_id e))) board)"
proof -
  let ?G = "ScoreboardGeneration (e_id e)" and ?phase = "public_scoreboard_cache_phase e now"
  let ?lease = "call (op_acquire_lease ops (w_monotonic w 1) (w_token w 0)
      (ScoreboardBuild (e_id e) ?phase) SCOREBOARD_BUILD_LEASE_SECONDS) (env 2 \<sigma>)"
  show ?thesis
  proof (cases ?lease)
    case None
    then show ?thesis using assms(1) env[of \<sigma> 2] by (auto simp: scoreboard_miss_def Let_def)
  next
    case (Some a)
    then obtain l \<rho> where l: "?lease = Some (l, \<rho>)" by (cases a) blast
    have kr: "keeps counter live_json r (e_id e) since \<sigma> \<rho>" using keeps_trans[OF env call_acquire[OF l]] .
    then have up: "cache_coherent counter live_json r (e_id e) since \<rho>" "counter (fst \<sigma>) ?G \<le> counter (fst \<rho>) ?G"
      using ok by (simp_all add: keeps_def)
    show ?thesis
    proof (cases l)
      case None
      obtain x \<rho>' where rr: "reread ops w env (e_id e) ?phase \<rho> = (x, \<rho>')"
        by (cases "reread ops w env (e_id e) ?phase \<rho>")
      have "\<sigma>' = \<rho>' \<and> (\<forall>board. res = Inr board \<longrightarrow> (\<exists>g. x = Some (g, Some board)))"
        using assms(1) l None rr by (auto simp: scoreboard_miss_def Let_def split: option.splits)
      moreover note reread_fresh[OF rr env]
      ultimately show ?thesis using kr up keeps_trans[OF kr] fresh_fromI order_trans by metis
    next
      case (Some token)
      obtain res1 \<rho>' where b: "build_and_publish ops st w env r e now \<rho> = (res1, \<rho>')"
        by (cases "build_and_publish ops st w env r e now \<rho>")
      have f: "release_finally ops env (ScoreboardBuild (e_id e) ?phase) token (res1, \<rho>') = (res, \<sigma>')"
        using assms(1) l Some b by (simp add: scoreboard_miss_def Let_def)
      show ?thesis
        using build_fresh[OF b env up(1)] release_keeps[OF f env] kr up(2) keeps_trans fresh_from_mono by metis
    qed
  qed
qed

lemma endpoint_fresh:
  assumes "scoreboard_endpoint ops st w env r \<sigma> = (res, \<sigma>')"
    and e: "current_event (snd \<sigma>) = Some e"
    and env: "\<And>j \<sigma>. keeps counter live_json r (e_id e) since \<sigma> (env j \<sigma>)"
    and ok: "cache_coherent counter live_json r (e_id e) since \<sigma>"
  shows "keeps counter live_json r (e_id e) since \<sigma> \<sigma>'
    \<and> (\<forall>board. res = Inr board \<longrightarrow>
         fresh_from r (e_id e) since (counter (fst \<sigma>) (ScoreboardGeneration (e_id e))) board)"
proof -
  let ?K = "keeps counter live_json r (e_id e) since" and ?G = "ScoreboardGeneration (e_id e)"
  let ?read = "call (op_get_json ops (w_monotonic w 0)
      (ScoreboardPublic (e_id e) (public_scoreboard_cache_phase e (w_utcnow w 0)))) (env 1 (env 0 \<sigma>))"
  have k0: "?K \<sigma> (env 0 \<sigma>)" and k1: "?K \<sigma> (env 1 (env 0 \<sigma>))" using env keeps_trans by metis+
  show ?thesis
  proof (cases "call (op_get_counter ops ?G) (env 0 \<sigma>)")
    case None
    then show ?thesis using assms(1) e k0 by (auto simp: scoreboard_endpoint_def Let_def)
  next
    case (Some a)
    then obtain n where n: "call (op_get_counter ops ?G) (env 0 \<sigma>) = Some (n, env 0 \<sigma>)" "n = counter (fst (env 0 \<sigma>)) ?G"
      using call_counter_eq by blast
    have n0: "counter (fst \<sigma>) ?G \<le> n" using k0 ok n(2) by (simp add: keeps_def)
    show ?thesis
    proof (cases ?read)
      case None
      then show ?thesis using assms(1) e n(1) k1 by (auto simp: scoreboard_endpoint_def Let_def)
    next
      case (Some b)
      then obtain v \<tau> where v: "?read = Some (v, \<tau>)" by (cases b) blast
      note g = call_get[OF v, of r "e_id e" since]
      have ok1: "cache_coherent counter live_json r (e_id e) since (env 1 (env 0 \<sigma>))" using k1 ok by (simp add: keeps_def)
      have kt: "?K \<sigma> \<tau>" using keeps_trans[OF k1] g by blast
      then have up: "cache_coherent counter live_json r (e_id e) since \<tau>" "counter (fst \<sigma>) ?G \<le> counter (fst \<tau>) ?G"
        using ok by (simp_all add: keeps_def)
      show ?thesis
      proof (cases "cached_payload v n")
        case (Some board)
        then have "res = Inr board" "\<sigma>' = \<tau>" using assms(1) e n(1) v by (auto simp: scoreboard_endpoint_def Let_def)
        then show ?thesis using live_fresh[OF ok1 g[THEN conjunct1]] Some g n0 kt fresh_fromI by fastforce
      next
        case None
        then have m: "scoreboard_miss ops st w env r e (w_utcnow w 0) \<tau> = (res, \<sigma>')"
          using assms(1) e n(1) v by (simp add: scoreboard_endpoint_def Let_def)
        show ?thesis using miss_fresh[OF m env up(1)] kt up(2) keeps_trans fresh_from_mono by metis
      qed
    qed
  qed
qed

text \<open>Every way out of the endpoint returns the lease.\<close>

lemma reread_lease:
  assumes "reread ops w env i phase \<sigma> = (x, \<sigma>')"
    and "\<And>j \<sigma>. lease_free live_lease i phase token \<sigma> \<Longrightarrow> lease_free live_lease i phase token (env j \<sigma>)"
    and "lease_free live_lease i phase token \<sigma>"
  shows "lease_free live_lease i phase token \<sigma>'"
proof -
  have "lease_free live_lease i phase token (env 3 \<sigma>)" "lease_free live_lease i phase token (env 4 (env 3 \<sigma>))"
    using assms(2,3) by blast+
  then show ?thesis
    using assms(1)
    by (auto simp: reread_def lease_free_def call_Some split: option.splits dest!: generation_counter board_read)
qed

lemma release_returns:
  assumes "release_finally ops env (ScoreboardBuild i phase) token p = (res, \<sigma>')"
  shows "lease_free live_lease i phase token \<sigma>'
    \<or> op_release_lease ops (ScoreboardBuild i phase) token (fst \<sigma>') = None"
proof -
  obtain r \<sigma> where p: "p = (r, \<sigma>)" by (cases p)
  show ?thesis
  proof (cases "op_release_lease ops (ScoreboardBuild i phase) token (fst (env 8 \<sigma>))")
    case None
    then show ?thesis using assms p by (simp add: release_finally_def call_def)
  next
    case (Some x)
    then obtain b s where s: "op_release_lease ops (ScoreboardBuild i phase) token (fst (env 8 \<sigma>)) = Some (b, s)"
      by (cases x) blast
    then have "\<sigma>' = (s, snd (env 8 \<sigma>))" using assms p by (simp add: release_finally_def call_def)
    then show ?thesis using build_release[OF s] by (simp add: lease_free_def)
  qed
qed

lemma miss_lease:
  assumes "scoreboard_miss ops st w env r e now \<sigma> = (res, \<sigma>')"
  defines "phase \<equiv> public_scoreboard_cache_phase e now"
  assumes env: "\<And>j \<sigma>. lease_free live_lease (e_id e) phase (w_token w 0) \<sigma> \<Longrightarrow>
           lease_free live_lease (e_id e) phase (w_token w 0) (env j \<sigma>)"
    and free: "lease_free live_lease (e_id e) phase (w_token w 0) \<sigma>"
  shows "lease_free live_lease (e_id e) phase (w_token w 0) \<sigma>'
    \<or> release_raised ops (e_id e) phase (w_monotonic w 1) (w_token w 0) \<sigma>'"
proof (cases "op_acquire_lease ops (w_monotonic w 1) (w_token w 0)
      (ScoreboardBuild (e_id e) phase) SCOREBOARD_BUILD_LEASE_SECONDS (fst (env 2 \<sigma>))")
  case None
  then show ?thesis using assms(1) env[OF free] by (auto simp: scoreboard_miss_def Let_def call_def phase_def)
next
  case (Some a)
  then obtain l s where l: "op_acquire_lease ops (w_monotonic w 1) (w_token w 0)
      (ScoreboardBuild (e_id e) phase) SCOREBOARD_BUILD_LEASE_SECONDS (fst (env 2 \<sigma>)) = Some (l, s)"
    by (cases a) blast
  show ?thesis
  proof (cases l)
    case None
    then have s: "s = fst (env 2 \<sigma>)" using build_lease[OF l] by simp
    obtain x \<rho> where rr: "reread ops w env (e_id e) phase (env 2 \<sigma>) = (x, \<rho>)"
      by (cases "reread ops w env (e_id e) phase (env 2 \<sigma>)")
    have "\<sigma>' = \<rho>"
      using assms(1) l rr s None by (auto simp: scoreboard_miss_def Let_def call_def phase_def split: option.splits)
    then show ?thesis using reread_lease[OF rr env env[OF free]] by blast
  next
    case (Some tok)
    then have tok: "tok = w_token w 0" using build_lease[OF l] by simp
    then have "release_finally ops env (ScoreboardBuild (e_id e) phase) (w_token w 0)
        (build_and_publish ops st w env r e now (s, snd (env 2 \<sigma>))) = (res, \<sigma>')"
      using assms(1) l Some by (simp add: scoreboard_miss_def Let_def call_def phase_def)
    note R = release_returns[OF this]
    then show ?thesis using l Some tok unfolding release_raised_def by blast
  qed
qed

lemma endpoint_lease:
  assumes "scoreboard_endpoint ops st w env r \<sigma> = (res, \<sigma>')" and "current_event (snd \<sigma>) = Some e"
  defines "phase \<equiv> public_scoreboard_cache_phase e (w_utcnow w 0)"
  assumes env: "\<And>j \<sigma>. lease_free live_lease (e_id e) phase (w_token w 0) \<sigma> \<Longrightarrow>
           lease_free live_lease (e_id e) phase (w_token w 0) (env j \<sigma>)"
    and free: "lease_free live_lease (e_id e) phase (w_token w 0) \<sigma>"
  shows "lease_free live_lease (e_id e) phase (w_token w 0) \<sigma>'
    \<or> release_raised ops (e_id e) phase (w_monotonic w 1) (w_token w 0) \<sigma>'"
proof -
  have f: "lease_free live_lease (e_id e) phase (w_token w 0) (env 0 \<sigma>)"
    "lease_free live_lease (e_id e) phase (w_token w 0) (env 1 (env 0 \<sigma>))" using env free by blast+
  have m: "lease_free live_lease (e_id e) phase (w_token w 0) \<sigma>'
      \<or> release_raised ops (e_id e) phase (w_monotonic w 1) (w_token w 0) \<sigma>'"
    if "scoreboard_miss ops st w env r e (w_utcnow w 0) \<tau> = (res, \<sigma>')"
      "lease_free live_lease (e_id e) phase (w_token w 0) \<tau>" for \<tau>
    using miss_lease[OF that(1)] that(2) env unfolding phase_def by blast
  have "call (op_get_counter ops (ScoreboardGeneration (e_id e))) (env 0 \<sigma>) = Some (n, \<tau>) \<Longrightarrow> \<tau> = env 0 \<sigma>" for n \<tau>
    using call_counter by blast
  moreover have "call (op_get_json ops (w_monotonic w 0) (ScoreboardPublic (e_id e) phase)) (env 1 (env 0 \<sigma>)) = Some (v, \<tau>)
     \<Longrightarrow> lease_free live_lease (e_id e) phase (w_token w 0) \<tau>" for v \<tau>
    using f(2) by (auto simp: call_Some lease_free_def dest!: board_read)
  ultimately show ?thesis
    using assms(1,2) f m by (auto simp: scoreboard_endpoint_def Let_def phase_def split: option.splits)
qed

end

interpretation memory_board: scoreboard_store memory_ops ms_counter ms_live_json ms_live_lease ms_spent
  by unfold_locales
    (auto simp: memory_ops_defs ms_live_json_def split: option.splits stored.splits if_splits)

text \<open>
  A scoreboard response is never older than the last invalidation before the request.
  Under any interference that keeps cached boards fresh for the generation they carry and
  never lowers the generation, the endpoint keeps that too, and a board it returns was
  computed from a database that holds everything committed when the generation of the
  moment the request arrived was reached.
\<close>

theorem scoreboard_fresh:
  assumes "scoreboard_endpoint memory_ops st w env r \<sigma> = (res, \<sigma>')"
    and "current_event (snd \<sigma>) = Some e"
    and "\<And>j \<sigma>. keeps ms_counter ms_live_json r (e_id e) since \<sigma> (env j \<sigma>)"
    and "cache_coherent ms_counter ms_live_json r (e_id e) since \<sigma>"
  shows "cache_coherent ms_counter ms_live_json r (e_id e) since \<sigma>'
    \<and> (\<forall>board. res = Inr board \<longrightarrow>
         fresh_from r (e_id e) since (ms_counter (fst \<sigma>) (ScoreboardGeneration (e_id e))) board)"
  using memory_board.endpoint_fresh[OF assms] assms(4) by (auto simp: keeps_def)

text \<open>On the store in memory, where giving back never raises, no lease of the request is left.\<close>

lemma memory_lease_returned:
  assumes "scoreboard_endpoint memory_ops st w env r \<sigma> = (res, \<sigma>')"
    and "current_event (snd \<sigma>) = Some e"
    and "\<And>j \<sigma>. lease_free ms_live_lease (e_id e) (public_scoreboard_cache_phase e (w_utcnow w 0)) (w_token w 0) \<sigma> \<Longrightarrow>
           lease_free ms_live_lease (e_id e) (public_scoreboard_cache_phase e (w_utcnow w 0)) (w_token w 0) (env j \<sigma>)"
    and "lease_free ms_live_lease (e_id e) (public_scoreboard_cache_phase e (w_utcnow w 0)) (w_token w 0) \<sigma>"
  shows "lease_free ms_live_lease (e_id e) (public_scoreboard_cache_phase e (w_utcnow w 0)) (w_token w 0) \<sigma>'"
proof -
  have "\<not> release_raised memory_ops i phase now token \<tau>"
    for i phase now token and \<tau> :: "cached_board memory_store \<times> database"
    by (auto simp: release_raised_def memory_ops_def ms_release_lease_def split: option.splits)
  then show ?thesis using memory_board.endpoint_lease[OF assms] by blast
qed

section \<open>Examples\<close>

definition example_solve :: solve where
  "example_solve = \<lparr>v_id = 61, v_team_id = 30, v_challenge_id = 50, v_user_id = 7, v_submission_id = 60, v_solved_at = 3\<rparr>"

definition board_db :: database where
  "board_db = live_db\<lparr>solves := [example_solve]\<rparr>"

lemmas board_run_defs = board_db_def example_solve_def live_db_def live_event_def flag_challenge_def
  sample_challenge_def team_db_def auth_db_def sample_event_def empty_db_def sample_team_def

lemma board_contributes: "{i. contributes board_db live_event 5 i} = {30}"
  by (auto simp: contributes_def solve_counts_def award_counts_def in_time_def public_scoreboard_is_frozen_def board_run_defs)

lemma scoreboard_ranking_witness:
  "sb_total_entries (public_scoreboard round_half_even board_db live_event 5) = 1
   \<and> map be_rank (sb_entries (public_scoreboard round_half_even board_db live_event 5)) = [1]
   \<and> map be_team_id (sb_entries (public_scoreboard round_half_even board_db live_event 5)) = [30]"
proof -
  have "conflict_free team_clash (teams board_db)"
    "\<forall>v \<in> set (solves board_db). v_team_id v \<in> team_ids board_db"
    "\<forall>p \<in> set (score_events board_db). p_team_id p \<in> team_ids board_db"
    by (simp_all add: board_run_defs conflict_free_def)
  note R = scoreboard_ranking[OF this, of round_half_even live_event 5, unfolded Let_def]
  let ?entries = "sb_entries (public_scoreboard round_half_even board_db live_event 5)"
  have n: "length ?entries = 1" "sb_total_entries (public_scoreboard round_half_even board_db live_event 5) = 1"
    using R by (auto simp: board_contributes)
  then obtain x where x: "?entries = [x]" by (auto simp: length_Suc_conv)
  obtain t where "contributes board_db live_event 5 (t_id t)"
    "x\<lparr>be_rank := 0\<rparr> = standing round_half_even board_db live_event 5 t"
    using R unfolding x by auto
  moreover have "be_team_id (x\<lparr>be_rank := 0\<rparr>) = be_team_id x" by (cases x) simp
  ultimately have "be_team_id x = 30"
    using board_contributes by (auto simp: standing_def Let_def)
  then show ?thesis using R n unfolding x by simp
qed

lemma frozen_board_hides_submissions_witness:
  "\<exists>reply db'. submit_example = Inr (reply, Some db', True)
     \<and> public_scoreboard round_half_even db' (live_event\<lparr>e_state := Frozen, e_freeze_at := Some (Aware (- 5))\<rparr>) 1
       = public_scoreboard round_half_even live_db (live_event\<lparr>e_state := Frozen, e_freeze_at := Some (Aware (- 5))\<rparr>) 1"
proof -
  obtain reply db' where l: "submit_example = Inr (reply, Some db', True)"
    using submit_example_ok by blast
  then show ?thesis
    using frozen_board_hides_submissions[OF l[unfolded submit_example_def],
        of "live_event\<lparr>e_state := Frozen, e_freeze_at := Some (Aware (- 5))\<rparr>" 1 "- 5" round_half_even]
    by (intro exI[of _ reply] exI[of _ db']) (simp add: public_scoreboard_is_frozen_def sample_world_def)
qed

lemma board_db_entry:
  "\<exists>x \<in> set (sb_entries (public_scoreboard round_half_even board_db live_event 5)). be_team_id x = 30"
  by (simp add: public_scoreboard_def ranked_teams_def Let_def cutoff_of_def public_scoreboard_is_frozen_def
      counted_solves_def counted_awards_def challenge_of_def before_cutoff_def contributing_teams_def
      board_run_defs MAX_PUBLIC_SCOREBOARD_ENTRIES_def)

lemma scores_match_challenge_points_witness:
  "\<exists>x \<in> set (sb_entries (public_scoreboard round_half_even board_db live_event 5)).
     be_score x = reference_score board_db live_event (cutoff_of live_event 5) 30"
proof -
  obtain x where x: "x \<in> set (sb_entries (public_scoreboard round_half_even board_db live_event 5))" "be_team_id x = 30"
    using board_db_entry by blast
  have "\<forall>c \<in> set (challenges board_db). scoring_ok (c_initial_points c) (c_minimum_points c) (c_decay c)"
    by (simp add: board_run_defs scoring_ok_def)
  moreover have "\<forall>i. solve_count (counted_solves board_db live_event (cutoff_of live_event 5)) i \<le> 94906"
    by (simp add: solve_count_def counted_solves_def board_run_defs)
  ultimately show ?thesis using scores_match_challenge_points[OF _ _ x(1)] x by auto
qed

text \<open>A solve is committed and announced between the two reads of a request.\<close>

definition late_solve :: "nat \<Rightarrow> cached_board memory_store \<times> database \<Rightarrow> cached_board memory_store \<times> database" where
  "late_solve j \<sigma> =
     (if j = 1 then (case ms_increment (ScoreboardGeneration 1) (fst \<sigma>) of
        None \<Rightarrow> \<sigma> | Some (_, s) \<Rightarrow> (s, (snd \<sigma>)\<lparr>solves := [example_solve]\<rparr>)) else \<sigma>)"

definition solve_seen :: "int \<Rightarrow> database \<Rightarrow> bool" where
  "solve_seen g db \<longleftrightarrow> (1 \<le> g \<longrightarrow> solves db \<noteq> [])"

lemma late_solve_keeps:
  "keeps ms_counter ms_live_json r 1 solve_seen \<sigma> (late_solve j \<sigma>)"
  by (simp add: keeps_def late_solve_def ms_increment_def Let_def cache_coherent_def solve_seen_def
      ms_counter_def ms_live_json_def)

lemma start_coherent: "cache_coherent ms_counter ms_live_json r 1 solve_seen (memory_store_init, live_db)"
  by (simp add: cache_coherent_def solve_seen_def ms_counter_def ms_live_json_def memory_store_init_def)

lemma live_db_event: "current_event live_db = Some live_event"
  by (simp add: current_event_def current_event_query_def live_db_def live_event_def sample_event_def first_by_def)

lemma live_event_id: "e_id live_event = 1"
  by (simp add: live_event_def sample_event_def)

lemma late_solve_run:
  "\<exists>board \<sigma>'. scoreboard_endpoint memory_ops sample_settings sample_world late_solve round_half_even
      (memory_store_init, live_db) = (Inr board, \<sigma>')"
  by (simp add: scoreboard_endpoint_def live_db_event live_event_id scoreboard_miss_def build_and_publish_def
      publish_def reread_def release_finally_def call_def cached_payload_def late_solve_def Let_def
      memory_ops_defs memory_store_init_def sample_world_def sample_settings_def SCOREBOARD_BUILD_LEASE_SECONDS_def)

lemma scoreboard_fresh_witness:
  "\<exists>board \<sigma>'. scoreboard_endpoint memory_ops sample_settings sample_world late_solve round_half_even
      (memory_store_init, live_db) = (Inr board, \<sigma>') \<and> fresh_from round_half_even 1 solve_seen 0 board"
proof -
  obtain board \<sigma>' where r: "scoreboard_endpoint memory_ops sample_settings sample_world late_solve round_half_even
      (memory_store_init, live_db) = (Inr board, \<sigma>')" using late_solve_run by blast
  show ?thesis
    using scoreboard_fresh[OF r, of live_event solve_seen] r live_db_event late_solve_keeps start_coherent
    by (simp add: live_event_id ms_counter_def memory_store_init_def)
qed

end
