(* ===== verification/Redis.thy ===== *)
theory Redis
  imports Scoreboard Pytext
begin

text \<open>
  \<open>RedisStore\<close> of backend/src/alpha/store.py, the store of a deployment. The server is not
  part of the repository: \<open>redis_server\<close> is the parameter with the commands the code issues,
  and \<open>redis_behaves\<close> states what their documentation promises. Its clock is inside its
  state, so nothing here says when a key expires; expiry is a step of the server like the
  commands of the other clients.

  A command inside of a script runs on the server. A call of the client raises when the
  server is not reachable, and then has no effect here; a reply that is lost after the
  command ran is such a failure followed by the same change as a step of the others.
\<close>

record 'r redis_server =
  rd_reachable :: "'r \<Rightarrow> bool"
  rd_get :: "store_key \<Rightarrow> 'r \<Rightarrow> string option option"
  rd_incr :: "store_key \<Rightarrow> 'r \<Rightarrow> (int \<times> 'r) option"
  rd_expire :: "store_key \<Rightarrow> int \<Rightarrow> 'r \<Rightarrow> 'r"
  rd_ttl :: "store_key \<Rightarrow> 'r \<Rightarrow> int"
  rd_setex :: "store_key \<Rightarrow> int \<Rightarrow> string \<Rightarrow> 'r \<Rightarrow> 'r option"
  rd_set_nx_ex :: "store_key \<Rightarrow> string \<Rightarrow> int \<Rightarrow> 'r \<Rightarrow> 'r option option"
  rd_del :: "store_key \<Rightarrow> 'r \<Rightarrow> int \<times> 'r"

text \<open>
  \<open>GET\<close>, \<open>INCR\<close>, \<open>SETEX\<close> and \<open>SET NX EX\<close> may answer with an error (\<open>None\<close>); the inner
  \<open>None\<close> is the nil reply. The codec is \<open>json.dumps\<close> and \<open>json.loads\<close> on the objects the
  code caches: either may raise, and \<open>loads\<close> reads what is no object as \<open>Some None\<close>.
\<close>

record 'j json_codec =
  dumps :: "'j \<Rightarrow> string option"
  loads :: "string \<Rightarrow> 'j option option"

section \<open>RedisStore\<close>

definition client :: "'r redis_server \<Rightarrow> ('r \<Rightarrow> 'b option) \<Rightarrow> 'r \<Rightarrow> 'b option" where
  "client rd command r = (if rd_reachable rd r then command r else None)"

text \<open>The two scripts; the server runs each as one step.\<close>

definition rate_script ::
  "'r redis_server \<Rightarrow> store_key \<Rightarrow> int \<Rightarrow> int \<Rightarrow> 'r \<Rightarrow> ((int \<times> int) \<times> 'r) option" where
  "rate_script rd key limit window_seconds r =
     (case rd_incr rd key r of
        None \<Rightarrow> None
      | Some (counted, r1) \<Rightarrow>
          let r2 = (if counted = 1 then rd_expire rd key window_seconds r1 else r1);
              ttl = rd_ttl rd key r2
          in Some (if counted > limit then (0, ttl) else (1, ttl), r2))"

definition release_lease_script ::
  "'r redis_server \<Rightarrow> store_key \<Rightarrow> string \<Rightarrow> 'r \<Rightarrow> (int \<times> 'r) option" where
  "release_lease_script rd key token r =
     (case rd_get rd key r of
        None \<Rightarrow> None
      | Some raw \<Rightarrow> if raw = Some token then Some (rd_del rd key r) else Some (0, r))"

definition rs_check_rate ::
  "'r redis_server \<Rightarrow> store_key \<Rightarrow> int \<Rightarrow> int \<Rightarrow> 'r \<Rightarrow> (rate_limit_result \<times> 'r) option" where
  "rs_check_rate rd key limit window_seconds r =
     (case client rd (rate_script rd key limit window_seconds) r of
        None \<Rightarrow> None
      | Some ((passes, ttl), r') \<Rightarrow> Some (\<lparr>allowed = passes \<noteq> 0, retry_after = max 0 ttl\<rparr>, r'))"

definition rs_get :: "'r redis_server \<Rightarrow> store_key \<Rightarrow> 'r \<Rightarrow> string option option" where
  "rs_get rd key r = client rd (rd_get rd key) r"

definition rs_get_json :: "'r redis_server \<Rightarrow> 'j json_codec \<Rightarrow> store_key \<Rightarrow> 'r \<Rightarrow> ('j option \<times> 'r) option" where
  "rs_get_json rd codec key r =
     (case rs_get rd key r of
        None \<Rightarrow> None
      | Some None \<Rightarrow> Some (None, r)
      | Some (Some raw) \<Rightarrow> map_option (\<lambda>value. (value, r)) (loads codec raw))"

definition rs_set_json ::
  "'r redis_server \<Rightarrow> 'j json_codec \<Rightarrow> store_key \<Rightarrow> 'j \<Rightarrow> int \<Rightarrow> 'r \<Rightarrow> 'r option" where
  "rs_set_json rd codec key value ttl_seconds r =
     (if ttl_seconds > 0
      then (case dumps codec value of
              None \<Rightarrow> None
            | Some body \<Rightarrow> client rd (rd_setex rd key ttl_seconds body) r)
      else Some r)"

definition rs_delete :: "'r redis_server \<Rightarrow> store_key \<Rightarrow> 'r \<Rightarrow> 'r option" where
  "rs_delete rd key r = client rd (\<lambda>r. Some (snd (rd_del rd key r))) r"

definition rs_get_counter :: "'r redis_server \<Rightarrow> store_key \<Rightarrow> 'r \<Rightarrow> (int \<times> 'r) option" where
  "rs_get_counter rd key r =
     (case rs_get rd key r of
        None \<Rightarrow> None
      | Some None \<Rightarrow> Some (0, r)
      | Some (Some raw) \<Rightarrow>
          (case int_base10 raw of
             None \<Rightarrow> None
           | Some value \<Rightarrow> if value < 0 then None else Some (value, r)))"

definition rs_increment :: "'r redis_server \<Rightarrow> store_key \<Rightarrow> 'r \<Rightarrow> (int \<times> 'r) option" where
  "rs_increment rd key r = client rd (rd_incr rd key) r"

definition rs_acquire_lease ::
  "'r redis_server \<Rightarrow> string \<Rightarrow> store_key \<Rightarrow> int \<Rightarrow> 'r \<Rightarrow> (string option \<times> 'r) option" where
  "rs_acquire_lease rd token key ttl_seconds r =
     (if ttl_seconds \<le> 0 then None
      else case client rd (rd_set_nx_ex rd key token ttl_seconds) r of
             None \<Rightarrow> None
           | Some None \<Rightarrow> Some (None, r)
           | Some (Some r') \<Rightarrow> Some (Some token, r'))"

definition rs_release_lease :: "'r redis_server \<Rightarrow> store_key \<Rightarrow> string \<Rightarrow> 'r \<Rightarrow> (bool \<times> 'r) option" where
  "rs_release_lease rd key token r =
     map_option (\<lambda>(n, r'). (n \<noteq> 0, r')) (client rd (release_lease_script rd key token) r)"

definition redis_ops :: "'r redis_server \<Rightarrow> 'j json_codec \<Rightarrow> ('j, 'r) store_ops" where
  "redis_ops rd codec = \<lparr>op_check_rate = \<lambda>_. rs_check_rate rd, op_get_json = \<lambda>_. rs_get_json rd codec,
     op_set_json = \<lambda>_. rs_set_json rd codec, op_delete = rs_delete rd,
     op_get_counter = rs_get_counter rd, op_increment = rs_increment rd,
     op_acquire_lease = \<lambda>_. rs_acquire_lease rd, op_release_lease = rs_release_lease rd\<rparr>"

lemmas redis_ops_defs = redis_ops_def client_def rate_script_def release_lease_script_def rs_check_rate_def
  rs_get_def rs_get_json_def rs_set_json_def rs_delete_def rs_get_counter_def rs_increment_def
  rs_acquire_lease_def rs_release_lease_def

text \<open>\<open>create_store\<close>; opening the URL of a server is outside, and may raise.\<close>

datatype ('j, 'c) created_store = Memory "'j memory_store" | Remote 'c

definition create_store :: "(string \<Rightarrow> 'c option) \<Rightarrow> string \<Rightarrow> ('j, 'c) created_store option" where
  "create_store from_url url =
     (if url = ''memory://'' then Some (Memory memory_store_init) else map_option Remote (from_url url))"

text \<open>A start that the production rules accept never falls back to the store in memory.\<close>

lemma production_uses_redis:
  assumes "validate_production_secret s = Inr s'" and "st_environment s = Production"
  shows "create_store from_url (st_redis_url s) = map_option Remote (from_url (st_redis_url s))"
  using assms by (auto simp: create_store_def validate_production_secret_def Let_def split: if_splits)

section \<open>What the documentation of the commands promises\<close>

text \<open>\<open>held r k\<close> is the string the server holds under \<open>k\<close> now, \<open>None\<close> when the key is absent.\<close>

definition redis_behaves :: "'r redis_server \<Rightarrow> ('r \<Rightarrow> store_key \<Rightarrow> string option) \<Rightarrow> bool" where
  "redis_behaves rd held \<longleftrightarrow>
     (\<forall>k r raw. rd_get rd k r = Some raw \<longrightarrow> raw = held r k)
     \<and> (\<forall>k r n r'. rd_incr rd k r = Some (n, r') \<longrightarrow>
          (case held r k of None \<Rightarrow> n = 1 | Some t \<Rightarrow> int_base10 t = Some (n - 1))
          \<and> (\<exists>t. held r' = (held r)(k \<mapsto> t) \<and> int_base10 t = Some n))
     \<and> (\<forall>k ttl r. 0 < ttl \<longrightarrow> held (rd_expire rd k ttl r) = held r)
     \<and> (\<forall>k ttl t r r'. rd_setex rd k ttl t r = Some r' \<longrightarrow> held r' = (held r)(k \<mapsto> t))
     \<and> (\<forall>k t ttl r. rd_set_nx_ex rd k t ttl r = Some None \<longrightarrow> held r k \<noteq> None)
     \<and> (\<forall>k t ttl r r'. rd_set_nx_ex rd k t ttl r = Some (Some r') \<longrightarrow>
          held r k = None \<and> held r' = (held r)(k \<mapsto> t))
     \<and> (\<forall>k r. held (snd (rd_del rd k r)) = (held r)(k := None)
          \<and> (fst (rd_del rd k r) = 0 \<longleftrightarrow> held r k = None))"

text \<open>An object that was written reads back as itself.\<close>

definition codec_round_trips :: "'j json_codec \<Rightarrow> bool" where
  "codec_round_trips codec \<longleftrightarrow> (\<forall>j t. dumps codec j = Some t \<longrightarrow> loads codec t = Some (Some j))"

lemma redis_laws:
  assumes "redis_behaves rd held"
  shows redis_get: "rd_get rd k r = Some raw \<Longrightarrow> raw = held r k"
    and redis_incr: "rd_incr rd k r = Some (n, r') \<Longrightarrow>
      (case held r k of None \<Rightarrow> n = 1 | Some t \<Rightarrow> int_base10 t = Some (n - 1))
      \<and> (\<exists>t. held r' = (held r)(k \<mapsto> t) \<and> int_base10 t = Some n)"
    and redis_expire: "0 < ttl \<Longrightarrow> held (rd_expire rd k ttl r) = held r"
    and redis_setex: "rd_setex rd k ttl t r = Some r' \<Longrightarrow> held r' = (held r)(k \<mapsto> t)"
    and redis_set_taken: "rd_set_nx_ex rd k t ttl r = Some None \<Longrightarrow> held r k \<noteq> None"
    and redis_set_free: "rd_set_nx_ex rd k t ttl r = Some (Some r') \<Longrightarrow>
      held r k = None \<and> held r' = (held r)(k \<mapsto> t)"
    and redis_del: "held (snd (rd_del rd k r)) = (held r)(k := None)"
    and redis_del_reply: "fst (rd_del rd k r) = 0 \<longleftrightarrow> held r k = None"
  using assms unfolding redis_behaves_def by - (elim conjE, metis)+

section \<open>RedisStore keeps the contract\<close>

text \<open>The four observations, each on the keys it is about.\<close>

definition number_at :: "(store_key \<Rightarrow> string option) \<Rightarrow> store_key \<Rightarrow> int" where
  "number_at m k = (case m k of
     None \<Rightarrow> 0 | Some t \<Rightarrow> (case int_base10 t of None \<Rightarrow> 0 | Some n \<Rightarrow> n))"

definition rs_counter :: "('r \<Rightarrow> store_key \<Rightarrow> string option) \<Rightarrow> 'r \<Rightarrow> store_key \<Rightarrow> int" where
  "rs_counter held r k = (if key_kind k = CounterKey then number_at (held r) k else 0)"

definition rs_spent :: "('r \<Rightarrow> store_key \<Rightarrow> string option) \<Rightarrow> 'r \<Rightarrow> instant \<Rightarrow> store_key \<Rightarrow> int" where
  "rs_spent held r t k = (if key_kind k = RateKey then number_at (held r) k else 0)"

definition rs_live_json ::
  "('r \<Rightarrow> store_key \<Rightarrow> string option) \<Rightarrow> 'j json_codec \<Rightarrow> 'r \<Rightarrow> instant \<Rightarrow> store_key \<Rightarrow> 'j option" where
  "rs_live_json held codec r t k =
     (if key_kind k = JsonKey
      then (case held r k of
              None \<Rightarrow> None
            | Some raw \<Rightarrow> (case loads codec raw of None \<Rightarrow> None | Some v \<Rightarrow> v))
      else None)"

definition rs_live_lease ::
  "('r \<Rightarrow> store_key \<Rightarrow> string option) \<Rightarrow> 'r \<Rightarrow> instant \<Rightarrow> store_key \<Rightarrow> string option" where
  "rs_live_lease held r t k = (if key_kind k = LeaseKey then held r k else None)"

lemmas rs_observers = rs_counter_def rs_spent_def rs_live_json_def rs_live_lease_def

text \<open>A change of one key leaves the observations of the other kinds.\<close>

lemma observe_other:
  assumes "held r' = (held r)(k := x)"
  shows "key_kind k \<noteq> CounterKey \<Longrightarrow> rs_counter held r' = rs_counter held r"
    and "key_kind k \<noteq> LeaseKey \<Longrightarrow> rs_live_lease held r' = rs_live_lease held r"
    and "key_kind k \<noteq> JsonKey \<Longrightarrow> rs_live_json held codec r' = rs_live_json held codec r"
    and "k' \<noteq> k \<Longrightarrow> rs_spent held r' t k' = rs_spent held r t k'"
  using assms by (auto simp: rs_observers number_at_def fun_eq_iff)

lemma incr_number:
  assumes "redis_behaves rd held" and "rd_incr rd k r = Some (n, r')"
  shows "n = number_at (held r) k + 1 \<and> (\<exists>t. held r' = (held r)(k \<mapsto> t) \<and> int_base10 t = Some n)"
  using redis_incr[OF assms] by (auto simp: number_at_def split: option.splits)

lemma rs_check_rate_law:
  assumes b: "redis_behaves rd held" and run: "rs_check_rate rd k limit window r = Some (q, r')"
    and k: "key_kind k = RateKey" and w: "0 < window"
  shows "(allowed q \<longleftrightarrow> rs_spent held r now k < limit) \<and> rs_spent held r' now k = rs_spent held r now k + 1
    \<and> (\<forall>k' t. k' \<noteq> k \<longrightarrow> rs_spent held r' t k' = rs_spent held r t k')
    \<and> rs_counter held r' = rs_counter held r \<and> 0 \<le> retry_after q"
proof -
  obtain counted r1 where i: "rd_incr rd k r = Some (counted, r1)"
    and q: "allowed q \<longleftrightarrow> counted \<le> limit" "0 \<le> retry_after q"
    and r': "r' = (if counted = 1 then rd_expire rd k window r1 else r1)"
    using run by (auto simp: rs_check_rate_def client_def rate_script_def Let_def
        split: option.splits if_splits)
  obtain t where n: "counted = number_at (held r) k + 1" "held r1 = (held r)(k \<mapsto> t)" "int_base10 t = Some counted"
    using incr_number[OF b i] by blast
  have v: "held r' = (held r)(k \<mapsto> t)" using n(2) redis_expire[OF b w] r' by simp
  have "rs_spent held r' now k = counted" using v n(3) k by (simp add: rs_spent_def number_at_def)
  moreover have "rs_spent held r now k = counted - 1" using n(1) k by (simp add: rs_spent_def)
  moreover note observe_other(1,4)[of held r' r k "Some t", OF v]
  ultimately show ?thesis using q k by auto
qed

text \<open>Over any server that behaves as documented, \<open>RedisStore\<close> is a store the scoreboard can use.\<close>

lemma redis_store_contract:
  assumes b: "redis_behaves rd held" and c: "codec_round_trips codec"
  shows "scoreboard_store (redis_ops rd codec) (rs_counter held) (rs_live_json held codec)
    (rs_live_lease held) (rs_spent held)"
proof (unfold_locales, goal_cases)
  case (1 k s n s')
  then show ?case using redis_get[OF b]
    by (auto simp: redis_ops_defs rs_counter_def number_at_def split: option.splits if_splits)
next
  case (2 k s n s')
  then have i: "rd_incr rd k s = Some (n, s')" by (auto simp: redis_ops_defs split: if_splits)
  obtain t where n: "n = number_at (held s) k + 1" "held s' = (held s)(k \<mapsto> t)" "int_base10 t = Some n"
    using incr_number[OF b i] by blast
  have "rs_live_lease held s' = rs_live_lease held s" "rs_live_json held codec s' = rs_live_json held codec s"
    using observe_other(2,3)[of held s' s k "Some t", OF n(2)] 2 by simp_all
  then show ?case using n 2 by (auto simp: rs_counter_def number_at_def fun_eq_iff)
next
  case (3 now k s v s')
  then show ?case using redis_get[OF b]
    by (auto simp: redis_ops_defs rs_live_json_def split: option.splits if_splits)
next
  case (4 now k v ttl s s')
  then have "s' = s \<or> (\<exists>t. held s' = (held s)(k := Some t))"
    using redis_setex[OF b] by (auto simp: redis_ops_defs split: option.splits if_splits)
  then show ?case using 4(2) observe_other(1,2)[of held s' s k] by auto
next
  case (5 k s s')
  then have "held s' = (held s)(k := None)" using redis_del[OF b] by (auto simp: redis_ops_defs split: if_splits)
  then show ?case using observe_other(1,2)[of held s' s k None] 5 by (simp add: rs_live_json_def)
next
  case (6 now token k ttl s g s')
  then have g: "(g = None \<and> s' = s) \<or> (g = Some token \<and> held s' = (held s)(k := Some token))"
    using redis_set_free[OF b] by (auto simp: redis_ops_defs split: option.splits if_splits)
  then show ?case using 6(2) observe_other(1)[of held s' s k] by auto
next
  case (7 k token s b s')
  then show ?case using redis_get[OF assms(1), of k s] redis_del[OF assms(1), of k s]
      redis_del_reply[OF assms(1), of k s]
      observe_other(1)[of held s' s k None]
    by (auto simp: redis_ops_defs rs_live_lease_def split: option.splits if_splits)
next
  case (8 now k limit window s q s')
  then show ?case using rs_check_rate_law[OF b, of k limit window s q s' now] by (simp add: redis_ops_def)
next
  case (9 now k s v s' t k' c)
  then show ?case by (auto simp: redis_ops_defs split: option.splits if_splits)
next
  case (10 now k j ttl s s' t k' c')
  show ?case
  proof (cases "s' = s")
    case False
    then obtain body where t: "dumps codec j = Some body" "rd_setex rd k ttl body s = Some s'"
      using 10(1) by (auto simp: redis_ops_defs split: option.splits if_splits)
    show ?thesis using redis_setex[OF b t(2)] 10(2) t(1) c
      by (auto simp: rs_live_json_def codec_round_trips_def split: option.splits if_splits)
  qed (use 10 in simp)
next
  case (11 now token k ttl s g s' t k' c')
  then have "s' = s \<or> held s' = (held s)(k := Some token)"
    using redis_set_free[OF b] by (auto simp: redis_ops_defs split: option.splits if_splits)
  then have "rs_live_json held codec s' = rs_live_json held codec s"
    using 11(2) observe_other(3)[of held s' s k] by auto
  then show ?case using 11(3) by simp
next
  case (12 k token s x s' t k' c')
  then have "held s' = held s \<or> held s' = (held s)(k := None)"
    using redis_del[OF b, of k s] by (auto simp: redis_ops_defs split: option.splits if_splits)
  then show ?case using 12(2) by (auto simp: rs_live_json_def split: if_splits)
qed

section \<open>The scoreboard on Redis\<close>

text \<open>
  C20: on the store of a deployment, over any Redis server that behaves as documented and
  whatever calls fail, a scoreboard response is never older than the last invalidation
  before the request. Under any interference of the other workers that keeps cached boards
  fresh for the generation they carry and never lowers the generation, the endpoint keeps
  that too, and a board it returns was computed from a database that holds everything
  committed when the generation of the moment the request arrived was reached.
\<close>

theorem redis_scoreboard_fresh:
  assumes "redis_behaves rd held" and "codec_round_trips codec"
    and "scoreboard_endpoint (redis_ops rd codec) st w env r \<sigma> = (res, \<sigma>')"
    and "current_event (snd \<sigma>) = Some e"
    and "\<And>j \<sigma>. keeps (rs_counter held) (rs_live_json held codec) r (e_id e) since \<sigma> (env j \<sigma>)"
    and "cache_coherent (rs_counter held) (rs_live_json held codec) r (e_id e) since \<sigma>"
  shows "cache_coherent (rs_counter held) (rs_live_json held codec) r (e_id e) since \<sigma>'
    \<and> (\<forall>board. res = Inr board \<longrightarrow>
         fresh_from r (e_id e) since (rs_counter held (fst \<sigma>) (ScoreboardGeneration (e_id e))) board)"
  using scoreboard_store.endpoint_fresh[OF redis_store_contract[OF assms(1,2)] assms(3-6)] assms(6)
  by (auto simp: keeps_def)


section \<open>The rate gate on Redis\<close>

text \<open>A run of rate checks on one key while the server does not expire it.\<close>

fun redis_rate_run ::
  "'r redis_server \<Rightarrow> store_key \<Rightarrow> int \<Rightarrow> int \<Rightarrow> nat \<Rightarrow> 'r \<Rightarrow> (bool list \<times> 'r) option" where
  "redis_rate_run rd key limit window 0 r = Some ([], r)"
| "redis_rate_run rd key limit window (Suc n) r =
     (case rs_check_rate rd key limit window r of
        None \<Rightarrow> None
      | Some (q, r') \<Rightarrow>
          (case redis_rate_run rd key limit window n r' of
             None \<Rightarrow> None
           | Some (qs, r'') \<Rightarrow> Some (allowed q # qs, r'')))"

lemma redis_rate_run_Suc:
  assumes "redis_rate_run rd key limit window (Suc n) r = Some (qs, r')"
  obtains q r1 rest where "rs_check_rate rd key limit window r = Some (q, r1)"
    and "redis_rate_run rd key limit window n r1 = Some (rest, r')" and "qs = allowed q # rest"
  using assms by (auto split: option.splits)

lemma redis_check_step:
  assumes b: "redis_behaves rd held" and k: "key_kind key = RateKey" and w: "0 < window"
    and run: "rs_check_rate rd key limit window r = Some (q, r1)"
  shows "number_at (held r1) key = number_at (held r) key + 1 \<and> (allowed q \<longleftrightarrow> number_at (held r) key < limit)"
  using rs_check_rate_law[OF b run k w] k by (simp add: rs_spent_def)

lemma redis_rate_run_open:
  assumes b: "redis_behaves rd held" and k: "key_kind key = RateKey" and w: "0 < window"
    and "redis_rate_run rd key limit window (length ts) r = Some (qs, r')"
    and "ms_values s key = Some (e, Counted (number_at (held r) key))" and "\<forall>u \<in> set ts. u < e"
  shows "\<exists>s'. rate_run key limit window ts s = Some (qs, s')"
  using assms(4-6)
proof (induction ts arbitrary: r s qs)
  case Nil
  then show ?case by simp
next
  case (Cons t ts)
  let ?n = "number_at (held r) key"
  obtain q r1 rest where q: "rs_check_rate rd key limit window r = Some (q, r1)"
    and rest: "redis_rate_run rd key limit window (length ts) r1 = Some (rest, r')" and qs: "qs = allowed q # rest"
    using redis_rate_run_Suc Cons.prems(1) by (metis length_Cons)
  define s1 where "s1 = s\<lparr>ms_values := (ms_values s)(key \<mapsto> (e, Counted (?n + 1)))\<rparr>"
  obtain q' where q': "ms_check_rate t key limit window s = Some (q', s1)" "allowed q' \<longleftrightarrow> ?n < limit"
    using Cons.prems(2,3) by (cases "?n < limit") (auto simp: ms_check_rate_def Let_def s1_def)
  have step: "number_at (held r1) key = ?n + 1" "allowed q \<longleftrightarrow> ?n < limit"
    using redis_check_step[OF b k w q] by simp_all
  obtain s' where "rate_run key limit window ts s1 = Some (rest, s')"
    using Cons.IH[OF rest, of s1] Cons.prems(3) step(1) by (auto simp: s1_def)
  then show ?case using q' step(2) qs by auto
qed

text \<open>
  C21: both stores take the same decisions. Requests that are charged to one key within a
  window, starting when no window is open, are allowed and refused in the same order by
  the script on the server and by \<open>MemoryStore\<close>.
\<close>

theorem redis_rate_agrees:
  assumes b: "redis_behaves rd held" and k: "key_kind key = RateKey" and w: "0 < window"
    and closed: "held r key = None" "window_closed s t key"
    and inside: "\<forall>u \<in> set ts. u < t + window * second"
    and run: "redis_rate_run rd key limit window (Suc (length ts)) r = Some (qs, r')"
  shows "\<exists>s'. rate_run key limit window (t # ts) s = Some (qs, s')"
proof -
  obtain q r1 rest where q: "rs_check_rate rd key limit window r = Some (q, r1)"
    and rest: "redis_rate_run rd key limit window (length ts) r1 = Some (rest, r')" and qs: "qs = allowed q # rest"
    using redis_rate_run_Suc[OF run] .
  have step: "number_at (held r1) key = 1" "allowed q \<longleftrightarrow> 0 < limit"
    using redis_check_step[OF b k w q] closed(1) by (simp_all add: number_at_def)
  define e where "e = t + window * second"
  define s1 where "s1 = s\<lparr>ms_values := (ms_values s)(key \<mapsto> (e, Counted 1))\<rparr>"
  have "t < e" using w second_pos by (simp add: e_def)
  then obtain q' where q': "ms_check_rate t key limit window s = Some (q', s1)" "allowed q' \<longleftrightarrow> 0 < limit"
    using closed(2)
    by (cases "1 \<le> limit"; cases "ms_values s key")
      (auto simp: ms_check_rate_def window_closed_def Let_def s1_def e_def)
  obtain s' where "rate_run key limit window ts s1 = Some (rest, s')"
    using redis_rate_run_open[OF b k w rest, of s1 e] step(1) inside by (auto simp: s1_def e_def)
  then show ?thesis using q' step(2) qs by auto
qed

section \<open>A server and a codec\<close>

text \<open>A server that never expires a key and a codec that knows one object, for the witnesses.\<close>

definition map_redis :: "(store_key \<Rightarrow> string option) redis_server" where
  "map_redis = \<lparr>rd_reachable = \<lambda>_. True,
     rd_get = \<lambda>k r. Some (r k),
     rd_incr = \<lambda>k r. (case (case r k of None \<Rightarrow> Some 0 | Some t \<Rightarrow> int_base10 t) of
        None \<Rightarrow> None
      | Some n \<Rightarrow> if int_base10 (int_text (n + 1)) = Some (n + 1)
                  then Some (n + 1, r(k \<mapsto> int_text (n + 1))) else None),
     rd_expire = \<lambda>k ttl r. r,
     rd_ttl = \<lambda>k r. 60,
     rd_setex = \<lambda>k ttl t r. Some (r(k \<mapsto> t)),
     rd_set_nx_ex = \<lambda>k t ttl r. Some (if r k = None then Some (r(k \<mapsto> t)) else None),
     rd_del = \<lambda>k r. (if r k = None then 0 else 1, r(k := None))\<rparr>"

definition one_codec :: "'j \<Rightarrow> 'j json_codec" where
  "one_codec b = \<lparr>dumps = \<lambda>j. if j = b then Some ''{}'' else None,
     loads = \<lambda>t. if t = ''{}'' then Some (Some b) else None\<rparr>"

lemma map_redis_behaves: "redis_behaves map_redis id"
  by (auto simp: redis_behaves_def map_redis_def split: option.splits if_splits)

lemma one_codec_round_trips: "codec_round_trips (one_codec b)"
  by (simp add: codec_round_trips_def one_codec_def)

lemma redis_rate_agrees_witness:
  "\<exists>qs r' s'. redis_rate_run map_redis AuthRegisterGlobal 2 10 3 Map.empty = Some (qs, r')
     \<and> rate_run AuthRegisterGlobal 2 10 [0, 1, 2] (memory_store_init :: nat memory_store) = Some (qs, s')"
proof -
  have digits: "int_base10 (int_text 1) = Some 1" "int_base10 (int_text 2) = Some 2" "int_base10 (int_text 3) = Some 3"
    by code_simp+
  obtain qs r' where run: "redis_rate_run map_redis AuthRegisterGlobal 2 10 (Suc (length [1, 2 :: instant])) Map.empty = Some (qs, r')"
    using digits by (simp add: map_redis_def rs_check_rate_def client_def rate_script_def)
  have "window_closed (memory_store_init :: nat memory_store) 0 AuthRegisterGlobal"
    by (simp add: window_closed_def memory_store_init_def)
  from redis_rate_agrees[OF map_redis_behaves _ _ _ this _ run] obtain s'
    where "rate_run AuthRegisterGlobal 2 10 [0, 1, 2] (memory_store_init :: nat memory_store) = Some (qs, s')"
    by (auto simp: second_def simp del: rate_run.simps)
  then show ?thesis using run by (auto simp: numeral_3_eq_3 simp del: rate_run.simps redis_rate_run.simps)
qed

text \<open>A solve is committed and announced between the two reads of a request.\<close>

definition late_solve_redis ::
  "nat \<Rightarrow> (store_key \<Rightarrow> string option) \<times> database \<Rightarrow> (store_key \<Rightarrow> string option) \<times> database" where
  "late_solve_redis j \<sigma> =
     (if j = 1 then (case rs_increment map_redis (ScoreboardGeneration 1) (fst \<sigma>) of
        None \<Rightarrow> \<sigma> | Some (_, r) \<Rightarrow> (r, (snd \<sigma>)\<lparr>solves := [example_solve]\<rparr>)) else \<sigma>)"

definition late_codec :: "cached_board json_codec" where
  "late_codec = one_codec \<lparr>cb_generation = Some 1,
     cb_payload = Some (public_scoreboard round_half_even (live_db\<lparr>solves := [example_solve]\<rparr>) live_event
       (w_utcnow sample_world 0))\<rparr>"

lemma late_solve_redis_keeps:
  "keeps (rs_counter id) (rs_live_json id late_codec) r 1 solve_seen \<sigma> (late_solve_redis j \<sigma>)"
proof (cases "j = 1 \<and> rs_increment map_redis (ScoreboardGeneration 1) (fst \<sigma>) \<noteq> None")
  case True
  then obtain n r' where i: "rd_incr map_redis (ScoreboardGeneration 1) (fst \<sigma>) = Some (n, r')"
    and s: "late_solve_redis j \<sigma> = (r', (snd \<sigma>)\<lparr>solves := [example_solve]\<rparr>)"
    by (auto simp: late_solve_redis_def rs_increment_def client_def split: if_splits option.splits)
  obtain t where n: "n = number_at (fst \<sigma>) (ScoreboardGeneration 1) + 1"
    "r' = (fst \<sigma>)(ScoreboardGeneration 1 \<mapsto> t)" "int_base10 t = Some n"
    using incr_number[OF map_redis_behaves i] by auto
  then have "rs_live_json id late_codec r' = rs_live_json id late_codec (fst \<sigma>)"
    using observe_other(3)[of id r' "fst \<sigma>" "ScoreboardGeneration 1" "Some t"] by simp
  then show ?thesis
    using n by (simp add: s keeps_def cache_coherent_def solve_seen_def rs_counter_def number_at_def)
next
  case False
  then have "late_solve_redis j \<sigma> = \<sigma>" by (auto simp: late_solve_redis_def split: option.splits)
  then show ?thesis by simp
qed

lemma start_coherent_redis:
  "cache_coherent (rs_counter id) (rs_live_json id late_codec) r 1 solve_seen (Map.empty, live_db)"
  by (simp add: cache_coherent_def solve_seen_def rs_observers number_at_def)

lemma late_solve_redis_run:
  "\<exists>board \<sigma>'. scoreboard_endpoint (redis_ops map_redis late_codec) sample_settings sample_world late_solve_redis
      round_half_even (Map.empty, live_db) = (Inr board, \<sigma>')"
proof -
  have digits: "int_base10 (int_text 1) = Some 1" by code_simp
  show ?thesis
    using digits
    by (simp add: scoreboard_endpoint_def live_db_event live_event_id scoreboard_miss_def build_and_publish_def
      publish_def reread_def release_finally_def call_def cached_payload_def late_solve_redis_def Let_def
      redis_ops_defs map_redis_def late_codec_def one_codec_def sample_world_def sample_settings_def
      SCOREBOARD_BUILD_LEASE_SECONDS_def)
qed

lemma redis_scoreboard_fresh_witness:
  "\<exists>board \<sigma>'. scoreboard_endpoint (redis_ops map_redis late_codec) sample_settings sample_world late_solve_redis
      round_half_even (Map.empty, live_db) = (Inr board, \<sigma>') \<and> fresh_from round_half_even 1 solve_seen 0 board"
proof -
  obtain board \<sigma>' where r: "scoreboard_endpoint (redis_ops map_redis late_codec) sample_settings sample_world
      late_solve_redis round_half_even (Map.empty, live_db) = (Inr board, \<sigma>')" using late_solve_redis_run by blast
  have "fresh_from round_half_even 1 solve_seen 0 board"
    using redis_scoreboard_fresh[OF map_redis_behaves one_codec_round_trips r[unfolded late_codec_def],
        folded late_codec_def, of live_event solve_seen] live_db_event late_solve_redis_keeps start_coherent_redis
    by (simp add: live_event_id rs_counter_def number_at_def)
  then show ?thesis using r by blast
qed


end
