(* ===== verification/AdminEvents.thy ===== *)
theory AdminEvents
  imports Scoreboard
begin

text \<open>
  Administration of the event, its registration codes, its announcements and the
  participants: backend/src/alpha/routes_admin.py. \<open>db1\<close> is the database the session of
  the administrator is read in, \<open>db2\<close> the one seen once the row of the event (or of the
  user) is locked, in which everything else is read and written.

  A partial update carries \<open>None\<close> for a field the request does not set and \<open>Some None\<close> for
  an explicit null. A null in a column that is not nullable is an \<open>IntegrityError\<close> at the
  commit.

  Clock readings: 0 session, 1 freeze guard, 2 transition or new row, 3 \<open>updated_at\<close>,
  4 audit, 5 outbox. Identifiers: 0 new row, 1 audit, 2 outbox.
\<close>

section \<open>Shared by the handlers\<close>

definition event_or_404 :: "database \<Rightarrow> event result" where
  "event_or_404 db = (case current_event db of None \<Rightarrow> err 404 ''event_not_found'' | Some e \<Rightarrow> Inr e)"

text \<open>Each change adds one audit row and one outbox row under the same name and target.\<close>

definition log_change ::
  "world \<Rightarrow> user \<Rightarrow> string \<Rightarrow> string \<Rightarrow> uuid \<Rightarrow> json_object \<Rightarrow> json_object \<Rightarrow> database \<Rightarrow> database option" where
  "log_change w admin topic kind target metadata payload db = do {
     db \<leftarrow> add_audit (w_uuid4 w 1) (w_utcnow w 4) (Some (u_id admin)) topic kind (Some target) metadata db;
     add_outbox (w_uuid4 w 2) (w_utcnow w 5) topic kind target payload db }"

text \<open>A field after a partial update; \<open>patched\<close> is for columns that are not nullable.\<close>

definition patched :: "'a option option \<Rightarrow> 'a \<Rightarrow> 'a" where
  "patched p old = (case p of Some (Some v) \<Rightarrow> v | _ \<Rightarrow> old)"

definition patched_opt :: "'a option option \<Rightarrow> 'a option \<Rightarrow> 'a option" where
  "patched_opt p old = (case p of None \<Rightarrow> old | Some v \<Rightarrow> v)"

definition is_null :: "'a option option \<Rightarrow> bool" where
  "is_null p \<longleftrightarrow> p = Some None"

definition field_names :: "(string \<times> bool) list \<Rightarrow> json" where
  "field_names xs = JList (map (\<lambda>(k, _). JStr k) (filter snd xs))"

text \<open>The endpoints that drop the cached scoreboards do it after their commit.\<close>

definition then_invalidate ::
  "('j, 's) store_ops \<Rightarrow> database \<Rightarrow> ('a \<times> database) result \<Rightarrow> 's \<Rightarrow> ('a \<times> database) result \<times> 's" where
  "then_invalidate ops db2 r s =
     (r, case (r, current_event db2) of (Inr _, Some e) \<Rightarrow> invalidate_scoreboard ops (e_id e) s | _ \<Rightarrow> s)"

definition page :: "nat \<Rightarrow> nat \<Rightarrow> 'r list \<Rightarrow> 'r list" where
  "page limit offset rows = take limit (drop offset rows)"

section \<open>The event\<close>

definition admin_event :: "settings \<Rightarrow> runtime \<Rightarrow> world \<Rightarrow> request \<Rightarrow> database \<Rightarrow> json_object result" where
  "admin_event st rt w rq db =
     bindR (require_admin st rt rq (w_utcnow w 0) db) (\<lambda>_.
     bindR (event_or_404 db) (\<lambda>e. Inr (event_dict e)))"

record event_patch =
  ep_name :: "string option option"
  ep_slug :: "string option option"
  ep_description_md :: "string option option"
  ep_state :: "event_state option option"
  ep_registration_at :: "datetime option option"
  ep_start_at :: "datetime option option"
  ep_freeze_at :: "datetime option option"
  ep_end_at :: "datetime option option"
  ep_team_mode :: "team_mode option option"
  ep_registration_access_mode :: "access_mode option option"

definition apply_event_patch :: "event_patch \<Rightarrow> event \<Rightarrow> event" where
  "apply_event_patch p e = e\<lparr>
     e_name := patched (ep_name p) (e_name e),
     e_slug := patched (ep_slug p) (e_slug e),
     e_description_md := patched (ep_description_md p) (e_description_md e),
     e_state := patched (ep_state p) (e_state e),
     e_registration_at := patched_opt (ep_registration_at p) (e_registration_at e),
     e_start_at := patched_opt (ep_start_at p) (e_start_at e),
     e_freeze_at := patched_opt (ep_freeze_at p) (e_freeze_at e),
     e_end_at := patched_opt (ep_end_at p) (e_end_at e),
     e_team_mode := patched (ep_team_mode p) (e_team_mode e),
     e_registration_access_mode := patched (ep_registration_access_mode p) (e_registration_access_mode e)\<rparr>"

definition event_patch_nulls :: "event_patch \<Rightarrow> bool" where
  "event_patch_nulls p \<longleftrightarrow> is_null (ep_name p) \<or> is_null (ep_slug p) \<or> is_null (ep_description_md p)
     \<or> is_null (ep_state p) \<or> is_null (ep_team_mode p) \<or> is_null (ep_registration_access_mode p)"

definition event_patch_fields :: "event_patch \<Rightarrow> json" where
  "event_patch_fields p = field_names
     [(''description_md'', ep_description_md p \<noteq> None), (''end_at'', ep_end_at p \<noteq> None),
      (''freeze_at'', ep_freeze_at p \<noteq> None), (''name'', ep_name p \<noteq> None),
      (''registration_access_mode'', ep_registration_access_mode p \<noteq> None),
      (''registration_at'', ep_registration_at p \<noteq> None), (''slug'', ep_slug p \<noteq> None),
      (''start_at'', ep_start_at p \<noteq> None), (''state'', ep_state p \<noteq> None),
      (''team_mode'', ep_team_mode p \<noteq> None)]"

text \<open>The state part of the update: entering \<open>frozen\<close> sets a freeze time that has come.\<close>

definition event_transition :: "event \<Rightarrow> event_patch \<Rightarrow> instant \<Rightarrow> event_patch result" where
  "event_transition e p now =
     (case ep_state p of
        None \<Rightarrow> Inr p
      | Some s \<Rightarrow>
          bindR (assert_state_transition (e_state e) s) (\<lambda>_.
            if s = Some Frozen
              \<and> (case aware (patched_opt (ep_freeze_at p) (e_freeze_at e)) of
                   None \<Rightarrow> True | Some proposed_freeze \<Rightarrow> now < proposed_freeze)
            then Inr (p\<lparr>ep_freeze_at := Some (Some (Aware now))\<rparr>) else Inr p))"

definition both :: "(instant \<Rightarrow> instant \<Rightarrow> bool) \<Rightarrow> datetime option \<Rightarrow> datetime option \<Rightarrow> bool" where
  "both rel x y = (case (aware x, aware y) of (Some s, Some t) \<Rightarrow> rel s t | _ \<Rightarrow> False)"

definition assert_event_times :: "event \<Rightarrow> unit result" where
  "assert_event_times e =
     (if both (\<ge>) (e_start_at e) (e_end_at e) then err 422 ''invalid_event_times''
      else if both (>) (e_registration_at e) (e_start_at e) then err 422 ''invalid_event_times''
      else if both (<) (e_freeze_at e) (e_start_at e) then err 422 ''invalid_event_times''
      else if both (>) (e_freeze_at e) (e_end_at e) then err 422 ''invalid_event_times''
      else Inr ())"

text \<open>\<open>updated_at\<close> is written when the row changes.\<close>

definition store_event :: "instant \<Rightarrow> event \<Rightarrow> event \<Rightarrow> database \<Rightarrow> database" where
  "store_event now old new db =
     db\<lparr>events := update_where (\<lambda>x. e_id x = e_id old)
          (\<lambda>_. if new = old then old else new\<lparr>e_updated_at := now\<rparr>) (events db)\<rparr>"

definition team_mode_locked :: "database \<Rightarrow> event \<Rightarrow> event_patch \<Rightarrow> bool" where
  "team_mode_locked db e p \<longleftrightarrow> changes (ep_team_mode p) (e_team_mode e)
     \<and> (count_where (\<lambda>u. u_role u = Participant) (users db) \<noteq> 0 \<or> memberships db \<noteq> [])"

definition update_event ::
  "settings \<Rightarrow> runtime \<Rightarrow> world \<Rightarrow> request \<Rightarrow> event_patch \<Rightarrow> database \<Rightarrow> database \<Rightarrow>
   (json_object \<times> database) result" where
  "update_event st rt w rq p db1 db2 =
     bindR (require_admin st rt rq (w_utcnow w 0) db1) (\<lambda>admin.
     bindR (event_or_404 db2) (\<lambda>e.
     bindR (assert_event_mutable e) (\<lambda>_.
     if changes (ep_slug p) (e_slug e) then err 409 ''event_slug_locked''
     else bindR (case ep_freeze_at p of
                   None \<Rightarrow> Inr () | Some f \<Rightarrow> assert_freeze_at_mutable e f (w_utcnow w 1)) (\<lambda>_.
     if team_mode_locked db2 e p then err 409 ''team_mode_locked''
     else bindR (event_transition e p (w_utcnow w 2)) (\<lambda>p.
       let e' = apply_event_patch p e
       in bindR (assert_event_times e') (\<lambda>_.
          bindR (or_error (ApiError 409 ''event_conflict'' None)
            (if event_patch_nulls p then None
             else log_change w admin ''event.updated'' ''event'' (e_id e)
                    [(''fields'', event_patch_fields p)]
                    [(''event_id'', JId (e_id e)), (''state'', JStr (state_name (e_state e')))]
                    (store_event (w_utcnow w 3) e e' db2))) (\<lambda>db.
          Inr (event_dict e', db))))))))"

definition update_event_endpoint ::
  "('j, 's) store_ops \<Rightarrow> settings \<Rightarrow> runtime \<Rightarrow> world \<Rightarrow> request \<Rightarrow> event_patch \<Rightarrow> database \<Rightarrow>
   database \<Rightarrow> 's \<Rightarrow> (json_object \<times> database) result \<times> 's" where
  "update_event_endpoint ops st rt w rq p db1 db2 s =
     then_invalidate ops db2 (update_event st rt w rq p db1 db2) s"

section \<open>Registration codes\<close>

definition opt_time :: "instant option \<Rightarrow> json" where
  "opt_time t = (case t of None \<Rightarrow> JNull | Some x \<Rightarrow> JTime x)"

definition registration_code_dict :: "registration_code \<Rightarrow> json_object" where
  "registration_code_dict r =
     [(''id'', JId (r_id r)), (''event_id'', JId (r_event_id r)), (''label'', JStr (r_label r)),
      (''max_uses'', case r_max_uses r of None \<Rightarrow> JNull | Some n \<Rightarrow> JInt n),
      (''use_count'', JInt (r_use_count r)), (''expires_at'', iso (r_expires_at r)),
      (''active'', JBool (r_active r)), (''created_by'', JId (r_created_by r)),
      (''created_at'', JTime (r_created_at r)), (''revoked_at'', opt_time (r_revoked_at r))]"

definition list_registration_codes ::
  "settings \<Rightarrow> runtime \<Rightarrow> world \<Rightarrow> request \<Rightarrow> nat \<Rightarrow> nat \<Rightarrow> database \<Rightarrow> json_object result" where
  "list_registration_codes st rt w rq limit offset db =
     bindR (require_admin st rt rq (w_utcnow w 0) db) (\<lambda>_.
     bindR (event_or_404 db) (\<lambda>e.
       let rows = page limit offset (rev (sort_key (\<lambda>r. (r_created_at r, r_id r))
                    (filter (\<lambda>r. r_event_id r = e_id e) (registration_codes db))))
       in Inr [(''items'', JList (map (\<lambda>r. JObj (registration_code_dict r)) rows)),
               (''limit'', JInt (int limit)), (''offset'', JInt (int offset))]))"

record registration_code_request =
  rc_label :: string
  rc_max_uses :: "int option"
  rc_expires_at :: "datetime option"

definition new_registration_code ::
  "settings \<Rightarrow> runtime \<Rightarrow> world \<Rightarrow> user \<Rightarrow> event \<Rightarrow> registration_code_request \<Rightarrow> registration_code" where
  "new_registration_code st rt w admin e p =
     \<lparr>r_id = w_uuid4 w 0, r_event_id = e_id e,
      r_token_hash = hash_registration_access rt (st_secret_key st) (w_token w 0),
      r_label = rc_label p, r_max_uses = rc_max_uses p, r_use_count = 0,
      r_expires_at = rc_expires_at p, r_active = True, r_created_by = u_id admin,
      r_created_at = w_utcnow w 2, r_revoked_at = None\<rparr>"

definition create_registration_code ::
  "settings \<Rightarrow> runtime \<Rightarrow> world \<Rightarrow> request \<Rightarrow> registration_code_request \<Rightarrow> database \<Rightarrow> database \<Rightarrow>
   (json_object \<times> database) result" where
  "create_registration_code st rt w rq p db1 db2 =
     bindR (require_admin st rt rq (w_utcnow w 0) db1) (\<lambda>admin.
     bindR (event_or_404 db2) (\<lambda>e.
     bindR (assert_event_mutable e) (\<lambda>_.
       let item = new_registration_code st rt w admin e p
       in bindR (or_error (ApiError 409 ''registration_code_conflict'' None) (do {
            db \<leftarrow> insert_code item db2;
            log_change w admin ''registration_code.created'' ''registration_code'' (r_id item)
              [(''event_id'', JId (e_id e)), (''label'', JStr (r_label item)),
               (''max_uses'', case r_max_uses item of None \<Rightarrow> JNull | Some n \<Rightarrow> JInt n)]
              [(''event_id'', JId (e_id e)), (''registration_code_id'', JId (r_id item))] db })) (\<lambda>db.
          Inr (registration_code_dict item @ [(''access_code'', JStr (w_token w 0))], db)))))"

definition revoked :: "instant \<Rightarrow> registration_code \<Rightarrow> registration_code" where
  "revoked now r = r\<lparr>r_active := False,
     r_revoked_at := (case r_revoked_at r of None \<Rightarrow> Some now | Some t \<Rightarrow> Some t)\<rparr>"

definition revoke_registration_code ::
  "settings \<Rightarrow> runtime \<Rightarrow> world \<Rightarrow> request \<Rightarrow> uuid \<Rightarrow> database \<Rightarrow> database \<Rightarrow> (unit \<times> database) result" where
  "revoke_registration_code st rt w rq code_id db1 db2 =
     bindR (require_admin st rt rq (w_utcnow w 0) db1) (\<lambda>admin.
     bindR (event_or_404 db2) (\<lambda>e.
     bindR (assert_event_mutable e) (\<lambda>_.
     case find (\<lambda>r. r_id r = code_id \<and> r_event_id r = e_id e) (registration_codes db2) of
       None \<Rightarrow> err 404 ''registration_code_not_found''
     | Some item \<Rightarrow>
         if r_active item \<or> r_revoked_at item = None
         then bindR (or_error integrity_error
                (log_change w admin ''registration_code.revoked'' ''registration_code'' (r_id item)
                   [(''event_id'', JId (e_id e))]
                   [(''event_id'', JId (e_id e)), (''registration_code_id'', JId (r_id item))]
                   (db2\<lparr>registration_codes := update_where (\<lambda>r. r_id r = r_id item)
                          (revoked (w_utcnow w 2)) (registration_codes db2)\<rparr>))) (\<lambda>db. Inr ((), db))
         else Inr ((), db2))))"

section \<open>Announcements\<close>

definition admin_announcements ::
  "settings \<Rightarrow> runtime \<Rightarrow> world \<Rightarrow> request \<Rightarrow> database \<Rightarrow> json_object result" where
  "admin_announcements st rt w rq db =
     bindR (require_admin st rt rq (w_utcnow w 0) db) (\<lambda>_.
     bindR (event_or_404 db) (\<lambda>e.
       Inr [(''items'', JList (map announcement_dict (sort_key (\<lambda>n. - n_publish_at n)
              (filter (\<lambda>n. n_event_id n = e_id e) (announcements db)))))]))"

record announcement_request =
  an_title :: string
  an_body_md :: string
  an_publish_at :: "datetime option"

definition create_announcement ::
  "settings \<Rightarrow> runtime \<Rightarrow> world \<Rightarrow> request \<Rightarrow> announcement_request \<Rightarrow> database \<Rightarrow> database \<Rightarrow>
   (json \<times> database) result" where
  "create_announcement st rt w rq p db1 db2 =
     bindR (require_admin st rt rq (w_utcnow w 0) db1) (\<lambda>admin.
     bindR (event_or_404 db2) (\<lambda>e.
     bindR (assert_event_mutable e) (\<lambda>_.
       let item = \<lparr>n_id = w_uuid4 w 0, n_event_id = e_id e, n_title = an_title p, n_body_md = an_body_md p,
             n_publish_at = (case aware (an_publish_at p) of None \<Rightarrow> w_utcnow w 1 | Some t \<Rightarrow> t),
             n_created_at = w_utcnow w 2, n_updated_at = w_utcnow w 3\<rparr>
       in bindR (or_error integrity_error (do {
            db \<leftarrow> insert_announcement item db2;
            log_change w admin ''announcement.created'' ''announcement'' (n_id item) []
              [(''event_id'', JId (e_id e))] db })) (\<lambda>db.
          Inr (announcement_dict item, db)))))"

record announcement_patch =
  np_title :: "string option option"
  np_body_md :: "string option option"
  np_publish_at :: "datetime option option"

definition apply_announcement_patch :: "instant \<Rightarrow> announcement_patch \<Rightarrow> announcement \<Rightarrow> announcement" where
  "apply_announcement_patch now p n = n\<lparr>
     n_title := patched (np_title p) (n_title n),
     n_body_md := patched (np_body_md p) (n_body_md n),
     n_publish_at := (case np_publish_at p of
        None \<Rightarrow> n_publish_at n
      | Some v \<Rightarrow> (case aware v of None \<Rightarrow> now | Some t \<Rightarrow> t))\<rparr>"

definition announcement_patch_fields :: "announcement_patch \<Rightarrow> json" where
  "announcement_patch_fields p = field_names
     [(''body_md'', np_body_md p \<noteq> None), (''publish_at'', np_publish_at p \<noteq> None),
      (''title'', np_title p \<noteq> None)]"

definition find_announcement :: "database \<Rightarrow> event \<Rightarrow> uuid \<Rightarrow> announcement option" where
  "find_announcement db e i = find (\<lambda>n. n_id n = i \<and> n_event_id n = e_id e) (announcements db)"

definition update_announcement ::
  "settings \<Rightarrow> runtime \<Rightarrow> world \<Rightarrow> request \<Rightarrow> uuid \<Rightarrow> announcement_patch \<Rightarrow> database \<Rightarrow> database \<Rightarrow>
   (json \<times> database) result" where
  "update_announcement st rt w rq i p db1 db2 =
     bindR (require_admin st rt rq (w_utcnow w 0) db1) (\<lambda>admin.
     bindR (event_or_404 db2) (\<lambda>e.
     bindR (assert_event_mutable e) (\<lambda>_.
     case find_announcement db2 e i of
       None \<Rightarrow> err 404 ''announcement_not_found''
     | Some item \<Rightarrow>
         let new = apply_announcement_patch (w_utcnow w 2) p item;
             stored = (if new = item then item else new\<lparr>n_updated_at := w_utcnow w 3\<rparr>)
         in bindR (or_error integrity_error
              (if is_null (np_title p) \<or> is_null (np_body_md p) then None
               else log_change w admin ''announcement.updated'' ''announcement'' (n_id item)
                      [(''fields'', announcement_patch_fields p)] [(''event_id'', JId (e_id e))]
                      (db2\<lparr>announcements := update_where (\<lambda>n. n_id n = n_id item) (\<lambda>_. stored)
                             (announcements db2)\<rparr>))) (\<lambda>db.
            Inr (announcement_dict stored, db)))))"

definition delete_announcement ::
  "settings \<Rightarrow> runtime \<Rightarrow> world \<Rightarrow> request \<Rightarrow> uuid \<Rightarrow> database \<Rightarrow> database \<Rightarrow> (unit \<times> database) result" where
  "delete_announcement st rt w rq i db1 db2 =
     bindR (require_admin st rt rq (w_utcnow w 0) db1) (\<lambda>admin.
     bindR (event_or_404 db2) (\<lambda>e.
     bindR (assert_event_mutable e) (\<lambda>_.
     case find_announcement db2 e i of
       None \<Rightarrow> err 404 ''announcement_not_found''
     | Some item \<Rightarrow>
         bindR (or_error integrity_error
           (log_change w admin ''announcement.deleted'' ''announcement'' (n_id item) []
              [(''event_id'', JId (e_id e))]
              (db2\<lparr>announcements := delete_where (\<lambda>n. n_id n = n_id item) (announcements db2)\<rparr>))) (\<lambda>db.
         Inr ((), db)))))"

section \<open>Participants\<close>

text \<open>The foreign key of a membership makes the lookup of its team succeed.\<close>

definition admin_user_dict :: "database \<Rightarrow> user \<Rightarrow> membership option \<Rightarrow> json_object" where
  "admin_user_dict db u m =
     [(''id'', JId (u_id u)), (''email'', JStr (u_email u)), (''username'', JStr (u_username u)),
      (''role'', JStr (role_name (u_role u))), (''active'', JBool (u_active u)),
      (''password_change_required'', JBool (u_password_change_required u)),
      (''team'', case m of None \<Rightarrow> JNull | Some m \<Rightarrow>
         (case fetch t_id (m_team_id m) (teams db) of
            None \<Rightarrow> JNull
          | Some t \<Rightarrow> JObj [(''id'', JId (t_id t)), (''name'', JStr (t_name t))])),
      (''created_at'', JTime (u_created_at u))]"

definition admin_users ::
  "settings \<Rightarrow> runtime \<Rightarrow> world \<Rightarrow> request \<Rightarrow> nat \<Rightarrow> nat \<Rightarrow> database \<Rightarrow> json_object result" where
  "admin_users st rt w rq limit offset db =
     bindR (require_admin st rt rq (w_utcnow w 0) db) (\<lambda>_.
       Inr [(''items'', JList (map (\<lambda>u. JObj (admin_user_dict db u (fetch m_user_id (u_id u) (memberships db))))
              (page limit offset (sort_key u_created_at (users db))))),
            (''limit'', JInt (int limit)), (''offset'', JInt (int offset))])"

record user_status_request =
  us_active :: bool
  us_reason :: "string option"

definition drop_sessions :: "uuid \<Rightarrow> database \<Rightarrow> database" where
  "drop_sessions u db = db\<lparr>sessions := delete_where (\<lambda>s. s_user_id s = u) (sessions db)\<rparr>"

definition set_user_status :: "user \<Rightarrow> bool \<Rightarrow> database \<Rightarrow> database" where
  "set_user_status u active db =
     (let db = db\<lparr>users := update_where (\<lambda>x. u_id x = u_id u)
            (\<lambda>x. x\<lparr>u_active := active,
                    u_credential_version := u_credential_version x + (if active then 0 else 1)\<rparr>)
            (users db)\<rparr>
      in if active then db else drop_sessions (u_id u) db)"

definition update_user_status ::
  "settings \<Rightarrow> runtime \<Rightarrow> world \<Rightarrow> request \<Rightarrow> uuid \<Rightarrow> user_status_request \<Rightarrow> database \<Rightarrow> database \<Rightarrow>
   (json_object \<times> database) result" where
  "update_user_status st rt w rq user_id p db1 db2 =
     bindR (require_admin st rt rq (w_utcnow w 0) db1) (\<lambda>admin.
     case find (\<lambda>u. u_id u = user_id \<and> u_role u = Participant) (users db2) of
       None \<Rightarrow> err 409 ''participant_required''
     | Some u \<Rightarrow>
         if u_active u = us_active p
         then Inr (admin_user_dict db2 u (fetch m_user_id (u_id u) (memberships db2)),
                   if us_active p then db2 else drop_sessions (u_id u) db2)
         else
           bindR (or_error integrity_error
             (log_change w admin ''user.status_changed'' ''user'' (u_id u)
                [(''active'', JBool (us_active p)), (''previous_active'', JBool (u_active u)),
                 (''reason'', case us_reason p of None \<Rightarrow> JNull | Some x \<Rightarrow> JStr x)]
                [(''user_id'', JId (u_id u)), (''active'', JBool (us_active p))]
                (set_user_status u (us_active p) db2))) (\<lambda>db.
           Inr (admin_user_dict db
                  (u\<lparr>u_active := us_active p,
                     u_credential_version := u_credential_version u + (if us_active p then 0 else 1)\<rparr>)
                  (fetch m_user_id (u_id u) (memberships db)), db)))"

section \<open>Effects\<close>

lemma require_admin_Inr:
  "require_admin st rt rq now db = Inr u \<longleftrightarrow>
     current_user st rt rq now db = Inr u \<and> u_role u = Admin \<and> \<not> u_password_change_required u"
  by (auto simp: require_admin_def)

lemma event_or_404_Inr [simp]: "event_or_404 db = Inr e \<longleftrightarrow> current_event db = Some e"
  by (auto simp: event_or_404_def split: option.splits)

lemma assert_event_mutable_Inr [simp]: "assert_event_mutable e = Inr () \<longleftrightarrow> e_state e \<noteq> Archived"
  by (auto simp: assert_event_mutable_def)

lemma current_user_in:
  "current_user st rt rq now db = Inr u \<Longrightarrow> u \<in> set (users db) \<and> u_active u"
  by (auto simp: current_user_def split: option.splits if_splits dest: fetch_Some)

lemma current_event_cong: "events db' = events db \<Longrightarrow> current_event db' = current_event db"
  unfolding current_event_def current_event_query_def by (rule arg_cong) simp

text \<open>The log only appends: one audit row of the administrator and one outbox row.\<close>

definition audit_row :: "world \<Rightarrow> user \<Rightarrow> string \<Rightarrow> string \<Rightarrow> uuid \<Rightarrow> json_object \<Rightarrow> audit_event" where
  "audit_row w admin topic kind target metadata =
     \<lparr>a_id = w_uuid4 w 1, a_actor_id = Some (u_id admin), a_action = topic, a_target_type = kind,
      a_target_id = Some target, a_metadata = metadata, a_created_at = w_utcnow w 4\<rparr>"

definition outbox_row :: "world \<Rightarrow> string \<Rightarrow> string \<Rightarrow> uuid \<Rightarrow> json_object \<Rightarrow> outbox_event" where
  "outbox_row w topic kind target payload =
     \<lparr>o_id = w_uuid4 w 2, o_topic = topic, o_aggregate_type = kind, o_aggregate_id = target,
      o_payload = payload, o_created_at = w_utcnow w 5, o_delivered_at = None, o_attempts = 0\<rparr>"

lemma log_change_Some:
  "log_change w admin topic kind target metadata payload db = Some db' \<longleftrightarrow>
     db' = db\<lparr>audit_events := audit_events db @ [audit_row w admin topic kind target metadata],
              outbox_events := outbox_events db @ [outbox_row w topic kind target payload]\<rparr>
     \<and> u_id admin \<in> user_ids db \<and> (\<forall>x \<in> set (audit_events db). a_id x \<noteq> w_uuid4 w 1)
     \<and> (\<forall>x \<in> set (outbox_events db). o_id x \<noteq> w_uuid4 w 2)"
  by (auto simp: log_change_def add_audit_Some add_outbox_Some bind_eq_Some_conv audit_row_def outbox_row_def)

lemma patched_simps [simp]:
  "patched None old = old" "patched (Some None) old = old" "patched (Some (Some v)) old = v"
  "patched_opt None x = x" "patched_opt (Some y) x = y"
  by (simp_all add: patched_def patched_opt_def)

lemma no_change_patched: "\<not> changes p old \<Longrightarrow> patched p old = old"
  by (auto simp: changes_def patched_def split: option.splits)

definition times_ordered :: "event \<Rightarrow> bool" where
  "times_ordered e \<longleftrightarrow> (\<forall>r s f t.
     (aware (e_start_at e) = Some s \<longrightarrow> aware (e_end_at e) = Some t \<longrightarrow> s < t)
     \<and> (aware (e_registration_at e) = Some r \<longrightarrow> aware (e_start_at e) = Some s \<longrightarrow> r \<le> s)
     \<and> (aware (e_start_at e) = Some s \<longrightarrow> aware (e_freeze_at e) = Some f \<longrightarrow> s \<le> f)
     \<and> (aware (e_freeze_at e) = Some f \<longrightarrow> aware (e_end_at e) = Some t \<longrightarrow> f \<le> t))"

lemma assert_event_times_Inr: "assert_event_times e = Inr () \<longleftrightarrow> times_ordered e"
  by (cases "aware (e_start_at e)"; cases "aware (e_end_at e)"; cases "aware (e_registration_at e)";
      cases "aware (e_freeze_at e)") (auto simp: assert_event_times_def both_def times_ordered_def)

text \<open>What a transition does to the patch: at most the freeze time, and then to the present.\<close>

lemma event_transition_Inr:
  assumes "event_transition e p now = Inr q"
  shows "(q = p \<or> (ep_state p = Some (Some Frozen) \<and> q = p\<lparr>ep_freeze_at := Some (Some (Aware now))\<rparr>))
    \<and> (\<forall>s. ep_state p = Some s \<longrightarrow> assert_state_transition (e_state e) s = Inr ())
    \<and> (ep_state p = Some (Some Frozen) \<longrightarrow>
         (\<exists>f. aware (patched_opt (ep_freeze_at q) (e_freeze_at e)) = Some f \<and> f \<le> now))
    \<and> (\<forall>f. aware (patched_opt (ep_freeze_at p) (e_freeze_at e)) = Some f \<longrightarrow> f \<le> now \<longrightarrow> q = p)"
proof (cases "ep_state p")
  case None
  then show ?thesis using assms by (simp add: event_transition_def)
next
  case (Some s)
  then have t: "assert_state_transition (e_state e) s = Inr ()"
    using assms by (auto simp: event_transition_def)
  show ?thesis
  proof (cases "aware (patched_opt (ep_freeze_at p) (e_freeze_at e))")
    case None
    then show ?thesis using assms Some t by (auto simp: event_transition_def split: if_splits)
  next
    case (Some f)
    then show ?thesis using assms \<open>ep_state p = Some s\<close> t
      by (auto simp: event_transition_def not_less split: if_splits)
  qed
qed

lemma update_event_effect:
  assumes "update_event st rt w rq p db1 db2 = Inr (resp, db')"
  shows "\<exists>admin e q a b. require_admin st rt rq (w_utcnow w 0) db1 = Inr admin \<and> current_event db2 = Some e
    \<and> e_state e \<noteq> Archived \<and> \<not> changes (ep_slug p) (e_slug e)
    \<and> (\<forall>f. ep_freeze_at p = Some f \<longrightarrow> assert_freeze_at_mutable e f (w_utcnow w 1) = Inr ())
    \<and> \<not> team_mode_locked db2 e p \<and> event_transition e p (w_utcnow w 2) = Inr q
    \<and> times_ordered (apply_event_patch q e) \<and> \<not> event_patch_nulls q
    \<and> resp = event_dict (apply_event_patch q e)
    \<and> db' = (store_event (w_utcnow w 3) e (apply_event_patch q e) db2)
        \<lparr>audit_events := audit_events db2 @ [a], outbox_events := outbox_events db2 @ [b]\<rparr>"
proof -
  obtain admin where a: "require_admin st rt rq (w_utcnow w 0) db1 = Inr admin"
    using assms by (auto simp: update_event_def)
  note run = assms[unfolded update_event_def a bindR_Inr]
  obtain e where e: "current_event db2 = Some e" "e_state e \<noteq> Archived" "\<not> changes (ep_slug p) (e_slug e)"
    and f: "\<forall>f. ep_freeze_at p = Some f \<longrightarrow> assert_freeze_at_mutable e f (w_utcnow w 1) = Inr ()"
    and m: "\<not> team_mode_locked db2 e p"
    using run by (auto split: if_split_asm option.split_asm)
  obtain q where q: "event_transition e p (w_utcnow w 2) = Inr q"
    using run e m by (auto split: if_split_asm option.split_asm)
  define e' where "e' = apply_event_patch q e"
  have t: "assert_event_times e' = Inr ()" and n: "\<not> event_patch_nulls q" and r: "resp = event_dict e'"
    and l: "\<exists>md pl. log_change w admin ''event.updated'' ''event'' (e_id e) md pl
        (store_event (w_utcnow w 3) e e' db2) = Some db'"
    using run e m q unfolding e'_def by (auto simp: Let_def split: if_split_asm option.split_asm)
  obtain a b where "db' = (store_event (w_utcnow w 3) e e' db2)
        \<lparr>audit_events := audit_events db2 @ [a], outbox_events := outbox_events db2 @ [b]\<rparr>"
    using l by (auto simp: store_event_def log_change_Some)
  then show ?thesis
    using a e f m q n r t unfolding e'_def assert_event_times_Inr by blast
qed

section \<open>The life of the event\<close>

text \<open>A frozen event has a freeze time, and it has come.\<close>

definition freeze_ok :: "instant \<Rightarrow> event \<Rightarrow> bool" where
  "freeze_ok now e \<longleftrightarrow> (e_state e = Frozen \<longrightarrow> (\<exists>f. aware (e_freeze_at e) = Some f \<and> f \<le> now))"

lemma freeze_ok_mono: "freeze_ok now e \<Longrightarrow> now \<le> later \<Longrightarrow> freeze_ok later e"
  by (auto simp: freeze_ok_def)

lemma event_table_unique:
  "conflict_free event_clash (events db) \<Longrightarrow> x \<in> set (events db) \<Longrightarrow> y \<in> set (events db) \<Longrightarrow>
   e_id x = e_id y \<Longrightarrow> x = y"
  by (rule event_table.unique[of "events db"]) (auto simp: event_clash_def)

text \<open>The row of the event after the update, and the rows beside it.\<close>

lemma store_event_rows:
  assumes "conflict_free event_clash (events db)" and "e \<in> set (events db)"
  shows "set (events (store_event now e new db)) =
    insert (if new = e then e else new\<lparr>e_updated_at := now\<rparr>) (set (events db) - {e})"
  using event_table_unique[OF assms(1) _ assms(2)] assms(2) by (auto simp: store_event_def)

lemma patch_state:
  assumes "event_transition e p now = Inr q" and "\<not> event_patch_nulls q"
  defines "e' \<equiv> apply_event_patch q e"
  shows "(e_state e' = e_state e \<or> state_rank (e_state e') = Suc (state_rank (e_state e)))
    \<and> (ep_state p = None \<longrightarrow> e_state e' = e_state e) \<and> ep_state q = ep_state p"
proof -
  note T = event_transition_Inr[OF assms(1)]
  have q: "ep_state q = ep_state p" using T by auto
  show ?thesis
  proof (cases "ep_state p")
    case None
    then show ?thesis using q by (simp add: e'_def apply_event_patch_def)
  next
    case (Some s)
    then obtain x where "s = Some x" using assms(2) q by (auto simp: event_patch_nulls_def is_null_def)
    then show ?thesis using T Some q transition_ok_iff
      by (auto simp: e'_def apply_event_patch_def)
  qed
qed

lemma patch_freeze_ok:
  assumes t: "event_transition e p now2 = Inr q" and n: "\<not> event_patch_nulls q"
    and f: "\<forall>f. ep_freeze_at p = Some f \<longrightarrow> assert_freeze_at_mutable e f now1 = Inr ()"
    and ok: "freeze_ok now2 e"
  shows "freeze_ok now2 (apply_event_patch q e)"
proof (cases "ep_state p = Some (Some Frozen)")
  case True
  then show ?thesis using event_transition_Inr[OF t] by (auto simp: freeze_ok_def apply_event_patch_def)
next
  case False
  then have q: "q = p" using event_transition_Inr[OF t] by auto
  show ?thesis
    unfolding freeze_ok_def
  proof
    assume "e_state (apply_event_patch q e) = Frozen"
    then have e: "e_state e = Frozen"
      using False n unfolding q
      by (cases "ep_state p" rule: option.exhaust)
        (auto simp: apply_event_patch_def event_patch_nulls_def is_null_def patched_def split: option.splits)
    then have "aware (patched_opt (ep_freeze_at p) (e_freeze_at e)) = aware (e_freeze_at e)"
      using f by (cases "ep_freeze_at p") (auto simp: assert_freeze_at_mutable_def scoreboard_freeze_locked_def split: if_splits)
    then show "\<exists>f. aware (e_freeze_at (apply_event_patch q e)) = Some f \<and> f \<le> now2"
      using ok e by (simp add: freeze_ok_def apply_event_patch_def q)
  qed
qed

text \<open>
  C23: the life of an event. An accepted update keeps identity and slug, changes no other
  event, never touches an archived event, moves the state by at most one step of the six,
  leaves the four times in order, and keeps a frozen event with a freeze time that has come.
\<close>

theorem event_lifecycle:
  assumes "update_event st rt w rq p db1 db2 = Inr (resp, db')"
    and "conflict_free event_clash (events db2)"
    and "\<forall>e \<in> set (events db2). freeze_ok (w_utcnow w 2) e"
  shows "\<exists>e e'. current_event db2 = Some e \<and> e_state e \<noteq> Archived
    \<and> set (events db') = insert e' (set (events db2) - {e}) \<and> e_id e' = e_id e \<and> e_slug e' = e_slug e
    \<and> (e_state e' = e_state e \<or> state_rank (e_state e') = Suc (state_rank (e_state e)))
    \<and> times_ordered e' \<and> (\<forall>x \<in> set (events db'). freeze_ok (w_utcnow w 2) x)"
proof -
  obtain admin and e :: event and q a b where
    e: "current_event db2 = Some e" "e_state e \<noteq> Archived" "\<not> changes (ep_slug p) (e_slug e)"
    and f: "\<forall>f. ep_freeze_at p = Some f \<longrightarrow> assert_freeze_at_mutable e f (w_utcnow w 1) = Inr ()"
    and t: "event_transition e p (w_utcnow w 2) = Inr q" and o: "times_ordered (apply_event_patch q e)"
    and n: "\<not> event_patch_nulls q"
    and db: "db' = (store_event (w_utcnow w 3) e (apply_event_patch q e) db2)
        \<lparr>audit_events := audit_events db2 @ [a], outbox_events := outbox_events db2 @ [b]\<rparr>"
    using update_event_effect[OF assms(1)] by blast
  define new where "new = apply_event_patch q e"
  define e' where "e' = (if new = e then e else new\<lparr>e_updated_at := w_utcnow w 3\<rparr>)"
  have mem: "e \<in> set (events db2)" using current_event_in[OF e(1)] .
  have rows: "set (events db') = insert e' (set (events db2) - {e})"
    using store_event_rows[OF assms(2) mem] by (simp add: db e'_def new_def)
  have s: "ep_slug q = ep_slug p" using event_transition_Inr[OF t] by auto
  have same: "e_id e' = e_id new" "e_slug e' = e_slug new" "e_state e' = e_state new"
    "times_ordered e' = times_ordered new" "freeze_ok x e' = freeze_ok x new" for x
    by (simp_all add: e'_def times_ordered_def freeze_ok_def)
  have "e_id new = e_id e" "e_slug new = e_slug e"
    using no_change_patched[OF e(3)] by (simp_all add: new_def apply_event_patch_def s)
  moreover have "freeze_ok (w_utcnow w 2) new"
    using patch_freeze_ok[OF t n f] assms(3) mem by (simp add: new_def)
  moreover have "e_state new = e_state e \<or> state_rank (e_state new) = Suc (state_rank (e_state e))"
    using patch_state[OF t n] by (simp add: new_def)
  moreover have "\<forall>x \<in> set (events db'). freeze_ok (w_utcnow w 2) x"
    using calculation(3) assms(3) by (auto simp: rows same)
  ultimately show ?thesis
    using e(1,2) rows o unfolding new_def[symmetric]
    by - (rule exI[of _ e], rule exI[of _ e'], simp only: same, simp)
qed

text \<open>
  Once the scoreboard is frozen its cutoff is fixed. From the moment the freeze lock
  holds, no accepted update of the event, the step to \<open>frozen\<close> included, changes the
  freeze time, as long as the clock does not run backwards during the request.
\<close>

theorem freeze_point_fixed:
  assumes "update_event st rt w rq p db1 db2 = Inr (resp, db')"
    and "current_event db2 = Some e" and "scoreboard_freeze_locked e (w_utcnow w 1)"
    and "freeze_ok (w_utcnow w 2) e" and "w_utcnow w 1 \<le> w_utcnow w 2"
    and "conflict_free event_clash (events db2)"
  shows "\<exists>e' \<in> set (events db'). e_id e' = e_id e \<and> aware (e_freeze_at e') = aware (e_freeze_at e)
    \<and> scoreboard_freeze_locked e' (w_utcnow w 1)"
proof -
  obtain admin q a b where f: "\<forall>f. ep_freeze_at p = Some f \<longrightarrow> assert_freeze_at_mutable e f (w_utcnow w 1) = Inr ()"
    and t: "event_transition e p (w_utcnow w 2) = Inr q" and n: "\<not> event_patch_nulls q"
    and db: "db' = (store_event (w_utcnow w 3) e (apply_event_patch q e) db2)
        \<lparr>audit_events := audit_events db2 @ [a], outbox_events := outbox_events db2 @ [b]\<rparr>"
    using update_event_effect[OF assms(1)] assms(2) by auto
  define new where "new = apply_event_patch q e"
  note T = event_transition_Inr[OF t] and S = patch_state[OF t n]
  have p: "aware (patched_opt (ep_freeze_at p) (e_freeze_at e)) = aware (e_freeze_at e)"
    using f assms(3) by (cases "ep_freeze_at p") (auto simp: assert_freeze_at_mutable_def split: if_splits)
  have "q = p" if fr: "ep_state p = Some (Some Frozen)"
  proof -
    have "e_state e \<in> {Live, Frozen}"
      using T fr transition_ok_iff[of "e_state e" Frozen] by (cases "e_state e") auto
    then have "\<exists>f. aware (e_freeze_at e) = Some f \<and> f \<le> w_utcnow w 2"
      using assms(3-5) by (auto simp: scoreboard_freeze_locked_def freeze_ok_def split: option.splits)
    then show ?thesis using T p by auto
  qed
  then have q: "q = p" using T by auto
  then have a: "aware (e_freeze_at new) = aware (e_freeze_at e)" using p by (simp add: new_def apply_event_patch_def)
  have "state_rank (e_state e) \<le> state_rank (e_state new)" using S by (auto simp: new_def)
  then have l: "scoreboard_freeze_locked new (w_utcnow w 1)"
    using assms(3) a by (cases "e_state e"; cases "e_state new") (auto simp: scoreboard_freeze_locked_def)
  have mem: "e \<in> set (events db2)" using current_event_in[OF assms(2)] .
  let ?e = "if new = e then e else new\<lparr>e_updated_at := w_utcnow w 3\<rparr>"
  have "?e \<in> set (events db')"
    using store_event_rows[OF assms(6) mem] by (simp add: db new_def)
  moreover have "e_id new = e_id e" by (simp add: new_def apply_event_patch_def)
  ultimately show ?thesis using a l by (intro bexI[of _ ?e]) (auto simp: scoreboard_freeze_locked_def)
qed

section \<open>Registration codes and accounts\<close>

lemma code_table_unique:
  "conflict_free code_clash (registration_codes db) \<Longrightarrow> x \<in> set (registration_codes db) \<Longrightarrow>
   y \<in> set (registration_codes db) \<Longrightarrow> r_token_hash x = r_token_hash y \<Longrightarrow> x = y"
  by (rule code_table.unique[of "registration_codes db"]) (auto simp: code_clash_def)

lemma find_code_hash:
  assumes "conflict_free code_clash (registration_codes db)" and "r \<in> set (registration_codes db)" and "r_event_id r = i"
  shows "find (\<lambda>x. r_event_id x = i \<and> r_token_hash x = r_token_hash r) (registration_codes db) = Some r"
proof -
  let ?P = "\<lambda>x. r_event_id x = i \<and> r_token_hash x = r_token_hash r"
  obtain x where x: "find ?P (registration_codes db) = Some x"
    using assms(2,3) by (cases "find ?P (registration_codes db)") (auto simp: find_None_iff)
  then have "x \<in> set (registration_codes db)" "r_token_hash x = r_token_hash r" by (auto simp: find_Some_iff)
  then show ?thesis using x code_table_unique[OF assms(1) _ assms(2)] by blast
qed

text \<open>A new code works as it was made until it expires.\<close>

lemma create_registration_code_effect:
  assumes "create_registration_code st rt w rq p db1 db2 = Inr (resp, db')"
  shows "\<exists>admin e a b. require_admin st rt rq (w_utcnow w 0) db1 = Inr admin \<and> current_event db2 = Some e
    \<and> e_state e \<noteq> Archived \<and> code_check (new_registration_code st rt w admin e p)
    \<and> (\<forall>x \<in> set (registration_codes db2). \<not> code_clash x (new_registration_code st rt w admin e p))
    \<and> resp = registration_code_dict (new_registration_code st rt w admin e p) @ [(''access_code'', JStr (w_token w 0))]
    \<and> db' = db2\<lparr>registration_codes := registration_codes db2 @ [new_registration_code st rt w admin e p],
        audit_events := audit_events db2 @ [a], outbox_events := outbox_events db2 @ [b]\<rparr>"
  using assms
  by (auto simp: create_registration_code_def Let_def insert_code_Some log_change_Some bind_eq_Some_conv)

text \<open>
  A registration code admits as long as it is meant to. The access code a successful
  creation returns is accepted in code mode by the registration gate, as the stored code,
  exactly until its expiry; after a successful revocation of that code it is refused at
  every time.
\<close>

theorem registration_code_lifecycle:
  assumes "create_registration_code st rt w rq p db1 db2 = Inr (resp, db3)"
    and "conflict_free code_clash (registration_codes db2)"
    and "current_event db2 = Some e" and "e_registration_access_mode e = CodeAccess"
    and "revoke_registration_code st rt w' rq' (w_uuid4 w 0) db4 db3 = Inr (u, db5)"
  shows "(registration_code_or_denied st rt now db3 e (Some (w_token w 0)) \<noteq> err 403 ''registration_access_denied''
      \<longleftrightarrow> (\<forall>t. aware (rc_expires_at p) = Some t \<longrightarrow> now < t))
    \<and> registration_code_or_denied st rt now db5 e (Some (w_token w 0)) = err 403 ''registration_access_denied''"
proof -
  obtain admin a b where c: "code_check (new_registration_code st rt w admin e p)"
    "\<forall>x \<in> set (registration_codes db2). \<not> code_clash x (new_registration_code st rt w admin e p)"
    and d3: "db3 = db2\<lparr>registration_codes := registration_codes db2 @ [new_registration_code st rt w admin e p],
        audit_events := audit_events db2 @ [a], outbox_events := outbox_events db2 @ [b]\<rparr>"
    using create_registration_code_effect[OF assms(1)] assms(3) by auto
  define r where "r = new_registration_code st rt w admin e p"
  have r: "r_event_id r = e_id e" "r_token_hash r = hash_registration_access rt (st_secret_key st) (w_token w 0)"
    "r_id r = w_uuid4 w 0" "r_active r" "r_revoked_at r = None" "r_use_count r = 0" "r_expires_at r = rc_expires_at p"
    by (simp_all add: r_def new_registration_code_def)
  have cf: "conflict_free code_clash (registration_codes db3)"
    using assms(2) c(2) by (auto simp: d3 conflict_free_def sorted_wrt_append)
  have in3: "r \<in> set (registration_codes db3)" by (simp add: d3 r_def)
  have uses: "\<not> (case r_max_uses r of None \<Rightarrow> False | Some n \<Rightarrow> n \<le> r_use_count r)"
    using c(1) r(6) by (auto simp: r_def code_check_def split: option.splits)
  have f3: "find (\<lambda>x. r_event_id x = e_id e \<and> r_token_hash x
      = hash_registration_access rt (st_secret_key st) (w_token w 0)) (registration_codes db3) = Some r"
    using find_code_hash[OF cf in3] r by simp
  have one: "registration_code_or_denied st rt now db3 e (Some (w_token w 0)) \<noteq> err 403 ''registration_access_denied''
      \<longleftrightarrow> (\<forall>t. aware (rc_expires_at p) = Some t \<longrightarrow> now < t)"
    using uses by (auto simp: registration_code_or_denied_def assms(4) f3 r Let_def not_le split: option.splits)
  have ev: "current_event db3 = Some e"
    using assms(3) current_event_cong[of db3 db2] by (simp add: d3)
  have "find (\<lambda>x. r_id x = w_uuid4 w 0 \<and> r_event_id x = e_id e) (registration_codes db3) = Some r"
  proof -
    have "\<forall>x \<in> set (registration_codes db2). r_id x \<noteq> w_uuid4 w 0"
      using c(2) by (auto simp: r_def[symmetric] code_clash_def r)
    then have "find (\<lambda>x. r_id x = w_uuid4 w 0 \<and> r_event_id x = e_id e) (registration_codes db2) = None"
      by (auto simp: find_None_iff)
    then show ?thesis using r by (simp add: d3 find_append r_def[symmetric])
  qed
  then have d5: "registration_codes db5 = update_where (\<lambda>x. r_id x = r_id r) (revoked (w_utcnow w' 2)) (registration_codes db3)"
    using assms(5) r(4) by (auto simp: revoke_registration_code_def ev log_change_Some)
  have cf5: "conflict_free code_clash (registration_codes db5)"
    unfolding d5 by (rule conflict_free_update[OF cf]) (auto simp: code_clash_def revoked_def split: if_splits)
  have in5: "revoked (w_utcnow w' 2) r \<in> set (registration_codes db5)"
    using in3 by (auto simp: d5)
  have "find (\<lambda>x. r_event_id x = e_id e \<and> r_token_hash x
      = hash_registration_access rt (st_secret_key st) (w_token w 0)) (registration_codes db5)
      = Some (revoked (w_utcnow w' 2) r)"
    using find_code_hash[OF cf5 in5] r by (simp add: revoked_def)
  then have "registration_code_or_denied st rt now db5 e (Some (w_token w 0)) = err 403 ''registration_access_denied''"
    by (simp add: registration_code_or_denied_def assms(4) revoked_def)
  with one show ?thesis by blast
qed

lemma user_table_unique:
  "conflict_free user_clash (users db) \<Longrightarrow> x \<in> set (users db) \<Longrightarrow> y \<in> set (users db) \<Longrightarrow>
   u_id x = u_id y \<Longrightarrow> x = y"
  by (rule user_table.unique[of "users db"]) (auto simp: user_clash_def)

lemma update_user_status_effect:
  assumes "update_user_status st rt w rq i p db1 db2 = Inr (resp, db')"
  shows "\<exists>admin u as os. require_admin st rt rq (w_utcnow w 0) db1 = Inr admin \<and> u \<in> set (users db2) \<and> u_id u = i
    \<and> u_role u = Participant
    \<and> db' = (if u_active u = us_active p then if us_active p then db2 else drop_sessions i db2
             else (set_user_status u (us_active p) db2))
          \<lparr>audit_events := audit_events db2 @ as, outbox_events := outbox_events db2 @ os\<rparr>"
proof -
  obtain admin where a: "require_admin st rt rq (w_utcnow w 0) db1 = Inr admin"
    using assms by (auto simp: update_user_status_def)
  obtain u where u: "find (\<lambda>u. u_id u = i \<and> u_role u = Participant) (users db2) = Some u"
    using assms by (auto simp: update_user_status_def a split: option.splits)
  then have m: "u \<in> set (users db2)" "u_id u = i" "u_role u = Participant" by (auto simp: find_Some_iff)
  have keep: "audit_events (set_user_status u x db2) = audit_events db2"
    "outbox_events (set_user_status u x db2) = outbox_events db2"
    "audit_events (drop_sessions i db2) = audit_events db2" "outbox_events (drop_sessions i db2) = outbox_events db2" for x
    by (simp_all add: set_user_status_def drop_sessions_def Let_def)
  let ?db = "if u_active u = us_active p then if us_active p then db2 else drop_sessions i db2
      else set_user_status u (us_active p) db2"
  have "\<exists>as os. db' = ?db\<lparr>audit_events := audit_events db2 @ as, outbox_events := outbox_events db2 @ os\<rparr>"
  proof (cases "u_active u = us_active p")
    case True
    then have "db' = ?db" using assms m(2) by (auto simp: update_user_status_def a u)
    then have "db' = ?db\<lparr>audit_events := audit_events db2 @ [], outbox_events := outbox_events db2 @ []\<rparr>"
      using keep by simp
    then show ?thesis by blast
  next
    case False
    then obtain x y where "db' = ?db\<lparr>audit_events := audit_events db2 @ [x], outbox_events := outbox_events db2 @ [y]\<rparr>"
      using assms keep by (auto simp: update_user_status_def a u log_change_Some)
    then show ?thesis by blast
  qed
  then show ?thesis using a m by blast
qed

text \<open>
  C25: suspending a participant ends every way in. Afterwards no session of the account is
  stored and no cookie at any time authenticates it; the target is a participant, every
  administrator and every other account is as before, and so are teams, memberships,
  submissions, solves and scores. An account that was active gets a new credential
  version, so that a session of the old version stays invalid after a reactivation.
\<close>

theorem suspension_ends_access:
  assumes "update_user_status st rt w rq i p db1 db2 = Inr (resp, db')" and "\<not> us_active p"
    and "conflict_free user_clash (users db2)"
  shows "\<exists>u. u \<in> set (users db2) \<and> u_id u = i \<and> u_role u = Participant
    \<and> (\<forall>s \<in> set (sessions db'). s_user_id s \<noteq> i)
    \<and> (\<forall>rq' now x. current_user st rt rq' now db' = Inr x \<longrightarrow> u_id x \<noteq> i)
    \<and> (\<forall>x \<in> set (users db2). x \<noteq> u \<longrightarrow> x \<in> set (users db'))
    \<and> u\<lparr>u_active := False, u_credential_version := u_credential_version u + (if u_active u then 1 else 0)\<rparr>
        \<in> set (users db')
    \<and> teams db' = teams db2 \<and> memberships db' = memberships db2 \<and> submissions db' = submissions db2
    \<and> solves db' = solves db2 \<and> score_events db' = score_events db2"
proof -
  obtain u :: user and as os where u: "u \<in> set (users db2)" "u_id u = i" "u_role u = Participant"
    and db: "db' = (if u_active u then set_user_status u False db2 else drop_sessions i db2)
          \<lparr>audit_events := audit_events db2 @ as, outbox_events := outbox_events db2 @ os\<rparr>"
  proof -
    obtain u :: user and as :: "audit_event list" and os :: "outbox_event list" where "u \<in> set (users db2)" "u_id u = i" "u_role u = Participant"
      "db' = (if u_active u = us_active p then if us_active p then db2 else drop_sessions i db2
             else (set_user_status u (us_active p) db2))
          \<lparr>audit_events := audit_events db2 @ as, outbox_events := outbox_events db2 @ os\<rparr>"
      using update_user_status_effect[OF assms(1)] by blast
    then show thesis using that[of u os as] assms(2) by (cases "u_active u") simp_all
  qed
  let ?u = "u\<lparr>u_active := False, u_credential_version := u_credential_version u + (if u_active u then 1 else 0)\<rparr>"
  have s: "\<forall>s \<in> set (sessions db'). s_user_id s \<noteq> i"
    using u(2) by (auto simp: db set_user_status_def drop_sessions_def Let_def)
  have nobody: "u_id x \<noteq> i" if "current_user st rt rq' now db' = Inr x" for rq' now x
    using that s by (auto simp: current_user_def split: option.splits if_splits dest!: fetch_Some)
  have old: "x \<in> set (users db')" if "x \<in> set (users db2)" "x \<noteq> u" for x
    using that user_table_unique[OF assms(3) that(1) u(1)] u(2)
    by (auto simp: db set_user_status_def drop_sessions_def Let_def)
  have new: "?u \<in> set (users db')"
  proof (cases "u_active u")
    case True
    then show ?thesis using u by (auto simp: db set_user_status_def drop_sessions_def Let_def)
  next
    case False
    then have e: "?u = u" by (cases u) simp
    show ?thesis unfolding e using u False by (simp add: db drop_sessions_def)
  qed
  have "teams db' = teams db2 \<and> memberships db' = memberships db2 \<and> submissions db' = submissions db2
    \<and> solves db' = solves db2 \<and> score_events db' = score_events db2"
    by (simp add: db set_user_status_def drop_sessions_def Let_def)
  then show ?thesis using u s nobody old new by blast
qed

end
