(* ===== verification/AdminChallenges.thy ===== *)
theory AdminChallenges
  imports AdminEvents
begin

text \<open>
  Administration of the challenges: backend/src/alpha/routes_admin.py, with the conventions
  of AdminEvents. The session has \<open>autoflush=False\<close> (db.py), so the queries a handler runs
  between its assignments and its commit read the stored rows.
\<close>

definition challenge_or_404 :: "database \<Rightarrow> event \<Rightarrow> uuid \<Rightarrow> challenge result" where
  "challenge_or_404 db e i =
     (case find (\<lambda>c. c_id c = i \<and> c_event_id c = e_id e) (challenges db) of
        None \<Rightarrow> err 404 ''challenge_not_found'' | Some c \<Rightarrow> Inr c)"

fun flag_type_name :: "flag_type \<Rightarrow> string" where
  "flag_type_name ExactFlag = ''exact''"
| "flag_type_name RegexFlag = ''regex''"

definition truthy_text :: "string option \<Rightarrow> bool" where
  "truthy_text x \<longleftrightarrow> (case x of None \<Rightarrow> False | Some s \<Rightarrow> s \<noteq> [])"

definition admin_challenge_dict :: "database \<Rightarrow> challenge \<Rightarrow> json_object" where
  "admin_challenge_dict db c =
     (let solve_count = int (count_where (\<lambda>v. v_challenge_id v = c_id c) (solves db))
      in [(''id'', JId (c_id c)), (''event_id'', JId (c_event_id c)), (''slug'', JStr (c_slug c)),
          (''title'', JStr (c_title c)), (''category'', JStr (c_category c)),
          (''description_md'', JStr (c_description_md c)),
          (''connection_info'', case c_connection_info c of None \<Rightarrow> JNull | Some x \<Rightarrow> JStr x),
          (''scoring_type'', JStr (scoring_name (c_scoring_type c))),
          (''initial_points'', JInt (c_initial_points c)), (''minimum_points'', JInt (c_minimum_points c)),
          (''decay'', JInt (c_decay c)), (''current_points'', JInt (challenge_points c solve_count)),
          (''solve_count'', JInt solve_count), (''visible'', JBool (c_visible c)),
          (''visible_at'', iso (c_visible_at c)), (''max_attempts'', JInt (c_max_attempts c)),
          (''flag_type'', JStr (flag_type_name (c_flag_type c))),
          (''has_flag'', JBool (truthy_text (c_flag_hash c) \<or> truthy_text (c_flag_regex c))),
          (''prerequisite_ids'', JList (map JId (prerequisites_of (prereqs db) (c_id c)))),
          (''created_at'', JTime (c_created_at c)), (''updated_at'', JTime (c_updated_at c))])"

definition admin_challenges :: "settings \<Rightarrow> runtime \<Rightarrow> world \<Rightarrow> request \<Rightarrow> database \<Rightarrow> json_object result" where
  "admin_challenges st rt w rq db =
     bindR (require_admin st rt rq (w_utcnow w 0) db) (\<lambda>_.
     bindR (event_or_404 db) (\<lambda>e.
       Inr [(''items'', JList (map (\<lambda>c. JObj (admin_challenge_dict db c))
              (sort_key (\<lambda>c. (c_category c, c_title c))
                (filter (\<lambda>c. c_event_id c = e_id e) (challenges db)))))]))"

definition challenge_payload :: "event \<Rightarrow> challenge \<Rightarrow> json_object" where
  "challenge_payload e c = [(''event_id'', JId (e_id e)), (''challenge_id'', JId (c_id c))]"

section \<open>Creating\<close>

record challenge_request =
  cr_slug :: string
  cr_title :: string
  cr_category :: string
  cr_description_md :: string
  cr_connection_info :: "string option"
  cr_scoring_type :: scoring_type
  cr_initial_points :: int
  cr_minimum_points :: int
  cr_decay :: int
  cr_visible :: bool
  cr_visible_at :: "datetime option"
  cr_max_attempts :: int
  cr_prerequisite_ids :: "uuid list"
  cr_flag :: flag_input

definition new_challenge :: "world \<Rightarrow> event \<Rightarrow> challenge_request \<Rightarrow> challenge" where
  "new_challenge w e p =
     \<lparr>c_id = w_uuid4 w 0, c_event_id = e_id e, c_slug = cr_slug p, c_title = cr_title p,
      c_category = cr_category p, c_description_md = cr_description_md p,
      c_connection_info = cr_connection_info p, c_scoring_type = cr_scoring_type p,
      c_initial_points = cr_initial_points p, c_minimum_points = cr_minimum_points p,
      c_decay = cr_decay p, c_visible = cr_visible p, c_visible_at = cr_visible_at p,
      c_max_attempts = cr_max_attempts p, c_flag_type = ExactFlag, c_flag_hash = None,
      c_flag_regex = None, c_created_at = w_utcnow w 2, c_updated_at = w_utcnow w 3\<rparr>"

definition create_challenge ::
  "settings \<Rightarrow> runtime \<Rightarrow> world \<Rightarrow> request \<Rightarrow> challenge_request \<Rightarrow> database \<Rightarrow> database \<Rightarrow>
   (json_object \<times> database) result" where
  "create_challenge st rt w rq p db1 db2 =
     bindR (require_admin st rt rq (w_utcnow w 0) db1) (\<lambda>admin.
     bindR (event_or_404 db2) (\<lambda>e.
     bindR (assert_event_mutable e) (\<lambda>_.
     bindR (apply_flag rt (st_secret_key st) (st_max_flag_length st) (cr_flag p) (new_challenge w e p)) (\<lambda>c.
     bindR (load_prerequisites db2 (e_id e) (cr_prerequisite_ids p) None) (\<lambda>ps.
     bindR (or_error (ApiError 409 ''challenge_slug_exists'' None) (do {
         db \<leftarrow> insert_challenge c ps db2;
         log_change w admin ''challenge.created'' ''challenge'' (c_id c) [] (challenge_payload e c) db })) (\<lambda>db.
     Inr (admin_challenge_dict db c, db)))))))"

section \<open>Updating\<close>

record challenge_patch =
  cp_slug :: "string option option"
  cp_title :: "string option option"
  cp_category :: "string option option"
  cp_description_md :: "string option option"
  cp_connection_info :: "string option option"
  cp_scoring :: scoring_patch
  cp_visible :: "bool option option"
  cp_visible_at :: "datetime option option"
  cp_max_attempts :: "int option option"
  cp_prerequisite_ids :: "uuid list option option"
  cp_flag :: "flag_input option option"

definition apply_challenge_patch :: "challenge_patch \<Rightarrow> challenge \<Rightarrow> challenge" where
  "apply_challenge_patch p c = c\<lparr>
     c_slug := patched (cp_slug p) (c_slug c),
     c_title := patched (cp_title p) (c_title c),
     c_category := patched (cp_category p) (c_category c),
     c_description_md := patched (cp_description_md p) (c_description_md c),
     c_connection_info := patched_opt (cp_connection_info p) (c_connection_info c),
     c_scoring_type := patched (sp_scoring_type (cp_scoring p)) (c_scoring_type c),
     c_initial_points := patched (sp_initial_points (cp_scoring p)) (c_initial_points c),
     c_minimum_points := patched (sp_minimum_points (cp_scoring p)) (c_minimum_points c),
     c_decay := patched (sp_decay (cp_scoring p)) (c_decay c),
     c_visible := patched (cp_visible p) (c_visible c),
     c_visible_at := patched_opt (cp_visible_at p) (c_visible_at c),
     c_max_attempts := patched (cp_max_attempts p) (c_max_attempts c)\<rparr>"

text \<open>The two point fields are compared before the commit: a null there raises \<open>TypeError\<close>.\<close>

definition challenge_patch_nulls :: "challenge_patch \<Rightarrow> bool" where
  "challenge_patch_nulls p \<longleftrightarrow> is_null (cp_slug p) \<or> is_null (cp_title p) \<or> is_null (cp_category p)
     \<or> is_null (cp_description_md p) \<or> is_null (sp_scoring_type (cp_scoring p))
     \<or> is_null (sp_decay (cp_scoring p)) \<or> is_null (cp_visible p) \<or> is_null (cp_max_attempts p)"

definition challenge_patch_fields :: "challenge_patch \<Rightarrow> json" where
  "challenge_patch_fields p = field_names
     [(''category'', cp_category p \<noteq> None), (''connection_info'', cp_connection_info p \<noteq> None),
      (''decay'', sp_decay (cp_scoring p) \<noteq> None), (''description_md'', cp_description_md p \<noteq> None),
      (''flag'', cp_flag p \<noteq> None), (''initial_points'', sp_initial_points (cp_scoring p) \<noteq> None),
      (''max_attempts'', cp_max_attempts p \<noteq> None),
      (''minimum_points'', sp_minimum_points (cp_scoring p) \<noteq> None),
      (''prerequisite_ids'', cp_prerequisite_ids p \<noteq> None),
      (''scoring_type'', sp_scoring_type (cp_scoring p) \<noteq> None), (''slug'', cp_slug p \<noteq> None),
      (''title'', cp_title p \<noteq> None), (''visible'', cp_visible p \<noteq> None),
      (''visible_at'', cp_visible_at p \<noteq> None)]"

text \<open>The row after the flush: \<open>updated_at\<close> has a new value when another column has changed.\<close>

definition written_challenge :: "instant \<Rightarrow> challenge \<Rightarrow> challenge \<Rightarrow> challenge" where
  "written_challenge now old new = (if new = old then old else new\<lparr>c_updated_at := now\<rparr>)"

text \<open>
  The row and its prerequisites as the flush writes them: refused when the slug is taken
  or a CHECK fails, the one against a challenge that requires itself included; \<open>updated_at\<close> is written when a column changes.
\<close>

definition store_challenge ::
  "instant \<Rightarrow> challenge \<Rightarrow> challenge \<Rightarrow> uuid list option \<Rightarrow> database \<Rightarrow> database option" where
  "store_challenge now old new ps db =
     (if \<not> challenge_check new \<or> (\<exists>x \<in> set (challenges db). c_id x \<noteq> c_id old \<and> challenge_clash x new)
        \<or> (case ps of None \<Rightarrow> False | Some qs \<Rightarrow> c_id old \<in> set qs)
      then None
      else Some (db\<lparr>
        challenges := update_where (\<lambda>x. c_id x = c_id old)
          (\<lambda>_. if new = old then old else new\<lparr>c_updated_at := now\<rparr>) (challenges db),
        prereqs := (case ps of None \<Rightarrow> prereqs db | Some ps \<Rightarrow> set_prerequisites (c_id old) ps (prereqs db))\<rparr>))"

definition update_challenge ::
  "settings \<Rightarrow> runtime \<Rightarrow> world \<Rightarrow> request \<Rightarrow> uuid \<Rightarrow> challenge_patch \<Rightarrow> database \<Rightarrow> database \<Rightarrow>
   (json_object \<times> database) result" where
  "update_challenge st rt w rq i p db1 db2 =
     bindR (require_admin st rt rq (w_utcnow w 0) db1) (\<lambda>admin.
     bindR (event_or_404 db2) (\<lambda>e.
     bindR (assert_event_mutable e) (\<lambda>_.
     bindR (challenge_or_404 db2 e i) (\<lambda>c.
     bindR (assert_scoring_mutable e c (cp_scoring p) (w_utcnow w 1)) (\<lambda>_.
     if is_null (sp_minimum_points (cp_scoring p)) \<or> is_null (sp_initial_points (cp_scoring p))
     then Inl (Uncaught ''TypeError'')
     else let c1 = apply_challenge_patch p c in
       if c_initial_points c1 < c_minimum_points c1 then err 422 ''invalid_scoring''
       else bindR (case cp_flag p of
                     Some (Some flag) \<Rightarrow> apply_flag rt (st_secret_key st) (st_max_flag_length st) flag c1
                   | _ \<Rightarrow> Inr c1) (\<lambda>c2.
       bindR (case cp_prerequisite_ids p of
                Some (Some ids) \<Rightarrow> bindR (load_prerequisites db2 (e_id e) ids (Some (c_id c))) (\<lambda>ps. Inr (Some ps))
              | _ \<Rightarrow> Inr None) (\<lambda>ps.
       bindR (or_error (ApiError 409 ''challenge_conflict'' None)
         (if challenge_patch_nulls p then None
          else do {
            db \<leftarrow> store_challenge (w_utcnow w 3) c c2 ps db2;
            log_change w admin ''challenge.updated'' ''challenge'' (c_id c)
              [(''fields'', challenge_patch_fields p)] (challenge_payload e c) db })) (\<lambda>db.
       Inr (admin_challenge_dict db (written_challenge (w_utcnow w 3) c c2), db)))))))))"

section \<open>Deleting and showing\<close>

definition delete_challenge ::
  "settings \<Rightarrow> runtime \<Rightarrow> world \<Rightarrow> request \<Rightarrow> uuid \<Rightarrow> database \<Rightarrow> database \<Rightarrow> (unit \<times> database) result" where
  "delete_challenge st rt w rq i db1 db2 =
     bindR (require_admin st rt rq (w_utcnow w 0) db1) (\<lambda>admin.
     bindR (event_or_404 db2) (\<lambda>e.
     bindR (assert_event_mutable e) (\<lambda>_.
     bindR (challenge_or_404 db2 e i) (\<lambda>c.
     if count_where (\<lambda>b. b_challenge_id b = c_id c) (submissions db2) \<noteq> 0
     then err 409 ''challenge_has_submissions''
     else bindR (or_error integrity_error
         (log_change w admin ''challenge.deleted'' ''challenge'' (c_id c) [] (challenge_payload e c)
            (delete_challenge_row (c_id c) db2))) (\<lambda>db. Inr ((), db))))))"

definition set_visibility ::
  "settings \<Rightarrow> runtime \<Rightarrow> world \<Rightarrow> request \<Rightarrow> uuid \<Rightarrow> bool \<Rightarrow> database \<Rightarrow> database \<Rightarrow>
   (json_object \<times> database) result" where
  "set_visibility st rt w rq i visible db1 db2 =
     bindR (require_admin st rt rq (w_utcnow w 0) db1) (\<lambda>admin.
     bindR (event_or_404 db2) (\<lambda>e.
     bindR (assert_event_mutable e) (\<lambda>_.
     bindR (challenge_or_404 db2 e i) (\<lambda>c.
       let new = c\<lparr>c_visible := visible\<rparr>
       in bindR (or_error integrity_error (do {
            db \<leftarrow> store_challenge (w_utcnow w 3) c new None db2;
            log_change w admin ''challenge.visibility_changed'' ''challenge'' (c_id c)
              [(''visible'', JBool visible)]
              [(''challenge_id'', JId (c_id c)), (''visible'', JBool visible)] db })) (\<lambda>db.
          Inr (admin_challenge_dict db (written_challenge (w_utcnow w 3) c new), db))))))"

section \<open>The endpoints that drop the cached boards\<close>

definition create_challenge_endpoint ::
  "('j, 's) store_ops \<Rightarrow> settings \<Rightarrow> runtime \<Rightarrow> world \<Rightarrow> request \<Rightarrow> challenge_request \<Rightarrow> database \<Rightarrow>
   database \<Rightarrow> 's \<Rightarrow> (json_object \<times> database) result \<times> 's" where
  "create_challenge_endpoint ops st rt w rq p db1 db2 s =
     then_invalidate ops db2 (create_challenge st rt w rq p db1 db2) s"

definition update_challenge_endpoint ::
  "('j, 's) store_ops \<Rightarrow> settings \<Rightarrow> runtime \<Rightarrow> world \<Rightarrow> request \<Rightarrow> uuid \<Rightarrow> challenge_patch \<Rightarrow>
   database \<Rightarrow> database \<Rightarrow> 's \<Rightarrow> (json_object \<times> database) result \<times> 's" where
  "update_challenge_endpoint ops st rt w rq i p db1 db2 s =
     then_invalidate ops db2 (update_challenge st rt w rq i p db1 db2) s"

definition delete_challenge_endpoint ::
  "('j, 's) store_ops \<Rightarrow> settings \<Rightarrow> runtime \<Rightarrow> world \<Rightarrow> request \<Rightarrow> uuid \<Rightarrow> database \<Rightarrow> database \<Rightarrow>
   's \<Rightarrow> (unit \<times> database) result \<times> 's" where
  "delete_challenge_endpoint ops st rt w rq i db1 db2 s =
     then_invalidate ops db2 (delete_challenge st rt w rq i db1 db2) s"

section \<open>Effects\<close>

lemma challenge_or_404_Inr [simp]:
  "challenge_or_404 db e i = Inr c \<longleftrightarrow> find (\<lambda>c. c_id c = i \<and> c_event_id c = e_id e) (challenges db) = Some c"
  by (auto simp: challenge_or_404_def split: option.splits)

text \<open>The rows a log leaves alone.\<close>

definition logged :: "database \<Rightarrow> database \<Rightarrow> bool" where
  "logged db db' \<longleftrightarrow> (\<exists>a b. db' = db\<lparr>audit_events := audit_events db @ [a], outbox_events := outbox_events db @ [b]\<rparr>)"

lemma log_change_logged: "log_change w admin topic kind target md pl db = Some db' \<Longrightarrow> logged db db'"
  by (auto simp: log_change_Some logged_def)

lemma logged_frame:
  "logged db db' \<Longrightarrow> challenges db' = challenges db \<and> prereqs db' = prereqs db \<and> teams db' = teams db
     \<and> users db' = users db \<and> solves db' = solves db \<and> score_events db' = score_events db
     \<and> submissions db' = submissions db \<and> events db' = events db \<and> memberships db' = memberships db
     \<and> sessions db' = sessions db \<and> registration_codes db' = registration_codes db
     \<and> announcements db' = announcements db"
  by (auto simp: logged_def)

lemma create_challenge_effect:
  assumes "create_challenge st rt w rq p db1 db2 = Inr (resp, db')"
  shows "\<exists>admin e c ps db. require_admin st rt rq (w_utcnow w 0) db1 = Inr admin \<and> current_event db2 = Some e
    \<and> e_state e \<noteq> Archived
    \<and> apply_flag rt (st_secret_key st) (st_max_flag_length st) (cr_flag p) (new_challenge w e p) = Inr c
    \<and> load_prerequisites db2 (e_id e) (cr_prerequisite_ids p) None = Inr ps
    \<and> insert_challenge c ps db2 = Some db \<and> logged db db'"
proof -
  obtain admin where a: "require_admin st rt rq (w_utcnow w 0) db1 = Inr admin"
    using assms by (auto simp: create_challenge_def)
  note run = assms[unfolded create_challenge_def a bindR_Inr]
  obtain e where e: "current_event db2 = Some e" "e_state e \<noteq> Archived" using run by auto
  obtain c ps where
    c: "apply_flag rt (st_secret_key st) (st_max_flag_length st) (cr_flag p) (new_challenge w e p) = Inr c"
    and ps: "load_prerequisites db2 (e_id e) (cr_prerequisite_ids p) None = Inr ps"
    using run e by auto
  obtain db where "insert_challenge c ps db2 = Some db" "logged db db'"
    using run e c ps by (auto simp: bind_eq_Some_conv dest!: log_change_logged)
  then show ?thesis using a e c ps by blast
qed

lemma update_challenge_effect:
  assumes "update_challenge st rt w rq i p db1 db2 = Inr (resp, db')"
  shows "\<exists>admin e c c2 ps db. require_admin st rt rq (w_utcnow w 0) db1 = Inr admin \<and> current_event db2 = Some e
    \<and> e_state e \<noteq> Archived \<and> c \<in> set (challenges db2) \<and> c_id c = i \<and> c_event_id c = e_id e
    \<and> assert_scoring_mutable e c (cp_scoring p) (w_utcnow w 1) = Inr ()
    \<and> c_minimum_points (apply_challenge_patch p c) \<le> c_initial_points (apply_challenge_patch p c)
    \<and> (c2 = apply_challenge_patch p c \<or> (\<exists>flag. apply_flag rt (st_secret_key st) (st_max_flag_length st) flag
          (apply_challenge_patch p c) = Inr c2))
    \<and> (\<forall>xs. ps = Some xs \<longrightarrow> (\<exists>ids. load_prerequisites db2 (e_id e) ids (Some i) = Inr xs))
    \<and> \<not> challenge_patch_nulls p
    \<and> store_challenge (w_utcnow w 3) c c2 ps db2 = Some db \<and> logged db db'"
proof -
  obtain admin where a: "require_admin st rt rq (w_utcnow w 0) db1 = Inr admin"
    using assms by (auto simp: update_challenge_def)
  note run = assms[unfolded update_challenge_def a bindR_Inr]
  obtain e where e: "current_event db2 = Some e" "e_state e \<noteq> Archived" using run by auto
  obtain c where c: "find (\<lambda>c. c_id c = i \<and> c_event_id c = e_id e) (challenges db2) = Some c"
    and m: "assert_scoring_mutable e c (cp_scoring p) (w_utcnow w 1) = Inr ()"
    using run e by auto
  then have i: "c \<in> set (challenges db2)" "c_id c = i" "c_event_id c = e_id e" by (auto simp: find_Some_iff)
  define c1 where "c1 = apply_challenge_patch p c"
  have pts: "c_minimum_points c1 \<le> c_initial_points c1"
    using run e c m by (auto simp: Let_def c1_def[symmetric] split: if_split_asm)
  obtain c2 where c2: "(case cp_flag p of
        Some (Some flag) \<Rightarrow> apply_flag rt (st_secret_key st) (st_max_flag_length st) flag c1
      | _ \<Rightarrow> Inr c1) = Inr c2"
    using run e c m by (auto simp: Let_def c1_def[symmetric] split: if_split_asm)
  then have flag: "c2 = c1 \<or> (\<exists>flag. apply_flag rt (st_secret_key st) (st_max_flag_length st) flag c1 = Inr c2)"
    by (auto split: option.splits)
  obtain ps where ps: "(case cp_prerequisite_ids p of
        Some (Some ids) \<Rightarrow> bindR (load_prerequisites db2 (e_id e) ids (Some (c_id c))) (\<lambda>ps. Inr (Some ps))
      | _ \<Rightarrow> Inr None) = Inr ps"
    using run e c m c2 by (auto simp: Let_def c1_def[symmetric] split: if_split_asm)
  then have pre: "\<forall>xs. ps = Some xs \<longrightarrow> (\<exists>ids. load_prerequisites db2 (e_id e) ids (Some i) = Inr xs)"
    using i(2) by (auto split: option.splits)
  obtain db where "\<not> challenge_patch_nulls p" "store_challenge (w_utcnow w 3) c c2 ps db2 = Some db" "logged db db'"
    using run e c m c2 ps
    by (auto simp: Let_def c1_def[symmetric] bind_eq_Some_conv split: if_split_asm dest!: log_change_logged)
  then show ?thesis using a e i m pts flag pre unfolding c1_def by blast
qed

lemma store_challenge_Some:
  "store_challenge now old new ps db = Some db' \<longleftrightarrow>
     challenge_check new \<and> (\<forall>x \<in> set (challenges db). c_id x \<noteq> c_id old \<longrightarrow> \<not> challenge_clash x new)
     \<and> (\<forall>qs. ps = Some qs \<longrightarrow> c_id old \<notin> set qs)
     \<and> db' = db\<lparr>
        challenges := update_where (\<lambda>x. c_id x = c_id old)
          (\<lambda>_. if new = old then old else new\<lparr>c_updated_at := now\<rparr>) (challenges db),
        prereqs := (case ps of None \<Rightarrow> prereqs db | Some ps \<Rightarrow> set_prerequisites (c_id old) ps (prereqs db))\<rparr>"
  by (auto simp: store_challenge_def split: option.splits)

lemma challenge_table_unique:
  "conflict_free challenge_clash (challenges db) \<Longrightarrow> x \<in> set (challenges db) \<Longrightarrow> y \<in> set (challenges db) \<Longrightarrow>
   c_id x = c_id y \<Longrightarrow> x = y"
  by (rule challenge_table.unique[of "challenges db"]) (auto simp: challenge_clash_def)

text \<open>The identity and the scoring of a challenge.\<close>

definition same_scoring :: "challenge \<Rightarrow> challenge \<Rightarrow> bool" where
  "same_scoring c d \<longleftrightarrow> c_id d = c_id c \<and> c_event_id d = c_event_id c
     \<and> c_scoring_type d = c_scoring_type c \<and> c_initial_points d = c_initial_points c
     \<and> c_minimum_points d = c_minimum_points c \<and> c_decay d = c_decay c"

lemma patch_keeps_identity:
  assumes "c2 = apply_challenge_patch p c \<or> (\<exists>flag. apply_flag rt secret n flag (apply_challenge_patch p c) = Inr c2)"
  shows "c_id c2 = c_id c \<and> c_event_id c2 = c_event_id c
    \<and> c_initial_points c2 = c_initial_points (apply_challenge_patch p c)
    \<and> c_minimum_points c2 = c_minimum_points (apply_challenge_patch p c)"
  using assms by (auto simp: apply_challenge_patch_def dest!: apply_flag_frame)

lemma patch_same_scoring:
  assumes "assert_scoring_mutable e c (cp_scoring p) now = Inr ()" and "scoreboard_freeze_locked e now"
    and c2: "c2 = apply_challenge_patch p c \<or> (\<exists>flag. apply_flag rt secret n flag (apply_challenge_patch p c) = Inr c2)"
  shows "same_scoring c c2"
proof -
  have "\<not> changes (sp_scoring_type (cp_scoring p)) (c_scoring_type c)"
    "\<not> changes (sp_initial_points (cp_scoring p)) (c_initial_points c)"
    "\<not> changes (sp_minimum_points (cp_scoring p)) (c_minimum_points c)"
    "\<not> changes (sp_decay (cp_scoring p)) (c_decay c)"
    using assms(1,2) by (auto simp: assert_scoring_mutable_def split: if_splits)
  then have "same_scoring c (apply_challenge_patch p c)"
    by (simp add: same_scoring_def apply_challenge_patch_def no_change_patched)
  then show ?thesis using c2 by (auto simp: same_scoring_def dest!: apply_flag_frame)
qed

lemma find_update_where:
  assumes "\<And>x. Q (if P x then f x else x) = Q x"
  shows "find Q (update_where P f xs) = map_option (\<lambda>x. if P x then f x else x) (find Q xs)"
  using assms by (induction xs) auto

lemma public_scoreboard_values:
  assumes "teams db' = teams db" "users db' = users db" "solves db' = solves db" "score_events db' = score_events db"
    and "\<And>i. challenge_of db' e i = None \<longleftrightarrow> challenge_of db e i = None"
    and "\<And>vs v. solve_value r db' e vs v = solve_value r db e vs v"
  shows "public_scoreboard r db' e now = public_scoreboard r db e now"
proof -
  have v: "counted_solves db' e c = counted_solves db e c" "counted_awards db' e c = counted_awards db e c" for c
    by (simp_all add: counted_solves_def counted_awards_def assms(3-5))
  have n: "scoreboard_name db' e = scoreboard_name db e"
    unfolding scoreboard_name_def assms(2) ..
  have val: "solve_value r db' e = solve_value r db e" by (intro ext) (rule assms(6))
  have t: "team_total_of r db' e = team_total_of r db e"
    unfolding team_total_of_def val ..
  show ?thesis
    unfolding public_scoreboard_def ranked_teams_def Let_def assms(1) v n t ..
qed

text \<open>
  C24: a frozen board is out of the reach of challenge edits. Once the freeze lock of the
  event holds, no accepted update of a challenge, its flag, slug, visibility, limits or
  prerequisites, changes the public scoreboard at any time.
\<close>

theorem locked_scoring_keeps_board:
  assumes "update_challenge st rt w rq i p db1 db2 = Inr (resp, db')"
    and "current_event db2 = Some e" and "scoreboard_freeze_locked e (w_utcnow w 1)"
    and "conflict_free challenge_clash (challenges db2)"
  shows "public_scoreboard r db' e now = public_scoreboard r db2 e now"
proof -
  obtain e' :: event and c :: challenge and c2 :: challenge and ps db where c: "c \<in> set (challenges db2)"
    and e': "current_event db2 = Some e'"
    and m': "assert_scoring_mutable e' c (cp_scoring p) (w_utcnow w 1) = Inr ()"
    and c2: "c2 = apply_challenge_patch p c \<or> (\<exists>flag. apply_flag rt (st_secret_key st) (st_max_flag_length st) flag
          (apply_challenge_patch p c) = Inr c2)"
    and s: "store_challenge (w_utcnow w 3) c c2 ps db2 = Some db" and l: "logged db db'"
    using update_challenge_effect[OF assms(1)] by blast
  have m: "assert_scoring_mutable e c (cp_scoring p) (w_utcnow w 1) = Inr ()" using m' e' assms(2) by simp
  define new where "new = (if c2 = c then c else c2\<lparr>c_updated_at := w_utcnow w 3\<rparr>)"
  define f where "f = (\<lambda>x. if c_id x = c_id c then new else x)"
  have same: "same_scoring c new"
    using patch_same_scoring[OF m assms(3) c2] by (auto simp: new_def same_scoring_def)
  have ch: "challenges db' = map f (challenges db2)"
    using s logged_frame[OF l] by (simp add: store_challenge_Some f_def new_def update_where_def)
  have row: "same_scoring x (f x)" if "x \<in> set (challenges db2)" for x
    using challenge_table_unique[OF assms(4) that c] same by (auto simp: f_def same_scoring_def)
  have find: "find (\<lambda>c. c_id c = j \<and> c_event_id c = e_id e) (map f xs)
      = map_option f (find (\<lambda>c. c_id c = j \<and> c_event_id c = e_id e) xs)"
    if "set xs \<subseteq> set (challenges db2)" for j xs
    using that by (induction xs) (use row in \<open>auto simp: same_scoring_def\<close>)
  have of: "challenge_of db' e j = map_option f (challenge_of db2 e j)" for j
    unfolding challenge_of_def ch by (rule find) simp
  have "sql_solve_points r (f x) n = sql_solve_points r x n" if "x \<in> set (challenges db2)" for x n
    using row[OF that] by (simp add: same_scoring_def sql_solve_points_def sql_raw_points_def Let_def)
  then have "solve_value r db' e vs v = solve_value r db2 e vs v" for vs v
    by (auto simp: solve_value_def of dest: challenge_of_Some split: option.splits)
  then show ?thesis
    using logged_frame[OF l] s
    by (intro public_scoreboard_values) (auto simp: of store_challenge_Some)
qed

section \<open>The challenge table\<close>

text \<open>
  What every operation on challenges keeps: the constraints of the table, scoring values
  in range and ordered, prerequisites between stored challenges and without a cycle.
\<close>

definition challenge_ok :: "challenge \<Rightarrow> bool" where
  "challenge_ok c \<longleftrightarrow> challenge_check c \<and> c_minimum_points c \<le> c_initial_points c"

definition challenges_ok :: "database \<Rightarrow> bool" where
  "challenges_ok db \<longleftrightarrow> conflict_free challenge_clash (challenges db)
     \<and> (\<forall>c \<in> set (challenges db). challenge_ok c)
     \<and> (\<forall>(c, p) \<in> set (prereqs db). c \<in> challenge_ids db \<and> p \<in> challenge_ids db)
     \<and> acyclic (set (prereqs db))"

lemma challenges_ok_cong:
  "challenges db' = challenges db \<Longrightarrow> prereqs db' = prereqs db \<Longrightarrow> challenges_ok db' = challenges_ok db"
  by (simp add: challenges_ok_def)

lemma loaded_ids:
  assumes "load_prerequisites db ev ids ch = Inr ps" and "conflict_free challenge_clash (challenges db)"
  shows "set ps \<subseteq> challenge_ids db"
  using load_prerequisites_ids[OF assms] by auto

lemma insert_challenge_ok:
  assumes i: "insert_challenge c ps db = Some db'" and ok: "challenges_ok db"
    and pts: "c_minimum_points c \<le> c_initial_points c"
    and ps: "load_prerequisites db ev ids None = Inr ps"
  shows "challenges_ok db'"
proof -
  have cf: "conflict_free challenge_clash (challenges db)" using ok by (simp add: challenges_ok_def)
  note I = i[unfolded insert_challenge_Some]
  have sub: "set ps \<subseteq> challenge_ids db" using loaded_ids[OF ps cf] .
  have new: "c_id c \<notin> challenge_ids db" using I by (auto simp: challenge_clash_def)
  have "acyclic (set (prereqs db @ map (Pair (c_id c)) ps))"
  proof (rule new_challenge_acyclic)
    show "acyclic (set (prereqs db))" using ok by (simp add: challenges_ok_def)
    show "c_id c \<notin> snd ` set (prereqs db)" "c_id c \<notin> set ps" using new ok sub by (auto simp: challenges_ok_def)
  qed
  moreover have "conflict_free challenge_clash (challenges db @ [c])"
    using cf I by (auto simp: conflict_free_def sorted_wrt_append)
  ultimately show ?thesis
    using ok I pts sub by (auto simp: challenges_ok_def challenge_ok_def)
qed

lemma create_challenge_ok:
  assumes "create_challenge st rt w rq p db1 db2 = Inr (resp, db')" and ok: "challenges_ok db2"
    and "cr_minimum_points p \<le> cr_initial_points p"
  shows "challenges_ok db'"
proof -
  obtain admin and e :: event and c :: challenge and ps db where
    f: "apply_flag rt (st_secret_key st) (st_max_flag_length st) (cr_flag p) (new_challenge w e p) = Inr c"
    and ps: "load_prerequisites db2 (e_id e) (cr_prerequisite_ids p) None = Inr ps"
    and i: "insert_challenge c ps db2 = Some db" and l: "logged db db'"
    using create_challenge_effect[OF assms(1)] by blast
  have "c_minimum_points c \<le> c_initial_points c"
    using apply_flag_frame[OF f] assms(3) by (simp add: new_challenge_def)
  then have "challenges_ok db" using insert_challenge_ok[OF i ok _ ps] by blast
  then show ?thesis using logged_frame[OF l] challenges_ok_cong by metis
qed

lemma store_challenge_ok:
  assumes "store_challenge now c new ps db = Some db'" and ok: "challenges_ok db"
    and c: "c \<in> set (challenges db)" and id: "c_id new = c_id c"
    and pts: "c_minimum_points new \<le> c_initial_points new"
    and ps: "\<forall>xs. ps = Some xs \<longrightarrow> (\<exists>ev ids. load_prerequisites db ev ids (Some (c_id c)) = Inr xs)"
  shows "challenges_ok db'"
proof -
  define row where "row = (if new = c then c else new\<lparr>c_updated_at := now\<rparr>)"
  have cf: "conflict_free challenge_clash (challenges db)" using ok by (simp add: challenges_ok_def)
  note S = assms(1)[unfolded store_challenge_Some, folded row_def]
  have row: "c_id row = c_id c" "challenge_ok row"
    using id pts S by (auto simp: row_def challenge_ok_def challenge_check_def)
  have clash: "challenge_clash x row \<longleftrightarrow> challenge_clash x new" for x
    by (auto simp: row_def challenge_clash_def)
  have "conflict_free challenge_clash (challenges db')"
  proof -
    let ?f = "\<lambda>x. if c_id x = c_id c then row else x"
    have reflects: "challenge_clash x y" if "x \<in> set (challenges db)" "y \<in> set (challenges db)"
      "challenge_clash (if c_id x = c_id c then row else x) (if c_id y = c_id c then row else y)" for x y
    proof (cases "c_id x = c_id y")
      case True
      then show ?thesis by (simp add: challenge_clash_def)
    next
      case False
      have none: "\<not> challenge_clash z row" if "z \<in> set (challenges db)" "c_id z \<noteq> c_id c" for z
        using S that by (simp add: clash)
      consider "c_id x = c_id c" | "c_id y = c_id c" | "c_id x \<noteq> c_id c" "c_id y \<noteq> c_id c" by blast
      then show ?thesis
      proof cases
        case 1
        then have "challenge_clash row y" using that(3) False by simp
        then show ?thesis using challenge_table.clash_sym none[OF that(2)] False 1 by metis
      next
        case 2
        then show ?thesis using that(3) False none[OF that(1)] by simp
      qed (use that(3) in simp)
    qed
    have upd: "challenges db' = map ?f (challenges db)" using S by (simp add: update_where_def)
    show ?thesis
      unfolding conflict_free_def upd sorted_wrt_map
      by (rule sorted_wrt_mono_rel[OF _ cf[unfolded conflict_free_def]]) (use reflects in blast)
  qed
  moreover have ids: "challenge_ids db' = challenge_ids db"
  proof -
    have "c_id (if c_id x = c_id c then row else x) = c_id x" for x using row(1) by simp
    then have "map c_id (challenges db') = map c_id (challenges db)" using S by (simp add: update_where_def)
    then show ?thesis by (metis list.set_map)
  qed
  moreover have "\<forall>x \<in> set (challenges db'). challenge_ok x"
    using S ok row(2) by (auto simp: challenges_ok_def)
  moreover have "acyclic (set (prereqs db')) \<and> (\<forall>(x, y) \<in> set (prereqs db'). x \<in> challenge_ids db \<and> y \<in> challenge_ids db)"
  proof (cases ps)
    case None
    then show ?thesis using S ok by (simp add: challenges_ok_def)
  next
    case (Some xs)
    then obtain ev ids where ld: "load_prerequisites db ev ids (Some (c_id c)) = Inr xs" using ps by blast
    have "prereqs db' = set_prerequisites (c_id c) xs (prereqs db)" using S Some by simp
    moreover have "acyclic (set (set_prerequisites (c_id c) xs (prereqs db)))"
      using ok load_prerequisites_unreachable[OF ld] by (intro set_prerequisites_acyclic) (auto simp: challenges_ok_def)
    moreover have "set xs \<subseteq> challenge_ids db" using loaded_ids[OF ld cf] .
    ultimately show ?thesis using ok c by (auto simp: challenges_ok_def set_prerequisites_def)
  qed
  ultimately show ?thesis by (simp add: challenges_ok_def)
qed

lemma update_challenge_ok:
  assumes "update_challenge st rt w rq i p db1 db2 = Inr (resp, db')" and ok: "challenges_ok db2"
  shows "challenges_ok db'"
proof -
  obtain admin and e :: event and c :: challenge and c2 :: challenge and ps db where
    c: "c \<in> set (challenges db2)" "c_id c = i"
    and pts: "c_minimum_points (apply_challenge_patch p c) \<le> c_initial_points (apply_challenge_patch p c)"
    and c2: "c2 = apply_challenge_patch p c \<or> (\<exists>flag. apply_flag rt (st_secret_key st) (st_max_flag_length st) flag
          (apply_challenge_patch p c) = Inr c2)"
    and ps: "\<forall>xs. ps = Some xs \<longrightarrow> (\<exists>ids. load_prerequisites db2 (e_id e) ids (Some i) = Inr xs)"
    and s: "store_challenge (w_utcnow w 3) c c2 ps db2 = Some db" and l: "logged db db'"
    using update_challenge_effect[OF assms(1)] by blast
  have "challenges_ok db"
    using store_challenge_ok[OF s ok c(1)] patch_keeps_identity[OF c2] pts ps c(2) by auto
  then show ?thesis using logged_frame[OF l] challenges_ok_cong by metis
qed

lemma set_visibility_ok:
  assumes "set_visibility st rt w rq i v db1 db2 = Inr (resp, db')" and ok: "challenges_ok db2"
  shows "challenges_ok db'"
proof -
  obtain c :: challenge and db where c: "c \<in> set (challenges db2)"
    and s: "store_challenge (w_utcnow w 3) c (c\<lparr>c_visible := v\<rparr>) None db2 = Some db" and l: "logged db db'"
    using assms(1)
    by (auto simp: set_visibility_def Let_def bind_eq_Some_conv find_Some_iff dest!: log_change_logged) (metis nth_mem)
  have "c_minimum_points c \<le> c_initial_points c" using ok c by (auto simp: challenges_ok_def challenge_ok_def)
  then have "challenges_ok db" using store_challenge_ok[OF s ok c] by simp
  then show ?thesis using logged_frame[OF l] challenges_ok_cong by metis
qed

lemma delete_challenge_effect:
  assumes "delete_challenge st rt w rq i db1 db2 = Inr (u, db')"
  shows "(\<forall>b \<in> set (submissions db2). b_challenge_id b \<noteq> i) \<and> i \<in> challenge_ids db2
    \<and> logged (delete_challenge_row i db2) db'"
  using assms
  by (auto simp: delete_challenge_def Let_def count_where_0 find_Some_iff split: if_split_asm dest!: log_change_logged)

lemma delete_challenge_ok:
  assumes "delete_challenge st rt w rq i db1 db2 = Inr (u, db')" and ok: "challenges_ok db2"
  shows "challenges_ok db'"
proof -
  have l: "logged (delete_challenge_row i db2) db'" using delete_challenge_effect[OF assms(1)] by blast
  have "acyclic {x \<in> set (prereqs db2). fst x \<noteq> i \<and> snd x \<noteq> i}"
    by (rule acyclic_subset[of "set (prereqs db2)"]) (use ok in \<open>auto simp: challenges_ok_def\<close>)
  then have "challenges_ok (delete_challenge_row i db2)"
    using ok conflict_free_delete[of challenge_clash "challenges db2"]
    by (auto simp: challenges_ok_def delete_challenge_row_def)
  then show ?thesis using logged_frame[OF l] challenges_ok_cong by metis
qed

text \<open>
  C27: the error an explicit null produces. For a signed in administrator and a mutable
  event: a null state raises \<open>ValueError\<close>, a null in a point field raises \<open>TypeError\<close> and a
  null title or body of an announcement ends in an \<open>IntegrityError\<close> outside of every
  handler; each is an internal error and none is stored.
\<close>

theorem explicit_null_uncaught:
  assumes "require_admin st rt rq (w_utcnow w 0) db1 = Inr admin" and "current_event db2 = Some e"
    and "e_state e \<noteq> Archived"
  shows "(ep_state q = Some None \<and> ep_slug q = None \<and> ep_freeze_at q = None \<and> ep_team_mode q = None \<longrightarrow>
        update_event st rt w rq q db1 db2 = Inl (Uncaught ''ValueError''))
    \<and> (challenge_or_404 db2 e i = Inr c
        \<and> (is_null (sp_minimum_points (cp_scoring p)) \<or> is_null (sp_initial_points (cp_scoring p)))
        \<and> \<not> scoreboard_freeze_locked e (w_utcnow w 1) \<longrightarrow>
        update_challenge st rt w rq i p db1 db2 = Inl (Uncaught ''TypeError''))
    \<and> (find_announcement db2 e j = Some item \<and> (is_null (np_title a) \<or> is_null (np_body_md a)) \<longrightarrow>
        update_announcement st rt w rq j a db1 db2 = Inl (Uncaught ''IntegrityError''))"
proof (intro conjI impI)
  assume q: "ep_state q = Some None \<and> ep_slug q = None \<and> ep_freeze_at q = None \<and> ep_team_mode q = None"
  have "event_transition e q now = Inl (Uncaught ''ValueError'')" for now
    using q transition_null[OF assms(3)] by (simp add: event_transition_def)
  then show "update_event st rt w rq q db1 db2 = Inl (Uncaught ''ValueError'')"
    using assms q by (simp add: update_event_def event_or_404_def changes_def team_mode_locked_def assert_event_mutable_def)
next
  assume c: "challenge_or_404 db2 e i = Inr c
        \<and> (is_null (sp_minimum_points (cp_scoring p)) \<or> is_null (sp_initial_points (cp_scoring p)))
        \<and> \<not> scoreboard_freeze_locked e (w_utcnow w 1)"
  then have "assert_scoring_mutable e c (cp_scoring p) (w_utcnow w 1) = Inr ()"
    by (simp add: assert_scoring_mutable_def)
  then show "update_challenge st rt w rq i p db1 db2 = Inl (Uncaught ''TypeError'')"
    using assms c
    by (simp add: update_challenge_def event_or_404_def assert_event_mutable_def del: challenge_or_404_Inr)
next
  assume "find_announcement db2 e j = Some item \<and> (is_null (np_title a) \<or> is_null (np_body_md a))"
  then show "update_announcement st rt w rq j a db1 db2 = Inl (Uncaught ''IntegrityError'')"
    using assms by (simp add: update_announcement_def event_or_404_def assert_event_mutable_def Let_def)
qed

section \<open>Examples\<close>

text \<open>An administrator (9), a live event that is frozen since the time -5, one challenge.\<close>

definition admin_runtime :: runtime where
  "admin_runtime = sample_runtime\<lparr>rt_hmac := (\<lambda>k m. take 64 (rev m @ replicate 64 CHR ''0''))\<rparr>"

definition boss :: user where
  "boss = (sample_user 9 ''boss'')\<lparr>u_role := Admin\<rparr>"

definition code_event :: event where
  "code_event = live_event\<lparr>e_freeze_at := Some (Aware (- 5)), e_registration_access_mode := CodeAccess\<rparr>"

definition admin_db :: database where
  "admin_db = live_db\<lparr>events := [code_event], users := [boss, sample_user 7 ''ann'', sample_user 8 ''bob''],
     sessions := [(sample_session 20 9)\<lparr>s_token_hash :=
        hash_session admin_runtime (st_secret_key sample_settings) ''old''\<rparr>]\<rparr>"

definition later_world :: world where
  "later_world = sample_world\<lparr>w_uuid4 := (\<lambda>i. 200 + i)\<rparr>"

definition no_event_patch :: event_patch where
  "no_event_patch = \<lparr>ep_name = None, ep_slug = None, ep_description_md = None, ep_state = None,
     ep_registration_at = None, ep_start_at = None, ep_freeze_at = None, ep_end_at = None,
     ep_team_mode = None, ep_registration_access_mode = None\<rparr>"

definition no_challenge_patch :: challenge_patch where
  "no_challenge_patch = \<lparr>cp_slug = None, cp_title = None, cp_category = None, cp_description_md = None,
     cp_connection_info = None, cp_scoring = \<lparr>sp_scoring_type = None, sp_initial_points = None,
       sp_minimum_points = None, sp_decay = None\<rparr>, cp_visible = None, cp_visible_at = None,
     cp_max_attempts = None, cp_prerequisite_ids = None, cp_flag = None\<rparr>"

definition freeze_example :: "(json_object \<times> database) result" where
  "freeze_example = update_event sample_settings admin_runtime sample_world (sample_request ''old'')
     (no_event_patch\<lparr>ep_state := Some (Some Frozen)\<rparr>) admin_db admin_db"

definition code_example :: "(json_object \<times> database) result" where
  "code_example = create_registration_code sample_settings admin_runtime sample_world (sample_request ''old'')
     \<lparr>rc_label = ''teams'', rc_max_uses = Some 5, rc_expires_at = None\<rparr> admin_db admin_db"

definition suspend_example :: "(json_object \<times> database) result" where
  "suspend_example = update_user_status sample_settings admin_runtime sample_world (sample_request ''old'') 8
     \<lparr>us_active = False, us_reason = Some ''sharing flags''\<rparr> admin_db admin_db"

definition retitle_example :: "(json_object \<times> database) result" where
  "retitle_example = update_challenge sample_settings admin_runtime sample_world (sample_request ''old'') 50
     (no_challenge_patch\<lparr>cp_title := Some (Some ''Web 1'')\<rparr>) admin_db admin_db"

lemma freeze_example_ok: "is_ok freeze_example"
  by code_simp

lemma code_example_ok: "is_ok code_example"
  by code_simp

lemma suspend_example_ok: "is_ok suspend_example"
  by code_simp

lemma retitle_example_ok: "is_ok retitle_example"
  by code_simp

lemma admin_db_event: "current_event admin_db = Some code_event"
  by code_simp

lemma admin_db_tables:
  "events admin_db = [code_event]" "registration_codes admin_db = []" "challenges admin_db = [flag_challenge]"
  by (simp_all add: admin_db_def live_db_def team_db_def auth_db_def empty_db_def)

lemma code_event_fields:
  "e_state code_event = Live" "aware (e_freeze_at code_event) = Some (- 5)"
  "e_registration_access_mode code_event = CodeAccess" "e_id code_event = 1"
  by (simp_all add: code_event_def live_event_def sample_event_def)

lemma event_lifecycle_witness:
  "\<exists>resp db'. freeze_example = Inr (resp, db') \<and> (\<exists>e' \<in> set (events db'). e_id e' = 1 \<and> times_ordered e')"
proof -
  obtain resp db' where r: "freeze_example = Inr (resp, db')"
    using is_ok_pair[OF freeze_example_ok] by blast
  have "conflict_free event_clash (events admin_db)" "\<forall>e \<in> set (events admin_db). freeze_ok (w_utcnow sample_world 2) e"
    by (simp_all add: admin_db_tables conflict_free_def freeze_ok_def code_event_fields)
  from event_lifecycle[OF r[unfolded freeze_example_def] this]
  obtain e e' where "current_event admin_db = Some e" "set (events db') = insert e' (set (events admin_db) - {e})"
    "e_id e' = e_id e" "times_ordered e'"
    by blast
  then show ?thesis using r admin_db_event code_event_fields by auto
qed

lemma freeze_point_fixed_witness:
  "\<exists>resp db'. freeze_example = Inr (resp, db') \<and> (\<exists>e' \<in> set (events db'). aware (e_freeze_at e') = Some (- 5))"
proof -
  obtain resp db' where r: "freeze_example = Inr (resp, db')"
    using is_ok_pair[OF freeze_example_ok] by blast
  have "scoreboard_freeze_locked code_event (w_utcnow sample_world 1)" "freeze_ok (w_utcnow sample_world 2) code_event"
    "w_utcnow sample_world 1 \<le> w_utcnow sample_world 2" "conflict_free event_clash (events admin_db)"
    by (simp_all add: scoreboard_freeze_locked_def code_event_fields freeze_ok_def sample_world_def
        admin_db_tables conflict_free_def)
  from freeze_point_fixed[OF r[unfolded freeze_example_def] admin_db_event this]
  show ?thesis using r code_event_fields by auto
qed

lemma registration_code_lifecycle_witness:
  "\<exists>resp db3 u db5. code_example = Inr (resp, db3)
     \<and> revoke_registration_code sample_settings admin_runtime later_world (sample_request ''old'') 100 admin_db db3
         = Inr (u, db5)
     \<and> registration_code_or_denied sample_settings admin_runtime 3 db5 code_event (Some (w_token sample_world 0))
         = err 403 ''registration_access_denied''"
proof -
  have "is_ok (bindR code_example (\<lambda>(resp, db3).
      revoke_registration_code sample_settings admin_runtime later_world (sample_request ''old'') 100 admin_db db3))"
    by code_simp
  then obtain resp db3 u db5 where r: "code_example = Inr (resp, db3)"
    and v: "revoke_registration_code sample_settings admin_runtime later_world (sample_request ''old'') 100 admin_db db3
        = Inr (u, db5)"
    by (cases code_example) (auto simp: is_ok_def split: sum.splits)
  have id: "w_uuid4 sample_world 0 = 100" by (simp add: sample_world_def)
  have cf: "conflict_free code_clash (registration_codes admin_db)" by (simp add: admin_db_tables conflict_free_def)
  show ?thesis
    using registration_code_lifecycle[OF r[unfolded code_example_def] cf admin_db_event code_event_fields(3), unfolded id, OF v]
      r v by blast
qed

lemma suspension_ends_access_witness:
  "\<exists>resp db'. suspend_example = Inr (resp, db') \<and> (\<forall>s \<in> set (sessions db'). s_user_id s \<noteq> 8)"
proof -
  obtain resp db' where r: "suspend_example = Inr (resp, db')"
    using is_ok_pair[OF suspend_example_ok] by blast
  have cf: "conflict_free user_clash (users admin_db)"
    by (simp add: admin_db_def conflict_free_def user_clash_def boss_def sample_user_def lower_def lower_char_def)
  show ?thesis using suspension_ends_access[OF r[unfolded suspend_example_def] _ cf] r by auto
qed

lemma locked_scoring_keeps_board_witness:
  "\<exists>resp db'. retitle_example = Inr (resp, db')
     \<and> public_scoreboard round_half_even db' code_event 9 = public_scoreboard round_half_even admin_db code_event 9"
proof -
  obtain resp db' where r: "retitle_example = Inr (resp, db')"
    using is_ok_pair[OF retitle_example_ok] by blast
  have l: "scoreboard_freeze_locked code_event (w_utcnow sample_world 1)"
    and cf: "conflict_free challenge_clash (challenges admin_db)"
    by (simp_all add: scoreboard_freeze_locked_def code_event_fields sample_world_def admin_db_tables conflict_free_def)
  show ?thesis
    using locked_scoring_keeps_board[OF r[unfolded retitle_example_def] admin_db_event l cf] r by blast
qed

lemma explicit_null_uncaught_witness:
  "update_event sample_settings admin_runtime sample_world (sample_request ''old'')
     (no_event_patch\<lparr>ep_state := Some None\<rparr>) admin_db admin_db = Inl (Uncaught ''ValueError'')"
proof -
  have a: "require_admin sample_settings admin_runtime (sample_request ''old'') (w_utcnow sample_world 0) admin_db = Inr boss"
    by (simp add: require_admin_def current_user_def cookie_of_def sample_request_def admin_db_def
        sample_session_def boss_def sample_user_def sample_world_def)
  have s: "e_state code_event \<noteq> Archived" by (simp add: code_event_fields)
  show ?thesis
    using explicit_null_uncaught[OF a admin_db_event s, of "no_event_patch\<lparr>ep_state := Some None\<rparr>"]
    by (simp add: no_event_patch_def)
qed

end
