(* ===== verification/AdminQueries.thy ===== *)
theory AdminQueries
  imports AdminEvents
begin

text \<open>
  The listings of backend/src/alpha/routes_admin.py: submissions with their keyset cursor,
  teams, the audit log and the outbox.
\<close>

section \<open>Submissions\<close>

record submissions_query =
  sq_limit :: nat
  sq_offset :: nat
  sq_challenge_id :: "uuid option"
  sq_correct :: "bool option"
  sq_before_created_at :: "datetime option"
  sq_before_id :: "uuid option"

definition assert_submission_cursor :: "submissions_query \<Rightarrow> unit result" where
  "assert_submission_cursor q =
     (if (sq_before_created_at q = None) \<noteq> (sq_before_id q = None) then err 422 ''invalid_submission_cursor''
      else if (case sq_before_created_at q of Some (Naive _) \<Rightarrow> True | _ \<Rightarrow> False)
      then err 422 ''invalid_submission_cursor''
      else if sq_before_created_at q \<noteq> None \<and> sq_offset q \<noteq> 0 then err 422 ''invalid_submission_cursor''
      else Inr ())"

text \<open>The inner joins and the filters, newest first; the identifier breaks ties.\<close>

definition submission_key :: "submission \<Rightarrow> instant \<times> uuid" where
  "submission_key b = (b_created_at b, b_id b)"

definition listed_submissions ::
  "database \<Rightarrow> event \<Rightarrow> uuid option \<Rightarrow> bool option \<Rightarrow> submission list" where
  "listed_submissions db e challenge_id correct =
     rev (sort_key submission_key (filter (\<lambda>b.
       b_user_id b \<in> user_ids db \<and> b_team_id b \<in> team_ids db \<and> challenge_of db e (b_challenge_id b) \<noteq> None
       \<and> (case challenge_id of None \<Rightarrow> True | Some c \<Rightarrow> b_challenge_id b = c)
       \<and> (case correct of None \<Rightarrow> True | Some x \<Rightarrow> b_correct b = x)) (submissions db)))"

definition before_cursor :: "(instant \<times> uuid) option \<Rightarrow> submission \<Rightarrow> bool" where
  "before_cursor cursor b =
     (case cursor of
        None \<Rightarrow> True
      | Some (t, i) \<Rightarrow> b_created_at b < t \<or> (b_created_at b = t \<and> b_id b < i))"

definition submission_cursor :: "submissions_query \<Rightarrow> (instant \<times> uuid) option" where
  "submission_cursor q =
     (case (aware (sq_before_created_at q), sq_before_id q) of (Some t, Some i) \<Rightarrow> Some (t, i) | _ \<Rightarrow> None)"

definition submission_rows :: "database \<Rightarrow> event \<Rightarrow> submissions_query \<Rightarrow> submission list" where
  "submission_rows db e q =
     page (sq_limit q) (sq_offset q)
       (filter (before_cursor (submission_cursor q))
         (listed_submissions db e (sq_challenge_id q) (sq_correct q)))"

definition admin_submission_dict :: "database \<Rightarrow> event \<Rightarrow> submission \<Rightarrow> json" where
  "admin_submission_dict db e b =
     JObj [(''id'', JId (b_id b)),
       (''team'', case fetch t_id (b_team_id b) (teams db) of
          None \<Rightarrow> JNull | Some t \<Rightarrow> JObj [(''id'', JId (t_id t)), (''name'', JStr (t_name t))]),
       (''user'', case fetch u_id (b_user_id b) (users db) of
          None \<Rightarrow> JNull | Some u \<Rightarrow> JObj [(''id'', JId (u_id u)), (''username'', JStr (u_username u))]),
       (''challenge'', case challenge_of db e (b_challenge_id b) of
          None \<Rightarrow> JNull | Some c \<Rightarrow> JObj [(''id'', JId (c_id c)), (''title'', JStr (c_title c))]),
       (''correct'', JBool (b_correct b)), (''awarded_points'', JInt (b_awarded_points b)),
       (''submitted_fingerprint'', JStr (take 12 (b_submitted_hash b))),
       (''ip_fingerprint'', JStr (take 12 (b_ip_hash b))),
       (''created_at'', JTime (b_created_at b))]"

definition admin_submissions ::
  "settings \<Rightarrow> runtime \<Rightarrow> world \<Rightarrow> request \<Rightarrow> submissions_query \<Rightarrow> database \<Rightarrow> json_object result" where
  "admin_submissions st rt w rq q db =
     bindR (require_admin st rt rq (w_utcnow w 0) db) (\<lambda>_.
     bindR (event_or_404 db) (\<lambda>e.
     bindR (assert_submission_cursor q) (\<lambda>_.
       Inr [(''items'', JList (map (admin_submission_dict db e) (submission_rows db e q))),
            (''limit'', JInt (int (sq_limit q))), (''offset'', JInt (int (sq_offset q)))])))"

section \<open>Teams, audit log, outbox\<close>

definition admin_teams ::
  "settings \<Rightarrow> runtime \<Rightarrow> world \<Rightarrow> request \<Rightarrow> nat \<Rightarrow> nat \<Rightarrow> database \<Rightarrow> json_object result" where
  "admin_teams st rt w rq limit offset db =
     bindR (require_admin st rt rq (w_utcnow w 0) db) (\<lambda>_.
       Inr [(''items'', JList (map (\<lambda>t. JObj [(''id'', JId (t_id t)), (''name'', JStr (t_name t)),
               (''member_count'', JInt (int (count_where (\<lambda>m. m_team_id m = t_id t) (memberships db)))),
               (''created_at'', JTime (t_created_at t))])
              (page limit offset (sort_key t_created_at (teams db))))),
            (''limit'', JInt (int limit)), (''offset'', JInt (int offset))])"

definition opt_id :: "uuid option \<Rightarrow> json" where
  "opt_id i = (case i of None \<Rightarrow> JNull | Some x \<Rightarrow> JId x)"

definition admin_audit ::
  "settings \<Rightarrow> runtime \<Rightarrow> world \<Rightarrow> request \<Rightarrow> nat \<Rightarrow> nat \<Rightarrow> database \<Rightarrow> json_object result" where
  "admin_audit st rt w rq limit offset db =
     bindR (require_admin st rt rq (w_utcnow w 0) db) (\<lambda>_.
       Inr [(''items'', JList (map (\<lambda>a. JObj [(''id'', JId (a_id a)), (''actor_id'', opt_id (a_actor_id a)),
               (''action'', JStr (a_action a)), (''target_type'', JStr (a_target_type a)),
               (''target_id'', opt_id (a_target_id a)), (''metadata'', JObj (a_metadata a)),
               (''created_at'', JTime (a_created_at a))])
              (page limit offset (sort_key (\<lambda>a. - a_created_at a) (audit_events db)))))])"

definition admin_outbox ::
  "settings \<Rightarrow> runtime \<Rightarrow> world \<Rightarrow> request \<Rightarrow> bool \<Rightarrow> nat \<Rightarrow> database \<Rightarrow> json_object result" where
  "admin_outbox st rt w rq pending_only limit db =
     bindR (require_admin st rt rq (w_utcnow w 0) db) (\<lambda>_.
       Inr [(''items'', JList (map (\<lambda>x. JObj [(''id'', JId (o_id x)), (''topic'', JStr (o_topic x)),
               (''aggregate_type'', JStr (o_aggregate_type x)), (''aggregate_id'', JId (o_aggregate_id x)),
               (''payload'', JObj (o_payload x)), (''created_at'', JTime (o_created_at x)),
               (''delivered_at'', opt_time (o_delivered_at x)), (''attempts'', JInt (o_attempts x))])
              (page limit 0 (sort_key o_created_at
                (filter (\<lambda>x. pending_only \<longrightarrow> o_delivered_at x = None) (outbox_events db))))))])"

section \<open>Keyset pagination\<close>

text \<open>
  A reader that asks for page after page, each time before the last row it has seen,
  until a page comes back short: the client side of the cursor, no code of the
  repository. Its fuel is a bound on the pages; more than the number of rows is enough.
\<close>

definition query_before :: "submissions_query \<Rightarrow> submission \<Rightarrow> submissions_query" where
  "query_before q b = q\<lparr>sq_before_created_at := Some (Aware (b_created_at b)), sq_before_id := Some (b_id b)\<rparr>"

fun read_all :: "nat \<Rightarrow> database \<Rightarrow> event \<Rightarrow> submissions_query \<Rightarrow> submission list option" where
  "read_all 0 db e q = None"
| "read_all (Suc fuel) db e q =
     (let rows = submission_rows db e q
      in if length rows < sq_limit q then Some rows
         else map_option (\<lambda>more. rows @ more) (read_all fuel db e (query_before q (last rows))))"

lemma before_cursor_key: "before_cursor (Some (submission_key x)) b \<longleftrightarrow> submission_key b < submission_key x"
  by (auto simp: before_cursor_def submission_key_def less_prod_def)

lemma cursor_query_before: "submission_cursor (query_before q b) = Some (submission_key b)"
  by (simp add: submission_cursor_def query_before_def submission_key_def)

lemma query_before_fields [simp]:
  "sq_limit (query_before q b) = sq_limit q" "sq_offset (query_before q b) = sq_offset q"
  "sq_challenge_id (query_before q b) = sq_challenge_id q" "sq_correct (query_before q b) = sq_correct q"
  by (simp_all add: query_before_def)

text \<open>In a strictly decreasing list the rows below the last of a prefix are the rest.\<close>

lemma filter_after_prefix:
  fixes f :: "'r \<Rightarrow> 'k :: linorder"
  assumes "sorted_wrt (\<lambda>x y. f y < f x) (xs @ ys)" and "xs \<noteq> []"
  shows "filter (\<lambda>b. f b < f (last xs)) (xs @ ys) = ys"
proof -
  have "\<not> f x < f (last xs)" if "x \<in> set xs" for x
  proof -
    have "xs = butlast xs @ [last xs]" using assms(2) by simp
    then have "x \<in> set (butlast xs) \<or> x = last xs" using that by (metis in_set_butlast_appendI set_ConsD set_append Un_iff list.set(1) empty_iff)
    moreover have "f (last xs) < f y" if "y \<in> set (butlast xs)" for y
      using assms that sorted_wrt_append[of "\<lambda>x y. f y < f x" "butlast xs" "[last xs]"]
      by (simp add: sorted_wrt_append)
    ultimately show ?thesis using order.asym by blast
  qed
  moreover have "f y < f (last xs)" if "y \<in> set ys" for y
    using assms that by (auto simp: sorted_wrt_append)
  ultimately show ?thesis by (simp add: filter_empty_conv filter_id_conv)
qed

lemma listed_strictly_decreasing:
  assumes "conflict_free submission_clash (submissions db)"
  shows "sorted_wrt (\<lambda>x y. submission_key y < submission_key x) (listed_submissions db e c k)"
proof -
  let ?P = "\<lambda>b. b_user_id b \<in> user_ids db \<and> b_team_id b \<in> team_ids db \<and> challenge_of db e (b_challenge_id b) \<noteq> None
       \<and> (case c of None \<Rightarrow> True | Some c \<Rightarrow> b_challenge_id b = c) \<and> (case k of None \<Rightarrow> True | Some x \<Rightarrow> b_correct b = x)"
  let ?xs = "filter ?P (submissions db)"
  have "distinct (map b_id (submissions db))"
    by (rule submission_table.distinct_key[OF assms]) (simp add: submission_clash_def)
  then have "distinct (map b_id ?xs)" by (rule distinct_map_filter)
  then have "inj_on b_id (set ?xs)" "distinct ?xs" by (simp_all add: distinct_map)
  then have "distinct (map submission_key ?xs)"
    by (auto simp: distinct_map submission_key_def inj_on_def)
  then have "distinct (map submission_key (sort_key submission_key ?xs))"
    using mset_eq_imp_distinct_iff[of "map submission_key (sort_key submission_key ?xs)" "map submission_key ?xs"]
    by (simp only: mset_map mset_sort)
  then have "sorted_wrt (<) (map submission_key (sort_key submission_key ?xs))"
    using strict_sorted_iff sorted_sort_key by blast
  then show ?thesis by (simp add: listed_submissions_def sorted_wrt_rev sorted_wrt_map)
qed

lemma read_all_rest:
  assumes "sorted_wrt (\<lambda>x y. submission_key y < submission_key x) rows"
    and rows: "filter (before_cursor (submission_cursor q)) (listed_submissions db e (sq_challenge_id q) (sq_correct q)) = rows"
    and "sorted_wrt (\<lambda>x y. submission_key y < submission_key x) (listed_submissions db e (sq_challenge_id q) (sq_correct q))"
    and "0 < sq_limit q" and "sq_offset q = 0" and "length rows < fuel"
  shows "read_all fuel db e q = Some rows"
  using assms
proof (induction fuel arbitrary: q rows)
  case 0
  then show ?case by simp
next
  case (Suc fuel)
  let ?all = "listed_submissions db e (sq_challenge_id q) (sq_correct q)"
  have sr: "submission_rows db e q = take (sq_limit q) rows"
    using Suc.prems by (simp add: submission_rows_def page_def)
  show ?case
  proof (cases "length rows < sq_limit q")
    case True
    then show ?thesis using sr by simp
  next
    case False
    define xs where "xs = take (sq_limit q) rows"
    define ys where "ys = drop (sq_limit q) rows"
    have split: "rows = xs @ ys" by (simp add: xs_def ys_def)
    have ne: "xs \<noteq> []" using False Suc.prems(4) by (auto simp: xs_def)
    have mem: "last xs \<in> set rows" using ne by (simp add: split)
    then have "before_cursor (submission_cursor q) (last xs)" using Suc.prems(2) by auto
    then have le: "before_cursor (submission_cursor q) b" if "submission_key b < submission_key (last xs)" for b
      using that by (auto simp: before_cursor_def submission_key_def less_prod_def split: option.splits)
    have "filter (\<lambda>b. submission_key b < submission_key (last xs)) ?all
        = filter (\<lambda>b. submission_key b < submission_key (last xs)) rows"
      unfolding Suc.prems(2)[symmetric] filter_filter by (rule filter_cong) (use le in auto)
    also have "\<dots> = ys" unfolding split by (rule filter_after_prefix) (use Suc.prems(1) split ne in auto)
    finally have "filter (before_cursor (submission_cursor (query_before q (last xs))))
        (listed_submissions db e (sq_challenge_id (query_before q (last xs))) (sq_correct (query_before q (last xs)))) = ys"
      by (simp add: cursor_query_before before_cursor_key[abs_def])
    moreover have "sorted_wrt (\<lambda>x y. submission_key y < submission_key x) ys"
      using Suc.prems(1) by (simp add: split sorted_wrt_append)
    moreover have "length ys < fuel" using Suc.prems(4,6) False by (simp add: ys_def)
    ultimately have "read_all fuel db e (query_before q (last xs)) = Some ys"
      using Suc.prems by (intro Suc.IH) auto
    moreover have "length xs = sq_limit q" using False by (simp add: xs_def)
    ultimately show ?thesis using sr by (simp add: xs_def[symmetric] split[symmetric])
  qed
qed

text \<open>
  C26: the cursor walks through every submission exactly once. Following the cursor of the
  last row of each page, from the first page until a short one, ends and returns every
  submission the filters select, each exactly once, newest first, for every page size.
\<close>

theorem cursor_pagination_complete:
  assumes "conflict_free submission_clash (submissions db)"
    and "0 < sq_limit q" and "sq_offset q = 0" and "sq_before_created_at q = None"
    and "length (submissions db) < fuel"
  shows "read_all fuel db e q = Some (listed_submissions db e (sq_challenge_id q) (sq_correct q))
    \<and> distinct (listed_submissions db e (sq_challenge_id q) (sq_correct q))"
proof -
  let ?all = "listed_submissions db e (sq_challenge_id q) (sq_correct q)"
  have s: "sorted_wrt (\<lambda>x y. submission_key y < submission_key x) ?all"
    by (rule listed_strictly_decreasing[OF assms(1)])
  have "filter (before_cursor (submission_cursor q)) ?all = ?all"
    using assms(4) by (simp add: submission_cursor_def before_cursor_def)
  moreover have "length ?all < fuel"
    using assms(5) by (simp add: listed_submissions_def) (meson le_less_trans length_filter_le)
  moreover have "distinct ?all"
    using submission_table.distinct_rows[OF assms(1)] by (simp add: listed_submissions_def)
  ultimately show ?thesis using read_all_rest[OF s _ s assms(2,3)] by blast
qed

definition sample_submission :: "uuid \<Rightarrow> instant \<Rightarrow> submission" where
  "sample_submission i t = \<lparr>b_id = i, b_team_id = 30, b_challenge_id = 50, b_user_id = 7,
     b_submitted_hash = ''h'', b_correct = False, b_awarded_points = 0,
     b_idempotency_key = replicate i CHR ''k'', b_ip_hash = ''ip'', b_created_at = t\<rparr>"

text \<open>Two of the three submissions are of the same instant.\<close>

definition page_db :: database where
  "page_db = live_db\<lparr>submissions := [sample_submission 1 5, sample_submission 2 6, sample_submission 3 5]\<rparr>"

definition first_page :: submissions_query where
  "first_page = \<lparr>sq_limit = 1, sq_offset = 0, sq_challenge_id = None, sq_correct = None,
     sq_before_created_at = None, sq_before_id = None\<rparr>"

lemma cursor_pagination_complete_witness:
  "map_option (map b_id) (read_all 4 page_db live_event first_page) = Some [2, 3, 1]"
proof -
  have "conflict_free submission_clash (submissions page_db)"
    by (simp add: page_db_def conflict_free_def submission_clash_def sample_submission_def numeral_eq_Suc)
  moreover have "length (submissions page_db) < 4" by (simp add: page_db_def)
  ultimately have "read_all 4 page_db live_event first_page = Some (listed_submissions page_db live_event None None)"
    using cursor_pagination_complete[of page_db first_page 4 live_event] by (simp add: first_page_def)
  moreover have "map b_id (listed_submissions page_db live_event None None) = [2, 3, 1]"
    by code_simp
  ultimately show ?thesis by simp
qed

end
