(* ===== verification/Schemas.thy ===== *)
theory Schemas
  imports AdminChallenges
begin

text \<open>
  The request schemas of backend/src/alpha/schemas.py. Each class is a function from the
  decoded body to the request record the handler takes, or the 422 answer errors.py gives
  to a \<open>RequestValidationError\<close>: first the validators with \<open>mode="before"\<close>, then the field
  constraints, then the remaining validators. The decoding of the JSON types is pydantic's.

  \<open>validate_email\<close> stands for the library behind \<open>EmailStr\<close> (it returns the normalised
  address) and \<open>category\<close> for the Unicode character database. The white space of
  \<open>str.split\<close> beyond ASCII's six characters is not distinguished; the control characters
  among it are refused before.
\<close>

abbreviation validation_error :: "'a result" where
  "validation_error \<equiv> err 422 ''validation_error''"

definition accept_if :: "bool \<Rightarrow> 'a \<Rightarrow> 'a result" where
  "accept_if b x = (if b then Inr x else validation_error)"

lemma accept_if_Inr [simp]: "accept_if b x = Inr y \<longleftrightarrow> b \<and> y = x"
  by (auto simp: accept_if_def)

lemma accept_if_True [simp]: "b \<Longrightarrow> accept_if b x = Inr x"
  by (simp add: accept_if_def)

section \<open>Constraints of the fields\<close>

definition sized :: "nat \<Rightarrow> nat \<Rightarrow> string \<Rightarrow> bool" where
  "sized lo hi s \<longleftrightarrow> lo \<le> length s \<and> length s \<le> hi"

definition if_given :: "('a \<Rightarrow> bool) \<Rightarrow> 'a option \<Rightarrow> bool" where
  "if_given P x \<longleftrightarrow> (case x of None \<Rightarrow> True | Some v \<Rightarrow> P v)"

text \<open>A field of a partial update: absent and null pass, the constraint is for a value.\<close>

definition if_set :: "('a \<Rightarrow> bool) \<Rightarrow> 'a option option \<Rightarrow> bool" where
  "if_set P x \<longleftrightarrow> (case x of Some (Some v) \<Rightarrow> P v | _ \<Rightarrow> True)"

definition is_lower_letter :: "char \<Rightarrow> bool" where
  "is_lower_letter c \<longleftrightarrow> CHR ''a'' \<le> c \<and> c \<le> CHR ''z''"

definition is_upper_letter :: "char \<Rightarrow> bool" where
  "is_upper_letter c \<longleftrightarrow> CHR ''A'' \<le> c \<and> c \<le> CHR ''Z''"

definition is_digit :: "char \<Rightarrow> bool" where
  "is_digit c \<longleftrightarrow> CHR ''0'' \<le> c \<and> c \<le> CHR ''9''"

text \<open>The four patterns: user names, idempotency keys, event slugs, challenge slugs.\<close>

definition username_pattern :: "string \<Rightarrow> bool" where
  "username_pattern s \<longleftrightarrow> s \<noteq> [] \<and>
     list_all (\<lambda>c. is_upper_letter c \<or> is_lower_letter c \<or> is_digit c \<or> c \<in> set ''_.-'') s"

definition key_pattern :: "string \<Rightarrow> bool" where
  "key_pattern s \<longleftrightarrow> s \<noteq> [] \<and>
     list_all (\<lambda>c. is_upper_letter c \<or> is_lower_letter c \<or> is_digit c \<or> c \<in> set ''_.:-'') s"

definition event_slug_pattern :: "string \<Rightarrow> bool" where
  "event_slug_pattern s \<longleftrightarrow> s \<noteq> [] \<and> list_all (\<lambda>c. is_lower_letter c \<or> is_digit c \<or> c = CHR ''-'') s"

definition slug_pattern :: "string \<Rightarrow> bool" where
  "slug_pattern s \<longleftrightarrow>
     (case s of
        [] \<Rightarrow> False
      | c # cs \<Rightarrow> (is_lower_letter c \<or> is_digit c) \<and> sized 1 62 cs
          \<and> list_all (\<lambda>c. is_lower_letter c \<or> is_digit c \<or> c = CHR ''-'') cs)"

text \<open>The validators \<open>*_needs_timezone\<close>: an absent time passes, a given one has an offset.\<close>

definition has_timezone :: "datetime \<Rightarrow> bool" where
  "has_timezone d = (case d of Naive _ \<Rightarrow> False | Aware _ \<Rightarrow> True)"

definition time_ok :: "datetime option \<Rightarrow> bool" where
  "time_ok d = if_given has_timezone d"

definition points_ok :: "int \<Rightarrow> bool" where
  "points_ok n = Config.within 1 1000000 n"

section \<open>Text without control characters\<close>

datatype unicode_category = Cc | Cf | Cs | OtherCategory

definition forbidden_char :: "(char \<Rightarrow> unicode_category) \<Rightarrow> char \<Rightarrow> bool" where
  "forbidden_char category c \<longleftrightarrow> category c \<in> {Cc, Cf, Cs}"

text \<open>\<open>value.split()\<close>, and \<open>" ".join\<close> of it.\<close>

definition words :: "string \<Rightarrow> string list" where
  "words s = filter (\<lambda>w. w \<noteq> []) (split_on (CHR '' '') (map (\<lambda>c. if is_space c then CHR '' '' else c) s))"

definition squeeze :: "string \<Rightarrow> string" where
  "squeeze s = join_with (CHR '' '') (words s)"

text \<open>The shared body of \<open>clean_name\<close>, \<open>clean_label\<close> and \<open>clean_reason\<close> on a string.\<close>

definition clean_text :: "(char \<Rightarrow> unicode_category) \<Rightarrow> string \<Rightarrow> string result" where
  "clean_text category value =
     (if list_ex (forbidden_char category) value then validation_error else Inr (squeeze value))"

section \<open>The classes\<close>

definition RegisterRequest :: "(string \<Rightarrow> string option) \<Rightarrow> register_request \<Rightarrow> register_request result" where
  "RegisterRequest validate_email p =
     (case validate_email (rg_email p) of
        None \<Rightarrow> validation_error
      | Some email \<Rightarrow>
          accept_if (sized 3 40 (rg_username p) \<and> username_pattern (rg_username p)
              \<and> sized 12 128 (rg_password p) \<and> if_given (sized 0 128) (rg_access_code p))
            (p\<lparr>rg_email := email\<rparr>))"

definition LoginRequest :: "(string \<Rightarrow> string option) \<Rightarrow> login_request \<Rightarrow> login_request result" where
  "LoginRequest validate_email p =
     (case validate_email (lg_email p) of
        None \<Rightarrow> validation_error
      | Some email \<Rightarrow> accept_if (sized 1 128 (lg_password p)) (p\<lparr>lg_email := email\<rparr>))"

definition ChangePasswordRequest :: "change_password_request \<Rightarrow> change_password_request result" where
  "ChangePasswordRequest p =
     accept_if (sized 1 128 (cp_current_password p) \<and> sized 12 128 (cp_new_password p)
         \<and> cp_current_password p \<noteq> cp_new_password p) p"

definition TeamCreateRequest :: "(char \<Rightarrow> unicode_category) \<Rightarrow> string \<Rightarrow> string result" where
  "TeamCreateRequest category value =
     bindR (clean_text category value) (\<lambda>name. accept_if (sized 2 80 name) name)"

definition TeamJoinRequest :: "string \<Rightarrow> string result" where
  "TeamJoinRequest invite_code = accept_if (sized 16 128 invite_code) invite_code"

definition SubmitRequest :: "submit_request \<Rightarrow> submit_request result" where
  "SubmitRequest p =
     accept_if (sized 1 4096 (su_flag p) \<and> sized 8 128 (su_idempotency_key p)
         \<and> key_pattern (su_idempotency_key p)) p"

definition EventUpdateRequest :: "event_patch \<Rightarrow> event_patch result" where
  "EventUpdateRequest p =
     accept_if (if_set (sized 1 120) (ep_name p)
         \<and> if_set (\<lambda>s. sized 1 80 s \<and> event_slug_pattern s) (ep_slug p)
         \<and> if_set (sized 0 100000) (ep_description_md p)
         \<and> if_set has_timezone (ep_registration_at p) \<and> if_set has_timezone (ep_start_at p)
         \<and> if_set has_timezone (ep_freeze_at p) \<and> if_set has_timezone (ep_end_at p)) p"

definition RegistrationCodeCreateRequest ::
  "(char \<Rightarrow> unicode_category) \<Rightarrow> registration_code_request \<Rightarrow> registration_code_request result" where
  "RegistrationCodeCreateRequest category p =
     bindR (clean_text category (rc_label p)) (\<lambda>label.
       accept_if (sized 1 80 label \<and> if_given (Config.within 1 10000) (rc_max_uses p) \<and> time_ok (rc_expires_at p))
         (p\<lparr>rc_label := label\<rparr>))"

definition UserStatusUpdateRequest ::
  "(char \<Rightarrow> unicode_category) \<Rightarrow> user_status_request \<Rightarrow> user_status_request result" where
  "UserStatusUpdateRequest category p =
     bindR (case us_reason p of
              None \<Rightarrow> Inr None
            | Some r \<Rightarrow> bindR (clean_text category r) (\<lambda>r. Inr (Some r))) (\<lambda>reason.
       accept_if (if_given (sized 0 500) reason
           \<and> (us_active p \<or> (case reason of None \<Rightarrow> False | Some r \<Rightarrow> r \<noteq> [])))
         (p\<lparr>us_reason := reason\<rparr>))"

definition FlagInput :: "flag_input \<Rightarrow> bool" where
  "FlagInput f \<longleftrightarrow> sized 1 4096 (fi_value f)"

definition ChallengeCreateRequest :: "challenge_request \<Rightarrow> challenge_request result" where
  "ChallengeCreateRequest p =
     accept_if (sized 2 63 (cr_slug p) \<and> slug_pattern (cr_slug p) \<and> sized 1 120 (cr_title p)
         \<and> sized 1 80 (cr_category p) \<and> sized 1 100000 (cr_description_md p)
         \<and> if_given (sized 0 2000) (cr_connection_info p)
         \<and> points_ok (cr_initial_points p) \<and> points_ok (cr_minimum_points p) \<and> points_ok (cr_decay p)
         \<and> time_ok (cr_visible_at p) \<and> Config.within 0 MAX_CHALLENGE_ATTEMPTS (cr_max_attempts p)
         \<and> length (cr_prerequisite_ids p) \<le> 100 \<and> FlagInput (cr_flag p)
         \<and> cr_minimum_points p \<le> cr_initial_points p) p"

definition ChallengeUpdateRequest :: "challenge_patch \<Rightarrow> challenge_patch result" where
  "ChallengeUpdateRequest p =
     accept_if (if_set (\<lambda>s. sized 2 63 s \<and> slug_pattern s) (cp_slug p) \<and> if_set (sized 1 120) (cp_title p)
         \<and> if_set (sized 1 80) (cp_category p) \<and> if_set (sized 1 100000) (cp_description_md p)
         \<and> if_set (sized 0 2000) (cp_connection_info p)
         \<and> if_set points_ok (sp_initial_points (cp_scoring p))
         \<and> if_set points_ok (sp_minimum_points (cp_scoring p)) \<and> if_set points_ok (sp_decay (cp_scoring p))
         \<and> if_set has_timezone (cp_visible_at p)
         \<and> if_set (Config.within 0 MAX_CHALLENGE_ATTEMPTS) (cp_max_attempts p)
         \<and> if_set (\<lambda>ids. length ids \<le> 100) (cp_prerequisite_ids p) \<and> if_set FlagInput (cp_flag p)) p"

definition AnnouncementCreateRequest :: "announcement_request \<Rightarrow> announcement_request result" where
  "AnnouncementCreateRequest p =
     accept_if (sized 1 200 (an_title p) \<and> sized 1 100000 (an_body_md p) \<and> time_ok (an_publish_at p)) p"

definition AnnouncementUpdateRequest :: "announcement_patch \<Rightarrow> announcement_patch result" where
  "AnnouncementUpdateRequest p =
     accept_if (if_set (sized 1 200) (np_title p) \<and> if_set (sized 1 100000) (np_body_md p)
         \<and> if_set has_timezone (np_publish_at p)) p"

section \<open>Normal form of cleaned text\<close>

lemma split_on_free: "c \<notin> set w \<Longrightarrow> split_on c w = [w]"
  by (induction w) auto

lemma split_on_piece: "c \<notin> set w \<Longrightarrow> split_on c (w @ c # xs) = w # split_on c xs"
  by (induction w) auto

lemma split_join: "ws \<noteq> [] \<Longrightarrow> \<forall>w \<in> set ws. c \<notin> set w \<Longrightarrow> split_on c (join_with c ws) = ws"
  by (induction c ws rule: join_with.induct) (auto simp: split_on_free split_on_piece)

lemma set_join_with: "set (join_with c ws) \<subseteq> insert c (\<Union>w \<in> set ws. set w)"
  by (induction c ws rule: join_with.induct) auto

lemma set_split_on: "w \<in> set (split_on c s) \<Longrightarrow> set w \<subseteq> set s"
proof (induction c s arbitrary: w rule: split_on.induct)
  case (1 c)
  then show ?case by simp
next
  case (2 c x xs)
  then show ?case by (cases "split_on c xs") (auto split: if_splits, blast+)
qed

lemma space_is_space [simp]: "is_space CHR '' ''"
  by (simp add: is_space_def)

text \<open>The words of a text are not empty and hold no white space.\<close>

lemma words_word:
  assumes "w \<in> set (words s)"
  shows "w \<noteq> [] \<and> set w \<subseteq> {c \<in> set s. \<not> is_space c}"
proof -
  let ?s = "map (\<lambda>c. if is_space c then CHR '' '' else c) s"
  have w: "w \<noteq> []" "w \<in> set (split_on CHR '' '' ?s)" using assms by (auto simp: words_def)
  have "CHR '' '' \<notin> set w" using split_on_parts[OF w(2)] .
  moreover have "set w \<subseteq> set ?s" using set_split_on[OF w(2)] .
  ultimately have "set w \<subseteq> {c \<in> set s. \<not> is_space c}" by auto
  with w(1) show ?thesis by simp
qed

lemma words_join:
  assumes "\<forall>w \<in> set ws. w \<noteq> [] \<and> (\<forall>c \<in> set w. \<not> is_space c)"
  shows "words (join_with CHR '' '' ws) = ws"
proof (cases "ws = []")
  case True
  then show ?thesis by (simp add: words_def)
next
  case False
  have "\<forall>c \<in> set (join_with CHR '' '' ws). is_space c \<longrightarrow> c = CHR '' ''"
    using set_join_with[of "CHR '' ''" ws] assms by blast
  then have "map (\<lambda>c. if is_space c then CHR '' '' else c) (join_with CHR '' '' ws) = join_with CHR '' '' ws"
    by (intro map_idI) auto
  moreover have "split_on CHR '' '' (join_with CHR '' '' ws) = ws"
    using assms by (intro split_join[OF False]) (use space_is_space in blast)
  moreover have "filter (\<lambda>w. w \<noteq> []) ws = ws" using assms by (simp add: filter_id_conv)
  ultimately show ?thesis by (simp add: words_def)
qed

lemma words_squeeze [simp]: "words (squeeze s) = words s"
  unfolding squeeze_def by (rule words_join) (use words_word in blast)

lemma squeeze_idem [simp]: "squeeze (squeeze s) = squeeze s"
  by (simp add: squeeze_def[of "squeeze s"]) (simp add: squeeze_def)

lemma set_squeeze: "set (squeeze s) \<subseteq> insert CHR '' '' (set s)"
proof -
  have "(\<Union>w \<in> set (words s). set w) \<subseteq> set s" using words_word by blast
  then show ?thesis using set_join_with[of "CHR '' ''" "words s"] unfolding squeeze_def by blast
qed

lemma clean_text_Inr:
  "clean_text category v = Inr n \<longleftrightarrow> (\<forall>c \<in> set v. \<not> forbidden_char category c) \<and> n = squeeze v"
  by (auto simp: clean_text_def list_ex_iff)

text \<open>A text without white space at its ends is kept by \<open>strip\<close>.\<close>

lemma strip_ends: "s \<noteq> [] \<Longrightarrow> \<not> is_space (hd s) \<Longrightarrow> \<not> is_space (last s) \<Longrightarrow> strip s = s"
  by (cases s) (auto simp: strip_def hd_rev[symmetric] dropWhile_eq_self_iff)

lemma join_with_ends:
  assumes "ws \<noteq> []" and "\<forall>w \<in> set ws. w \<noteq> [] \<and> (\<forall>c \<in> set w. \<not> is_space c)"
  shows "join_with c ws \<noteq> [] \<and> \<not> is_space (hd (join_with c ws)) \<and> \<not> is_space (last (join_with c ws))"
  using assms by (induction c ws rule: join_with.induct) auto

lemma strip_squeeze: "strip (squeeze s) = squeeze s"
proof (cases "words s = []")
  case True
  then show ?thesis by (simp add: squeeze_def strip_def)
next
  case False
  have "\<forall>w \<in> set (words s). w \<noteq> [] \<and> (\<forall>c \<in> set w. \<not> is_space c)" using words_word by blast
  from join_with_ends[OF False this] show ?thesis unfolding squeeze_def by (intro strip_ends) auto
qed

section \<open>What the handlers may rely on\<close>

lemma challenge_request_check:
  assumes "ChallengeCreateRequest p = Inr p'"
  shows "p' = p \<and> challenge_check (new_challenge w e p) \<and> cr_minimum_points p \<le> cr_initial_points p"
  using assms
  by (auto simp: ChallengeCreateRequest_def challenge_check_def new_challenge_def points_ok_def within_def
      MAX_CHALLENGE_ATTEMPTS_def)

lemma challenge_check_flag:
  "apply_flag rt secret n flag c = Inr c' \<Longrightarrow> challenge_check c' = challenge_check c"
  by (auto simp: challenge_check_def dest!: apply_flag_frame)

lemma code_request_check:
  assumes "RegistrationCodeCreateRequest category p = Inr p'" and "length (r_token_hash (new_registration_code st rt w a e p')) = 64"
  shows "code_check (new_registration_code st rt w a e p')"
  using assms
  by (auto simp: RegistrationCodeCreateRequest_def code_check_def new_registration_code_def if_given_def
      within_def sized_def split: option.splits)

text \<open>
  The team name, registration code label or moderation reason a schema accepts is in
  normal form: without a control or format character, its words separated by single
  blanks and none at its ends, so stripping or cleaning it again changes nothing; two
  inputs with the same words give the same name.
\<close>

theorem team_name_normal_form:
  assumes "TeamCreateRequest category v = Inr name" and "\<not> forbidden_char category CHR '' ''"
  shows "2 \<le> length name \<and> length name \<le> 80 \<and> words name = words v \<and> strip name = name
    \<and> (\<forall>c \<in> set name. \<not> forbidden_char category c)
    \<and> TeamCreateRequest category name = Inr name
    \<and> (\<forall>v'. words v' = words v \<and> (\<forall>c \<in> set v'. \<not> forbidden_char category c) \<longrightarrow>
         TeamCreateRequest category v' = Inr name)"
proof -
  have n: "name = squeeze v" "sized 2 80 name" and v: "\<forall>c \<in> set v. \<not> forbidden_char category c"
    using assms(1) by (auto simp: TeamCreateRequest_def clean_text_Inr)
  have c: "\<forall>c \<in> set name. \<not> forbidden_char category c"
    using set_squeeze[of v] v assms(2) n(1) by blast
  have same: "TeamCreateRequest category v' = Inr name"
    if "words v' = words v" "\<forall>c \<in> set v'. \<not> forbidden_char category c" for v'
    using that n by (simp add: TeamCreateRequest_def clean_text_Inr squeeze_def)
  have "TeamCreateRequest category name = Inr name"
    by (rule same) (use n c in auto)
  then show ?thesis using n c same strip_squeeze[of v] by (auto simp: sized_def)
qed

lemma team_name_normal_form_witness:
  "TeamCreateRequest (\<lambda>c. if c < CHR '' '' then Cc else OtherCategory) ''  red   team '' = Inr ''red team''
   \<and> strip ''red team'' = ''red team''"
proof -
  let ?cat = "\<lambda>c. if c < CHR '' '' then Cc else OtherCategory"
  have a: "TeamCreateRequest ?cat ''  red   team '' = Inr ''red team''" by code_simp
  have b: "\<not> forbidden_char ?cat CHR '' ''" by (simp add: forbidden_char_def)
  show ?thesis using team_name_normal_form[OF a b] a by blast
qed

text \<open>
  Creating a challenge answers 409 \<open>challenge_slug_exists\<close> for a request that passed
  the schema, with fresh identifiers, exactly when a challenge of the event holds the
  slug: no other constraint of the table can fail, so the answer names the true reason.
\<close>

theorem challenge_conflict_is_slug:
  assumes "ChallengeCreateRequest body = Inr p"
    and "require_admin st rt rq (w_utcnow w 0) db1 = Inr admin" and "u_id admin \<in> user_ids db2"
    and "current_event db2 = Some e" and "e_state e \<noteq> Archived"
    and "apply_flag rt (st_secret_key st) (st_max_flag_length st) (cr_flag p) (new_challenge w e p) = Inr c"
    and "load_prerequisites db2 (e_id e) (cr_prerequisite_ids p) None = Inr ps"
    and "w_uuid4 w 0 \<notin> challenge_ids db2" and "\<forall>a \<in> set (audit_events db2). a_id a \<noteq> w_uuid4 w 1"
    and "\<forall>o' \<in> set (outbox_events db2). o_id o' \<noteq> w_uuid4 w 2"
  shows "if \<exists>x \<in> set (challenges db2). c_event_id x = e_id e \<and> c_slug x = cr_slug p
    then create_challenge st rt w rq p db1 db2 = err 409 ''challenge_slug_exists''
    else is_ok (create_challenge st rt w rq p db1 db2)"
proof -
  have chk: "challenge_check c"
    using challenge_request_check[OF assms(1)] challenge_check_flag[OF assms(6)] assms(1)
    by (metis Inr_inject)
  have c: "c_id c = w_uuid4 w 0" "c_event_id c = e_id e" "c_slug c = cr_slug p"
    using apply_flag_frame[OF assms(6)] by (simp_all add: new_challenge_def)
  have nid: "\<forall>x \<in> set (challenges db2). c_id x \<noteq> w_uuid4 w 0" using assms(8) imageI by metis
  have ev: "e_id e \<in> event_ids db2" using current_event_in[OF assms(4)] by simp
  have "set ps \<subseteq> challenge_ids db2"
    using assms(7) by (auto simp: load_prerequisites_def Let_def split: if_splits)
  then have other: "c_id c \<notin> set ps" using c(1) assms(8) by auto
  let ?taken = "\<exists>x \<in> set (challenges db2). c_event_id x = e_id e \<and> c_slug x = cr_slug p"
  let ?rows = "do { db \<leftarrow> insert_challenge c ps db2;
      log_change w admin ''challenge.created'' ''challenge'' (c_id c) [] (challenge_payload e c) db }"
  have run: "create_challenge st rt w rq p db1 db2 =
      bindR (or_error (ApiError 409 ''challenge_slug_exists'' None) ?rows) (\<lambda>db. Inr (admin_challenge_dict db c, db))"
    using assms(2,4,5,6,7) by (simp add: create_challenge_def event_or_404_def assert_event_mutable_def)
  have "insert_challenge c ps db2 = None" if ?taken
    using that c by (auto simp: insert_challenge_def insert_row_def challenge_clash_def)
  then have taken: "?rows = None" if ?taken using that by simp
  have free: "?rows \<noteq> None" if "\<not> ?taken"
  proof -
    have "insert_challenge c ps db2 =
        Some (db2\<lparr>challenges := challenges db2 @ [c], prereqs := prereqs db2 @ map (Pair (c_id c)) ps\<rparr>)"
      using that c chk ev nid other by (auto simp: insert_challenge_Some challenge_clash_def)
    then show ?thesis using assms(3,9,10)
      by (auto simp: log_change_def bind_eq_None_conv add_audit_def add_outbox_def insert_audit_def insert_outbox_def
          insert_row_def audit_clash_def outbox_clash_def)
  qed
  show ?thesis
  proof (cases ?taken)
    case True
    then show ?thesis using run taken by simp
  next
    case False
    then show ?thesis using run free[OF False] by (cases ?rows) auto
  qed
qed

definition second_challenge :: challenge_request where
  "second_challenge = \<lparr>cr_slug = ''web-2'', cr_title = ''Web 2'', cr_category = ''web'',
     cr_description_md = ''find it'', cr_connection_info = None, cr_scoring_type = FixedScoring,
     cr_initial_points = 200, cr_minimum_points = 100, cr_decay = 20, cr_visible = True,
     cr_visible_at = None, cr_max_attempts = 0, cr_prerequisite_ids = [],
     cr_flag = \<lparr>fi_type = ExactFlag, fi_value = ''FLAG{2}''\<rparr>\<rparr>"

lemma challenge_conflict_is_slug_witness:
  "is_ok (create_challenge sample_settings admin_runtime sample_world (sample_request ''old'') second_challenge
     admin_db admin_db)"
proof -
  have b: "ChallengeCreateRequest second_challenge = Inr second_challenge"
    by (simp add: ChallengeCreateRequest_def second_challenge_def sized_def slug_pattern_def is_lower_letter_def
        is_digit_def if_given_def points_ok_def within_def time_ok_def MAX_CHALLENGE_ATTEMPTS_def FlagInput_def)
  have a: "require_admin sample_settings admin_runtime (sample_request ''old'') (w_utcnow sample_world 0) admin_db = Inr boss"
    by (simp add: require_admin_def current_user_def cookie_of_def sample_request_def admin_db_def
        sample_session_def boss_def sample_user_def sample_world_def)
  have u: "u_id boss \<in> user_ids admin_db" by (simp add: admin_db_def)
  have s: "e_state code_event \<noteq> Archived" by (simp add: code_event_fields)
  have "is_ok (apply_flag admin_runtime (st_secret_key sample_settings) (st_max_flag_length sample_settings)
      (cr_flag second_challenge) (new_challenge sample_world code_event second_challenge))" by code_simp
  then obtain c where c: "apply_flag admin_runtime (st_secret_key sample_settings) (st_max_flag_length sample_settings)
      (cr_flag second_challenge) (new_challenge sample_world code_event second_challenge) = Inr c"
    by (auto simp: is_ok_def split: sum.splits)
  have ps: "load_prerequisites admin_db (e_id code_event) (cr_prerequisite_ids second_challenge) None = Inr []"
    by code_simp
  have "w_uuid4 sample_world 0 \<notin> challenge_ids admin_db" "audit_events admin_db = []" "outbox_events admin_db = []"
    by (simp_all add: admin_db_tables flag_challenge_def sample_challenge_def sample_world_def)
      (simp_all add: admin_db_def live_db_def team_db_def auth_db_def empty_db_def)
  then show ?thesis
    using challenge_conflict_is_slug[OF b a u admin_db_event s c ps]
    by (simp add: admin_db_tables flag_challenge_def sample_challenge_def second_challenge_def)
qed

end
