(* ===== verification/App.thy ===== *)
theory App
  imports Schemas Pytext
begin

text \<open>
  The application around the endpoints: backend/src/alpha/main.py and errors.py. The error
  handlers, the middleware (request id, security headers, CSRF, body limit) and the stack
  they form, and the system endpoints.

  The middleware of Starlette itself is a parameter (record \<open>starlette\<close>): the host check,
  the CORS middleware and the header collection. As its documentation has it, the
  middleware added last is the outermost, the handlers of \<open>ApiError\<close>, of the validation,
  database and password errors run inside all of it, and the handler of \<open>Exception\<close> runs
  in the error middleware that encloses everything. Korean texts are given as UTF-8 bytes.
\<close>

section \<open>Identifiers in headers\<close>

text \<open>\<open>uuid.UUID(text)\<close>.\<close>

definition parse_uuid :: "string \<Rightarrow> uuid option" where
  "parse_uuid text =
     (let h = remove_all ''-'' (strip_chars {CHR ''{'', CHR ''}''} (remove_all ''uuid:'' (remove_all ''urn:'' text)))
      in if length h \<noteq> 32 then None
         else case int_base16 h of
                None \<Rightarrow> None
              | Some n \<Rightarrow> if 0 \<le> n \<and> n < 2 ^ 128 then Some (nat n) else None)"

section \<open>Errors\<close>

type_synonym headers = "(string \<times> string) list"

record wire_response =
  wr_status :: nat
  wr_body :: json
  wr_headers :: headers

definition error_body :: "string \<Rightarrow> string \<Rightarrow> string \<Rightarrow> json" where
  "error_body request_id code message =
     JObj [(''error'', JObj [(''code'', JStr code), (''message'', JStr message),
                             (''request_id'', JStr request_id)])]"

text \<open>
  The exceptions the handlers of errors.py tell apart. \<open>ApiException\<close> carries the status,
  the code, the message and the headers of an \<open>ApiError\<close>.
\<close>

datatype exception =
    ApiException nat string string headers
  | RequestValidation
  | DatabaseOperational
  | PasswordBusy
  | OtherException

text \<open>The messages of errors.py and main.py.\<close>

definition validation_message :: string where
  "validation_message = map char_of [236, 154, 148, 236, 178, 173, 32, 237, 152, 149, 236, 139, 157, 236, 157, 180, 32, 236,
     152, 172, 235, 176, 148, 235, 165, 180, 236, 167, 128, 32, 236, 149, 138, 236, 138,
     181, 235, 139, 136, 235, 139, 164, 46 :: nat]"

definition database_busy_message :: string where
  "database_busy_message = map char_of [235, 141, 176, 236, 157, 180, 237, 132, 176, 32, 236, 160, 128, 236, 158, 165, 236,
     134, 140, 234, 176, 128, 32, 236, 157, 188, 236, 139, 156, 236, 160, 129, 236, 156,
     188, 235, 161, 156, 32, 237, 152, 188, 236, 158, 161, 237, 149, 169, 235, 139, 136,
     235, 139, 164, 46, 32, 236, 158, 160, 236, 139, 156, 32, 237, 155, 132, 32, 235, 139,
     164, 236, 139, 156, 32, 236, 139, 156, 235, 143, 132, 237, 149, 152, 236, 132, 184,
     236, 154, 148, 46 :: nat]"

definition password_busy_message :: string where
  "password_busy_message = map char_of [236, 157, 184, 236, 166, 157, 32, 236, 178, 152, 235, 166, 172, 235, 159, 137, 236,
     157, 180, 32, 236, 157, 188, 236, 139, 156, 236, 160, 129, 236, 156, 188, 235, 161,
     156, 32, 237, 143, 172, 237, 153, 148, 235, 144, 152, 236, 151, 136, 236, 138, 181,
     235, 139, 136, 235, 139, 164, 46, 32, 236, 158, 160, 236, 139, 156, 32, 237, 155, 132,
     32, 235, 139, 164, 236, 139, 156, 32, 236, 139, 156, 235, 143, 132, 237, 149, 152, 236,
     132, 184, 236, 154, 148, 46 :: nat]"

definition internal_message :: string where
  "internal_message = map char_of [236, 154, 148, 236, 178, 173, 32, 236, 178, 152, 235, 166, 172, 32, 236, 164, 145, 32,
     236, 152, 164, 235, 165, 152, 234, 176, 128, 32, 235, 176, 156, 236, 131, 157, 237,
     150, 136, 236, 138, 181, 235, 139, 136, 235, 139, 164, 46 :: nat]"

definition too_large_message :: string where
  "too_large_message = map char_of [236, 154, 148, 236, 178, 173, 32, 235, 179, 184, 235, 172, 184, 236, 157, 180, 32, 237,
     151, 136, 236, 154, 169, 32, 237, 129, 172, 234, 184, 176, 235, 165, 188, 32, 236, 180,
     136, 234, 179, 188, 237, 150, 136, 236, 138, 181, 235, 139, 136, 235, 139, 164,
     46 :: nat]"

definition csrf_message :: string where
  "csrf_message = map char_of [67, 83, 82, 70, 32, 234, 178, 128, 236, 166, 157, 236, 151, 144, 32, 236, 139, 164,
     237, 140, 168, 237, 150, 136, 236, 138, 181, 235, 139, 136, 235, 139, 164, 46, 32, 236,
     131, 136, 32, 237, 134, 160, 237, 129, 176, 236, 157, 132, 32, 235, 176, 155, 236, 149,
     132, 32, 235, 139, 164, 236, 139, 156, 32, 236, 139, 156, 235, 143, 132, 237, 149, 152,
     236, 132, 184, 236, 154, 148, 46 :: nat]"

definition not_ready_message :: string where
  "not_ready_message = map char_of [237, 149, 132, 236, 136, 152, 32, 236, 160, 128, 236, 158, 165, 236, 134, 140, 32, 236,
     151, 176, 234, 178, 176, 236, 157, 180, 32, 236, 164, 128, 235, 185, 132, 235, 144,
     152, 236, 167, 128, 32, 236, 149, 138, 236, 149, 152, 236, 138, 181, 235, 139, 136,
     235, 139, 164, 46 :: nat]"

definition handle_api_error :: "string \<Rightarrow> nat \<Rightarrow> string \<Rightarrow> string \<Rightarrow> headers \<Rightarrow> wire_response" where
  "handle_api_error request_id status code message headers =
     \<lparr>wr_status = status, wr_body = error_body request_id code message, wr_headers = headers\<rparr>"

definition handle_validation_error :: "string \<Rightarrow> wire_response" where
  "handle_validation_error request_id =
     \<lparr>wr_status = 422, wr_body = error_body request_id ''validation_error'' validation_message, wr_headers = []\<rparr>"

definition handle_database_operational_error :: "string \<Rightarrow> wire_response" where
  "handle_database_operational_error request_id =
     \<lparr>wr_status = 503,
      wr_body = error_body request_id ''database_temporarily_unavailable'' database_busy_message,
      wr_headers = [(''Retry-After'', ''1'')]\<rparr>"

definition handle_password_work_busy :: "string \<Rightarrow> wire_response" where
  "handle_password_work_busy request_id =
     \<lparr>wr_status = 503, wr_body = error_body request_id ''password_service_busy'' password_busy_message,
      wr_headers = [(''Retry-After'', ''1'')]\<rparr>"

definition handle_unexpected_error :: "string \<Rightarrow> wire_response" where
  "handle_unexpected_error request_id =
     \<lparr>wr_status = 500, wr_body = error_body request_id ''internal_error'' internal_message, wr_headers = []\<rparr>"

text \<open>Inside the middleware: every exception but an unexpected one becomes a response.\<close>

fun exception_middleware :: "string \<Rightarrow> exception + wire_response \<Rightarrow> wire_response option" where
  "exception_middleware request_id (Inr r) = Some r"
| "exception_middleware request_id (Inl (ApiException status code message headers)) =
     Some (handle_api_error request_id status code message headers)"
| "exception_middleware request_id (Inl RequestValidation) = Some (handle_validation_error request_id)"
| "exception_middleware request_id (Inl DatabaseOperational) = Some (handle_database_operational_error request_id)"
| "exception_middleware request_id (Inl PasswordBusy) = Some (handle_password_work_busy request_id)"
| "exception_middleware request_id (Inl OtherException) = None"

section \<open>Requests\<close>

datatype receive_message = HttpDisconnect | HttpRequest string bool | OtherMessage

record http_request =
  hr_path :: string
  hr_method :: string
  hr_headers :: headers
  hr_cookies :: request
  hr_messages :: "receive_message list"

record starlette =
  sl_set_header :: "string \<Rightarrow> string \<Rightarrow> headers \<Rightarrow> headers"
  sl_get_header :: "string \<Rightarrow> headers \<Rightarrow> string option"
  sl_trusted_host :: "string list \<Rightarrow> http_request \<Rightarrow> wire_response option"
  sl_preflight :: "string list \<Rightarrow> http_request \<Rightarrow> wire_response option"
  sl_cors_headers :: "string list \<Rightarrow> http_request \<Rightarrow> wire_response \<Rightarrow> wire_response"

text \<open>
  What a layer returns: the response, or the exception it lets through (\<open>None\<close>), with the
  messages of the client it has not read and the state of the service. The whole result
  is \<open>Waiting\<close> while a layer waits for a message that has not come.
\<close>

datatype 's outcome = Waiting | Done "wire_response option" "receive_message list" 's

type_synonym 's layer = "http_request \<Rightarrow> 's \<Rightarrow> 's outcome"

fun map_response :: "(wire_response \<Rightarrow> wire_response) \<Rightarrow> 's outcome \<Rightarrow> 's outcome" where
  "map_response f Waiting = Waiting"
| "map_response f (Done r ms s) = Done (map_option f r) ms s"

section \<open>The body limit\<close>

definition MAX_CHUNKS :: int where
  "MAX_CHUNKS = 4096"

definition content_lengths :: "int \<Rightarrow> headers \<Rightarrow> int list" where
  "content_lengths max_bytes hs =
     map (\<lambda>(_, v). case int_base10 v of None \<Rightarrow> max_bytes + 1 | Some n \<Rightarrow> n)
       (filter (\<lambda>(k, _). lower k = ''content-length'') hs)"

definition lengths_refused :: "int \<Rightarrow> int list \<Rightarrow> bool" where
  "lengths_refused max_bytes ls \<longleftrightarrow> 1 < length ls \<or> list_ex (\<lambda>v. v < 0 \<or> max_bytes < v) ls"

datatype body_read =
    BodyPending
  | BodyTooLarge "receive_message list"
  | BodyRead string bool "receive_message list"

text \<open>The loop over \<open>receive()\<close>; the flag of \<open>BodyRead\<close> is \<open>disconnected\<close>.\<close>

fun read_body :: "int \<Rightarrow> receive_message list \<Rightarrow> int \<Rightarrow> int \<Rightarrow> string \<Rightarrow> body_read" where
  "read_body max_bytes [] received chunks body = BodyPending"
| "read_body max_bytes (HttpDisconnect # ms) received chunks body = BodyRead body True ms"
| "read_body max_bytes (OtherMessage # ms) received chunks body = read_body max_bytes ms received chunks body"
| "read_body max_bytes (HttpRequest chunk more_body # ms) received chunks body =
     (if max_bytes < received + int (length chunk) \<or> MAX_CHUNKS < chunks + 1 then BodyTooLarge ms
      else if \<not> more_body then BodyRead (body @ chunk) False ms
      else read_body max_bytes ms (received + int (length chunk)) (chunks + 1) (body @ chunk))"

text \<open>What the application receives on its \<open>n\<close>-th call of \<open>receive\<close>.\<close>

definition replay_receive :: "string \<Rightarrow> bool \<Rightarrow> nat \<Rightarrow> receive_message" where
  "replay_receive body disconnected n =
     (if n = 0 then (if disconnected then HttpDisconnect else HttpRequest body False)
      else HttpRequest [] False)"

definition reject_body :: "string \<Rightarrow> wire_response" where
  "reject_body request_id =
     \<lparr>wr_status = 413, wr_body = error_body request_id ''request_too_large'' too_large_message, wr_headers = []\<rparr>"

text \<open>
  The middleware for an HTTP scope; the requests here have no other. \<open>app\<close> takes the replayed
  messages; the unread ones stay with the connection.
\<close>

definition body_limit ::
  "int \<Rightarrow> string \<Rightarrow> ((nat \<Rightarrow> receive_message) \<Rightarrow> http_request \<Rightarrow> 's \<Rightarrow> wire_response option \<times> 's) \<Rightarrow> 's layer" where
  "body_limit max_bytes request_id app rq s =
     (if lengths_refused max_bytes (content_lengths max_bytes (hr_headers rq))
      then Done (Some (reject_body request_id)) (hr_messages rq) s
      else case read_body max_bytes (hr_messages rq) 0 0 [] of
             BodyPending \<Rightarrow> Waiting
           | BodyTooLarge ms \<Rightarrow> Done (Some (reject_body request_id)) ms s
           | BodyRead body disconnected ms \<Rightarrow>
               (case app (replay_receive body disconnected) rq s of (r, s) \<Rightarrow> Done r ms s))"

section \<open>CSRF\<close>

definition csrf_checked :: "http_request \<Rightarrow> bool" where
  "csrf_checked rq \<longleftrightarrow> prefix ''/api/v1/'' (hr_path rq)
     \<and> upper (hr_method rq) \<notin> {''GET'', ''HEAD'', ''OPTIONS''}"

definition text_or_empty :: "string option \<Rightarrow> string" where
  "text_or_empty x = (case x of None \<Rightarrow> [] | Some v \<Rightarrow> v)"

definition request_csrf_context :: "settings \<Rightarrow> runtime \<Rightarrow> request \<Rightarrow> string" where
  "request_csrf_context st rt rq =
     csrf_context rt (st_secret_key st)
       (text_or_empty (cookie_of rq (session_cookie_name st)))
       (text_or_empty (cookie_of rq (browser_cookie_name st)))"

definition csrf_valid :: "starlette \<Rightarrow> settings \<Rightarrow> runtime \<Rightarrow> instant \<Rightarrow> http_request \<Rightarrow> bool" where
  "csrf_valid sl st rt now rq =
     (let cookie = text_or_empty (cookie_of (hr_cookies rq) (csrf_cookie_name st));
          header = text_or_empty (sl_get_header sl ''X-CSRF-Token'' (hr_headers rq));
          context = request_csrf_context st rt (hr_cookies rq)
      in cookie \<noteq> [] \<and> header \<noteq> [] \<and> cookie = header \<and> context \<noteq> []
         \<and> verify_csrf rt (st_secret_key st) header (st_csrf_ttl_seconds st) context now)"

definition csrf_middleware ::
  "starlette \<Rightarrow> settings \<Rightarrow> runtime \<Rightarrow> instant \<Rightarrow> string \<Rightarrow> 's layer \<Rightarrow> 's layer" where
  "csrf_middleware sl st rt now request_id app rq s =
     (if csrf_checked rq \<and> \<not> csrf_valid sl st rt now rq
      then Done (Some \<lparr>wr_status = 403, wr_body = error_body request_id ''csrf_failed'' csrf_message,
                       wr_headers = []\<rparr>) (hr_messages rq) s
      else app rq s)"

section \<open>Security headers and the request id\<close>

definition security_headers :: "(string \<times> string) list" where
  "security_headers =
     [(''Cache-Control'', ''no-store, private''), (''Pragma'', ''no-cache''),
      (''X-Content-Type-Options'', ''nosniff''), (''X-Frame-Options'', ''DENY''),
      (''Referrer-Policy'', ''no-referrer''),
      (''Permissions-Policy'', ''camera=(), microphone=(), geolocation=()'')]"

definition set_headers :: "starlette \<Rightarrow> (string \<times> string) list \<Rightarrow> wire_response \<Rightarrow> wire_response" where
  "set_headers sl kvs r =
     r\<lparr>wr_headers := fold (\<lambda>(k, v) hs. sl_set_header sl k v hs) kvs (wr_headers r)\<rparr>"

definition security_headers_middleware :: "starlette \<Rightarrow> 's layer \<Rightarrow> 's layer" where
  "security_headers_middleware sl app rq s =
     (if \<not> prefix ''/api/'' (hr_path rq) then app rq s
      else map_response (set_headers sl security_headers) (app rq s))"

definition request_id_of :: "starlette \<Rightarrow> uuid \<Rightarrow> http_request \<Rightarrow> string" where
  "request_id_of sl fresh rq =
     (let given = text_or_empty (sl_get_header sl ''X-Request-ID'' (hr_headers rq))
      in if given = [] then uuid_text fresh
         else case parse_uuid given of None \<Rightarrow> uuid_text fresh | Some u \<Rightarrow> uuid_text u)"

definition request_context_middleware :: "starlette \<Rightarrow> string \<Rightarrow> 's layer \<Rightarrow> 's layer" where
  "request_context_middleware sl request_id app rq s =
     map_response (set_headers sl [(''X-Request-ID'', request_id)]) (app rq s)"

section \<open>The stack\<close>

definition trusted_host_middleware :: "starlette \<Rightarrow> settings \<Rightarrow> 's layer \<Rightarrow> 's layer" where
  "trusted_host_middleware sl st app rq s =
     (case sl_trusted_host sl (st_trusted_hosts st) rq of
        Some refusal \<Rightarrow> Done (Some refusal) (hr_messages rq) s
      | None \<Rightarrow> app rq s)"

definition cors_middleware :: "starlette \<Rightarrow> settings \<Rightarrow> 's layer \<Rightarrow> 's layer" where
  "cors_middleware sl st app rq s =
     (case sl_preflight sl (st_allowed_origins st) rq of
        Some answer \<Rightarrow> Done (Some answer) (hr_messages rq) s
      | None \<Rightarrow> map_response (sl_cors_headers sl (st_allowed_origins st) rq) (app rq s))"

type_synonym 's endpoint = "(nat \<Rightarrow> receive_message) \<Rightarrow> http_request \<Rightarrow> 's \<Rightarrow> (exception + wire_response) \<times> 's"

text \<open>\<open>create_app\<close>: everything a request passes on its way to the routed endpoint.\<close>

definition middleware_stack ::
  "starlette \<Rightarrow> settings \<Rightarrow> runtime \<Rightarrow> instant \<Rightarrow> string \<Rightarrow> 's endpoint \<Rightarrow> 's layer" where
  "middleware_stack sl st rt now request_id endpoint =
     request_context_middleware sl request_id
       (security_headers_middleware sl
         (cors_middleware sl st
           (trusted_host_middleware sl st
             (csrf_middleware sl st rt now request_id
               (body_limit (st_max_request_body_bytes st) request_id
                 (\<lambda>receive rq s. case endpoint receive rq s of
                    (r, s) \<Rightarrow> (exception_middleware request_id r, s)))))))"

definition serve ::
  "starlette \<Rightarrow> settings \<Rightarrow> runtime \<Rightarrow> instant \<Rightarrow> uuid \<Rightarrow> 's endpoint \<Rightarrow> 's layer" where
  "serve sl st rt now fresh endpoint rq s =
     (let request_id = request_id_of sl fresh rq
      in case middleware_stack sl st rt now request_id endpoint rq s of
           Done None ms s \<Rightarrow> Done (Some (handle_unexpected_error request_id)) ms s
         | x \<Rightarrow> x)"

text \<open>The interactive documentation is off in production.\<close>

definition docs_urls :: "settings \<Rightarrow> string option list" where
  "docs_urls st =
     (if st_environment st = Production then [None, None, None]
      else [Some ''/api/docs'', Some ''/api/redoc'', Some ''/api/openapi.json''])"

section \<open>System endpoints\<close>

definition liveness :: json where
  "liveness = JObj [(''status'', JStr ''ok'')]"

text \<open>A check that raises counts as failed; \<open>ping\<close> may also return a false value.\<close>

definition readiness :: "string \<Rightarrow> unit option \<Rightarrow> bool option \<Rightarrow> wire_response" where
  "readiness request_id select_1 ping =
     (let database = select_1 \<noteq> None;
          redis = (case ping of None \<Rightarrow> False | Some b \<Rightarrow> b)
      in if database \<and> redis
         then \<lparr>wr_status = 200, wr_body = JObj [(''status'', JStr ''ok'')], wr_headers = []\<rparr>
         else \<lparr>wr_status = 503,
                wr_body = JObj [(''error'', JObj
                  [(''code'', JStr ''not_ready''), (''message'', JStr not_ready_message),
                   (''request_id'', JStr request_id),
                   (''checks'', JObj [(''database'', JBool database), (''redis'', JBool redis)])])],
                wr_headers = []\<rparr>)"

definition meta :: "settings \<Rightarrow> string \<Rightarrow> json" where
  "meta st version =
     JObj [(''name'', JStr ''CTFnight''), (''version'', JStr version), (''api_version'', JStr ''v1''),
           (''session_cookie'', JStr (session_cookie_name st)), (''csrf_cookie'', JStr (csrf_cookie_name st)),
           (''csrf_header'', JStr ''X-CSRF-Token''),
           (''limits'', JObj
             [(''max_flag_length'', JInt (st_max_flag_length st)),
              (''max_request_body_bytes'', JInt (st_max_request_body_bytes st)),
              (''max_submissions_per_team_challenge'', JInt MAX_CHALLENGE_ATTEMPTS),
              (''max_submissions_per_team_event'', JInt (int MAX_SUBMISSIONS_PER_TEAM_EVENT)),
              (''max_members_per_team'', JInt (int MAX_MEMBERS_PER_TEAM)),
              (''max_participant_users'', JInt (int MAX_PARTICIPANT_USERS)),
              (''max_active_sessions_per_user'', JInt (int MAX_ACTIVE_SESSIONS_PER_USER)),
              (''max_public_scoreboard_entries'', JInt (int MAX_PUBLIC_SCOREBOARD_ENTRIES))]),
           (''features'', JObj
             [(''teams'', JBool True), (''dynamic_scoring'', JBool True),
              (''challenge_runtime'', JBool False), (''attack_defense'', JBool False)])]"

section \<open>The body limit reads no more than it may\<close>

lemma read_body_bound:
  "int (length body) = received \<Longrightarrow> received \<le> max_bytes \<Longrightarrow>
   read_body max_bytes ms received chunks body = BodyRead b d ms' \<Longrightarrow> int (length b) \<le> max_bytes"
  by (induction max_bytes ms received chunks body rule: read_body.induct) (auto split: if_splits)

lemma read_body_chunks:
  assumes "0 \<le> chunks" and "received = int (length body)"
  shows "read_body max_bytes (map (\<lambda>c. HttpRequest c True) cs @ HttpRequest c False # rest) received chunks body =
      BodyRead (body @ concat cs @ c) False rest
    \<or> (\<exists>ms. read_body max_bytes (map (\<lambda>c. HttpRequest c True) cs @ HttpRequest c False # rest) received chunks body
         = BodyTooLarge ms)
      \<and> (max_bytes < int (length (body @ concat cs @ c)) \<or> MAX_CHUNKS < chunks + int (length cs) + 1)"
  using assms
proof (induction cs arbitrary: received chunks body)
  case Nil
  then show ?case by auto
next
  case (Cons x cs)
  show ?case
  proof (cases "max_bytes < received + int (length x) \<or> MAX_CHUNKS < chunks + 1")
    case True
    then show ?thesis using Cons.prems by auto
  next
    case False
    have "0 \<le> chunks + 1" "received + int (length x) = int (length (body @ x))" using Cons.prems by auto
    from Cons.IH[OF this] show ?thesis using False by (auto simp: ac_simps)
  qed
qed

lemma read_body_count:
  "read_body mx (map (\<lambda>c. HttpRequest c True) cs @ HttpRequest c False # rest) received chunks body =
     BodyRead b d ms \<Longrightarrow> chunks + int (length cs) < MAX_CHUNKS"
proof (induction cs arbitrary: received chunks body)
  case Nil
  then show ?case by (auto split: if_splits)
next
  case (Cons x cs)
  then show ?case by (auto split: if_splits) fastforce
qed

lemma read_body_fits:
  assumes "received + int (length (concat cs @ c)) \<le> max_bytes" and "chunks + int (length cs) + 1 \<le> MAX_CHUNKS"
  shows "read_body max_bytes (map (\<lambda>c. HttpRequest c True) cs @ HttpRequest c False # rest) received chunks body =
      BodyRead (body @ concat cs @ c) False rest"
  using assms
proof (induction cs arbitrary: received chunks body)
  case Nil
  then show ?case by auto
next
  case (Cons x cs)
  then have "received + int (length x) + int (length (concat cs @ c)) \<le> max_bytes"
    "chunks + 1 + int (length cs) + 1 \<le> MAX_CHUNKS" by auto
  from Cons.IH[OF this] Cons.prems show ?case by auto
qed

text \<open>
  C29: the body limit. Whatever messages the client sends, the application is either not
  run, and the answer is 413, or receives a body of at most the limit, whole, in one
  message. A body sent in chunks reaches the application exactly when its length is
  within the limit and it has at most 4096 chunks, however the chunks are cut.
\<close>

theorem body_limit_exact:
  assumes "\<not> lengths_refused mx (content_lengths mx (hr_headers rq))" and "0 \<le> mx"
  shows "(body_limit mx rid app rq s = Waiting
      \<or> (\<exists>ms. body_limit mx rid app rq s = Done (Some (reject_body rid)) ms s)
      \<or> (\<exists>body d ms. int (length body) \<le> mx
          \<and> body_limit mx rid app rq s =
              (case app (replay_receive body d) rq s of (r, s) \<Rightarrow> Done r ms s)))
    \<and> (\<forall>cs c rest. hr_messages rq = map (\<lambda>c. HttpRequest c True) cs @ HttpRequest c False # rest \<longrightarrow>
        (if int (length (concat cs @ c)) \<le> mx \<and> length cs < 4096
         then body_limit mx rid app rq s =
                (case app (replay_receive (concat cs @ c) False) rq s of (r, s) \<Rightarrow> Done r rest s)
         else \<exists>ms. body_limit mx rid app rq s = Done (Some (reject_body rid)) ms s))"
proof (intro conjI allI impI)
  let ?r = "read_body mx (hr_messages rq) 0 0 []"
  have run: "body_limit mx rid app rq s = (case ?r of
      BodyPending \<Rightarrow> Waiting | BodyTooLarge ms \<Rightarrow> Done (Some (reject_body rid)) ms s
    | BodyRead body d ms \<Rightarrow> (case app (replay_receive body d) rq s of (r, s) \<Rightarrow> Done r ms s))"
    using assms(1) by (simp add: body_limit_def)
  show "body_limit mx rid app rq s = Waiting
      \<or> (\<exists>ms. body_limit mx rid app rq s = Done (Some (reject_body rid)) ms s)
      \<or> (\<exists>body d ms. int (length body) \<le> mx
          \<and> body_limit mx rid app rq s = (case app (replay_receive body d) rq s of (r, s) \<Rightarrow> Done r ms s))"
  proof (cases ?r)
    case (BodyRead body d ms)
    then have "int (length body) \<le> mx" using read_body_bound[of "[]" 0 mx] assms(2) by simp
    then show ?thesis unfolding run BodyRead by auto
  qed (auto simp: run)
  fix cs c rest
  assume m: "hr_messages rq = map (\<lambda>c. HttpRequest c True) cs @ HttpRequest c False # rest"
  show "if int (length (concat cs @ c)) \<le> mx \<and> length cs < 4096
        then body_limit mx rid app rq s =
               (case app (replay_receive (concat cs @ c) False) rq s of (r, s) \<Rightarrow> Done r rest s)
        else \<exists>ms. body_limit mx rid app rq s = Done (Some (reject_body rid)) ms s"
  proof (cases "int (length (concat cs @ c)) \<le> mx \<and> length cs < 4096")
    case True
    then have "?r = BodyRead (concat cs @ c) False rest"
      using read_body_fits[of 0 cs c mx 0 rest "[]"] m by (simp add: MAX_CHUNKS_def)
    then show ?thesis using True by (simp add: run)
  next
    case False
    have "\<exists>ms. ?r = BodyTooLarge ms"
    proof (rule ccontr)
      assume no: "\<nexists>ms. ?r = BodyTooLarge ms"
      then have r: "?r = BodyRead (concat cs @ c) False rest"
        using read_body_chunks[of 0 0 "[]" mx cs c rest] m by auto
      moreover have "int (length (concat cs @ c)) \<le> mx"
        using read_body_bound[OF _ _ r] assms(2) by simp
      ultimately have "4096 \<le> length cs" using False by simp
      then show False using read_body_count[OF r[unfolded m]] by (simp add: MAX_CHUNKS_def)
    qed
    then show ?thesis using False by (auto simp: run)
  qed
qed

section \<open>What reaches an endpoint\<close>

text \<open>A request that fails the CSRF check gets one answer, the same for every endpoint.\<close>

lemma csrf_refused:
  assumes "csrf_checked rq" and "\<not> csrf_valid sl st rt now rq"
  shows "\<exists>r. \<forall>endpoint. serve sl st rt now fresh endpoint rq s = Done (Some r) (hr_messages rq) s"
proof -
  let ?rid = "request_id_of sl fresh rq"
  define refusal where "refusal = \<lparr>wr_status = 403, wr_body = error_body ?rid ''csrf_failed'' csrf_message, wr_headers = []\<rparr>"
  define inner where "inner = (case sl_preflight sl (st_allowed_origins st) rq of
      Some answer \<Rightarrow> answer
    | None \<Rightarrow> sl_cors_headers sl (st_allowed_origins st) rq
        (case sl_trusted_host sl (st_trusted_hosts st) rq of Some x \<Rightarrow> x | None \<Rightarrow> refusal))"
  define secured where "secured = (if prefix ''/api/'' (hr_path rq) then set_headers sl security_headers inner else inner)"
  have "serve sl st rt now fresh endpoint rq s
      = Done (Some (set_headers sl [(''X-Request-ID'', ?rid)] secured)) (hr_messages rq) s" for endpoint
    using assms
    by (simp add: serve_def Let_def middleware_stack_def request_context_middleware_def
        security_headers_middleware_def cors_middleware_def trusted_host_middleware_def csrf_middleware_def
        secured_def inner_def refusal_def split: option.splits)
  then show ?thesis by blast
qed

text \<open>
  What a token must be bound to: the session of the request, or its browser cookie when it
  has no session. A request with neither has no context of its own.
\<close>

definition own_context :: "settings \<Rightarrow> runtime \<Rightarrow> request \<Rightarrow> string \<Rightarrow> bool" where
  "own_context st rt rq context \<longleftrightarrow>
     (\<exists>session. cookie_of rq (session_cookie_name st) = Some session \<and> session \<noteq> []
        \<and> context = keyed_hash rt (st_secret_key st) ''csrf-session'' session)
     \<or> (cookie_of rq (session_cookie_name st) \<in> {None, Some []}
        \<and> (\<exists>browser. cookie_of rq (browser_cookie_name st) = Some browser \<and> browser \<noteq> []
             \<and> context = keyed_hash rt (st_secret_key st) ''csrf-browser'' browser))"

text \<open>
  What the documentation of the serializer promises: it reads only what was written with
  the same key and salt, and only until the token is too old.
\<close>

definition signatures_sound :: "runtime \<Rightarrow> string \<Rightarrow> bool" where
  "signatures_sound rt secret \<longleftrightarrow> (\<forall>token max_age now v. rt_loads rt secret csrf_salt token max_age now = Some v \<longrightarrow>
     (\<exists>t. token = rt_dumps rt secret csrf_salt v t \<and> token_age_ok t now max_age))"

lemma verify_csrf_Some:
  assumes "verify_csrf rt secret token max_age context now"
  obtains "value" nonce where "rt_loads rt secret csrf_salt token max_age now = Some (JObj value)"
    and "map_of value ''nonce'' = Some (JStr nonce)" and "24 \<le> length nonce"
    and "map_of value ''context'' = Some (JStr context)"
proof -
  obtain fields where l: "rt_loads rt secret csrf_salt token max_age now = Some (JObj fields)"
    using assms unfolding verify_csrf_def by (auto split: option.split_asm json.split_asm)
  have v: "case map_of fields ''nonce'' of
      Some (JStr nonce) \<Rightarrow> 24 \<le> length nonce
        \<and> (case map_of fields ''context'' of Some (JStr c) \<Rightarrow> c = context | _ \<Rightarrow> False)
    | _ \<Rightarrow> False"
    using assms unfolding verify_csrf_def l by simp
  obtain nonce where n: "map_of fields ''nonce'' = Some (JStr nonce)"
    using v by (cases "map_of fields ''nonce''") (auto split: json.split_asm)
  then have c: "24 \<le> length nonce" "case map_of fields ''context'' of Some (JStr c) \<Rightarrow> c = context | _ \<Rightarrow> False"
    using v by simp_all
  have "map_of fields ''context'' = Some (JStr context)"
    using c(2) by (cases "map_of fields ''context''") (auto split: json.split_asm)
  then show thesis using that l n c(1) by blast
qed

lemma csrf_context_own:
  assumes "request_csrf_context st rt rq \<noteq> []"
  shows "own_context st rt rq (request_csrf_context st rt rq)"
  using assms by (auto simp: request_csrf_context_def csrf_context_def own_context_def text_or_empty_def
      split: option.splits if_splits)

text \<open>
  C30: CSRF. A request under \<open>/api/v1/\<close> with a method other than GET, HEAD or OPTIONS is
  answered without running the endpoint, without reading its body and without a change of
  the state (the answer is the same whatever the endpoint is), unless it carries, as the
  header and again as the cookie, one and the same token that was signed with the secret
  key for the context of its own session or browser and has not expired. So no token, only
  one of the two, two different ones, a forged one repeated in both, one of another session
  and an expired one are all refused, and so is a request without session and browser cookie.
\<close>

theorem csrf_refusal:
  assumes "csrf_checked rq" and "signatures_sound rt (st_secret_key st)"
  shows "(\<exists>r. \<forall>endpoint. serve sl st rt now fresh endpoint rq s = Done (Some r) (hr_messages rq) s)
    \<or> (\<exists>token fields nonce context t. token \<noteq> []
         \<and> sl_get_header sl ''X-CSRF-Token'' (hr_headers rq) = Some token
         \<and> cookie_of (hr_cookies rq) (csrf_cookie_name st) = Some token
         \<and> token = rt_dumps rt (st_secret_key st) csrf_salt (JObj fields) t
         \<and> token_age_ok t now (st_csrf_ttl_seconds st)
         \<and> map_of fields ''nonce'' = Some (JStr nonce) \<and> 24 \<le> length nonce
         \<and> map_of fields ''context'' = Some (JStr context) \<and> own_context st rt (hr_cookies rq) context)"
proof (cases "csrf_valid sl st rt now rq")
  case False
  show ?thesis by (rule disjI1[OF csrf_refused[OF assms(1) False]])
next
  case True
  let ?header = "sl_get_header sl ''X-CSRF-Token'' (hr_headers rq)"
  let ?cookie = "cookie_of (hr_cookies rq) (csrf_cookie_name st)"
  let ?own = "request_csrf_context st rt (hr_cookies rq)"
  have v: "text_or_empty ?header \<noteq> []" "text_or_empty ?cookie = text_or_empty ?header" "?own \<noteq> []"
    "verify_csrf rt (st_secret_key st) (text_or_empty ?header) (st_csrf_ttl_seconds st) ?own now"
    using True by (auto simp: csrf_valid_def Let_def)
  obtain token where token: "?header = Some token" "token \<noteq> []"
    using v(1) by (cases ?header) (simp_all add: text_or_empty_def)
  then have same: "?cookie = Some token"
    using v(2) by (cases ?cookie) (simp_all add: text_or_empty_def)
  obtain fields nonce where f: "rt_loads rt (st_secret_key st) csrf_salt token (st_csrf_ttl_seconds st) now = Some (JObj fields)"
    "map_of fields ''nonce'' = Some (JStr nonce)" "24 \<le> length nonce"
    "map_of fields ''context'' = Some (JStr ?own)"
    by (rule verify_csrf_Some[OF v(4)[unfolded token(1) text_or_empty_def option.case]])
  obtain t where "token = rt_dumps rt (st_secret_key st) csrf_salt (JObj fields) t"
    "token_age_ok t now (st_csrf_ttl_seconds st)"
    using assms(2) f(1) unfolding signatures_sound_def by blast
  then show ?thesis using token same f csrf_context_own[OF v(3)] by blast
qed

text \<open>The header collection: a header that was set is the value found, under any case.\<close>

definition header_laws :: "starlette \<Rightarrow> bool" where
  "header_laws sl \<longleftrightarrow>
     (\<forall>k v hs. sl_get_header sl k (sl_set_header sl k v hs) = Some v)
     \<and> (\<forall>k k' v hs. lower k \<noteq> lower k' \<longrightarrow>
          sl_get_header sl k' (sl_set_header sl k v hs) = sl_get_header sl k' hs)
     \<and> (\<forall>k. sl_get_header sl k [] = None)"

lemma set_headers_get:
  assumes "header_laws sl" and "distinct (map (lower \<circ> fst) kvs)"
  shows "(k, v) \<in> set kvs \<Longrightarrow> sl_get_header sl k (wr_headers (set_headers sl kvs r)) = Some v"
    and "lower k \<notin> set (map (lower \<circ> fst) kvs) \<Longrightarrow>
      sl_get_header sl k (wr_headers (set_headers sl kvs r)) = sl_get_header sl k (wr_headers r)"
proof -
  let ?f = "\<lambda>(k, v) hs. sl_set_header sl k v hs"
  have other: "lower k \<notin> set (map (lower \<circ> fst) kvs) \<Longrightarrow>
      sl_get_header sl k (fold ?f kvs hs) = sl_get_header sl k hs" for kvs hs
    using assms(1) by (induction kvs arbitrary: hs) (auto simp: header_laws_def)
  have found: "distinct (map (lower \<circ> fst) kvs) \<Longrightarrow> (k, v) \<in> set kvs \<Longrightarrow>
      sl_get_header sl k (fold ?f kvs hs) = Some v" for kvs hs
  proof (induction kvs arbitrary: hs)
    case Nil
    then show ?case by simp
  next
    case (Cons x kvs)
    then show ?case using other[of kvs] assms(1) by (auto simp: header_laws_def)
  qed
  show "(k, v) \<in> set kvs \<Longrightarrow> sl_get_header sl k (wr_headers (set_headers sl kvs r)) = Some v"
    using found[OF assms(2)] by (simp add: set_headers_def)
  show "lower k \<notin> set (map (lower \<circ> fst) kvs) \<Longrightarrow>
      sl_get_header sl k (wr_headers (set_headers sl kvs r)) = sl_get_header sl k (wr_headers r)"
    using other by (simp add: set_headers_def)
qed

lemma security_headers_distinct: "distinct (map (lower \<circ> fst) security_headers)"
  by (simp add: security_headers_def lower_def lower_char_def)

lemma request_id_header_apart: "lower ''X-Request-ID'' \<notin> set (map (lower \<circ> fst) security_headers)"
  by (simp add: security_headers_def lower_def lower_char_def)

lemma body_limit_answers:
  assumes "\<And>receive. fst (app receive rq s) \<noteq> None"
  shows "body_limit mx rid app rq s \<noteq> Done None ms s'"
proof (cases "lengths_refused mx (content_lengths mx (hr_headers rq))")
  case False
  show ?thesis
  proof (cases "read_body mx (hr_messages rq) 0 0 []")
    case (BodyRead body d rest)
    then show ?thesis using False assms[of "replay_receive body d"]
      by (cases "app (replay_receive body d) rq s") (auto simp: body_limit_def)
  qed (use False in \<open>auto simp: body_limit_def\<close>)
qed (simp add: body_limit_def)

text \<open>Below the header middlewares every request is answered, or its body is still awaited.\<close>

lemma exception_answers:
  assumes "\<And>receive s. fst (endpoint receive rq s) \<noteq> Inl OtherException"
  shows "fst (case endpoint receive rq s of (r, s) \<Rightarrow> (exception_middleware rid r, s)) \<noteq> None"
proof (cases "endpoint receive rq s")
  case (Pair x s1)
  then have "x \<noteq> Inl OtherException" using assms[of receive s] by simp
  then show ?thesis using Pair by (cases "(rid, x)" rule: exception_middleware.cases) auto
qed

lemma inner_answers:
  assumes "\<And>receive s. fst (endpoint receive rq s) \<noteq> Inl OtherException"
  shows "cors_middleware sl st (trusted_host_middleware sl st (csrf_middleware sl st rt now rid
    (body_limit n rid (\<lambda>receive rq s. case endpoint receive rq s of (r, s) \<Rightarrow> (exception_middleware rid r, s)))))
    rq s \<noteq> Done None ms s'"
proof -
  let ?limit = "body_limit n rid (\<lambda>receive rq s. case endpoint receive rq s of (r, s) \<Rightarrow> (exception_middleware rid r, s))"
  have limit: "?limit rq s \<noteq> Done None ms s'" for ms s'
    by (rule body_limit_answers, rule exception_answers, rule assms)
  have "trusted_host_middleware sl st (csrf_middleware sl st rt now rid ?limit) rq s \<noteq> Done None ms s'" for ms s'
    using limit by (auto simp: trusted_host_middleware_def csrf_middleware_def split: option.splits)
  then show ?thesis
    by (cases "trusted_host_middleware sl st (csrf_middleware sl st rt now rid ?limit) rq s")
      (auto simp: cors_middleware_def split: option.splits)
qed

text \<open>
  Every response the handlers of the service produce for a path under \<open>/api/\<close>, and
  every refusal of a middleware, carries all security headers and the request id,
  whatever headers the endpoint set, unless the endpoint raised an exception no handler
  names.
\<close>

theorem responses_hardened:
  assumes "header_laws sl" and "prefix ''/api/'' (hr_path rq)"
    and "\<And>receive s. fst (endpoint receive rq s) \<noteq> Inl OtherException"
    and "serve sl st rt now fresh endpoint rq s = Done r ms s'"
  shows "\<exists>resp. r = Some resp
    \<and> (\<forall>(k, v) \<in> set security_headers. sl_get_header sl k (wr_headers resp) = Some v)
    \<and> sl_get_header sl ''X-Request-ID'' (wr_headers resp) = Some (request_id_of sl fresh rq)"
proof -
  let ?rid = "request_id_of sl fresh rq"
  let ?app = "\<lambda>receive rq s. case endpoint receive rq s of (r, s) \<Rightarrow> (exception_middleware ?rid r, s)"
  let ?limit = "body_limit (st_max_request_body_bytes st) ?rid ?app"
  define inner where "inner = cors_middleware sl st (trusted_host_middleware sl st
      (csrf_middleware sl st rt now ?rid ?limit)) rq s"
  have inner: "inner \<noteq> Done None ms s'" for ms s'
    unfolding inner_def by (rule inner_answers) (rule assms(3))
  have stack: "middleware_stack sl st rt now ?rid endpoint rq s =
      map_response (set_headers sl [(''X-Request-ID'', ?rid)]) (map_response (set_headers sl security_headers) inner)"
    using assms(2)
    by (simp add: middleware_stack_def request_context_middleware_def security_headers_middleware_def inner_def)
  show ?thesis
  proof (cases inner)
    case Waiting
    then show ?thesis using assms(4) stack by (simp add: serve_def Let_def)
  next
    case (Done x ms1 s1)
    then obtain y where y: "x = Some y" using inner[of ms1 s1] by (cases x) auto
    let ?z = "set_headers sl security_headers y"
    have "r = Some (set_headers sl [(''X-Request-ID'', ?rid)] ?z)"
      using assms(4) stack Done y by (simp add: serve_def Let_def)
    moreover have "sl_get_header sl k (wr_headers (set_headers sl [(''X-Request-ID'', ?rid)] ?z)) = Some v"
      if kv: "(k, v) \<in> set security_headers" for k v
    proof -
      have "lower k \<in> set (map (lower \<circ> fst) security_headers)" using kv by force
      then have "lower k \<noteq> lower ''X-Request-ID''" using request_id_header_apart by metis
      then show ?thesis
        using set_headers_get(1)[OF assms(1) security_headers_distinct kv]
          set_headers_get(2)[OF assms(1), of "[(''X-Request-ID'', ?rid)]" k] by auto
    qed
    moreover have "sl_get_header sl ''X-Request-ID'' (wr_headers (set_headers sl [(''X-Request-ID'', ?rid)] ?z)) = Some ?rid"
      using set_headers_get(1)[OF assms(1), of "[(''X-Request-ID'', ?rid)]"] by simp
    ultimately show ?thesis by blast
  qed
qed

text \<open>
  An exception no handler names is answered by the handler of \<open>Exception\<close> outside of
  every middleware: when a request passes the checks and its endpoint raises one, the
  500 answer has none of the security headers and no request id header.
\<close>

theorem unexpected_error_bare:
  assumes "header_laws sl" and "sl_preflight sl (st_allowed_origins st) rq = None"
    and "sl_trusted_host sl (st_trusted_hosts st) rq = None"
    and "\<not> csrf_checked rq \<or> csrf_valid sl st rt now rq"
    and "hr_messages rq = [HttpRequest [] False]"
    and "content_lengths (st_max_request_body_bytes st) (hr_headers rq) = []" and "0 \<le> st_max_request_body_bytes st"
    and "endpoint (replay_receive [] False) rq s = (Inl OtherException, s')"
  shows "\<exists>resp. serve sl st rt now fresh endpoint rq s = Done (Some resp) [] s'
    \<and> wr_status resp = 500 \<and> sl_get_header sl ''X-Request-ID'' (wr_headers resp) = None
    \<and> (\<forall>(k, v) \<in> set security_headers. sl_get_header sl k (wr_headers resp) = None)"
proof -
  let ?rid = "request_id_of sl fresh rq"
  have csrf: "csrf_middleware sl st rt now ?rid app rq s = app rq s" for app :: "'a layer"
    using assms(4) by (auto simp: csrf_middleware_def)
  have "body_limit (st_max_request_body_bytes st) ?rid
      (\<lambda>receive rq s. case endpoint receive rq s of (r, s) \<Rightarrow> (exception_middleware ?rid r, s)) rq s = Done None [] s'"
    using assms(5-8) by (simp add: body_limit_def lengths_refused_def MAX_CHUNKS_def)
  then have "serve sl st rt now fresh endpoint rq s = Done (Some (handle_unexpected_error ?rid)) [] s'"
    using assms(2,3) csrf
    by (simp add: serve_def Let_def middleware_stack_def request_context_middleware_def
        security_headers_middleware_def cors_middleware_def trusted_host_middleware_def)
  then show ?thesis using assms(1) by (simp add: handle_unexpected_error_def header_laws_def)
qed

section \<open>The request id\<close>

lemma hex_digit_value: "d < 16 \<Longrightarrow> digit_value 16 (''0123456789abcdef'' ! d) = Some d"
proof -
  have "list_all (\<lambda>d. digit_value 16 (''0123456789abcdef'' ! d) = Some d) [0..<16]" by code_simp
  then show "d < 16 \<Longrightarrow> digit_value 16 (''0123456789abcdef'' ! d) = Some d" by (simp add: list_all_iff)
qed

lemma set_hex_digits: "c \<in> set (hex_digits k n) \<Longrightarrow> \<exists>d < 16. c = ''0123456789abcdef'' ! d"
  by (induction k arbitrary: n) (auto intro: exI[of _ "n mod 16" for n])

lemma length_hex_digits [simp]: "length (hex_digits k n) = k"
  by (induction k arbitrary: n) auto

lemma hex_digits_valid: "\<forall>c \<in> set (hex_digits k n). digit_value 16 c \<noteq> None"
  using set_hex_digits hex_digit_value by fastforce

lemma more_digits_hex: "more_digits 16 acc (hex_digits k n) = Some (acc * 16 ^ k + n mod 16 ^ k)"
proof (induction k arbitrary: n)
  case 0
  then show ?case by simp
next
  case (Suc k)
  have "16 * (acc * 16 ^ k + n div 16 mod 16 ^ k) + n mod 16 = acc * 16 ^ Suc k + n mod 16 ^ Suc k"
    by (simp add: mod_mult2_eq algebra_simps)
  moreover have "more_digits 16 acc (hex_digits (Suc k) n)
      = map_option (\<lambda>m. 16 * m + n mod 16) (more_digits 16 acc (hex_digits k (n div 16)))"
    using more_digits_append[OF hex_digits_valid hex_digit_value[of "n mod 16"]] by simp
  ultimately show ?case using Suc by simp
qed

lemma unsigned_int_hex: "0 < k \<Longrightarrow> unsigned_int 16 (hex_digits k n) = Some (n mod 16 ^ k)"
proof -
  assume "0 < k"
  then obtain c cs where c: "hex_digits k n = c # cs" by (cases "hex_digits k n") (auto dest: arg_cong[of _ _ length])
  then obtain d where d: "digit_value 16 c = Some d" using hex_digits_valid[of k n] by auto
  have "more_digits 16 0 (c # cs) = more_digits 16 d cs" using d by (cases cs) auto
  then show ?thesis using more_digits_hex[of 0 k n] c d by (simp add: unsigned_int_def)
qed

lemma hex_digits_chars: "set (hex_digits k n) \<subseteq> set ''0123456789abcdef''"
proof
  fix c
  assume "c \<in> set (hex_digits k n)"
  then obtain d where "d < 16" "c = ''0123456789abcdef'' ! d" using set_hex_digits by blast
  then show "c \<in> set ''0123456789abcdef''" by (simp only:) (rule nth_mem, simp)
qed

lemma uuid_text_chars: "set (uuid_text u) \<subseteq> insert CHR ''-'' (set ''0123456789abcdef'')"
proof -
  have "set (uuid_text u) \<subseteq> insert CHR ''-'' (set (hex_digits 32 u))"
    by (auto simp: uuid_text_def Let_def dest: in_set_takeD in_set_dropD)
  then show ?thesis using hex_digits_chars by blast
qed

lemma uuid_text_digits: "filter (\<lambda>x. x \<noteq> CHR ''-'') (uuid_text u) = hex_digits 32 u"
proof -
  let ?h = "hex_digits 32 u"
  have "CHR ''-'' \<notin> set ?h" using hex_digits_chars[of 32 u] by auto
  then have f: "filter (\<lambda>x. x \<noteq> CHR ''-'') xs = xs" if "set xs \<subseteq> set ?h" for xs
    using that by (auto simp: filter_id_conv)
  have "filter (\<lambda>x. x \<noteq> CHR ''-'') (uuid_text u) =
      take 8 ?h @ take 4 (drop 8 ?h) @ take 4 (drop 12 ?h) @ take 4 (drop 16 ?h) @ drop 20 ?h"
    using f by (simp add: uuid_text_def Let_def set_take_subset set_drop_subset
        order.trans[OF set_take_subset set_drop_subset])
  also have "\<dots> = ?h"
    by (simp add: append_assoc[symmetric] take_add[symmetric] del: append_assoc)
  finally show ?thesis .
qed

lemma parse_uuid_text:
  assumes "u < 2 ^ 128"
  shows "parse_uuid (uuid_text u) = Some u"
proof -
  let ?h = "hex_digits 32 u"
  have "set (uuid_text u) \<inter> {CHR '':'', CHR ''{'', CHR ''}''} = {}" using uuid_text_chars[of u] by auto
  then have "remove_all ''uuid:'' (remove_all ''urn:'' (uuid_text u)) = uuid_text u"
    and "strip_chars {CHR ''{'', CHR ''}''} (uuid_text u) = uuid_text u"
    by (auto simp: remove_all_free[of "CHR '':''"] intro!: strip_chars_none)
  moreover have "int_base16 ?h = Some (int u)"
  proof -
    have c: "set ?h \<subseteq> set ''0123456789abcdef''" by (rule hex_digits_chars)
    obtain x y zs where h: "?h = x # y # zs"
      by (cases ?h; cases "tl ?h") (auto dest: arg_cong[of _ _ length])
    have s: "strip ?h = ?h" using c by (intro strip_none) (auto simp: is_space_def)
    have "split_sign ?h = (False, ?h)" using c h by (auto simp: split_sign_def)
    moreover have "drop_hex_prefix ?h = ?h" using c h by (auto simp: drop_hex_prefix_def)
    ultimately show ?thesis using s assms by (simp add: int_base16_def unsigned_int_hex signed_def)
  qed
  ultimately show ?thesis
    using assms by (simp add: parse_uuid_def Let_def remove_all_single uuid_text_digits)
qed

text \<open>
  The request id. Whatever the client sends in \<open>X-Request-ID\<close>, the id of the request,
  which goes to the log and to the error bodies, is the canonical text of a uuid, 36 hex
  digits and hyphens; a canonical id the client sends is kept.
\<close>

theorem request_id_canonical:
  assumes "fresh < 2 ^ 128"
  shows "(\<exists>u < 2 ^ 128. request_id_of sl fresh rq = uuid_text u)
    \<and> length (request_id_of sl fresh rq) = 36
    \<and> set (request_id_of sl fresh rq) \<subseteq> insert CHR ''-'' (set ''0123456789abcdef'')
    \<and> (\<forall>u < 2 ^ 128. sl_get_header sl ''X-Request-ID'' (hr_headers rq) = Some (uuid_text u) \<longrightarrow>
         request_id_of sl fresh rq = uuid_text u)"
proof -
  have bound: "u < 2 ^ 128" if "parse_uuid t = Some u" for t u
    using that by (auto simp: parse_uuid_def Let_def split: if_splits option.splits)
  have len: "length (uuid_text u) = 36" for u by (simp add: uuid_text_def Let_def)
  have ex: "\<exists>u < 2 ^ 128. request_id_of sl fresh rq = uuid_text u"
    using assms bound by (auto simp: request_id_of_def Let_def split: option.splits)
  have "request_id_of sl fresh rq = uuid_text u"
    if "u < 2 ^ 128" "sl_get_header sl ''X-Request-ID'' (hr_headers rq) = Some (uuid_text u)" for u
    using that len[of u] parse_uuid_text[of u] by (auto simp: request_id_of_def Let_def text_or_empty_def)
  moreover obtain v where "request_id_of sl fresh rq = uuid_text v" using ex by blast
  ultimately show ?thesis using ex len[of v] uuid_text_chars[of v] by simp
qed

section \<open>Examples\<close>

text \<open>Headers as an association list; no CORS; every host is trusted.\<close>

definition sample_starlette :: starlette where
  "sample_starlette = \<lparr>
     sl_set_header = (\<lambda>k v hs. (k, v) # filter (\<lambda>(k', _). lower k' \<noteq> lower k) hs),
     sl_get_header = (\<lambda>k hs. map_option snd (find (\<lambda>(k', _). lower k' = lower k) hs)),
     sl_trusted_host = (\<lambda>_ _. None), sl_preflight = (\<lambda>_ _. None), sl_cors_headers = (\<lambda>_ _ r. r)\<rparr>"

lemma sample_header_laws: "header_laws sample_starlette"
proof -
  have "find (\<lambda>(k', _). lower k' = a) (filter (\<lambda>(k', _). lower k' \<noteq> b) hs) = find (\<lambda>(k', _). lower k' = a) hs"
    if "a \<noteq> b" for a b :: string and hs :: headers
    using that by (induction hs) auto
  then show ?thesis by (auto simp: header_laws_def sample_starlette_def)
qed

definition sample_http :: "string \<Rightarrow> headers \<Rightarrow> receive_message list \<Rightarrow> http_request" where
  "sample_http meth hs ms = \<lparr>hr_path = ''/api/v1/auth/login'', hr_method = meth, hr_headers = hs,
     hr_cookies = sample_request ''old'', hr_messages = ms\<rparr>"

definition echo :: "nat endpoint" where
  "echo receive rq n = (Inr \<lparr>wr_status = 200, wr_body = JNull, wr_headers = [(''cache-control'', ''public'')]\<rparr>, n + 1)"

lemma body_limit_exact_witness:
  "body_limit 5 ''id'' (\<lambda>receive rq n. (None, n + 1)) (sample_http ''POST'' [] [HttpRequest ''ab'' True, HttpRequest ''cde'' False]) (0 :: nat)
     = Done None [] 1
   \<and> (\<exists>ms. body_limit 5 ''id'' (\<lambda>receive rq n. (None, n + 1)) (sample_http ''POST'' [] [HttpRequest ''ab'' True, HttpRequest ''cdef'' False]) (0 :: nat)
     = Done (Some (reject_body ''id'')) ms 0)"
proof -
  have a: "\<not> lengths_refused 5 (content_lengths 5 (hr_headers (sample_http ''POST'' [] ms)))" for ms
    by (simp add: sample_http_def lengths_refused_def content_lengths_def)
  note B = body_limit_exact[where mx = 5 and rid = "''id''" and app = "\<lambda>receive rq n. (None, n + 1)" and s = "0 :: nat",
      OF a, THEN conjunct2, rule_format]
  show ?thesis
    using B[of "[HttpRequest ''ab'' True, HttpRequest ''cde'' False]" "[''ab'']" "''cde''" "[]"]
      B[of "[HttpRequest ''ab'' True, HttpRequest ''cdef'' False]" "[''ab'']" "''cdef''" "[]"]
    by (simp add: sample_http_def)
qed

text \<open>A serializer with one token; requests without a token and with a forged one in both places.\<close>

definition one_token :: runtime where
  "one_token = sample_runtime\<lparr>rt_loads := \<lambda>secret salt token max_age now.
     if token = ''token'' then rt_loads sample_runtime secret salt token max_age now else None\<rparr>"

lemma one_token_sound: "signatures_sound one_token secret"
  by (auto simp: signatures_sound_def one_token_def sample_runtime_def split: if_splits)

definition forged_http :: http_request where
  "forged_http = (sample_http ''POST'' [(''X-CSRF-Token'', ''forged'')] [])
     \<lparr>hr_cookies := (sample_request ''old'')\<lparr>rq_cookies := [(''alpha_session'', ''old''), (''alpha_csrf'', ''forged'')]\<rparr>\<rparr>"

lemma csrf_refusal_witness:
  "(\<exists>r. serve sample_starlette sample_settings one_token 0 7 echo (sample_http ''POST'' [] []) 0 = Done (Some r) [] 0)
   \<and> (\<exists>r. serve sample_starlette sample_settings one_token 0 7 echo forged_http 0 = Done (Some r) [] 0)"
proof (rule conjI)
  have "csrf_checked (sample_http ''POST'' [] [])"
    by (simp add: csrf_checked_def sample_http_def upper_def upper_char_def)
  from csrf_refusal[OF this one_token_sound, of sample_starlette sample_settings 0 7 0]
  show "\<exists>r. serve sample_starlette sample_settings one_token 0 7 echo (sample_http ''POST'' [] []) 0 = Done (Some r) [] 0"
    by (auto simp: sample_starlette_def sample_http_def)
next
  have "csrf_checked forged_http"
    by (simp add: csrf_checked_def forged_http_def sample_http_def upper_def upper_char_def)
  from csrf_refusal[OF this one_token_sound, of sample_starlette sample_settings 0 7 0]
  show "\<exists>r. serve sample_starlette sample_settings one_token 0 7 echo forged_http 0 = Done (Some r) [] 0"
    by (auto simp: sample_starlette_def forged_http_def sample_http_def one_token_def sample_runtime_def)
qed

lemma responses_hardened_witness:
  "\<exists>r ms s'. serve sample_starlette sample_settings sample_runtime 0 7 echo
      (sample_http ''GET'' [] [HttpRequest [] False]) 0 = Done (Some r) ms s'
    \<and> sl_get_header sample_starlette ''Cache-Control'' (wr_headers r) = Some ''no-store, private''"
proof -
  let ?rq = "sample_http ''GET'' [] [HttpRequest [] False]"
  have run: "serve sample_starlette sample_settings sample_runtime 0 7 echo ?rq 0 \<noteq> Waiting"
    by (simp add: serve_def Let_def middleware_stack_def request_context_middleware_def
        security_headers_middleware_def cors_middleware_def trusted_host_middleware_def csrf_middleware_def
        body_limit_def sample_starlette_def sample_http_def csrf_checked_def upper_def upper_char_def
        content_lengths_def lengths_refused_def MAX_CHUNKS_def echo_def sample_settings_def)
  then obtain r ms s' where r: "serve sample_starlette sample_settings sample_runtime 0 7 echo ?rq 0 = Done r ms s'"
    by (cases "serve sample_starlette sample_settings sample_runtime 0 7 echo ?rq 0") auto
  have p: "prefix ''/api/'' (hr_path ?rq)" by (simp add: sample_http_def)
  have e: "fst (echo receive ?rq s) \<noteq> Inl OtherException" for receive s by (simp add: echo_def)
  have "(''Cache-Control'', ''no-store, private'') \<in> set security_headers" by (simp add: security_headers_def)
  then show ?thesis using responses_hardened[OF sample_header_laws p e r] r by fastforce
qed

lemma unexpected_error_bare_witness:
  "\<exists>resp. serve sample_starlette sample_settings sample_runtime 0 7 (\<lambda>receive rq n. (Inl OtherException, n))
      (sample_http ''GET'' [] [HttpRequest [] False]) (3 :: nat) = Done (Some resp) [] 3 \<and> wr_status resp = 500"
proof -
  let ?rq = "sample_http ''GET'' [] [HttpRequest [] False]"
  have c: "\<not> csrf_checked ?rq \<or> csrf_valid sample_starlette sample_settings sample_runtime 0 ?rq"
    by (simp add: csrf_checked_def sample_http_def upper_def upper_char_def)
  show ?thesis
    using unexpected_error_bare[OF sample_header_laws _ _ c, where endpoint = "\<lambda>receive rq n. (Inl OtherException, n)"
        and s = "3 :: nat" and s' = 3 and fresh = 7]
    by (simp add: sample_starlette_def sample_http_def content_lengths_def sample_settings_def) metis
qed

lemma request_id_canonical_witness:
  "length (request_id_of sample_starlette 7 (sample_http ''GET'' [(''x-request-id'', ''<script>'')] [])) = 36"
proof -
  have "(7 :: nat) < 2 ^ 128" by simp
  from request_id_canonical[OF this] show ?thesis by blast
qed

end
