(* ===== verification/Cli.thy ===== *)
theory Cli
  imports Schemas Pytext
begin

text \<open>
  The command line of backend/src/alpha/cli.py: \<open>bootstrap\<close>, \<open>set-password\<close> and
  \<open>import-challenge\<close>, each one transaction, and the exit status of \<open>main\<close>. A failure
  leaves the database as it was. YAML parsing with the decoding of the types is a
  parameter of the import. Korean texts are given as UTF-8 bytes.

  Identifiers of bootstrap: 0 event, 1 its audit, 2 administrator, 3 audit, 4 outbox,
  5 and 6 demo challenges, 7 announcement; of the import: 0 challenge, 1 audit, 2 outbox.
\<close>

section \<open>Errors\<close>

datatype cli_error =
    RuntimeFailure string
  | ApiFailure api_error
  | DatabaseFailure
  | ValidationFailure json
  | YamlFailure "(int \<times> int) option"

type_synonym 'a cli = "cli_error + 'a"

definition api_step :: "'a result \<Rightarrow> 'a cli" where
  "api_step r = (case r of Inl e \<Rightarrow> Inl (ApiFailure e) | Inr a \<Rightarrow> Inr a)"

lemma api_step_Inr [simp]: "api_step r = Inr a \<longleftrightarrow> r = Inr a"
  by (cases r) (auto simp: api_step_def)

definition db_step :: "'a option \<Rightarrow> 'a cli" where
  "db_step x = (case x of None \<Rightarrow> Inl DatabaseFailure | Some a \<Rightarrow> Inr a)"

lemma db_step_Inr [simp]: "db_step x = Inr a \<longleftrightarrow> x = Some a"
  by (cases x) (auto simp: db_step_def)

abbreviation ensure :: "bool \<Rightarrow> string \<Rightarrow> unit cli" where
  "ensure b message \<equiv> guard (RuntimeFailure message) b"

text \<open>\<open>PasswordWorkBusy\<close> is a \<open>RuntimeError\<close>, raised without a message.\<close>

definition cli_hash_password :: "runtime \<Rightarrow> world \<Rightarrow> string \<Rightarrow> string cli" where
  "cli_hash_password rt w password =
     (case hash_password rt (w_slot_free w 0) (w_token w 0) password of
        Inl _ \<Rightarrow> Inl (RuntimeFailure []) | Inr h \<Rightarrow> Inr h)"

section \<open>bootstrap\<close>

definition event_welcome :: string where
  "event_welcome = map char_of [67, 84, 70, 110, 105, 103, 104, 116, 236, 151, 144, 32, 236, 152, 164, 236, 139, 160,
     32, 234, 178, 131, 236, 157, 132, 32, 237, 153, 152, 236, 152, 129, 237, 149, 169, 235,
     139, 136, 235, 139, 164, 46 :: nat]"

definition welcome_description :: string where
  "welcome_description = map char_of [237, 148, 140, 235, 158, 152, 234, 183, 184, 32, 236, 160, 156, 236, 182, 156, 32, 237,
     157, 144, 235, 166, 132, 236, 157, 132, 32, 237, 153, 149, 236, 157, 184, 237, 149,
     152, 235, 138, 148, 32, 236, 178, 171, 32, 235, 172, 184, 236, 160, 156, 236, 158, 133,
     235, 139, 136, 235, 139, 164, 46 :: nat]"

definition regex_description :: string where
  "regex_description = map char_of [236, 160, 149, 234, 183, 156, 236, 139, 157, 32, 237, 148, 140, 235, 158, 152, 234,
     183, 184, 236, 153, 128, 32, 235, 143, 153, 236, 160, 129, 32, 236, 160, 144, 236, 136,
     152, 235, 165, 188, 32, 237, 153, 149, 236, 157, 184, 237, 149, 152, 235, 138, 148, 32,
     235, 141, 176, 235, 170, 168, 32, 235, 172, 184, 236, 160, 156, 236, 158, 133, 235,
     139, 136, 235, 139, 164, 46 :: nat]"

definition ready_title :: string where
  "ready_title = map char_of [67, 84, 70, 110, 105, 103, 104, 116, 32, 236, 164, 128, 235, 185, 132, 32, 236, 153,
     132, 235, 163, 140 :: nat]"

definition ready_body :: string where
  "ready_body = map char_of [234, 180, 128, 235, 166, 172, 236, 158, 144, 32, 234, 179, 132, 236, 160, 149, 236,
     156, 188, 235, 161, 156, 32, 235, 161, 156, 234, 183, 184, 236, 157, 184, 237, 149,
     180, 32, 236, 157, 180, 235, 178, 164, 237, 138, 184, 236, 153, 128, 32, 235, 172, 184,
     236, 160, 156, 235, 165, 188, 32, 236, 132, 164, 236, 160, 149, 237, 149, 152, 236,
     132, 184, 236, 154, 148, 46 :: nat]"

definition latest_event :: "database \<Rightarrow> event option" where
  "latest_event db = first_by (\<lambda>e. - e_created_at e) (events db)"

definition initial_event :: "world \<Rightarrow> event" where
  "initial_event w =
     \<lparr>e_id = w_uuid4 w 0, e_name = ''CTFnight'', e_slug = ''ctfnight'', e_description_md = event_welcome,
      e_state = Draft, e_registration_at = None, e_start_at = None, e_freeze_at = None, e_end_at = None,
      e_team_mode = TeamMode, e_registration_access_mode = OpenAccess,
      e_created_at = w_utcnow w 0, e_updated_at = w_utcnow w 1\<rparr>"

definition bootstrap_event :: "world \<Rightarrow> database \<Rightarrow> (event \<times> database) option" where
  "bootstrap_event w db =
     (case latest_event db of
        Some e \<Rightarrow> Some (e, db)
      | None \<Rightarrow> do {
          let e = initial_event w;
          db \<leftarrow> insert_event e db;
          db \<leftarrow> add_audit (w_uuid4 w 1) (w_utcnow w 2) None ''event.bootstrapped'' ''event'' (Some (e_id e)) [] db;
          Some (e, db) })"

definition admin_settings_ok :: "settings \<Rightarrow> bool \<Rightarrow> unit cli" where
  "admin_settings_ok st existing_admin =
     (let p = st_admin_password st in
      bindE (ensure (p = None \<or> 12 \<le> length (the p))
               ''ALPHA_ADMIN_PASSWORD must contain at least 12 characters'') (\<lambda>_.
      bindE (ensure (\<not> truthy_text p \<or> truthy_text (st_admin_email st))
               ''ALPHA_ADMIN_PASSWORD requires ALPHA_ADMIN_EMAIL'') (\<lambda>_.
      ensure (st_environment st \<noteq> Production \<or> existing_admin
               \<or> (truthy_text (st_admin_email st) \<and> truthy_text p))
        ''initial production bootstrap requires ALPHA_ADMIN_EMAIL and ALPHA_ADMIN_PASSWORD'')))"

definition admin_row :: "world \<Rightarrow> string \<Rightarrow> string \<Rightarrow> string \<Rightarrow> user" where
  "admin_row w email username password_hash =
     \<lparr>u_id = w_uuid4 w 2, u_email = email, u_username = username, u_password_hash = password_hash,
      u_role = Admin, u_active = True, u_password_change_required = True, u_credential_version = 0,
      u_created_at = w_utcnow w 3\<rparr>"

definition admin_email_of :: "settings \<Rightarrow> string" where
  "admin_email_of st = lower (strip (the (st_admin_email st)))"

definition create_admin :: "settings \<Rightarrow> runtime \<Rightarrow> world \<Rightarrow> database \<Rightarrow> database cli" where
  "create_admin st rt w db =
     bindE (ensure (truthy_text (st_admin_password st))
       ''ALPHA_ADMIN_PASSWORD is required when the configured admin does not exist'') (\<lambda>_.
     let username = strip (st_admin_username st) in
     bindE (ensure (\<not> (\<exists>u \<in> set (users db). lower (u_username u) = lower username))
       ''ALPHA_ADMIN_USERNAME is already in use'') (\<lambda>_.
     bindE (cli_hash_password rt w (the (st_admin_password st))) (\<lambda>h.
       let u = admin_row w (admin_email_of st) username h
       in db_step (do {
            db \<leftarrow> insert_user u db;
            db \<leftarrow> add_audit (w_uuid4 w 3) (w_utcnow w 4) (Some (u_id u)) ''admin.bootstrapped'' ''user''
                    (Some (u_id u)) [] db;
            add_outbox (w_uuid4 w 4) (w_utcnow w 5) ''admin.bootstrapped'' ''user'' (u_id u)
              [(''user_id'', JId (u_id u))] db }))))"

definition bootstrap_admin :: "settings \<Rightarrow> runtime \<Rightarrow> world \<Rightarrow> database \<Rightarrow> database cli" where
  "bootstrap_admin st rt w db =
     (if \<not> truthy_text (st_admin_email st) then Inr db
      else case find (\<lambda>u. lower (u_email u) = admin_email_of st) (users db) of
             Some admin \<Rightarrow>
               if u_role admin \<noteq> Admin
               then Inl (RuntimeFailure ''ALPHA_ADMIN_EMAIL belongs to a non-admin account'')
               else Inr db
           | None \<Rightarrow> create_admin st rt w db)"

text \<open>The two demo challenges, with their flags.\<close>

definition demo_challenge ::
  "world \<Rightarrow> nat \<Rightarrow> event \<Rightarrow> string \<Rightarrow> string \<Rightarrow> string \<Rightarrow> scoring_type \<Rightarrow> int \<Rightarrow> challenge" where
  "demo_challenge w k e slug title description scoring initial =
     \<lparr>c_id = w_uuid4 w (5 + k), c_event_id = e_id e, c_slug = slug, c_title = title, c_category = ''Misc'',
      c_description_md = description, c_connection_info = None, c_scoring_type = scoring,
      c_initial_points = initial, c_minimum_points = 100, c_decay = 20, c_visible = True,
      c_visible_at = None, c_max_attempts = 0, c_flag_type = ExactFlag, c_flag_hash = None,
      c_flag_regex = None, c_created_at = w_utcnow w (6 + 2 * k), c_updated_at = w_utcnow w (7 + 2 * k)\<rparr>"

definition demo_challenges :: "world \<Rightarrow> event \<Rightarrow> (challenge \<times> flag_input) list" where
  "demo_challenges w e =
     [(demo_challenge w 0 e ''welcome'' ''Welcome'' welcome_description FixedScoring 100,
       \<lparr>fi_type = ExactFlag, fi_value = ''FLAG{welcome-to-ctfnight}''\<rparr>),
      (demo_challenge w 1 e ''regex-demo'' ''Regex Demo'' regex_description DynamicScoring 500,
       \<lparr>fi_type = RegexFlag, fi_value = ''^FLAG'' @ [CHR 0x5C] @ ''{regex-[0-9]{4}'' @ [CHR 0x5C] @ ''}$''\<rparr>)]"

fun seed_challenges ::
  "settings \<Rightarrow> runtime \<Rightarrow> event \<Rightarrow> (challenge \<times> flag_input) list \<Rightarrow> database \<Rightarrow> database cli" where
  "seed_challenges st rt e [] db = Inr db"
| "seed_challenges st rt e ((c, flag) # rest) db =
     (if \<exists>x \<in> set (challenges db). c_event_id x = e_id e \<and> c_slug x = c_slug c
      then seed_challenges st rt e rest db
      else bindE (api_step (apply_flag rt (st_secret_key st) (st_max_flag_length st) flag c)) (\<lambda>c.
           bindE (db_step (insert_challenge c [] db)) (\<lambda>db.
           seed_challenges st rt e rest db)))"

definition seed_announcement :: "world \<Rightarrow> event \<Rightarrow> database \<Rightarrow> database option" where
  "seed_announcement w e db =
     (if \<exists>n \<in> set (announcements db). n_event_id n = e_id e then Some db
      else insert_announcement \<lparr>n_id = w_uuid4 w 7, n_event_id = e_id e, n_title = ready_title,
             n_body_md = ready_body, n_publish_at = w_utcnow w 10, n_created_at = w_utcnow w 11,
             n_updated_at = w_utcnow w 12\<rparr> db)"

definition seed_demo :: "settings \<Rightarrow> runtime \<Rightarrow> world \<Rightarrow> event \<Rightarrow> database \<Rightarrow> database cli" where
  "seed_demo st rt w e db =
     bindE (seed_challenges st rt e (demo_challenges w e) db) (\<lambda>db. db_step (seed_announcement w e db))"

definition bootstrap :: "settings \<Rightarrow> runtime \<Rightarrow> world \<Rightarrow> database \<Rightarrow> database cli" where
  "bootstrap st rt w db =
     bindE (db_step (bootstrap_event w db)) (\<lambda>(e, db).
     bindE (admin_settings_ok st (\<exists>u \<in> set (users db). u_role u = Admin)) (\<lambda>_.
     bindE (bootstrap_admin st rt w db) (\<lambda>db.
     if st_seed_demo st \<and> e_state e \<noteq> Archived then seed_demo st rt w e db else Inr db)))"

section \<open>set-password\<close>

definition set_password :: "settings \<Rightarrow> runtime \<Rightarrow> world \<Rightarrow> string \<Rightarrow> database \<Rightarrow> database cli" where
  "set_password st rt w email db =
     (case st_admin_password st of
        None \<Rightarrow> Inl (RuntimeFailure ''set-password reads the new password from ALPHA_ADMIN_PASSWORD'')
      | Some password \<Rightarrow>
          bindE (ensure (12 \<le> length password) ''recovery password must contain at least 12 characters'') (\<lambda>_.
          case find (\<lambda>u. lower (u_email u) = lower (strip email)) (users db) of
            None \<Rightarrow> Inl (RuntimeFailure ''user not found'')
          | Some u \<Rightarrow>
              bindE (cli_hash_password rt w password) (\<lambda>h.
                let u' = u\<lparr>u_password_hash := h, u_password_change_required := True,
                           u_credential_version := u_credential_version u + 1\<rparr>
                in db_step (add_audit (w_uuid4 w 0) (w_utcnow w 0) (Some (u_id u)) ''admin.password_reset_cli''
                     ''user'' (Some (u_id u)) []
                     (db\<lparr>users := update_where (\<lambda>x. u_id x = u_id u) (\<lambda>_. u') (users db),
                         sessions := delete_where (\<lambda>s. s_user_id s = u_id u) (sessions db)\<rparr>)))))"

section \<open>import-challenge\<close>

definition CHALLENGE_SOURCE_MAX_CHARS :: int where
  "CHALLENGE_SOURCE_MAX_CHARS = 1000000"

record import_scoring =
  is_type :: scoring_type
  is_initial :: int
  is_minimum :: "int option"
  is_decay :: "int option"

definition ImportScoring :: "import_scoring \<Rightarrow> bool" where
  "ImportScoring s \<longleftrightarrow> points_ok (is_initial s) \<and> if_given points_ok (is_minimum s)
     \<and> if_given points_ok (is_decay s)
     \<and> \<not> (is_type s = DynamicScoring \<and> (is_minimum s = None \<or> is_decay s = None))"

record challenge_file =
  cf_event_slug :: string
  cf_slug :: string
  cf_title :: string
  cf_category :: string
  cf_description_md :: string
  cf_connection_info :: "string option"
  cf_scoring :: import_scoring
  cf_max_attempts :: int
  cf_visible :: bool
  cf_visible_at :: "datetime option"
  cf_flag :: flag_input
  cf_prerequisites :: "string list"

definition ChallengeFile :: "int \<Rightarrow> challenge_file \<Rightarrow> bool" where
  "ChallengeFile max_flag_length f \<longleftrightarrow>
     sized 2 63 (cf_event_slug f) \<and> slug_pattern (cf_event_slug f)
     \<and> sized 2 63 (cf_slug f) \<and> slug_pattern (cf_slug f) \<and> sized 1 120 (cf_title f)
     \<and> sized 1 80 (cf_category f) \<and> sized 1 100000 (cf_description_md f)
     \<and> if_given (sized 0 2000) (cf_connection_info f) \<and> ImportScoring (cf_scoring f)
     \<and> Config.within 0 MAX_CHALLENGE_ATTEMPTS (cf_max_attempts f) \<and> time_ok (cf_visible_at f)
     \<and> FlagInput (cf_flag f) \<and> length (cf_prerequisites f) \<le> 100
     \<and> distinct (cf_prerequisites f) \<and> list_all slug_pattern (cf_prerequisites f)
     \<and> int (length (fi_value (cf_flag f))) \<le> max_flag_length"

text \<open>What reading the path or the standard input gives.\<close>

datatype source = CannotRead string | NotUtf8 | SourceText string

definition read_challenge_file ::
  "settings \<Rightarrow> (string \<Rightarrow> challenge_file cli) \<Rightarrow> source \<Rightarrow> challenge_file cli" where
  "read_challenge_file st parse source =
     (case source of
        CannotRead message \<Rightarrow> Inl (RuntimeFailure message)
      | NotUtf8 \<Rightarrow> Inl (RuntimeFailure ''challenge YAML must be valid UTF-8'')
      | SourceText text \<Rightarrow>
          bindE (ensure (int (length text) \<le> CHALLENGE_SOURCE_MAX_CHARS)
                   ''challenge YAML exceeds the 1000000 character limit'') (\<lambda>_.
          bindE (parse text) (\<lambda>f.
          if ChallengeFile (st_max_flag_length st) f then Inr f else Inl (ValidationFailure JNull))))"

definition minimum_of :: "import_scoring \<Rightarrow> int" where
  "minimum_of s = (case is_minimum s of Some n \<Rightarrow> if n = 0 then is_initial s else n | None \<Rightarrow> is_initial s)"

definition decay_of :: "import_scoring \<Rightarrow> int" where
  "decay_of s = (case is_decay s of Some n \<Rightarrow> if n = 0 then 20 else n | None \<Rightarrow> 20)"

definition scoring_values :: "import_scoring \<Rightarrow> scoring_patch" where
  "scoring_values s =
     \<lparr>sp_scoring_type = Some (Some (is_type s)), sp_initial_points = Some (Some (is_initial s)),
      sp_minimum_points = Some (Some (minimum_of s)), sp_decay = Some (Some (decay_of s))\<rparr>"

definition blank_challenge :: "world \<Rightarrow> event \<Rightarrow> string \<Rightarrow> challenge" where
  "blank_challenge w e slug =
     \<lparr>c_id = w_uuid4 w 0, c_event_id = e_id e, c_slug = slug, c_title = [], c_category = [],
      c_description_md = [], c_connection_info = None, c_scoring_type = FixedScoring,
      c_initial_points = 100, c_minimum_points = 100, c_decay = 20, c_visible = False,
      c_visible_at = None, c_max_attempts = 0, c_flag_type = ExactFlag, c_flag_hash = None,
      c_flag_regex = None, c_created_at = w_utcnow w 1, c_updated_at = w_utcnow w 2\<rparr>"

text \<open>The assignments of the import to the row, new or stored.\<close>

definition assign_file :: "challenge_file \<Rightarrow> challenge \<Rightarrow> challenge" where
  "assign_file f c = c\<lparr>
     c_title := cf_title f, c_category := cf_category f, c_description_md := cf_description_md f,
     c_connection_info := cf_connection_info f, c_scoring_type := is_type (cf_scoring f),
     c_initial_points := is_initial (cf_scoring f), c_minimum_points := minimum_of (cf_scoring f),
     c_decay := decay_of (cf_scoring f), c_max_attempts := cf_max_attempts f,
     c_visible := cf_visible f, c_visible_at := cf_visible_at f\<rparr>"

definition prerequisite_rows :: "database \<Rightarrow> event \<Rightarrow> string list \<Rightarrow> challenge list" where
  "prerequisite_rows db e slugs =
     filter (\<lambda>c. c_event_id c = e_id e \<and> c_slug c \<in> set slugs) (challenges db)"

definition stored_challenge :: "database \<Rightarrow> event \<Rightarrow> string \<Rightarrow> challenge option" where
  "stored_challenge db e slug = find (\<lambda>c. c_event_id c = e_id e \<and> c_slug c = slug) (challenges db)"

definition imported_row :: "world \<Rightarrow> event \<Rightarrow> challenge_file \<Rightarrow> challenge option \<Rightarrow> challenge" where
  "imported_row w e f stored =
     assign_file f (case stored of None \<Rightarrow> blank_challenge w e (cf_slug f) | Some c \<Rightarrow> c)"

definition store_import ::
  "world \<Rightarrow> challenge option \<Rightarrow> challenge \<Rightarrow> uuid list \<Rightarrow> database \<Rightarrow> database option" where
  "store_import w stored c ps db =
     (case stored of
        None \<Rightarrow> insert_challenge c ps db
      | Some old \<Rightarrow> store_challenge (w_utcnow w 3) old c (Some ps) db)"

definition import_challenge ::
  "settings \<Rightarrow> runtime \<Rightarrow> world \<Rightarrow> string \<Rightarrow> challenge_file \<Rightarrow> database \<Rightarrow> database cli" where
  "import_challenge st rt w source_name f db =
     (case find (\<lambda>e. e_slug e = cf_event_slug f) (events db) of
        None \<Rightarrow> Inl (RuntimeFailure (''event not found: '' @ cf_event_slug f))
      | Some e \<Rightarrow>
          bindE (api_step (assert_event_mutable e)) (\<lambda>_.
          let prereq_rows = prerequisite_rows db e (cf_prerequisites f) in
          bindE (ensure (length prereq_rows = card (set (cf_prerequisites f)))
            ''one or more prerequisite slugs were not found in the event'') (\<lambda>_.
          let stored = stored_challenge db e (cf_slug f)
          in bindE (case stored of
                      None \<Rightarrow> Inr ()
                    | Some c \<Rightarrow> api_step (assert_scoring_mutable e c (scoring_values (cf_scoring f)) (w_utcnow w 0))) (\<lambda>_.
             bindE (ensure (minimum_of (cf_scoring f) \<le> is_initial (cf_scoring f))
               ''scoring.minimum cannot exceed scoring.initial'') (\<lambda>_.
             bindE (api_step (apply_flag rt (st_secret_key st) (st_max_flag_length st) (cf_flag f)
                      (imported_row w e f stored))) (\<lambda>c.
             bindE (api_step (load_prerequisites db (e_id e) (map c_id prereq_rows) (map_option c_id stored))) (\<lambda>ps.
             db_step (do {
               db \<leftarrow> store_import w stored c ps db;
               let action = (if stored = None then ''challenge.imported'' else ''challenge.reimported'');
               db \<leftarrow> add_audit (w_uuid4 w 1) (w_utcnow w 4) None action ''challenge'' (Some (c_id c))
                       [(''source'', JStr source_name)] db;
               add_outbox (w_uuid4 w 2) (w_utcnow w 5) action ''challenge'' (c_id c)
                 [(''event_id'', JId (e_id e))] db }))))))))"

section \<open>main\<close>

datatype command = Bootstrap | SetPassword string | ImportChallenge string source

definition run_command ::
  "settings \<Rightarrow> runtime \<Rightarrow> world \<Rightarrow> (string \<Rightarrow> challenge_file cli) \<Rightarrow> command \<Rightarrow> database \<Rightarrow> database cli" where
  "run_command st rt w parse command db =
     (case command of
        Bootstrap \<Rightarrow> bootstrap st rt w db
      | SetPassword email \<Rightarrow> set_password st rt w email db
      | ImportChallenge name source \<Rightarrow>
          bindE (read_challenge_file st parse source) (\<lambda>f. import_challenge st rt w name f db))"

text \<open>
  The line on the standard error and the exit status. \<open>dumps\<close> is \<open>json.dumps\<close>, \<open>shown\<close>
  the decimal notation and \<open>api_message\<close> the message an \<open>ApiError\<close> was raised with.
\<close>

definition report ::
  "(json \<Rightarrow> string) \<Rightarrow> (int \<Rightarrow> string) \<Rightarrow> (api_error \<Rightarrow> string) \<Rightarrow> string \<Rightarrow> cli_error \<Rightarrow> string" where
  "report dumps shown api_message source_name e =
     (case e of
        ValidationFailure safe_errors \<Rightarrow> ''alpha-cli: validation failed: '' @ dumps safe_errors
      | ApiFailure x \<Rightarrow> ''alpha-cli: '' @ api_message x
      | YamlFailure mark \<Rightarrow>
          ''alpha-cli: invalid YAML in '' @ dumps (JStr source_name)
          @ (case mark of
               None \<Rightarrow> []
             | Some (line, column) \<Rightarrow> '' at line '' @ shown (line + 1) @ '', column '' @ shown (column + 1))
      | DatabaseFailure \<Rightarrow> ''alpha-cli: database operation failed''
      | RuntimeFailure message \<Rightarrow> ''alpha-cli: '' @ message)"

definition cli_main ::
  "settings \<Rightarrow> runtime \<Rightarrow> world \<Rightarrow> (string \<Rightarrow> challenge_file cli) \<Rightarrow> command \<Rightarrow> database \<Rightarrow> int \<times> database" where
  "cli_main st rt w parse command db =
     (case run_command st rt w parse command db of Inl _ \<Rightarrow> (1, db) | Inr db' \<Rightarrow> (0, db'))"

section \<open>bootstrap can be repeated\<close>

lemma lower_char_idem [simp]: "lower_char (lower_char c) = lower_char c"
  by (auto simp: lower_char_def less_eq_char_def)

lemma lower_idem [simp]: "lower (lower s) = lower s"
  by (simp add: lower_def)

lemma find_Some_ex: "x \<in> set xs \<Longrightarrow> P x \<Longrightarrow> \<exists>y. find P xs = Some y"
  by (metis find_None_iff option.exhaust)

lemma find_append_new: "find P xs = None \<Longrightarrow> P x \<Longrightarrow> find P (xs @ [x]) = Some x"
  by (simp add: find_append)

lemma latest_event_in: "latest_event db = Some e \<Longrightarrow> e \<in> set (events db)"
  by (auto simp: latest_event_def dest!: first_by_Some)

text \<open>What each phase leaves alone, and why it does nothing when it runs again.\<close>

lemma bootstrap_event_effect:
  assumes "bootstrap_event w db = Some (e, db')"
  shows "latest_event db' = Some e \<and> users db' = users db \<and> sessions db' = sessions db \<and> teams db' = teams db
    \<and> memberships db' = memberships db \<and> challenges db' = challenges db \<and> prereqs db' = prereqs db
    \<and> announcements db' = announcements db \<and> submissions db' = submissions db \<and> solves db' = solves db
    \<and> score_events db' = score_events db"
proof (cases "latest_event db")
  case None
  then have n: "events db = []" by (simp add: latest_event_def)
  obtain db1 where i: "insert_event (initial_event w) db = Some db1" and e: "e = initial_event w"
    and a: "add_audit (w_uuid4 w 1) (w_utcnow w 2) None ''event.bootstrapped'' ''event'' (Some (e_id e)) [] db1 = Some db'"
    using assms None by (auto simp: bootstrap_event_def Let_def bind_eq_Some_conv)
  have d1: "db1 = db\<lparr>events := [initial_event w]\<rparr>" using i n by (simp add: insert_event_Some)
  obtain xs where d: "db' = db1\<lparr>audit_events := xs\<rparr>" using a unfolding add_audit_Some by blast
  show ?thesis unfolding d d1 e by (simp add: latest_event_def first_by_def)
next
  case (Some x)
  then show ?thesis using assms by (simp add: bootstrap_event_def)
qed

lemma bootstrap_event_again: "latest_event db = Some e \<Longrightarrow> bootstrap_event w db = Some (e, db)"
  by (simp add: bootstrap_event_def)

lemma create_admin_effect:
  assumes "create_admin st rt w db = Inr db'"
  shows "\<exists>u. users db' = users db @ [u] \<and> u_role u = Admin \<and> u_active u \<and> u_password_change_required u
    \<and> u_email u = admin_email_of st \<and> u_username u = strip (st_admin_username st)
    \<and> hash_password rt (w_slot_free w 0) (w_token w 0) (the (st_admin_password st)) = Inr (u_password_hash u)
    \<and> (\<forall>x \<in> set (users db). \<not> user_clash x u)
    \<and> (\<exists>xs ys. db' = db\<lparr>users := users db @ [u], audit_events := xs, outbox_events := ys\<rparr>)"
proof -
  obtain h where h: "hash_password rt (w_slot_free w 0) (w_token w 0) (the (st_admin_password st)) = Inr h"
    and r: "do { db \<leftarrow> insert_user (admin_row w (admin_email_of st) (strip (st_admin_username st)) h) db;
      db \<leftarrow> add_audit (w_uuid4 w 3) (w_utcnow w 4) (Some (w_uuid4 w 2)) ''admin.bootstrapped'' ''user''
              (Some (w_uuid4 w 2)) [] db;
      add_outbox (w_uuid4 w 4) (w_utcnow w 5) ''admin.bootstrapped'' ''user'' (w_uuid4 w 2)
        [(''user_id'', JId (w_uuid4 w 2))] db } = Some db'"
    using assms
    by (auto simp: create_admin_def cli_hash_password_def Let_def admin_row_def split: sum.splits)
  define u where "u = admin_row w (admin_email_of st) (strip (st_admin_username st)) h"
  obtain db1 db2 where i: "insert_user u db = Some db1"
    and a: "add_audit (w_uuid4 w 3) (w_utcnow w 4) (Some (w_uuid4 w 2)) ''admin.bootstrapped'' ''user''
              (Some (w_uuid4 w 2)) [] db1 = Some db2"
    and o': "add_outbox (w_uuid4 w 4) (w_utcnow w 5) ''admin.bootstrapped'' ''user'' (w_uuid4 w 2)
        [(''user_id'', JId (w_uuid4 w 2))] db2 = Some db'"
    using r by (auto simp: bind_eq_Some_conv u_def)
  have d1: "db1 = db\<lparr>users := users db @ [u]\<rparr>" and new: "\<forall>x \<in> set (users db). \<not> user_clash x u"
    using i by (simp_all add: insert_user_Some)
  obtain xs where d2: "db2 = db1\<lparr>audit_events := xs\<rparr>" using a unfolding add_audit_Some by blast
  obtain ys where d3: "db' = db2\<lparr>outbox_events := ys\<rparr>" using o' unfolding add_outbox_Some by blast
  have d: "db' = db\<lparr>users := users db @ [u], audit_events := xs, outbox_events := ys\<rparr>" by (simp add: d1 d2 d3)
  have us: "users db' = users db @ [u]" by (simp add: d)
  have row: "u_role u = Admin" "u_active u" "u_password_change_required u" "u_email u = admin_email_of st"
    "u_username u = strip (st_admin_username st)" "u_password_hash u = h"
    by (simp_all add: u_def admin_row_def)
  show ?thesis using us row h new d by blast
qed

lemma admin_email_lower [simp]: "lower (admin_email_of st) = admin_email_of st"
  by (simp add: admin_email_of_def)

lemma bootstrap_admin_effect:
  assumes "bootstrap_admin st rt w db = Inr db'"
  shows "(\<exists>us xs ys. db' = db\<lparr>users := us, audit_events := xs, outbox_events := ys\<rparr>)
    \<and> (users db' = users db \<or> create_admin st rt w db = Inr db')
    \<and> (truthy_text (st_admin_email st) \<longrightarrow>
        (\<exists>u. find (\<lambda>u. lower (u_email u) = admin_email_of st) (users db') = Some u \<and> u_role u = Admin))"
proof -
  have same: "\<exists>us xs ys. db = db\<lparr>users := us, audit_events := xs, outbox_events := ys\<rparr>"
    by (rule exI[of _ "users db"], rule exI[of _ "audit_events db"], rule exI[of _ "outbox_events db"]) simp
  show ?thesis
proof (cases "truthy_text (st_admin_email st)")
  case False
  then show ?thesis using assms same by (auto simp: bootstrap_admin_def)
next
  case T: True
  let ?P = "\<lambda>u. lower (u_email u) = admin_email_of st"
  show ?thesis
  proof (cases "find ?P (users db)")
    case (Some a)
    then show ?thesis using assms T same by (auto simp: bootstrap_admin_def split: if_splits)
  next
    case None
    then have c: "create_admin st rt w db = Inr db'" using assms T by (simp add: bootstrap_admin_def)
    from create_admin_effect[OF c] obtain u where u: "users db' = users db @ [u]" "u_role u = Admin"
      "u_email u = admin_email_of st"
      and d: "\<exists>xs ys. db' = db\<lparr>users := users db @ [u], audit_events := xs, outbox_events := ys\<rparr>" by blast
    have "find ?P (users db') = Some u" using find_append_new[OF None] u by simp
    then show ?thesis using u(2) d c by blast
  qed
qed
qed

lemma bootstrap_admin_again:
  "(truthy_text (st_admin_email st) \<Longrightarrow>
      \<exists>u. find (\<lambda>u. lower (u_email u) = admin_email_of st) (users db) = Some u \<and> u_role u = Admin) \<Longrightarrow>
   bootstrap_admin st rt w db = Inr db"
  by (auto simp: bootstrap_admin_def)

lemma seed_challenges_effect:
  assumes "seed_challenges st rt e cs db = Inr db'" and "\<forall>(c, _) \<in> set cs. c_event_id c = e_id e"
  shows "(\<exists>xs ps. db' = db\<lparr>challenges := challenges db @ xs, prereqs := ps\<rparr>)
    \<and> (\<forall>(c, _) \<in> set cs. \<exists>x \<in> set (challenges db'). c_event_id x = e_id e \<and> c_slug x = c_slug c)"
  using assms
proof (induction st rt e cs db rule: seed_challenges.induct)
  case (1 st rt e db)
  have "\<exists>xs ps. db = db\<lparr>challenges := challenges db @ xs, prereqs := ps\<rparr>"
    by (rule exI[of _ "[]"], rule exI[of _ "prereqs db"]) simp
  then show ?case using 1 by simp
next
  case (2 st rt e c flag rest db)
  show ?case
  proof (cases "\<exists>x \<in> set (challenges db). c_event_id x = e_id e \<and> c_slug x = c_slug c")
    case True
    then have r: "seed_challenges st rt e rest db = Inr db'" using "2.prems"(1) by simp
    have IH: "(\<exists>xs ps. db' = db\<lparr>challenges := challenges db @ xs, prereqs := ps\<rparr>)
      \<and> (\<forall>(c, _) \<in> set rest. \<exists>x \<in> set (challenges db'). c_event_id x = e_id e \<and> c_slug x = c_slug c)"
      using "2.IH"(1)[OF True r] "2.prems"(2) by simp
    then have "set (challenges db) \<subseteq> set (challenges db')" by auto
    then show ?thesis using IH True by auto
  next
    case False
    then obtain c' db1 where c': "apply_flag rt (st_secret_key st) (st_max_flag_length st) flag c = Inr c'"
      and i: "insert_challenge c' [] db = Some db1" and r: "seed_challenges st rt e rest db1 = Inr db'"
      using "2.prems"(1) unfolding seed_challenges.simps if_not_P[OF False] by auto
    have "c_event_id c' = e_id e" "c_slug c' = c_slug c" using apply_flag_frame[OF c'] "2.prems"(2) by auto
    moreover have IH: "(\<exists>xs ps. db' = db1\<lparr>challenges := challenges db1 @ xs, prereqs := ps\<rparr>)
      \<and> (\<forall>(c, _) \<in> set rest. \<exists>x \<in> set (challenges db'). c_event_id x = e_id e \<and> c_slug x = c_slug c)"
      using "2.IH"(2)[OF False _ _ r, of c'] c' i "2.prems"(2) by simp
    moreover have d: "db1 = db\<lparr>challenges := challenges db @ [c'], prereqs := prereqs db\<rparr>"
      using i by (simp add: insert_challenge_Some)
    obtain xs ps where "db' = db1\<lparr>challenges := challenges db1 @ xs, prereqs := ps\<rparr>" using IH by blast
    then have d': "db' = db\<lparr>challenges := challenges db @ (c' # xs), prereqs := ps\<rparr>" by (simp add: d)
    then have "c' \<in> set (challenges db')" by simp
    ultimately show ?thesis using d' IH by auto
  qed
qed

lemma seed_challenges_again:
  "\<forall>(c, _) \<in> set cs. \<exists>x \<in> set (challenges db). c_event_id x = e_id e \<and> c_slug x = c_slug c \<Longrightarrow>
   seed_challenges st rt e cs db = Inr db"
  by (induction cs) auto

lemma demo_slugs: "(\<forall>(c, _) \<in> set (demo_challenges w e). P (c_slug c)) \<longleftrightarrow> P ''welcome'' \<and> P ''regex-demo''"
  by (simp add: demo_challenges_def demo_challenge_def)

lemma demo_event: "\<forall>(c, _) \<in> set (demo_challenges w e). c_event_id c = e_id e"
  by (simp add: demo_challenges_def demo_challenge_def)

lemma seed_announcement_effect:
  assumes "seed_announcement w e db = Some db'"
  shows "(\<exists>ns. db' = db\<lparr>announcements := ns\<rparr>) \<and> (\<exists>n \<in> set (announcements db'). n_event_id n = e_id e)"
proof -
  have same: "\<exists>ns. db = db\<lparr>announcements := ns\<rparr>" by (rule exI[of _ "announcements db"]) simp
  show ?thesis
  proof (cases "\<exists>n \<in> set (announcements db). n_event_id n = e_id e")
    case True
    then show ?thesis using assms same by (simp add: seed_announcement_def)
  next
    case False
    then show ?thesis using assms by (simp add: seed_announcement_def insert_announcement_Some) blast
  qed
qed

lemma seed_demo_effect:
  assumes "seed_demo st rt w e db = Inr db'"
  shows "(\<exists>xs ps ns. db' = db\<lparr>challenges := challenges db @ xs, prereqs := ps, announcements := ns\<rparr>)
    \<and> seed_demo st' rt' w' e db' = Inr db'"
proof -
  obtain db1 where c: "seed_challenges st rt e (demo_challenges w e) db = Inr db1"
    and a: "seed_announcement w e db1 = Some db'"
    using assms by (auto simp: seed_demo_def)
  note C = seed_challenges_effect[OF c demo_event] and A = seed_announcement_effect[OF a]
  have "challenges db' = challenges db1" using A by auto
  then have "seed_challenges st' rt' e (demo_challenges w' e) db' = Inr db'"
    using C demo_slugs[of w e "\<lambda>s. \<exists>x \<in> set (challenges db'). c_event_id x = e_id e \<and> c_slug x = s"]
      demo_slugs[of w' e "\<lambda>s. \<exists>x \<in> set (challenges db'). c_event_id x = e_id e \<and> c_slug x = s"]
    by (intro seed_challenges_again) simp
  moreover have "seed_announcement w' e db' = Some db'" using A by (simp add: seed_announcement_def)
  ultimately show ?thesis using C A by (auto simp: seed_demo_def)
qed

text \<open>
  Bootstrap is idempotent. Running it again with the same settings, at any later time
  and with any new identifiers, succeeds and changes nothing.
\<close>

theorem bootstrap_idempotent:
  assumes "bootstrap st rt w db = Inr db'"
  shows "bootstrap st rt w' db' = Inr db'"
proof -
  obtain e db1 db2 where e: "bootstrap_event w db = Some (e, db1)"
    and ok: "admin_settings_ok st (\<exists>u \<in> set (users db1). u_role u = Admin) = Inr ()"
    and a: "bootstrap_admin st rt w db1 = Inr db2"
    and s: "(if st_seed_demo st \<and> e_state e \<noteq> Archived then seed_demo st rt w e db2 else Inr db2) = Inr db'"
    using assms by (auto simp: bootstrap_def)
  have d: "users db' = users db2" "events db' = events db2"
    and again: "(if st_seed_demo st \<and> e_state e \<noteq> Archived then seed_demo st rt w' e db' else Inr db') = Inr db'"
    using s seed_demo_effect[of st rt w e db2 db' st rt w'] by (auto split: if_splits)
  have u: "users db2 = users db1 \<or> (\<exists>u. users db2 = users db1 @ [u])" and ev: "events db2 = events db1"
    using bootstrap_admin_effect[OF a] create_admin_effect[of st rt w db1 db2] by auto
  have "latest_event db' = Some e" using bootstrap_event_effect[OF e] ev d by (simp add: latest_event_def)
  then have "bootstrap_event w' db' = Some (e, db')" by (rule bootstrap_event_again)
  moreover have "admin_settings_ok st (\<exists>u \<in> set (users db'). u_role u = Admin) = Inr ()"
    using ok u d by (auto simp: admin_settings_ok_def Let_def)
  moreover have "bootstrap_admin st rt w' db' = Inr db'"
    using bootstrap_admin_effect[OF a] d by (intro bootstrap_admin_again) simp
  ultimately show ?thesis using again by (simp add: bootstrap_def)
qed

section \<open>What the commands may change\<close>

lemma admin_password_length:
  "admin_settings_ok st b = Inr () \<Longrightarrow> truthy_text (st_admin_password st) \<Longrightarrow>
   12 \<le> length (the (st_admin_password st))"
  by (auto simp: admin_settings_ok_def Let_def truthy_text_def split: option.splits)

text \<open>
  Bootstrap never changes an account, session, team, membership or result that is
  stored. It adds at most one account: an active administrator under the configured
  address, with the hash of the configured password of at least 12 characters, who must
  change it. In production there is an administrator afterwards.
\<close>

theorem bootstrap_accounts:
  assumes "bootstrap st rt w db = Inr db'"
  shows "(users db' = users db \<or>
      (\<exists>u. users db' = users db @ [u] \<and> u_role u = Admin \<and> u_active u \<and> u_password_change_required u
         \<and> u_email u = admin_email_of st \<and> 12 \<le> length (the (st_admin_password st))
         \<and> hash_password rt (w_slot_free w 0) (w_token w 0) (the (st_admin_password st)) = Inr (u_password_hash u)
         \<and> (\<forall>x \<in> set (users db). \<not> user_clash x u)))
    \<and> sessions db' = sessions db \<and> teams db' = teams db \<and> memberships db' = memberships db
    \<and> submissions db' = submissions db \<and> solves db' = solves db \<and> score_events db' = score_events db
    \<and> (st_environment st = Production \<longrightarrow> (\<exists>u \<in> set (users db'). u_role u = Admin))"
proof -
  obtain e db1 db2 where e: "bootstrap_event w db = Some (e, db1)"
    and ok: "admin_settings_ok st (\<exists>u \<in> set (users db1). u_role u = Admin) = Inr ()"
    and a: "bootstrap_admin st rt w db1 = Inr db2"
    and s: "(if st_seed_demo st \<and> e_state e \<noteq> Archived then seed_demo st rt w e db2 else Inr db2) = Inr db'"
    using assms by (auto simp: bootstrap_def)
  note E = bootstrap_event_effect[OF e] and A = bootstrap_admin_effect[OF a]
  have d: "users db' = users db2 \<and> sessions db' = sessions db2 \<and> teams db' = teams db2
    \<and> memberships db' = memberships db2 \<and> submissions db' = submissions db2 \<and> solves db' = solves db2
    \<and> score_events db' = score_events db2"
    using s seed_demo_effect[of st rt w e db2 db' st rt w] by (auto split: if_splits)
  have f: "sessions db2 = sessions db1 \<and> teams db2 = teams db1 \<and> memberships db2 = memberships db1
    \<and> submissions db2 = submissions db1 \<and> solves db2 = solves db1 \<and> score_events db2 = score_events db1"
    using A by auto
  have new: "12 \<le> length (the (st_admin_password st))" if "create_admin st rt w db1 = Inr db2"
    using that admin_password_length[OF ok] by (auto simp: create_admin_def Let_def)
  have us: "users db' = users db \<or>
      (\<exists>u. users db' = users db @ [u] \<and> u_role u = Admin \<and> u_active u \<and> u_password_change_required u
         \<and> u_email u = admin_email_of st \<and> 12 \<le> length (the (st_admin_password st))
         \<and> hash_password rt (w_slot_free w 0) (w_token w 0) (the (st_admin_password st)) = Inr (u_password_hash u)
         \<and> (\<forall>x \<in> set (users db). \<not> user_clash x u))"
    using A create_admin_effect[of st rt w db1 db2] new d E by metis
  have "\<exists>u \<in> set (users db'). u_role u = Admin" if "st_environment st = Production"
  proof (cases "truthy_text (st_admin_email st)")
    case True
    then show ?thesis using A d by (metis find_Some_iff nth_mem)
  next
    case False
    then have "\<exists>u \<in> set (users db1). u_role u = Admin"
      using ok that by (auto simp: admin_settings_ok_def Let_def)
    then show ?thesis using us E by auto
  qed
  then show ?thesis using us E d f by simp
qed

text \<open>
  C34: resetting a password from the command line ends what the account was signed in with.
  On success the configured password has at least 12 characters and the account is the one
  of the address, whatever its case and surrounding spaces. Its row has the hash of that
  password, must change it and has the next credential version, and is otherwise as it was;
  exactly its sessions are gone, so no cookie authenticates it, at any time and under any
  key, until it signs in again; one audit row names the reset. No other account, session or
  table changes.
\<close>

theorem set_password_revokes:
  assumes "set_password st rt w email db = Inr db'"
  shows "\<exists>u \<in> set (users db). \<exists>p h a. lower (u_email u) = lower (strip email)
    \<and> st_admin_password st = Some p \<and> 12 \<le> length p
    \<and> hash_password rt (w_slot_free w 0) (w_token w 0) p = Inr h
    \<and> db' = db\<lparr>
        users := map (\<lambda>x. if u_id x = u_id u
            then u\<lparr>u_password_hash := h, u_password_change_required := True,
                   u_credential_version := u_credential_version u + 1\<rparr>
            else x) (users db),
        sessions := filter (\<lambda>s. s_user_id s \<noteq> u_id u) (sessions db),
        audit_events := audit_events db @ [a]\<rparr>
    \<and> a_action a = ''admin.password_reset_cli'' \<and> a_actor_id a = Some (u_id u) \<and> a_target_id a = Some (u_id u)
    \<and> (\<forall>st' rt' rq now v. current_user st' rt' rq now db' = Inr v \<longrightarrow> u_id v \<noteq> u_id u)"
proof -
  obtain p where p: "st_admin_password st = Some p"
    using assms by (auto simp: set_password_def split: option.splits)
  obtain u where u: "find (\<lambda>u. lower (u_email u) = lower (strip email)) (users db) = Some u"
    using assms p by (auto simp: set_password_def split: option.splits)
  then have mem: "u \<in> set (users db)" and mail: "lower (u_email u) = lower (strip email)"
    by (auto simp: find_Some_iff)
  obtain h where h: "hash_password rt (w_slot_free w 0) (w_token w 0) p = Inr h"
    using assms p u
    by (auto simp: set_password_def cli_hash_password_def split: sum.splits)
  have long: "12 \<le> length p" using assms p by (auto simp: set_password_def)
  define u' where "u' = u\<lparr>u_password_hash := h, u_password_change_required := True,
      u_credential_version := u_credential_version u + 1\<rparr>"
  define a where "a = \<lparr>a_id = w_uuid4 w 0, a_actor_id = Some (u_id u), a_action = ''admin.password_reset_cli'',
      a_target_type = ''user'', a_target_id = Some (u_id u), a_metadata = [], a_created_at = w_utcnow w 0\<rparr>"
  have db': "db' = db\<lparr>users := map (\<lambda>x. if u_id x = u_id u then u' else x) (users db),
      sessions := filter (\<lambda>s. s_user_id s \<noteq> u_id u) (sessions db), audit_events := audit_events db @ [a]\<rparr>"
    using assms p u h
    by (auto simp: set_password_def cli_hash_password_def Let_def u'_def a_def add_audit_Some update_where_def delete_where_def)
  have "u_id v \<noteq> u_id u" if c: "current_user st' rt' rq now db' = Inr v" for st' rt' rq now v
  proof -
    obtain s where "s \<in> set (sessions db')" "u_id v = s_user_id s"
      using c by (auto simp: current_user_def split: option.splits if_splits dest!: fetch_Some)
    then show ?thesis by (auto simp: db')
  qed
  then show ?thesis
    using mem mail p long h db'[unfolded u'_def]
    by (intro bexI[of _ u] exI[of _ p] exI[of _ h] exI[of _ a] conjI) (auto simp: a_def)
qed

section \<open>What an import stores\<close>

lemma import_challenge_effect:
  assumes "import_challenge st rt w name f db = Inr db'"
  shows "\<exists>e stored c ps db1. find (\<lambda>e. e_slug e = cf_event_slug f) (events db) = Some e \<and> e_state e \<noteq> Archived
    \<and> stored = stored_challenge db e (cf_slug f) \<and> minimum_of (cf_scoring f) \<le> is_initial (cf_scoring f)
    \<and> (\<forall>old. stored = Some old \<longrightarrow>
         assert_scoring_mutable e old (scoring_values (cf_scoring f)) (w_utcnow w 0) = Inr ())
    \<and> apply_flag rt (st_secret_key st) (st_max_flag_length st) (cf_flag f) (imported_row w e f stored) = Inr c
    \<and> load_prerequisites db (e_id e) (map c_id (prerequisite_rows db e (cf_prerequisites f)))
        (map_option c_id stored) = Inr ps
    \<and> store_import w stored c ps db = Some db1 \<and> logged db1 db'"
proof -
  obtain e where e: "find (\<lambda>e. e_slug e = cf_event_slug f) (events db) = Some e"
    using assms by (auto simp: import_challenge_def split: option.splits)
  note run = assms[unfolded import_challenge_def e option.case]
  have m: "e_state e \<noteq> Archived" using run by (auto simp: assert_event_mutable_def)
  define stored where "stored = stored_challenge db e (cf_slug f)"
  note run' = run[unfolded Let_def, folded stored_def]
  obtain c ps where pts: "minimum_of (cf_scoring f) \<le> is_initial (cf_scoring f)"
    and c: "apply_flag rt (st_secret_key st) (st_max_flag_length st) (cf_flag f) (imported_row w e f stored) = Inr c"
    and ps: "load_prerequisites db (e_id e) (map c_id (prerequisite_rows db e (cf_prerequisites f)))
      (map_option c_id stored) = Inr ps"
    using run' by auto
  have g: "\<forall>old. stored = Some old \<longrightarrow>
      assert_scoring_mutable e old (scoring_values (cf_scoring f)) (w_utcnow w 0) = Inr ()"
    using run' by auto
  obtain db1 db2 action where s: "store_import w stored c ps db = Some db1"
    and a: "add_audit (w_uuid4 w 1) (w_utcnow w 4) None action ''challenge'' (Some (c_id c))
        [(''source'', JStr name)] db1 = Some db2"
    and o': "add_outbox (w_uuid4 w 2) (w_utcnow w 5) action ''challenge'' (c_id c)
        [(''event_id'', JId (e_id e))] db2 = Some db'"
    using run' c ps by (auto simp: bind_eq_Some_conv)
  obtain x where d2: "db2 = db1\<lparr>audit_events := audit_events db1 @ [x]\<rparr>" using a unfolding add_audit_Some by blast
  obtain y where d3: "db' = db2\<lparr>outbox_events := outbox_events db2 @ [y]\<rparr>" using o' unfolding add_outbox_Some by blast
  have "logged db1 db'" unfolding logged_def by (rule exI[of _ x], rule exI[of _ y]) (simp add: d2 d3)
  with e m stored_def pts g c ps s show ?thesis by blast
qed

lemma flag_keeps_file:
  assumes "apply_flag rt secret n flag (assign_file f row) = Inr c"
  shows "assign_file f c = c \<and> c_id c = c_id row \<and> c_event_id c = c_event_id row \<and> c_slug c = c_slug row"
  using assms by (auto simp: apply_flag_def assign_file_def split: if_splits flag_type.splits)

lemma assign_file_updated:
  "assign_file f (c\<lparr>c_updated_at := t\<rparr>) = (assign_file f c)\<lparr>c_updated_at := t\<rparr>"
  by (simp add: assign_file_def)

lemma import_same_scoring:
  assumes "assert_scoring_mutable e old (scoring_values (cf_scoring f)) now = Inr ()"
    and "scoreboard_freeze_locked e now" and kept: "assign_file f c = c"
    and "c_id c = c_id old" and "c_event_id c = c_event_id old"
  shows "same_scoring old c"
proof -
  have "is_type (cf_scoring f) = c_scoring_type old" "is_initial (cf_scoring f) = c_initial_points old"
    "minimum_of (cf_scoring f) = c_minimum_points old" "decay_of (cf_scoring f) = c_decay old"
    using assms(1,2) by (auto simp: assert_scoring_mutable_def scoring_values_def changes_def split: if_splits)
  moreover have "c_scoring_type (assign_file f c) = is_type (cf_scoring f)"
    "c_initial_points (assign_file f c) = is_initial (cf_scoring f)"
    "c_minimum_points (assign_file f c) = minimum_of (cf_scoring f)"
    "c_decay (assign_file f c) = decay_of (cf_scoring f)"
    by (simp_all add: assign_file_def)
  ultimately show ?thesis using assms(4,5) by (simp add: same_scoring_def kept)
qed

lemma slug_unique:
  assumes "challenges_ok db" and "x \<in> set (challenges db)" and "y \<in> set (challenges db)"
    and "c_event_id x = c_event_id y" and "c_slug x = c_slug y"
  shows "x = y"
  by (rule challenge_table.unique[of "challenges db"])
    (use assms in \<open>simp_all add: challenges_ok_def challenge_clash_def\<close>)

lemma file_points:
  assumes "assign_file f c = c" and "minimum_of (cf_scoring f) \<le> is_initial (cf_scoring f)"
  shows "c_minimum_points c \<le> c_initial_points c"
proof -
  have "c_minimum_points (assign_file f c) \<le> c_initial_points (assign_file f c)"
    using assms(2) by (simp add: assign_file_def)
  then show ?thesis by (simp add: assms(1))
qed

text \<open>The row an import stores: a new one, or the stored one with the values of the file.\<close>

lemma imported_row_fields:
  assumes "apply_flag rt secret n flag (imported_row w e f stored) = Inr c"
    and "stored = stored_challenge db e (cf_slug f)"
  shows "assign_file f c = c \<and> c_event_id c = e_id e \<and> c_slug c = cf_slug f
    \<and> (\<forall>old. stored = Some old \<longrightarrow> old \<in> set (challenges db) \<and> c_id c = c_id old \<and> c_event_id c = c_event_id old)"
proof (cases stored)
  case None
  then show ?thesis
    using flag_keeps_file[OF assms(1)[unfolded imported_row_def]] by (simp add: blank_challenge_def)
next
  case (Some old)
  then have "old \<in> set (challenges db)" "c_event_id old = e_id e" "c_slug old = cf_slug f"
    using assms(2) by (auto simp: stored_challenge_def find_Some_iff)
  then show ?thesis using flag_keeps_file[OF assms(1)[unfolded imported_row_def]] Some by simp
qed

lemma import_challenge_ok:
  assumes "import_challenge st rt w name f db = Inr db'" and ok: "challenges_ok db"
  shows "challenges_ok db'"
proof -
  obtain e stored c ps db1 where stored: "stored = stored_challenge db e (cf_slug f)"
    and pts: "minimum_of (cf_scoring f) \<le> is_initial (cf_scoring f)"
    and c: "apply_flag rt (st_secret_key st) (st_max_flag_length st) (cf_flag f) (imported_row w e f stored) = Inr c"
    and ps: "load_prerequisites db (e_id e) (map c_id (prerequisite_rows db e (cf_prerequisites f)))
        (map_option c_id stored) = Inr ps"
    and s: "store_import w stored c ps db = Some db1" and l: "logged db1 db'"
    using import_challenge_effect[OF assms(1)] by blast
  note C = imported_row_fields[OF c stored]
  have le: "c_minimum_points c \<le> c_initial_points c" using file_points[OF _ pts] C by blast
  have "challenges_ok db1"
  proof (cases stored)
    case None
    then show ?thesis using s ps by (intro insert_challenge_ok[OF _ ok le]) (auto simp: store_import_def)
  next
    case (Some old)
    then show ?thesis
      using s ps C by (intro store_challenge_ok[OF _ ok _ _ le, where ps = "Some ps"]) (auto simp: store_import_def)
  qed
  then show ?thesis using challenges_ok_cong logged_frame[OF l] by metis
qed

text \<open>
  A row that holds a file, column by column. A minimum that is missing or zero is the
  initial value, a decay that is missing or zero is 20; an exact flag is stored as its
  keyed hash and nothing else, a regular expression as itself.
\<close>

definition holds_file :: "runtime \<Rightarrow> string \<Rightarrow> challenge_file \<Rightarrow> challenge \<Rightarrow> bool" where
  "holds_file rt secret f c \<longleftrightarrow>
     c_title c = cf_title f \<and> c_category c = cf_category f \<and> c_description_md c = cf_description_md f
     \<and> c_connection_info c = cf_connection_info f \<and> c_visible c = cf_visible f
     \<and> c_visible_at c = cf_visible_at f \<and> c_max_attempts c = cf_max_attempts f
     \<and> c_scoring_type c = is_type (cf_scoring f) \<and> c_initial_points c = is_initial (cf_scoring f)
     \<and> (is_minimum (cf_scoring f) \<in> {None, Some 0} \<longrightarrow> c_minimum_points c = is_initial (cf_scoring f))
     \<and> (\<forall>n. is_minimum (cf_scoring f) = Some n \<and> n \<noteq> 0 \<longrightarrow> c_minimum_points c = n)
     \<and> (is_decay (cf_scoring f) \<in> {None, Some 0} \<longrightarrow> c_decay c = 20)
     \<and> (\<forall>n. is_decay (cf_scoring f) = Some n \<and> n \<noteq> 0 \<longrightarrow> c_decay c = n)
     \<and> (fi_type (cf_flag f) = ExactFlag \<longrightarrow> c_flag_type c = ExactFlag
          \<and> c_flag_hash c = Some (hash_flag rt secret (fi_value (cf_flag f))) \<and> c_flag_regex c = None)
     \<and> (fi_type (cf_flag f) = RegexFlag \<longrightarrow> c_flag_type c = RegexFlag
          \<and> c_flag_hash c = None \<and> c_flag_regex c = Some (fi_value (cf_flag f)))"

lemma assigned_minimum: "c_minimum_points (assign_file f row) = minimum_of (cf_scoring f)"
  and assigned_decay: "c_decay (assign_file f row) = decay_of (cf_scoring f)"
  by (simp_all add: assign_file_def)

lemma flag_frame:
  assumes "apply_flag rt secret n flag row = Inr c"
  shows "\<exists>kind hash regex. c = row\<lparr>c_flag_type := kind, c_flag_hash := hash, c_flag_regex := regex\<rparr>
    \<and> kind = fi_type flag \<and> (kind = ExactFlag \<longrightarrow> hash = Some (hash_flag rt secret (fi_value flag)) \<and> regex = None)
    \<and> (kind = RegexFlag \<longrightarrow> hash = None \<and> regex = Some (fi_value flag))"
  using assms by (cases "fi_type flag") (auto simp: apply_flag_def split: if_splits)

lemma flagged_row_holds_file:
  assumes "apply_flag rt secret n (cf_flag f) (assign_file f row) = Inr c"
  shows "holds_file rt secret f c"
proof -
  obtain kind hash regex where c: "c = (assign_file f row)\<lparr>c_flag_type := kind, c_flag_hash := hash, c_flag_regex := regex\<rparr>"
    and k: "kind = fi_type (cf_flag f)"
      "kind = ExactFlag \<longrightarrow> hash = Some (hash_flag rt secret (fi_value (cf_flag f))) \<and> regex = None"
      "kind = RegexFlag \<longrightarrow> hash = None \<and> regex = Some (fi_value (cf_flag f))"
    using flag_frame[OF assms] by blast
  show ?thesis
    unfolding c holds_file_def using k by (auto simp: assign_file_def minimum_of_def decay_of_def)
qed

lemma holds_file_updated [simp]: "holds_file rt secret f (c\<lparr>c_updated_at := t\<rparr>) = holds_file rt secret f c"
  by (simp add: holds_file_def)

text \<open>Every prerequisite the file names is a challenge of the event: the code compares the counts.\<close>

lemma import_prerequisites_found:
  assumes "import_challenge st rt w name f db = Inr db'" and ok: "challenges_ok db"
    and e: "find (\<lambda>e. e_slug e = cf_event_slug f) (events db) = Some e"
  shows "c_slug ` set (prerequisite_rows db e (cf_prerequisites f)) = set (cf_prerequisites f)"
proof (rule card_subset_eq)
  let ?rows = "prerequisite_rows db e (cf_prerequisites f)"
  have n: "length ?rows = card (set (cf_prerequisites f))"
    using assms(1) by (auto simp: import_challenge_def e Let_def)
  have "distinct (map c_id (challenges db))"
    using ok by (intro challenge_table.distinct_key) (auto simp: challenges_ok_def challenge_clash_def)
  then have d: "distinct ?rows" by (simp add: prerequisite_rows_def distinct_map)
  have "inj_on c_slug (set ?rows)"
    using slug_unique[OF ok] by (auto simp: inj_on_def prerequisite_rows_def)
  then have "card (c_slug ` set ?rows) = card (set ?rows)" by (rule card_image)
  then show "card (c_slug ` set ?rows) = card (set (cf_prerequisites f))"
    using n d by (simp add: distinct_card)
  show "c_slug ` set ?rows \<subseteq> set (cf_prerequisites f)" by (auto simp: prerequisite_rows_def)
qed simp

text \<open>The table after the row of the import was stored, new or in the place of the old one.\<close>

lemma stored_import:
  assumes run: "store_import w stored c ps db = Some db1" and stored: "stored = stored_challenge db e slug"
    and ok: "challenges_ok db" "challenges_ok db1" and c: "c_event_id c = e_id e" "c_slug c = slug"
    and id: "\<forall>old. stored = Some old \<longrightarrow> c_id c = c_id old"
  shows "\<exists>t. \<exists>c' \<in> {c, c\<lparr>c_updated_at := t\<rparr>}. c' \<in> set (challenges db1)
    \<and> (\<forall>x \<in> set (challenges db1). c_event_id x = e_id e \<and> c_slug x = slug \<longrightarrow> x = c')
    \<and> {p. (c_id c, p) \<in> set (prereqs db1)} = set ps
    \<and> (\<forall>x. c_id x \<noteq> c_id c \<longrightarrow> (x \<in> set (challenges db1) \<longleftrightarrow> x \<in> set (challenges db)))
    \<and> (stored = None \<longrightarrow> c_id c \<notin> challenge_ids db)"
proof (cases stored)
  case None
  then have "insert_challenge c ps db = Some db1" using run by (simp add: store_import_def)
  note I = this[unfolded insert_challenge_Some]
  have new: "c_id c \<notin> challenge_ids db" using I by (auto simp: challenge_clash_def)
  then have "(c_id c, p) \<notin> set (prereqs db)" for p using ok(1) by (auto simp: challenges_ok_def)
  then have "{p. (c_id c, p) \<in> set (prereqs db1)} = set ps" using I by auto
  moreover have "\<forall>x \<in> set (challenges db). \<not> (c_event_id x = e_id e \<and> c_slug x = slug)"
    using None by (simp add: stored stored_challenge_def find_None_iff)
  moreover have "\<forall>x \<in> set (challenges db). c_id x \<noteq> c_id c" using new imageI by metis
  ultimately show ?thesis using I new c by (intro exI[of _ 0] bexI[of _ c]) auto
next
  case (Some old)
  have old: "old \<in> set (challenges db)" "c_id c = c_id old"
    using Some stored id by (auto simp: stored_challenge_def find_Some_iff)
  have "store_challenge (w_utcnow w 3) old c (Some ps) db = Some db1"
    using run Some by (simp add: store_import_def)
  note S = this[unfolded store_challenge_Some]
  define c' where "c' = (if c = old then old else c\<lparr>c_updated_at := w_utcnow w 3\<rparr>)"
  have ch: "challenges db1 = update_where (\<lambda>x. c_id x = c_id old) (\<lambda>_. c') (challenges db)"
    using S by (simp add: c'_def)
  have c': "c_id c' = c_id c" "c_event_id c' = e_id e" "c_slug c' = slug" using c by (auto simp: c'_def)
  have mem: "c' \<in> set (challenges db1)" using ch old(1) by force
  have "\<forall>x \<in> set (challenges db1). c_event_id x = e_id e \<and> c_slug x = slug \<longrightarrow> x = c'"
    using slug_unique[OF ok(2) _ mem] c' by simp
  moreover have "{p. (c_id c, p) \<in> set (prereqs db1)} = set ps"
    using S old(2) by (auto simp: set_prerequisites_def)
  moreover have "\<forall>x. c_id x \<noteq> c_id c \<longrightarrow> (x \<in> set (challenges db1) \<longleftrightarrow> x \<in> set (challenges db))"
    using ch old(2) c' by (auto split: if_splits)
  moreover have "c' \<in> {c, c\<lparr>c_updated_at := w_utcnow w 3\<rparr>}" by (simp add: c'_def)
  ultimately show ?thesis
    by (intro exI[of _ "w_utcnow w 3"] bexI[of _ c'] conjI mem) (simp_all add: Some)
qed

lemma import_keeps_row:
  assumes c0: "apply_flag rt secret n flag (imported_row w e f stored) = Inr c"
    and stored: "stored = stored_challenge db e (cf_slug f)" and ok: "challenges_ok db"
    and fresh: "stored = None \<longrightarrow> c_id c \<notin> challenge_ids db"
    and x: "x \<in> set (challenges db)" "(c_event_id x = e_id e \<and> c_slug x = cf_slug f) \<or> c_id x = c_id c"
  shows "c_id c = c_id x \<and> c_created_at c = c_created_at x \<and> stored = Some x"
proof -
  have cf: "conflict_free challenge_clash (challenges db)" using ok by (simp add: challenges_ok_def)
  have "stored \<noteq> None"
  proof
    assume none: "stored = None"
    then have "\<not> (c_event_id x = e_id e \<and> c_slug x = cf_slug f)"
      using stored x(1) by (auto simp: stored_challenge_def find_None_iff)
    moreover have "c_id x \<noteq> c_id c" using none fresh x(1) imageI by metis
    ultimately show False using x(2) by blast
  qed
  then obtain old where s: "stored = Some old" by blast
  then have old: "old \<in> set (challenges db)" "c_event_id old = e_id e" "c_slug old = cf_slug f"
    using stored by (auto simp: stored_challenge_def find_Some_iff)
  have c: "c_id c = c_id old" "c_created_at c = c_created_at old"
    using c0 s by (auto simp: imported_row_def assign_file_def dest!: flag_frame)
  have "x = old"
    using x slug_unique[OF ok x(1) old(1)] old challenge_table_unique[OF cf x(1) old(1)] c(1) by auto
  then show ?thesis using s c by simp
qed


section \<open>Examples\<close>

definition cli_settings :: settings where
  "cli_settings = sample_settings\<lparr>st_admin_email := Some '' Root@A.b '', st_admin_password := Some ''a long password'',
     st_seed_demo := True\<rparr>"

definition fresh_world :: world where
  "fresh_world = sample_world\<lparr>w_uuid4 := (\<lambda>i. 300 + i)\<rparr>"

definition bootstrap_example :: "database cli" where
  "bootstrap_example = bootstrap cli_settings sample_runtime sample_world empty_db"

definition cli_ok :: "'a cli \<Rightarrow> bool" where
  "cli_ok r = (case r of Inl _ \<Rightarrow> False | Inr _ \<Rightarrow> True)"

lemma cli_ok_Inr: "cli_ok r \<Longrightarrow> \<exists>a. r = Inr a"
  by (cases r) (auto simp: cli_ok_def)

text \<open>The run in its three parts, with the long texts of the demo left folded.\<close>

lemma initial_run:
  "\<exists>db. bootstrap_event sample_world empty_db = Some (initial_event sample_world, db) \<and> users db = []
     \<and> events db = [initial_event sample_world] \<and> challenges db = [] \<and> announcements db = []
     \<and> outbox_events db = [] \<and> (\<forall>a \<in> set (audit_events db). a_id a = 101)"
  by (simp add: bootstrap_event_def latest_event_def first_by_def insert_event_def insert_row_def add_audit_def
      insert_audit_def empty_db_def initial_event_def sample_world_def Let_def)

lemma admin_run:
  assumes "users db = []" "outbox_events db = []" "\<forall>a \<in> set (audit_events db). a_id a = 101"
  shows "cli_ok (bootstrap_admin cli_settings sample_runtime sample_world db)"
  using assms
  by (auto simp: bootstrap_admin_def create_admin_def cli_settings_def truthy_text_def
      cli_hash_password_def hash_password_def sample_runtime_def sample_world_def insert_user_def insert_row_def
      add_audit_def insert_audit_def add_outbox_def insert_outbox_def admin_row_def Let_def cli_ok_def
      audit_clash_def db_step_def guard_def)

lemma demo_run:
  assumes "events db = [e]" "challenges db = []" "announcements db = []"
  shows "cli_ok (seed_demo cli_settings sample_runtime sample_world e db)"
  using assms
  by (auto simp: seed_demo_def demo_challenges_def demo_challenge_def apply_flag_def validate_regex_def
      cli_settings_def sample_settings_def sample_runtime_def sample_world_def api_step_def db_step_def
      insert_challenge_def insert_row_def challenge_check_def challenge_clash_def seed_announcement_def
      insert_announcement_def cli_ok_def)

lemma bootstrap_example_ok: "cli_ok bootstrap_example"
proof -
  obtain db where e: "bootstrap_event sample_world empty_db = Some (initial_event sample_world, db)"
    and d: "users db = []" "events db = [initial_event sample_world]" "challenges db = []"
      "announcements db = []" "outbox_events db = []" "\<forall>a \<in> set (audit_events db). a_id a = 101"
    using initial_run by blast
  obtain db1 where a: "bootstrap_admin cli_settings sample_runtime sample_world db = Inr db1"
    using cli_ok_Inr[OF admin_run[OF d(1,5,6)]] by blast
  have "events db1 = events db" "challenges db1 = challenges db" "announcements db1 = announcements db"
    using bootstrap_admin_effect[OF a] by auto
  then have "cli_ok (seed_demo cli_settings sample_runtime sample_world (initial_event sample_world) db1)"
    using demo_run d by simp
  moreover have "admin_settings_ok cli_settings False = Inr ()" by code_simp
  moreover have "st_seed_demo cli_settings" "e_state (initial_event sample_world) = Draft"
    by (simp_all add: cli_settings_def initial_event_def)
  ultimately show ?thesis by (simp add: bootstrap_example_def bootstrap_def e d a db_step_def)
qed

lemma bootstrap_idempotent_witness:
  "\<exists>db'. bootstrap_example = Inr db' \<and> bootstrap cli_settings sample_runtime fresh_world db' = Inr db'"
proof -
  obtain db' where r: "bootstrap_example = Inr db'" using cli_ok_Inr[OF bootstrap_example_ok] by blast
  show ?thesis using bootstrap_idempotent[OF r[unfolded bootstrap_example_def]] r by blast
qed

lemma bootstrap_accounts_witness:
  "\<exists>db'. bootstrap_example = Inr db' \<and> (\<exists>u \<in> set (users db'). u_role u = Admin)"
proof -
  obtain db' where r: "bootstrap_example = Inr db'" using cli_ok_Inr[OF bootstrap_example_ok] by blast
  have "st_environment cli_settings = Production" by (simp add: cli_settings_def sample_settings_def)
  then show ?thesis using bootstrap_accounts[OF r[unfolded bootstrap_example_def]] r by blast
qed

lemma set_password_revokes_witness:
  "\<exists>db'. set_password cli_settings sample_runtime sample_world ''ANN@a.b'' auth_db = Inr db'
     \<and> (\<forall>rq now v. current_user cli_settings sample_runtime rq now db' = Inr v \<longrightarrow> u_id v \<noteq> 7)"
proof -
  have "cli_ok (set_password cli_settings sample_runtime sample_world ''ANN@a.b'' auth_db)" by code_simp
  then obtain db' where r: "set_password cli_settings sample_runtime sample_world ''ANN@a.b'' auth_db = Inr db'"
    using cli_ok_Inr by blast
  have one: "\<forall>u \<in> set (users auth_db). lower (u_email u) = lower (strip ''ANN@a.b'') \<longrightarrow> u_id u = 7"
    by (simp add: auth_db_def sample_user_def strip_def is_space_def lower_def lower_char_def)
  from set_password_revokes[OF r] obtain u where "u \<in> set (users auth_db)"
    "lower (u_email u) = lower (strip ''ANN@a.b'')"
    and no: "\<forall>st' rt' rq now v. current_user st' rt' rq now db' = Inr v \<longrightarrow> u_id v \<noteq> u_id u" by blast
  then have "u_id u = 7" using one by blast
  then show ?thesis using no r by metis
qed

definition sample_file :: challenge_file where
  "sample_file = \<lparr>cf_event_slug = e_slug code_event, cf_slug = ''web-2'', cf_title = ''Web 2'', cf_category = ''web'',
     cf_description_md = ''find it'', cf_connection_info = None,
     cf_scoring = \<lparr>is_type = FixedScoring, is_initial = 200, is_minimum = None, is_decay = None\<rparr>,
     cf_max_attempts = 0, cf_visible = True, cf_visible_at = None,
     cf_flag = \<lparr>fi_type = ExactFlag, fi_value = ''FLAG{2}''\<rparr>, cf_prerequisites = []\<rparr>"


end
