(* ===== verification/Compose.thy ===== *)
theory Compose
  imports Pytext Complex_Main
begin

text \<open>
  The validator of the rendered Compose graph, scripts/validate-compose-security.py, on
  JSON values as Python sees them: \<open>in\<close> and \<open>==\<close> compare with Python's equality, for which
  0, 0.0 and False are the same, while \<open>is\<close> does not. A failed \<open>require\<close> is
  \<open>ComposeSecurityError\<close>; any other exception of Python is \<open>Crash\<close>. Both end the program
  with a failure status, so the gate stays closed. The messages are left out.

  \<open>resolve\<close> stands for \<open>Path.resolve\<close> (the symbolic links of the file system), \<open>lstat\<close> for
  the kind of a path, \<open>show\<close> for \<open>repr\<close> of floats and containers.
\<close>

section \<open>JSON values in Python\<close>

datatype val =
    VNull | VBool bool | VInt int | VFloat rat | VStr string
  | VList "val list" | VMap "(string \<times> val) list"

type_synonym vmap = "(string \<times> val) list"

fun number :: "val \<Rightarrow> rat option" where
  "number (VBool b) = Some (if b then 1 else 0)"
| "number (VInt n) = Some (of_int n)"
| "number (VFloat q) = Some q"
| "number _ = None"

text \<open>\<open>==\<close>. Objects are compared by their keys, whatever the order.\<close>

fun py_eq :: "val \<Rightarrow> val \<Rightarrow> bool"
  and py_eq_list :: "val list \<Rightarrow> val list \<Rightarrow> bool"
  and py_eq_map :: "vmap \<Rightarrow> vmap \<Rightarrow> bool" where
  "py_eq VNull w \<longleftrightarrow> w = VNull"
| "py_eq (VStr s) w \<longleftrightarrow> w = VStr s"
| "py_eq (VList xs) w \<longleftrightarrow> (case w of VList ys \<Rightarrow> py_eq_list xs ys | _ \<Rightarrow> False)"
| "py_eq (VMap xs) w \<longleftrightarrow>
     (case w of VMap ys \<Rightarrow> set (map fst xs) = set (map fst ys) \<and> py_eq_map xs ys | _ \<Rightarrow> False)"
| "py_eq (VBool b) w \<longleftrightarrow> number w = Some (if b then 1 else 0)"
| "py_eq (VInt n) w \<longleftrightarrow> number w = Some (of_int n)"
| "py_eq (VFloat q) w \<longleftrightarrow> number w = Some q"
| "py_eq_list [] ys \<longleftrightarrow> ys = []"
| "py_eq_list (x # xs) ys \<longleftrightarrow> (case ys of [] \<Rightarrow> False | y # ys \<Rightarrow> py_eq x y \<and> py_eq_list xs ys)"
| "py_eq_map [] ys \<longleftrightarrow> True"
| "py_eq_map ((k, v) # xs) ys \<longleftrightarrow>
     (case map_of ys k of None \<Rightarrow> False | Some w \<Rightarrow> py_eq v w) \<and> py_eq_map xs ys"

definition py_in :: "val \<Rightarrow> val list \<Rightarrow> bool" where
  "py_in v ws \<longleftrightarrow> list_ex (py_eq v) ws"

definition vget :: "vmap \<Rightarrow> string \<Rightarrow> val" where
  "vget m k = (case map_of m k of None \<Rightarrow> VNull | Some v \<Rightarrow> v)"

definition vget_or :: "vmap \<Rightarrow> string \<Rightarrow> val \<Rightarrow> val" where
  "vget_or m k d = (case map_of m k of None \<Rightarrow> d | Some v \<Rightarrow> v)"

definition keys :: "vmap \<Rightarrow> string set" where
  "keys m = set (map fst m)"

fun hashable :: "val \<Rightarrow> bool" where
  "hashable (VList _) = False"
| "hashable (VMap _) = False"
| "hashable _ = True"

definition strs :: "string list \<Rightarrow> val" where
  "strs ss = VList (map VStr ss)"

text \<open>\<open>str(v)\<close> and \<open>int(v)\<close>; \<open>None\<close> is the \<open>TypeError\<close> or \<open>ValueError\<close>.\<close>

definition py_str :: "(val \<Rightarrow> string) \<Rightarrow> val \<Rightarrow> string" where
  "py_str show v =
     (case v of
        VStr s \<Rightarrow> s | VInt n \<Rightarrow> int_text n | VNull \<Rightarrow> ''None''
      | VBool b \<Rightarrow> (if b then ''True'' else ''False'') | _ \<Rightarrow> show v)"

definition py_int :: "val \<Rightarrow> int option" where
  "py_int v =
     (case v of
        VInt n \<Rightarrow> Some n
      | VBool b \<Rightarrow> Some (if b then 1 else 0)
      | VFloat q \<Rightarrow> Some (if 0 \<le> q then \<lfloor>q\<rfloor> else \<lceil>q\<rceil>)
      | VStr s \<Rightarrow> int_base10 s
      | _ \<Rightarrow> None)"

section \<open>Requirements\<close>

datatype compose_error = ComposeSecurityError | Crash

type_synonym 'a check = "compose_error + 'a"

abbreviation require :: "bool \<Rightarrow> unit check" where
  "require b \<equiv> guard ComposeSecurityError b"

definition require_mapping :: "val \<Rightarrow> vmap check" where
  "require_mapping v = (case v of VMap m \<Rightarrow> Inr m | _ \<Rightarrow> Inl ComposeSecurityError)"

definition require_list :: "val \<Rightarrow> val list check" where
  "require_list v = (case v of VList xs \<Rightarrow> Inr xs | _ \<Rightarrow> Inl ComposeSecurityError)"

lemma require_mapping_Inr [simp]: "require_mapping v = Inr m \<longleftrightarrow> v = VMap m"
  by (cases v) (auto simp: require_mapping_def)

lemma require_list_Inr [simp]: "require_list v = Inr xs \<longleftrightarrow> v = VList xs"
  by (cases v) (auto simp: require_list_def)

definition EXPECTED_SERVICES :: "string list" where
  "EXPECTED_SERVICES =
     [''backend'', ''caddy'', ''db-roles'', ''frontend'', ''migrate'', ''postgres'', ''redis'']"

definition EXPECTED_NETWORKS :: "string list" where
  "EXPECTED_NETWORKS = [''api'', ''cache'', ''database'', ''public'', ''web'']"

definition EXPECTED_VOLUMES :: "string list" where
  "EXPECTED_VOLUMES = [''postgres_data'', ''redis_data'', ''caddy_data'']"

definition EXPECTED_SECRETS :: "string list" where
  "EXPECTED_SECRETS =
     [''admin_password'', ''alpha_secret_key'', ''postgres_migrator_password'', ''postgres_owner_password'',
      ''postgres_runtime_password'', ''redis_password'']"

text \<open>\<open>services[name]\<close> of a name that is there, and a lookup in one of the tables below.\<close>

definition service_of :: "vmap \<Rightarrow> string \<Rightarrow> vmap check" where
  "service_of services name = require_mapping (vget services name)"

definition entry :: "(string \<times> 'a list) list \<Rightarrow> string \<Rightarrow> 'a list" where
  "entry t name = (case map_of t name of None \<Rightarrow> [] | Some xs \<Rightarrow> xs)"

section \<open>The canonical env file\<close>

record compose_env =
  en_bind :: string
  en_project :: string
  en_http_port :: string
  en_https_port :: string
  en_db :: string
  en_owner :: string
  en_migrator :: string
  en_runtime :: string

definition env_lines :: "string \<Rightarrow> string list" where
  "env_lines body =
     filter (\<lambda>l. l \<noteq> [] \<and> \<not> prefix ''#'' l \<and> CHR ''='' \<in> set l) (map fst (splitlines body))"

text \<open>The value of a key that must be there exactly once.\<close>

definition required_value :: "string \<Rightarrow> string \<Rightarrow> string check" where
  "required_value body key =
     (case filter (\<lambda>l. before_first CHR ''='' l = key) (env_lines body) of
        [l] \<Rightarrow> Inr (after_first CHR ''='' l)
      | _ \<Rightarrow> Inl ComposeSecurityError)"

definition lower_letters :: string where
  "lower_letters = ''abcdefghijklmnopqrstuvwxyz''"

definition upper_letters :: string where
  "upper_letters = ''ABCDEFGHIJKLMNOPQRSTUVWXYZ''"

definition digits :: string where
  "digits = ''0123456789''"

definition project_name_ok :: "string \<Rightarrow> bool" where
  "project_name_ok name \<longleftrightarrow> name \<noteq> [] \<and> length name \<le> 63 \<and> name = lower name
     \<and> strip_chars (set (lower_letters @ digits @ ''-'')) name = []
     \<and> \<not> prefix ''-'' name \<and> \<not> suffix ''-'' name \<and> \<not> sublist ''--'' name"

definition port_ok :: "string \<Rightarrow> bool" where
  "port_ok s \<longleftrightarrow>
     (case int_base10 s of
        None \<Rightarrow> False
      | Some port \<Rightarrow> 1 \<le> port \<and> port \<le> 65535 \<and> int_text port = s)"

definition identifier_ok :: "string \<Rightarrow> bool" where
  "identifier_ok s \<longleftrightarrow> s \<noteq> [] \<and> length s \<le> 63
     \<and> strip_chars (set (upper_letters @ lower_letters @ digits @ ''_'')) s = []"

text \<open>\<open>None\<close> is a file that cannot be read or is not UTF-8.\<close>

definition read_required_env :: "string option \<Rightarrow> compose_env check" where
  "read_required_env file =
     (case file of
        None \<Rightarrow> Inl ComposeSecurityError
      | Some body \<Rightarrow>
          bindE (required_value body ''ALPHA_BIND_ADDRESS'') (\<lambda>bind.
          bindE (required_value body ''ALPHA_COMPOSE_PROJECT_NAME'') (\<lambda>project.
          bindE (required_value body ''ALPHA_HTTPS_PORT'') (\<lambda>https.
          bindE (required_value body ''ALPHA_HTTP_PORT'') (\<lambda>http.
          bindE (required_value body ''ALPHA_POSTGRES_DB'') (\<lambda>db.
          bindE (required_value body ''ALPHA_POSTGRES_MIGRATOR_USER'') (\<lambda>migrator.
          bindE (required_value body ''ALPHA_POSTGRES_OWNER_USER'') (\<lambda>owner.
          bindE (required_value body ''ALPHA_POSTGRES_RUNTIME_USER'') (\<lambda>runtime.
          bindE (require (project_name_ok project)) (\<lambda>_.
          bindE (require (bind \<in> {''127.0.0.1'', ''0.0.0.0''})) (\<lambda>_.
          bindE (require (port_ok http)) (\<lambda>_.
          bindE (require (port_ok https)) (\<lambda>_.
          bindE (require (http \<noteq> https)) (\<lambda>_.
          bindE (require (list_all identifier_ok [db, owner, migrator, runtime])) (\<lambda>_.
          bindE (require (migrator = ''alpha_migrator'')) (\<lambda>_.
          bindE (require (runtime = ''alpha_app'')) (\<lambda>_.
          bindE (require (distinct [owner, migrator, runtime])) (\<lambda>_.
          Inr \<lparr>en_bind = bind, en_project = project, en_http_port = http, en_https_port = https,
               en_db = db, en_owner = owner, en_migrator = migrator, en_runtime = runtime\<rparr>))))))))))))))))))"

section \<open>Builds\<close>

definition join_path :: "string \<Rightarrow> string \<Rightarrow> string" where
  "join_path base x = (if base = ''/'' then ''/'' @ x else base @ ''/'' @ x)"

definition build_contexts :: "(string \<times> string) list" where
  "build_contexts = [(''backend'', ''backend''), (''caddy'', ''deploy/caddy''), (''frontend'', ''frontend'')]"

fun nonempty_text :: "val \<Rightarrow> bool" where
  "nonempty_text (VStr s) = (s \<noteq> [])"
| "nonempty_text _ = False"

definition validate_builds :: "(string \<Rightarrow> string) \<Rightarrow> vmap \<Rightarrow> string \<Rightarrow> unit check" where
  "validate_builds resolve services app_root =
     bindE (each (\<lambda>(name, context).
         bindE (service_of services name) (\<lambda>service.
         bindE (require_mapping (vget service ''build'')) (\<lambda>build.
         bindE (require (vget service ''image'' = VNull)) (\<lambda>_.
         bindE (require (keys build = {''context'', ''dockerfile''})) (\<lambda>_.
         require (py_eq (vget build ''context'') (VStr (resolve (join_path app_root context)))
                  \<and> py_eq (vget build ''dockerfile'') (VStr ''Dockerfile''))))))) build_contexts) (\<lambda>_.
     bindE (each (\<lambda>name.
         bindE (service_of services name) (\<lambda>service.
         bindE (require (vget service ''build'' = VNull)) (\<lambda>_.
         require (nonempty_text (vget service ''image'')))))
       [''postgres'', ''redis'', ''db-roles'', ''migrate'']) (\<lambda>_.
     bindE (service_of services ''db-roles'') (\<lambda>roles.
     bindE (service_of services ''postgres'') (\<lambda>postgres.
     require (py_eq (vget roles ''image'') (vget postgres ''image''))))))"

section \<open>Process boundaries\<close>

definition expected_user :: "string \<Rightarrow> string" where
  "expected_user name = (if name = ''postgres'' then ''0:0'' else ''65532:65532'')"

definition expected_cap_add :: "(string \<times> string list) list" where
  "expected_cap_add =
     [(''caddy'', [''NET_BIND_SERVICE'']),
      (''postgres'', [''CHOWN'', ''DAC_OVERRIDE'', ''FOWNER'', ''SETGID'', ''SETUID''])]"

definition expected_tmpfs :: "(string \<times> string list) list" where
  "expected_tmpfs =
     [(''backend'', [''/tmp:size=64m,mode=1777'']),
      (''caddy'', [''/tmp:size=16m,mode=1777'']),
      (''db-roles'', [''/tmp:size=4m,mode=0700,uid=65532,gid=65532'']),
      (''frontend'', [''/tmp:size=16m,mode=1777,uid=65532,gid=65532'',
                      ''/run:size=1m,mode=0755,uid=65532,gid=65532'',
                      ''/var/lib/nginx/tmp:size=16m,mode=0700,uid=65532,gid=65532'']),
      (''migrate'', [''/tmp:size=64m,mode=1777'']),
      (''postgres'', [''/tmp:size=16m,mode=1777,uid=70,gid=70'',
                      ''/var/run/postgresql:size=4m,mode=0700,uid=70,gid=70'']),
      (''redis'', [''/tmp:size=8m,mode=0700,uid=65532,gid=65532''])]"

definition forbidden_nonempty :: "string list" where
  "forbidden_nonempty =
     [''configs'', ''credential_spec'', ''cgroup'', ''cgroup_parent'', ''device_cgroup_rules'', ''devices'',
      ''deploy'', ''develop'', ''dns'', ''dns_opt'', ''dns_search'', ''external_links'', ''extra_hosts'',
      ''gpus'', ''group_add'', ''ipc'', ''links'', ''models'', ''network_mode'', ''pid'', ''post_start'',
      ''pre_start'', ''pull_policy'', ''runtime'', ''storage_opt'', ''sysctls'', ''use_api_socket'',
      ''userns_mode'', ''uts'', ''volumes_from'']"

text \<open>\<open>len(xs) == len(set(xs)) and set(xs) == names\<close>; a container in \<open>xs\<close> cannot be hashed.\<close>

definition require_exact_names :: "val list \<Rightarrow> string list \<Rightarrow> unit check" where
  "require_exact_names xs names =
     (if \<not> list_all hashable xs then Inl Crash
      else require (distinct xs \<and> set xs = VStr ` set names))"

definition service_process_ok :: "string \<Rightarrow> vmap \<Rightarrow> unit check" where
  "service_process_ok name service =
     bindE (require (py_eq (vget service ''platform'') (VStr ''linux/amd64''))) (\<lambda>_.
     bindE (require (py_eq (vget service ''user'') (VStr (expected_user name)))) (\<lambda>_.
     bindE (require (py_in (vget service ''privileged'') [VNull, VBool False])) (\<lambda>_.
     bindE (require (vget_or service ''read_only'' (VBool False) = VBool True)) (\<lambda>_.
     bindE (require_list (vget_or service ''cap_drop'' (VList []))) (\<lambda>cap_drop.
     bindE (require (py_eq (VList cap_drop) (strs [''ALL'']))) (\<lambda>_.
     bindE (require_list (vget_or service ''cap_add'' (VList []))) (\<lambda>cap_add.
     bindE (require_exact_names cap_add (entry expected_cap_add name)) (\<lambda>_.
     bindE (require_list (vget_or service ''security_opt'' (VList []))) (\<lambda>security_opt.
     bindE (require (py_eq (VList security_opt) (strs [''no-new-privileges:true'']))) (\<lambda>_.
     bindE (require_list (vget_or service ''tmpfs'' (VList []))) (\<lambda>tmpfs.
     bindE (require (py_eq (VList tmpfs) (strs (entry expected_tmpfs name)))) (\<lambda>_.
     each (\<lambda>field. require (py_in (vget service field) [VNull, VBool False, VList [], VMap []]))
       forbidden_nonempty))))))))))))"

definition validate_process_boundaries :: "vmap \<Rightarrow> unit check" where
  "validate_process_boundaries services =
     each (\<lambda>name. bindE (service_of services name) (service_process_ok name)) EXPECTED_SERVICES"

section \<open>Ports\<close>

type_synonym port = "string \<times> string \<times> int \<times> string \<times> string"

definition decimal_text :: "string \<Rightarrow> bool" where
  "decimal_text s \<longleftrightarrow> s \<noteq> [] \<and> set s \<subseteq> set digits"

text \<open>\<open>int(published)\<close> of more than 4300 digits raises a \<open>ValueError\<close> nothing catches.\<close>

definition require_published :: "string \<Rightarrow> unit check" where
  "require_published published =
     (if \<not> decimal_text published then Inl ComposeSecurityError
      else case int_base10 published of
             None \<Rightarrow> Inl Crash
           | Some n \<Rightarrow> require (int_text n = published))"

definition normalize_port :: "(val \<Rightarrow> string) \<Rightarrow> val \<Rightarrow> port check" where
  "normalize_port show item =
     bindE (require_mapping item) (\<lambda>port.
     bindE (require (keys port \<subseteq> {''host_ip'', ''mode'', ''protocol'', ''published'', ''target''})) (\<lambda>_.
     case py_int (vget port ''target'') of
       None \<Rightarrow> Inl ComposeSecurityError
     | Some target \<Rightarrow>
         let published = py_str show (vget_or port ''published'' (VStr []))
         in bindE (require_published published) (\<lambda>_.
            Inr (py_str show (vget_or port ''host_ip'' (VStr [])), published, target,
                 py_str show (vget_or port ''protocol'' (VStr ''tcp'')),
                 py_str show (vget_or port ''mode'' (VStr ''ingress''))))))"

definition expected_ports :: "compose_env \<Rightarrow> port set" where
  "expected_ports env =
     {(en_bind env, en_http_port env, 80, ''tcp'', ''ingress''),
      (en_bind env, en_https_port env, 443, ''tcp'', ''ingress''),
      (en_bind env, en_https_port env, 443, ''udp'', ''ingress'')}"

definition validate_ports :: "(val \<Rightarrow> string) \<Rightarrow> vmap \<Rightarrow> compose_env \<Rightarrow> unit check" where
  "validate_ports show services env =
     bindE (each (\<lambda>name.
         bindE (service_of services name) (\<lambda>service.
         require (py_in (vget service ''ports'') [VNull, VList []])))
       (filter (\<lambda>name. name \<noteq> ''caddy'') EXPECTED_SERVICES)) (\<lambda>_.
     bindE (service_of services ''caddy'') (\<lambda>caddy.
     bindE (require_list (vget caddy ''ports'')) (\<lambda>ports.
     bindE (traverse (normalize_port show) ports) (\<lambda>actual.
     require (length actual = 3 \<and> set actual = expected_ports env)))))"

section \<open>Networks\<close>

definition ipam_ok :: "string \<Rightarrow> val \<Rightarrow> unit check" where
  "ipam_ok name ipam =
     (if name = ''api''
      then bindE (require_mapping ipam) (\<lambda>ipam.
           bindE (require (keys ipam \<subseteq> {''config'', ''driver''})) (\<lambda>_.
           bindE (require (py_in (vget ipam ''driver'') [VNull, VStr ''default''])) (\<lambda>_.
           bindE (require_list (vget ipam ''config'')) (\<lambda>entries.
           require (py_eq (VList entries) (VList [VMap [(''subnet'', VStr ''172.31.250.0/24'')]]))))))
      else require (py_in ipam [VNull, VMap [], VMap [(''config'', VList [])]]))"

definition validate_top_level_networks :: "vmap \<Rightarrow> string \<Rightarrow> unit check" where
  "validate_top_level_networks config project =
     bindE (require_mapping (vget config ''networks'')) (\<lambda>networks.
     bindE (require (keys networks = set EXPECTED_NETWORKS)) (\<lambda>_.
     each (\<lambda>name.
         bindE (require_mapping (vget networks name)) (\<lambda>network.
         bindE (require (keys network \<subseteq> {''driver'', ''external'', ''internal'', ''ipam'', ''name''})) (\<lambda>_.
         bindE (require (py_eq (vget network ''name'') (VStr (project @ ''_'' @ name)))) (\<lambda>_.
         bindE (require (vget_or network ''internal'' (VBool False) = VBool (name \<noteq> ''public''))) (\<lambda>_.
         bindE (require (py_in (vget network ''external'') [VNull, VBool False])) (\<lambda>_.
         bindE (require (py_in (vget network ''driver'') [VNull, VStr ''bridge''])) (\<lambda>_.
         ipam_ok name (vget network ''ipam'')))))))) EXPECTED_NETWORKS))"

definition expected_membership :: "(string \<times> string list) list" where
  "expected_membership =
     [(''backend'', [''api'', ''database'', ''cache'']), (''caddy'', [''public'', ''api'', ''web'']),
      (''db-roles'', [''database'']), (''frontend'', [''web'']), (''migrate'', [''database'']),
      (''postgres'', [''database'']), (''redis'', [''cache''])]"

definition expected_options :: "string \<Rightarrow> string \<Rightarrow> vmap" where
  "expected_options service network =
     (if service = ''backend'' \<and> network = ''api'' then [(''ipv4_address'', VStr ''172.31.250.3'')]
      else if service = ''caddy'' \<and> network = ''api'' then [(''ipv4_address'', VStr ''172.31.250.2'')]
      else if service = ''caddy'' \<and> network = ''public'' then [(''gw_priority'', VInt 1)]
      else [])"

definition validate_service_networks :: "vmap \<Rightarrow> unit check" where
  "validate_service_networks services =
     each (\<lambda>(service_name, expected_networks).
         bindE (service_of services service_name) (\<lambda>service.
         bindE (require_mapping (vget service ''networks'')) (\<lambda>networks.
         bindE (require (keys networks = set expected_networks)) (\<lambda>_.
         each (\<lambda>(network_name, raw_options).
             bindE (if raw_options = VNull then Inr [] else require_mapping raw_options) (\<lambda>options.
             require (py_eq (VMap options) (VMap (expected_options service_name network_name))))) networks))))
       expected_membership"

section \<open>Volumes and mounts\<close>

definition validate_top_level_volumes :: "vmap \<Rightarrow> string \<Rightarrow> unit check" where
  "validate_top_level_volumes config project =
     bindE (require_mapping (vget config ''volumes'')) (\<lambda>volumes.
     bindE (require (keys volumes = set EXPECTED_VOLUMES)) (\<lambda>_.
     each (\<lambda>(name, raw_volume).
         bindE (require_mapping raw_volume) (\<lambda>volume.
         bindE (require (keys volume \<subseteq> {''name''})) (\<lambda>_.
         require (py_eq (vget volume ''name'') (VStr (project @ ''_'' @ name)))))) volumes))"

type_synonym mount = "string \<times> string \<times> string \<times> bool"

text \<open>\<open>mount_type in {...}\<close> of a list or an object is a \<open>TypeError\<close>.\<close>

definition mount_type_of :: "vmap \<Rightarrow> string check" where
  "mount_type_of m =
     (case vget m ''type'' of
        VStr t \<Rightarrow> if t \<in> {''bind'', ''volume''} then Inr t else Inl ComposeSecurityError
      | v \<Rightarrow> if hashable v then Inl ComposeSecurityError else Inl Crash)"

definition normalize_mount :: "val \<Rightarrow> mount check" where
  "normalize_mount item =
     bindE (require_mapping item) (\<lambda>mount.
     bindE (mount_type_of mount) (\<lambda>mount_type.
     bindE (require (keys mount \<subseteq> {''type'', ''source'', ''target'', ''read_only'', mount_type})) (\<lambda>_.
     case (vget mount ''source'', vget mount ''target'') of
       (VStr source, VStr target) \<Rightarrow>
         (case vget_or mount ''read_only'' (VBool False) of
            VBool read_only \<Rightarrow>
              bindE (require (py_in (vget mount mount_type)
                  (if mount_type = ''bind''
                   then [VNull, VMap [], VMap [(''create_host_path'', VBool True)]]
                   else [VNull, VMap []]))) (\<lambda>_.
              Inr (mount_type, source, target, read_only))
          | _ \<Rightarrow> Inl ComposeSecurityError)
     | _ \<Rightarrow> Inl ComposeSecurityError)))"

datatype path_kind = RegularPath | SymlinkPath | OtherPath

definition caddyfile_of :: "string \<Rightarrow> string" where
  "caddyfile_of app_root = join_path app_root ''deploy/Caddyfile''"

definition role_script_of :: "string \<Rightarrow> string" where
  "role_script_of app_root = join_path app_root ''deploy/postgres/provision-roles.sh''"

definition expected_volumes :: "(string \<Rightarrow> string) \<Rightarrow> string \<Rightarrow> (string \<times> mount list) list" where
  "expected_volumes resolve app_root =
     [(''db-roles'', [(''bind'', resolve (role_script_of app_root), ''/usr/local/bin/provision-roles.sh'', True)]),
      (''postgres'', [(''volume'', ''postgres_data'', ''/var/lib/postgresql/data'', False)]),
      (''redis'', [(''volume'', ''redis_data'', ''/data'', False)]),
      (''caddy'', [(''bind'', resolve (caddyfile_of app_root), ''/etc/caddy/Caddyfile'', True),
                   (''volume'', ''caddy_data'', ''/data'', False)])]"

definition sensitive_sources :: "string list" where
  "sensitive_sources =
     [''/var/run/docker.sock'', ''/run/docker.sock'', ''/proc'', ''/sys'', ''/dev'', ''/'']"

definition validate_service_volumes ::
  "(string \<Rightarrow> string) \<Rightarrow> (string \<Rightarrow> path_kind option) \<Rightarrow> vmap \<Rightarrow> string \<Rightarrow> bool \<Rightarrow> unit check" where
  "validate_service_volumes resolve lstat services app_root check_paths =
     bindE (if check_paths
            then each (\<lambda>path. require (lstat path = Some RegularPath))
                   [caddyfile_of app_root, role_script_of app_root]
            else Inr ()) (\<lambda>_.
     each (\<lambda>name.
         bindE (service_of services name) (\<lambda>service.
         bindE (require_list (vget_or service ''volumes'' (VList []))) (\<lambda>mounts.
         bindE (traverse normalize_mount mounts) (\<lambda>normalized.
         bindE (each (\<lambda>(mount_type, source, _, _).
             require (mount_type = ''bind'' \<longrightarrow> source \<notin> set sensitive_sources)) normalized) (\<lambda>_.
         require (length normalized = length (entry (expected_volumes resolve app_root) name)
                  \<and> set normalized = set (entry (expected_volumes resolve app_root) name))))))) EXPECTED_SERVICES)"

section \<open>Secrets\<close>

definition expected_mounts :: "(string \<times> string list) list" where
  "expected_mounts =
     [(''backend'', [''alpha_secret_key'', ''postgres_runtime_password'', ''redis_password'']),
      (''caddy'', []),
      (''db-roles'', [''postgres_owner_password'', ''postgres_migrator_password'', ''postgres_runtime_password'']),
      (''frontend'', []),
      (''migrate'', [''alpha_secret_key'', ''postgres_migrator_password'', ''redis_password'', ''admin_password'']),
      (''postgres'', [''postgres_owner_password'']),
      (''redis'', [''redis_password''])]"

definition secret_source :: "val \<Rightarrow> string check" where
  "secret_source raw_mount =
     bindE (require_mapping raw_mount) (\<lambda>mount.
     bindE (require (keys mount = {''source'', ''target''})) (\<lambda>_.
     case vget mount ''source'' of
       VStr source \<Rightarrow>
         bindE (require (py_eq (vget mount ''target'') (VStr (''/run/secrets/'' @ source)))) (\<lambda>_. Inr source)
     | _ \<Rightarrow> Inl ComposeSecurityError))"

definition validate_secrets ::
  "(string \<Rightarrow> string) \<Rightarrow> vmap \<Rightarrow> vmap \<Rightarrow> string \<Rightarrow> string \<Rightarrow> unit check" where
  "validate_secrets resolve config services app_root project =
     bindE (require_mapping (vget config ''secrets'')) (\<lambda>secrets.
     bindE (require (keys secrets = set EXPECTED_SECRETS)) (\<lambda>_.
     bindE (each (\<lambda>name.
         bindE (require_mapping (vget secrets name)) (\<lambda>secret.
         bindE (require (keys secret \<subseteq> {''file'', ''name''})) (\<lambda>_.
         bindE (require (py_eq (vget secret ''name'') (VStr (project @ ''_'' @ name)))) (\<lambda>_.
         require (py_eq (vget secret ''file'')
           (VStr (resolve (join_path (join_path app_root ''.secrets'') name)))))))) EXPECTED_SECRETS) (\<lambda>_.
     each (\<lambda>(service_name, expected_sources).
         bindE (service_of services service_name) (\<lambda>service.
         bindE (require_list (vget_or service ''secrets'' (VList []))) (\<lambda>raw_mounts.
         bindE (traverse secret_source raw_mounts) (\<lambda>actual.
         require (length raw_mounts = length expected_sources \<and> set actual = set expected_sources)))))
       expected_mounts)))"

definition sensitive_fragments :: "string list" where
  "sensitive_fragments = [''PASSWORD'', ''SECRET'', ''TOKEN'', ''PRIVATE_KEY'']"

text \<open>The sources of the well-formed secret mounts of a service.\<close>

definition mounted_secrets :: "val list \<Rightarrow> string list" where
  "mounted_secrets mounts =
     concat (map (\<lambda>m. case m of
                       VMap m \<Rightarrow> (case vget m ''source'' of VStr s \<Rightarrow> [s] | _ \<Rightarrow> [])
                     | _ \<Rightarrow> []) mounts)"

definition sensitive_key :: "string \<Rightarrow> bool" where
  "sensitive_key key \<longleftrightarrow> list_ex (\<lambda>fragment. sublist fragment (upper key)) sensitive_fragments"

definition secret_path_ok :: "string list \<Rightarrow> val \<Rightarrow> bool" where
  "secret_path_ok mounted v =
     (case v of
        VStr s \<Rightarrow> prefix ''/run/secrets/'' s \<and> drop (length ''/run/secrets/'') s \<in> set mounted
      | _ \<Rightarrow> False)"

definition validate_no_plaintext_secret_environment :: "vmap \<Rightarrow> unit check" where
  "validate_no_plaintext_secret_environment services =
     each (\<lambda>(service_name, service).
         bindE (require_mapping service) (\<lambda>service.
         bindE (require_mapping (vget_or service ''environment'' (VMap []))) (\<lambda>environment.
         bindE (require_list (vget_or service ''secrets'' (VList []))) (\<lambda>mounts.
         each (\<lambda>(key, v).
             if sensitive_key key
             then bindE (require (suffix ''_FILE'' (upper key))) (\<lambda>_.
                  require (secret_path_ok (mounted_secrets mounts) v))
             else Inr ()) environment)))) services"

section \<open>Dependencies and database roles\<close>

definition validate_dependency :: "vmap \<Rightarrow> string \<Rightarrow> string \<Rightarrow> string \<Rightarrow> unit check" where
  "validate_dependency services service_name dependency_name condition =
     bindE (service_of services service_name) (\<lambda>service.
     bindE (require_mapping (vget_or service ''depends_on'' (VMap []))) (\<lambda>dependencies.
     bindE (require_mapping (vget dependencies dependency_name)) (\<lambda>dependency.
     bindE (require (keys dependency \<subseteq> {''condition'', ''required'', ''restart''})) (\<lambda>_.
     bindE (require (py_eq (vget dependency ''condition'') (VStr condition))) (\<lambda>_.
     bindE (require (vget_or dependency ''required'' (VBool True) = VBool True)) (\<lambda>_.
     require (vget_or dependency ''restart'' (VBool False) = VBool False)))))))"

definition expected_dependencies :: "(string \<times> (string \<times> string) list) list" where
  "expected_dependencies =
     [(''backend'', [(''migrate'', ''service_completed_successfully''), (''redis'', ''service_healthy'')]),
      (''caddy'', [(''backend'', ''service_healthy''), (''frontend'', ''service_healthy'')]),
      (''db-roles'', [(''postgres'', ''service_healthy'')]),
      (''frontend'', []),
      (''migrate'', [(''db-roles'', ''service_completed_successfully'')]),
      (''postgres'', []),
      (''redis'', [])]"

definition expected_restart :: "string \<Rightarrow> string" where
  "expected_restart name = (if name \<in> {''db-roles'', ''migrate''} then ''no'' else ''unless-stopped'')"

definition require_database_wiring ::
  "(val \<Rightarrow> string) \<Rightarrow> compose_env \<Rightarrow> vmap \<Rightarrow> string \<Rightarrow> string \<Rightarrow> unit check" where
  "require_database_wiring show env environment user secret =
     bindE (require (py_eq (vget environment ''ALPHA_DATABASE_HOST'') (VStr ''postgres''))) (\<lambda>_.
     bindE (require (py_str show (vget environment ''ALPHA_DATABASE_PORT'') = ''5432'')) (\<lambda>_.
     bindE (require (py_eq (vget environment ''ALPHA_DATABASE_NAME'') (VStr (en_db env)))) (\<lambda>_.
     bindE (require (py_eq (vget environment ''ALPHA_DATABASE_USER'') (VStr user))) (\<lambda>_.
     require (py_eq (vget environment ''ALPHA_DATABASE_PASSWORD_FILE'')
       (VStr (''/run/secrets/'' @ secret)))))))"

definition environment_of :: "vmap \<Rightarrow> string \<Rightarrow> vmap check" where
  "environment_of services name =
     bindE (service_of services name) (\<lambda>service. require_mapping (vget service ''environment''))"

definition migrate_command :: string where
  "migrate_command = ''alembic upgrade head'' @ [CHR 0x0A] @ ''python -m alpha.cli bootstrap''"

definition require_dependencies :: "vmap \<Rightarrow> unit check" where
  "require_dependencies services =
     each (\<lambda>(service_name, expected).
         bindE (service_of services service_name) (\<lambda>service.
         bindE (require_mapping (vget_or service ''depends_on'' (VMap []))) (\<lambda>actual.
         bindE (require (keys actual = set (map fst expected))) (\<lambda>_.
         each (\<lambda>(dependency_name, condition).
             validate_dependency services service_name dependency_name condition) expected))))
       expected_dependencies"

definition require_postgres_wiring :: "vmap \<Rightarrow> compose_env \<Rightarrow> unit check" where
  "require_postgres_wiring services env =
     bindE (environment_of services ''postgres'') (\<lambda>environment.
     bindE (require (py_eq (vget environment ''POSTGRES_DB'') (VStr (en_db env)))) (\<lambda>_.
     bindE (require (py_eq (vget environment ''POSTGRES_USER'') (VStr (en_owner env)))) (\<lambda>_.
     require (py_eq (vget environment ''POSTGRES_PASSWORD_FILE'')
       (VStr ''/run/secrets/postgres_owner_password'')))))"

definition require_role_wiring :: "vmap \<Rightarrow> compose_env \<Rightarrow> unit check" where
  "require_role_wiring services env =
     bindE (environment_of services ''db-roles'') (\<lambda>environment.
     bindE (require (py_eq (VMap environment) (VMap
         [(''ALPHA_POSTGRES_DB'', VStr (en_db env)), (''ALPHA_POSTGRES_OWNER_USER'', VStr (en_owner env)),
          (''ALPHA_POSTGRES_MIGRATOR_USER'', VStr (en_migrator env)),
          (''ALPHA_POSTGRES_RUNTIME_USER'', VStr (en_runtime env))]))) (\<lambda>_.
     bindE (service_of services ''db-roles'') (\<lambda>service.
     bindE (require (py_eq (vget service ''entrypoint'')
       (strs [''/bin/sh'', ''/usr/local/bin/provision-roles.sh'']))) (\<lambda>_.
     require (py_in (vget service ''command'') [VNull, VList []])))))"

definition require_migrate_contract :: "vmap \<Rightarrow> string \<Rightarrow> unit check" where
  "require_migrate_contract services project =
     bindE (service_of services ''migrate'') (\<lambda>service.
     bindE (require (py_eq (vget service ''image'') (VStr (project @ ''-backend'')))) (\<lambda>_.
     bindE (require (py_eq (vget service ''entrypoint'') (strs [''/bin/sh'', ''-ec'']))) (\<lambda>_.
     bindE (require_list (vget service ''command'')) (\<lambda>command.
     require (case command of [VStr c] \<Rightarrow> strip c = migrate_command | _ \<Rightarrow> False)))))"

definition validate_database_role_boundary ::
  "(val \<Rightarrow> string) \<Rightarrow> vmap \<Rightarrow> compose_env \<Rightarrow> string \<Rightarrow> unit check" where
  "validate_database_role_boundary show services env project =
     bindE (require_dependencies services) (\<lambda>_.
     bindE (each (\<lambda>name.
         bindE (service_of services name) (\<lambda>service.
         require (py_eq (vget service ''restart'') (VStr (expected_restart name))))) EXPECTED_SERVICES) (\<lambda>_.
     bindE (require_postgres_wiring services env) (\<lambda>_.
     bindE (require_role_wiring services env) (\<lambda>_.
     bindE (environment_of services ''migrate'') (\<lambda>migrate_environment.
     bindE (environment_of services ''backend'') (\<lambda>backend_environment.
     bindE (require_database_wiring show env migrate_environment (en_migrator env) ''postgres_migrator_password'') (\<lambda>_.
     bindE (require_database_wiring show env backend_environment (en_runtime env) ''postgres_runtime_password'') (\<lambda>_.
     require_migrate_contract services project))))))))"

section \<open>The whole gate\<close>

record host =
  h_resolve :: "string \<Rightarrow> string"
  h_lstat :: "string \<Rightarrow> path_kind option"
  h_show :: "val \<Rightarrow> string"

definition image_of :: "vmap \<Rightarrow> string \<Rightarrow> val" where
  "image_of services name =
     (case vget services name of VMap service \<Rightarrow> vget service ''image'' | _ \<Rightarrow> VNull)"

definition validate_compose :: "host \<Rightarrow> vmap \<Rightarrow> string \<Rightarrow> compose_env \<Rightarrow> bool \<Rightarrow> (val \<times> val) check" where
  "validate_compose h config app_root env check_paths =
     bindE (require_mapping (vget config ''services'')) (\<lambda>services.
     bindE (require (keys services = set EXPECTED_SERVICES)) (\<lambda>_.
     bindE (require (py_eq (vget config ''name'') (VStr (en_project env)))) (\<lambda>_.
     bindE (require (py_in (vget config ''configs'') [VNull, VMap []])) (\<lambda>_.
     bindE (validate_builds (h_resolve h) services app_root) (\<lambda>_.
     bindE (validate_process_boundaries services) (\<lambda>_.
     bindE (validate_ports (h_show h) services env) (\<lambda>_.
     bindE (validate_top_level_networks config (en_project env)) (\<lambda>_.
     bindE (validate_service_networks services) (\<lambda>_.
     bindE (validate_top_level_volumes config (en_project env)) (\<lambda>_.
     bindE (validate_service_volumes (h_resolve h) (h_lstat h) services app_root check_paths) (\<lambda>_.
     bindE (validate_secrets (h_resolve h) config services app_root (en_project env)) (\<lambda>_.
     bindE (validate_no_plaintext_secret_environment services) (\<lambda>_.
     bindE (validate_database_role_boundary (h_show h) services env (en_project env)) (\<lambda>_.
     Inr (image_of services ''postgres'', image_of services ''redis'')))))))))))))))"

text \<open>
  The command line with three arguments: the parsed render (\<open>None\<close> when it cannot be read
  or is not JSON) and the env file. The result is the exit status with the two images.
\<close>

definition compose_main ::
  "host \<Rightarrow> val option \<Rightarrow> string \<Rightarrow> string option \<Rightarrow> int \<times> (val \<times> val) option" where
  "compose_main h config app_root env_file =
     (case bindE (case config of None \<Rightarrow> Inl ComposeSecurityError | Some v \<Rightarrow> require_mapping v) (\<lambda>config.
           bindE (read_required_env env_file) (\<lambda>env.
           validate_compose h config (h_resolve h app_root) env True)) of
        Inl _ \<Rightarrow> (1, None)
      | Inr images \<Rightarrow> (0, Some images))"

section \<open>What an accepted graph guarantees\<close>

lemma py_eq_Str [simp]: "py_eq v (VStr s) \<longleftrightarrow> v = VStr s"
  by (cases v) auto

lemma py_eq_Null [simp]: "py_eq v VNull \<longleftrightarrow> v = VNull"
  by (cases v) auto

lemma py_eq_list_strs: "py_eq_list xs (map VStr ss) \<longleftrightarrow> xs = map VStr ss"
  by (induction xs arbitrary: ss) (auto split: list.splits)

lemma py_eq_list_one [simp]: "py_eq_list xs [VStr s] \<longleftrightarrow> xs = [VStr s]"
  using py_eq_list_strs[of xs "[s]"] by simp

lemma py_eq_strs [simp]: "py_eq (VList xs) (strs ss) \<longleftrightarrow> xs = map VStr ss"
  by (simp add: strs_def py_eq_list_strs)

lemma vget_key: "vget m k \<noteq> VNull \<Longrightarrow> k \<in> keys m"
  by (auto simp: vget_def keys_def image_iff split: option.splits dest!: map_of_SomeD) force

lemma vget_member: "vget m k = v \<Longrightarrow> v \<noteq> VNull \<Longrightarrow> (k, v) \<in> set m"
  by (auto simp: vget_def split: option.splits dest!: map_of_SomeD)

lemma service_of_Inr [simp]: "service_of services name = Inr m \<longleftrightarrow> vget services name = VMap m"
  by (simp add: service_of_def)

lemma accepted_parts:
  assumes "validate_compose h config app_root env check_paths = Inr images"
    and "vget config ''services'' = VMap services"
  shows "keys services = set EXPECTED_SERVICES \<and> validate_process_boundaries services = Inr ()
    \<and> validate_ports (h_show h) services env = Inr ()
    \<and> validate_top_level_networks config (en_project env) = Inr () \<and> validate_service_networks services = Inr ()
    \<and> validate_service_volumes (h_resolve h) (h_lstat h) services app_root check_paths = Inr ()
    \<and> validate_secrets (h_resolve h) config services app_root (en_project env) = Inr ()
    \<and> validate_no_plaintext_secret_environment services = Inr ()
    \<and> validate_database_role_boundary (h_show h) services env (en_project env) = Inr ()"
  using assms by (simp add: validate_compose_def)

lemma accepted_service:
  assumes "validate_compose h config app_root env check_paths = Inr images"
    and "vget config ''services'' = VMap services" and "vget services name = VMap svc"
  shows "name \<in> set EXPECTED_SERVICES"
  using accepted_parts[OF assms(1,2)] vget_key[of services name] assms(3) by simp

lemma exact_names_Inr:
  "require_exact_names xs names = Inr u \<longleftrightarrow> distinct xs \<and> set xs = VStr ` set names"
  by (auto simp: require_exact_names_def list_all_iff)

lemma process_ok:
  assumes "service_process_ok name service = Inr ()"
  shows "vget service ''user'' = VStr (expected_user name)
    \<and> py_in (vget service ''privileged'') [VNull, VBool False]
    \<and> vget_or service ''read_only'' (VBool False) = VBool True
    \<and> vget_or service ''cap_drop'' (VList []) = strs [''ALL'']
    \<and> (\<exists>caps. vget_or service ''cap_add'' (VList []) = VList caps
         \<and> set caps = VStr ` set (entry expected_cap_add name))
    \<and> vget_or service ''security_opt'' (VList []) = strs [''no-new-privileges:true'']
    \<and> (\<forall>field \<in> set forbidden_nonempty. py_in (vget service field) [VNull, VBool False, VList [], VMap []])"
  using assms unfolding service_process_ok_def bindE_Inr guard_Inr exact_names_Inr require_list_Inr py_eq_strs each_Inr
  by (elim exE conjE) (simp add: strs_def)

lemma cap_services: "entry expected_cap_add name \<noteq> [] \<Longrightarrow> name \<in> {''caddy'', ''postgres''}"
  by (cases "name = ''caddy''"; cases "name = ''postgres''") (simp_all add: entry_def expected_cap_add_def)

lemma mount_ok:
  assumes "normalize_mount item = Inr (ty, source, target, ro)"
  shows "\<exists>m. item = VMap m \<and> vget m ''type'' = VStr ty \<and> vget m ''source'' = VStr source
    \<and> vget m ''target'' = VStr target \<and> vget_or m ''read_only'' (VBool False) = VBool ro"
proof -
  obtain m where i: "item = VMap m" using assms by (auto simp: normalize_mount_def)
  note run = assms[unfolded i normalize_mount_def]
  obtain ty' where t: "mount_type_of m = Inr ty'" using run by (auto simp: require_mapping_def)
  then have ty: "vget m ''type'' = VStr ty'"
    by (cases "vget m ''type''") (simp_all add: mount_type_of_def split: if_splits)
  obtain s' t' where s: "vget m ''source'' = VStr s'" "vget m ''target'' = VStr t'"
    using run t by (cases "vget m ''source''"; cases "vget m ''target''") (simp_all add: require_mapping_def)
  obtain ro' where r: "vget_or m ''read_only'' (VBool False) = VBool ro'"
    using run t s by (cases "vget_or m ''read_only'' (VBool False)") (simp_all add: require_mapping_def)
  have "ty' = ty \<and> s' = source \<and> t' = target \<and> ro' = ro"
    using run t s r by (simp add: require_mapping_def)
  then show ?thesis using i ty s r by blast
qed

text \<open>The mounts of a service, once normalised, are those of the table.\<close>

lemma accepted_mounts:
  assumes "validate_service_volumes resolve lstat services app_root check_paths = Inr ()"
    and "name \<in> set EXPECTED_SERVICES" and "vget services name = VMap svc"
    and "vget_or svc ''volumes'' (VList []) = VList mounts" and "item \<in> set mounts"
  shows "\<exists>x \<in> set (entry (expected_volumes resolve app_root) name). normalize_mount item = Inr x"
proof -
  obtain ns where t: "traverse normalize_mount mounts = Inr ns"
    and s: "set ns = set (entry (expected_volumes resolve app_root) name)"
    using assms(1-4) by (auto simp: validate_service_volumes_def)
  obtain x where "x \<in> set ns" "normalize_mount item = Inr x"
    using traverse_member[OF t assms(5)] by blast
  then show ?thesis using s by blast
qed

lemma expected_volume_bind:
  "(''bind'', source, target, ro) \<in> set (entry (expected_volumes resolve app_root) name) \<Longrightarrow>
   ro \<and> source \<in> {resolve (role_script_of app_root), resolve (caddyfile_of app_root)}"
  by (auto simp: entry_def expected_volumes_def split: if_splits option.splits)

text \<open>
  C33: every service of an accepted graph is confined: it is one of the seven, drops all
  capabilities and adds none beyond the table (only caddy and postgres have any), is not
  privileged, cannot gain privileges, has a read only root, none of the forbidden
  options, and mounts no path of the host but the two canonical files, read only. Only
  caddy publishes ports, on the configured address.
\<close>

theorem accepted_confined:
  assumes "validate_compose h config app_root env check_paths = Inr images"
    and "vget config ''services'' = VMap services" and "vget services name = VMap svc"
  shows "name \<in> set EXPECTED_SERVICES
    \<and> vget_or svc ''cap_drop'' (VList []) = strs [''ALL'']
    \<and> (\<forall>c caps. vget_or svc ''cap_add'' (VList []) = VList caps \<and> c \<in> set caps \<longrightarrow>
         name \<in> {''caddy'', ''postgres''} \<and> c \<in> VStr ` set (entry expected_cap_add name))
    \<and> py_in (vget svc ''privileged'') [VNull, VBool False]
    \<and> vget_or svc ''read_only'' (VBool False) = VBool True
    \<and> vget_or svc ''security_opt'' (VList []) = strs [''no-new-privileges:true'']
    \<and> (\<forall>field \<in> set forbidden_nonempty. py_in (vget svc field) [VNull, VBool False, VList [], VMap []])
    \<and> (\<forall>mounts m source. vget_or svc ''volumes'' (VList []) = VList mounts \<and> VMap m \<in> set mounts
         \<and> vget m ''type'' = VStr ''bind'' \<and> vget m ''source'' = VStr source \<longrightarrow>
         vget_or m ''read_only'' (VBool False) = VBool True
         \<and> source \<in> {h_resolve h (role_script_of app_root), h_resolve h (caddyfile_of app_root)})
    \<and> (name \<noteq> ''caddy'' \<longrightarrow> py_in (vget svc ''ports'') [VNull, VList []])
    \<and> (name = ''caddy'' \<longrightarrow> (\<exists>ports. vget svc ''ports'' = VList ports
         \<and> (\<forall>item \<in> set ports. \<exists>p \<in> expected_ports env. normalize_port (h_show h) item = Inr p)))"
proof -
  note P = accepted_parts[OF assms(1,2)] and n = accepted_service[OF assms]
  have proc: "service_process_ok name svc = Inr ()"
    using P n assms(3) by (auto simp: validate_process_boundaries_def)
  have caps: "\<forall>c caps. vget_or svc ''cap_add'' (VList []) = VList caps \<and> c \<in> set caps \<longrightarrow>
      name \<in> {''caddy'', ''postgres''} \<and> c \<in> VStr ` set (entry expected_cap_add name)"
    using process_ok[OF proc] cap_services[of name] by (elim conjE exE) force
  have mounts: "vget_or m ''read_only'' (VBool False) = VBool True
      \<and> source \<in> {h_resolve h (role_script_of app_root), h_resolve h (caddyfile_of app_root)}"
    if m: "vget_or svc ''volumes'' (VList []) = VList mounts" "VMap m \<in> set mounts"
      "vget m ''type'' = VStr ''bind''" "vget m ''source'' = VStr source" for mounts m source
  proof -
    have vol: "validate_service_volumes (h_resolve h) (h_lstat h) services app_root check_paths = Inr ()"
      using P by blast
    obtain ty s t ro where x: "(ty, s, t, ro) \<in> set (entry (expected_volumes (h_resolve h) app_root) name)"
      "normalize_mount (VMap m) = Inr (ty, s, t, ro)"
      using accepted_mounts[OF vol n assms(3) m(1,2)] by auto
    have e: "ty = ''bind''" "s = source" "vget_or m ''read_only'' (VBool False) = VBool ro"
      using mount_ok[OF x(2)] m(3,4) by auto
    from expected_volume_bind[OF x(1)[unfolded e(1,2)]] show ?thesis using e(3) by simp
  qed
  have port: "name \<noteq> ''caddy'' \<longrightarrow> py_in (vget svc ''ports'') [VNull, VList []]"
    using P n assms(3) by (auto simp: validate_ports_def)
  have vp: "validate_ports (h_show h) services env = Inr ()" using P by blast
  have caddy: "\<exists>ports. vget svc ''ports'' = VList ports
      \<and> (\<forall>item \<in> set ports. \<exists>p \<in> expected_ports env. normalize_port (h_show h) item = Inr p)"
    if c: "name = ''caddy''"
  proof -
    obtain ports actual where ps: "vget svc ''ports'' = VList ports"
      and t: "traverse (normalize_port (h_show h)) ports = Inr actual" and e: "set actual = expected_ports env"
      using vp assms(3) c by (auto simp: validate_ports_def)
    show ?thesis using ps traverse_member[OF t] e by blast
  qed
  note K = process_ok[OF proc]
  have bind: "\<forall>mounts m source. vget_or svc ''volumes'' (VList []) = VList mounts \<and> VMap m \<in> set mounts
         \<and> vget m ''type'' = VStr ''bind'' \<and> vget m ''source'' = VStr source \<longrightarrow>
         vget_or m ''read_only'' (VBool False) = VBool True
         \<and> source \<in> {h_resolve h (role_script_of app_root), h_resolve h (caddyfile_of app_root)}"
    by (intro allI impI mounts) (elim conjE, assumption)+
  show ?thesis
    by (intro conjI n caps bind port impI caddy) (use K in blast)+
qed

text \<open>The networks a service is attached to.\<close>

definition attached :: "vmap \<Rightarrow> string \<Rightarrow> string \<Rightarrow> bool" where
  "attached services name network \<longleftrightarrow>
     (case vget services name of
        VMap svc \<Rightarrow> (case vget svc ''networks'' of VMap ns \<Rightarrow> network \<in> keys ns | _ \<Rightarrow> False)
      | _ \<Rightarrow> False)"

lemma accepted_membership:
  assumes "validate_service_networks services = Inr ()" and "(name, nets) \<in> set expected_membership"
  shows "attached services name network \<longleftrightarrow> network \<in> set nets"
proof -
  obtain svc ns where "vget services name = VMap svc" "vget svc ''networks'' = VMap ns" "keys ns = set nets"
    using bspec[OF assms(1)[unfolded validate_service_networks_def each_Inr] assms(2)] by auto
  then show ?thesis by (simp add: attached_def)
qed

lemma accepted_network:
  assumes "validate_top_level_networks config project = Inr ()" and "network \<in> set EXPECTED_NETWORKS"
  shows "\<exists>m. vget (case vget config ''networks'' of VMap ns \<Rightarrow> ns | _ \<Rightarrow> []) network = VMap m
    \<and> vget_or m ''internal'' (VBool False) = VBool (network \<noteq> ''public'')"
  using assms by (auto simp: validate_top_level_networks_def)

text \<open>
  C32: the network boundary. In an accepted graph only caddy is on the network that is not
  internal; no network joins caddy or the frontend with PostgreSQL or Redis, so nothing the
  outside can reach directly is a neighbour of a store, and the frontend has no neighbour but
  caddy.
\<close>

theorem accepted_networks:
  assumes "validate_compose h config app_root env check_paths = Inr images"
    and "vget config ''services'' = VMap services"
    and "name \<in> set EXPECTED_SERVICES" and "attached services name network"
  shows "network \<in> set EXPECTED_NETWORKS
    \<and> (network = ''public'' \<longrightarrow> name = ''caddy'')
    \<and> (\<exists>m. vget (case vget config ''networks'' of VMap ns \<Rightarrow> ns | _ \<Rightarrow> []) network = VMap m
         \<and> vget_or m ''internal'' (VBool False) = VBool (network \<noteq> ''public''))
    \<and> (name \<in> {''caddy'', ''frontend''} \<longrightarrow>
         \<not> attached services ''postgres'' network \<and> \<not> attached services ''redis'' network)
    \<and> (\<forall>other \<in> set EXPECTED_SERVICES. name = ''frontend'' \<and> attached services other network \<longrightarrow>
         other \<in> {''caddy'', ''frontend''})"
proof -
  note P = accepted_parts[OF assms(1,2)]
  have net: "validate_service_networks services = Inr ()" using P by blast
  have m: "attached services s n \<longleftrightarrow> n \<in> set (entry expected_membership s)" if "s \<in> set EXPECTED_SERVICES" for s n
  proof -
    have "(s, entry expected_membership s) \<in> set expected_membership"
      using that by (auto simp: EXPECTED_SERVICES_def expected_membership_def entry_def)
    then show ?thesis by (rule accepted_membership[OF net])
  qed
  have e: "postgres_redis \<in> {''postgres'', ''redis''} \<Longrightarrow> postgres_redis \<in> set EXPECTED_SERVICES" for postgres_redis
    by (auto simp: EXPECTED_SERVICES_def)
  have tab: "\<forall>s \<in> set EXPECTED_SERVICES. \<forall>n \<in> set (entry expected_membership s).
      n \<in> set EXPECTED_NETWORKS \<and> (n = ''public'' \<longrightarrow> s = ''caddy'')
      \<and> (s \<in> {''caddy'', ''frontend''} \<longrightarrow>
          n \<notin> set (entry expected_membership ''postgres'') \<and> n \<notin> set (entry expected_membership ''redis''))
      \<and> (\<forall>t \<in> set EXPECTED_SERVICES. s = ''frontend'' \<and> n \<in> set (entry expected_membership t) \<longrightarrow>
          t \<in> {''caddy'', ''frontend''})"
    by code_simp
  have n: "network \<in> set (entry expected_membership name)" using m[OF assms(3)] assms(4) by blast
  note T = tab[rule_format, OF assms(3) n]
  have "\<exists>m. vget (case vget config ''networks'' of VMap ns \<Rightarrow> ns | _ \<Rightarrow> []) network = VMap m
         \<and> vget_or m ''internal'' (VBool False) = VBool (network \<noteq> ''public'')"
    by (rule accepted_network) (use P T in blast)+
  then show ?thesis using T m e by blast
qed

text \<open>The secrets a service is granted.\<close>

definition granted :: "vmap \<Rightarrow> string \<Rightarrow> string list" where
  "granted services name =
     (case vget services name of
        VMap svc \<Rightarrow> (case vget_or svc ''secrets'' (VList []) of VList ms \<Rightarrow> mounted_secrets ms | _ \<Rightarrow> [])
      | _ \<Rightarrow> [])"

lemma traverse_sources: "traverse secret_source ms = Inr xs \<Longrightarrow> mounted_secrets ms = xs"
proof (induction ms arbitrary: xs)
  case Nil
  then show ?case by (simp add: mounted_secrets_def)
next
  case (Cons m ms)
  then obtain x ys where x: "secret_source m = Inr x" "traverse secret_source ms = Inr ys" "xs = x # ys" by auto
  obtain d where d: "m = VMap d" using x(1) by (auto simp: secret_source_def)
  have "vget d ''source'' = VStr x"
    using x(1) d by (cases "vget d ''source''") (auto simp: secret_source_def require_mapping_def)
  then show ?case using Cons.IH[OF x(2)] x(3) d by (simp add: mounted_secrets_def)
qed

lemma accepted_grants:
  assumes "validate_secrets resolve config services app_root project = Inr ()"
    and "name \<in> set EXPECTED_SERVICES"
  shows "set (granted services name) = set (entry expected_mounts name)"
proof -
  have mem: "(name, entry expected_mounts name) \<in> set expected_mounts"
    using assms(2) by (auto simp: EXPECTED_SERVICES_def expected_mounts_def entry_def)
  have "\<forall>(name, sources) \<in> set expected_mounts.
      bindE (service_of services name) (\<lambda>service.
      bindE (require_list (vget_or service ''secrets'' (VList []))) (\<lambda>raw_mounts.
      bindE (traverse secret_source raw_mounts) (\<lambda>actual.
      require (length raw_mounts = length sources \<and> set actual = set sources)))) = Inr ()"
    using assms(1) unfolding validate_secrets_def bindE_Inr each_Inr by auto
  from bspec[OF this mem] obtain svc ms xs where s: "vget services name = VMap svc"
    and l: "vget_or svc ''secrets'' (VList []) = VList ms" and t: "traverse secret_source ms = Inr xs"
    and e: "set xs = set (entry expected_mounts name)" by auto
  show ?thesis using s l traverse_sources[OF t] e by (simp add: granted_def)
qed

lemma wiring_user:
  assumes "require_database_wiring show env environment user secret = Inr ()"
  shows "vget environment ''ALPHA_DATABASE_USER'' = VStr user"
  using assms unfolding require_database_wiring_def bindE_Inr guard_Inr py_eq_Str by blast

lemma accepted_roles:
  assumes "validate_database_role_boundary show services env project = Inr ()"
  shows "\<exists>m b. environment_of services ''migrate'' = Inr m \<and> environment_of services ''backend'' = Inr b
    \<and> vget m ''ALPHA_DATABASE_USER'' = VStr (en_migrator env)
    \<and> vget b ''ALPHA_DATABASE_USER'' = VStr (en_runtime env)"
proof -
  obtain m b where "environment_of services ''migrate'' = Inr m" "environment_of services ''backend'' = Inr b"
    "require_database_wiring show env m (en_migrator env) ''postgres_migrator_password'' = Inr ()"
    "require_database_wiring show env b (en_runtime env) ''postgres_runtime_password'' = Inr ()"
    using assms unfolding validate_database_role_boundary_def bindE_Inr by auto
  then show ?thesis using wiring_user by blast
qed

text \<open>A sensitive variable is the path of a secret of the service; a role never runs as the owner.\<close>

lemma accepted_secret_path:
  assumes plain: "validate_no_plaintext_secret_environment services = Inr ()"
    and svc: "vget services name = VMap svc"
    and e: "vget_or svc ''environment'' (VMap []) = VMap environment" "(key, v) \<in> set environment" "sensitive_key key"
  shows "\<exists>s \<in> set (granted services name). v = VStr (''/run/secrets/'' @ s)"
proof -
  have mem: "(name, VMap svc) \<in> set services" by (rule vget_member[OF svc]) simp
  obtain mounts where m: "vget_or svc ''secrets'' (VList []) = VList mounts"
    and all: "\<forall>x \<in> set environment. (case x of (key, v) \<Rightarrow>
           if sensitive_key key
           then bindE (require (suffix ''_FILE'' (upper key))) (\<lambda>_.
                require (secret_path_ok (mounted_secrets mounts) v))
           else Inr ()) = Inr ()"
    using bspec[OF plain[unfolded validate_no_plaintext_secret_environment_def each_Inr] mem] e(1)
    by (auto simp: require_mapping_def)
  have "secret_path_ok (mounted_secrets mounts) v" using bspec[OF all e(2)] e(3) by auto
  moreover have "granted services name = mounted_secrets mounts" using svc m by (simp add: granted_def)
  ultimately show ?thesis
    by (cases v) (auto simp: secret_path_ok_def prefix_def)
qed

lemma accepted_role:
  assumes dbs: "validate_database_role_boundary show services env project = Inr ()"
    and svc: "vget services name = VMap svc" and roles: "distinct [en_owner env, en_migrator env, en_runtime env]"
    and r: "name \<in> {''backend'', ''migrate''}" "vget svc ''environment'' = VMap environment"
  shows "vget environment ''ALPHA_DATABASE_USER'' \<noteq> VStr (en_owner env)"
proof -
  have "environment_of services name = Inr environment"
    using svc r(2) by (simp add: environment_of_def)
  moreover obtain m b where "environment_of services ''migrate'' = Inr m" "environment_of services ''backend'' = Inr b"
    "vget m ''ALPHA_DATABASE_USER'' = VStr (en_migrator env)"
    "vget b ''ALPHA_DATABASE_USER'' = VStr (en_runtime env)"
    using accepted_roles[OF dbs] by blast
  moreover have "name = ''backend'' \<or> name = ''migrate''" using r(1) by simp
  ultimately have "vget environment ''ALPHA_DATABASE_USER'' \<in> {VStr (en_migrator env), VStr (en_runtime env)}"
    by (elim disjE) simp_all
  then show ?thesis using roles by auto
qed

text \<open>
  The secret boundary. In an accepted graph every service is granted exactly the
  secrets of the table: none for caddy and the frontend, and the backend neither the
  owner's nor the migrator's database password; an environment variable whose name speaks
  of a secret holds the path of a secret its service is granted, never a value; the
  backend and the migrator sign in to the database with roles that are not the owner.
\<close>

theorem accepted_secrets:
  assumes "validate_compose h config app_root env check_paths = Inr images"
    and "vget config ''services'' = VMap services" and "vget services name = VMap svc"
    and "distinct [en_owner env, en_migrator env, en_runtime env]"
  shows "set (granted services name) = set (entry expected_mounts name)
    \<and> (name \<in> {''caddy'', ''frontend''} \<longrightarrow> granted services name = [])
    \<and> (name = ''backend'' \<longrightarrow>
         set (granted services name) \<inter> {''postgres_owner_password'', ''postgres_migrator_password''} = {})
    \<and> (\<forall>environment key v. vget_or svc ''environment'' (VMap []) = VMap environment
         \<and> (key, v) \<in> set environment \<and> sensitive_key key \<longrightarrow>
         (\<exists>s \<in> set (granted services name). v = VStr (''/run/secrets/'' @ s)))
    \<and> (\<forall>environment. name \<in> {''backend'', ''migrate''} \<and> vget svc ''environment'' = VMap environment \<longrightarrow>
         vget environment ''ALPHA_DATABASE_USER'' \<noteq> VStr (en_owner env))"
proof -
  note P = accepted_parts[OF assms(1,2)] and n = accepted_service[OF assms(1-3)]
  have sec: "validate_secrets (h_resolve h) config services app_root (en_project env) = Inr ()" using P by blast
  note G = accepted_grants[OF sec n]
  have none: "granted services name = []" if "name \<in> {''caddy'', ''frontend''}"
    using G that by (auto simp: entry_def expected_mounts_def)
  have nodb: "set (granted services name) \<inter> {''postgres_owner_password'', ''postgres_migrator_password''} = {}"
    if "name = ''backend''"
    unfolding G using that by (simp add: entry_def expected_mounts_def)
  have plain: "validate_no_plaintext_secret_environment services = Inr ()" using P by blast
  have dbs: "validate_database_role_boundary (h_show h) services env (en_project env) = Inr ()" using P by blast
  have env': "\<forall>environment key v. vget_or svc ''environment'' (VMap []) = VMap environment
         \<and> (key, v) \<in> set environment \<and> sensitive_key key \<longrightarrow>
         (\<exists>s \<in> set (granted services name). v = VStr (''/run/secrets/'' @ s))"
    by (intro allI impI) (elim conjE, rule accepted_secret_path[OF plain assms(3)])
  have role': "\<forall>environment. name \<in> {''backend'', ''migrate''} \<and> vget svc ''environment'' = VMap environment \<longrightarrow>
         vget environment ''ALPHA_DATABASE_USER'' \<noteq> VStr (en_owner env)"
    by (intro allI impI) (elim conjE, rule accepted_role[OF dbs assms(3,4)])
  have none': "name \<in> {''caddy'', ''frontend''} \<longrightarrow> granted services name = []" using none by blast
  have nodb': "name = ''backend'' \<longrightarrow>
         set (granted services name) \<inter> {''postgres_owner_password'', ''postgres_migrator_password''} = {}"
    using nodb by blast
  show ?thesis by (intro conjI) (fact G none' nodb' env' role')+
qed

section \<open>The env file\<close>

lemma strip_chars_empty: "strip_chars cs s = [] \<longleftrightarrow> set s \<subseteq> cs"
proof -
  let ?t = "dropWhile (\<lambda>c. c \<in> cs) s"
  have e: "strip_chars cs s = [] \<longleftrightarrow> (\<forall>c \<in> set ?t. c \<in> cs)"
    unfolding strip_chars_def rev_is_Nil_conv dropWhile_eq_Nil_conv set_rev ..
  show ?thesis
  proof
    assume "strip_chars cs s = []"
    then have "?t = []"
      using e hd_dropWhile[of "\<lambda>c. c \<in> cs" s] hd_in_set[of ?t] by blast
    then show "set s \<subseteq> cs" unfolding dropWhile_eq_Nil_conv by blast
  next
    assume "set s \<subseteq> cs"
    then show "strip_chars cs s = []" unfolding e using set_dropWhileD by fast
  qed
qed

text \<open>
  The env reader accepts only canonical values: a project name of at most 63 lower
  case letters, digits and single inner hyphens, a loopback or wildcard bind address, two
  different ports between 1 and 65535 written as Python writes them, database names of at
  most 63 letters, digits and underscores, and three different roles. Each value is the
  text after the first equals sign of the one line that sets its key.
\<close>

theorem required_env_canonical:
  assumes "read_required_env contents = Inr env"
  shows "\<exists>body. contents = Some body
    \<and> set (en_project env) \<subseteq> set (lower_letters @ digits @ ''-'') \<and> \<not> sublist ''--'' (en_project env)
    \<and> en_project env \<noteq> [] \<and> length (en_project env) \<le> 63
    \<and> en_bind env \<in> {''127.0.0.1'', ''0.0.0.0''}
    \<and> (\<exists>http https. 1 \<le> http \<and> http \<le> 65535 \<and> 1 \<le> https \<and> https \<le> 65535 \<and> http \<noteq> https
         \<and> en_http_port env = int_text http \<and> en_https_port env = int_text https)
    \<and> (\<forall>x \<in> {en_db env, en_owner env, en_migrator env, en_runtime env}.
         x \<noteq> [] \<and> length x \<le> 63 \<and> set x \<subseteq> set (upper_letters @ lower_letters @ digits @ ''_''))
    \<and> distinct [en_owner env, en_migrator env, en_runtime env]
    \<and> en_migrator env = ''alpha_migrator'' \<and> en_runtime env = ''alpha_app''
    \<and> (\<exists>l. l \<in> set (env_lines body) \<and> l = ''ALPHA_COMPOSE_PROJECT_NAME='' @ en_project env)"
proof -
  obtain body where b: "contents = Some body" using assms by (cases contents) (auto simp: read_required_env_def)
  note run = assms[unfolded read_required_env_def b option.case bindE_Inr guard_Inr]
  have one: "\<exists>l \<in> set (env_lines body). l = key @ CHR ''='' # v" if v: "required_value body key = Inr v" for key v
  proof -
    obtain l where l: "filter (\<lambda>l. before_first CHR ''='' l = key) (env_lines body) = [l]" "v = after_first CHR ''='' l"
      using v by (auto simp: required_value_def split: list.splits)
    then have "l \<in> set (env_lines body)" "before_first CHR ''='' l = key" by (auto simp: filter_eq_Cons_iff)
    moreover from this have "CHR ''='' \<in> set l" by (auto simp: env_lines_def)
    ultimately show ?thesis using split_first[of "CHR ''=''" l] l(2) by metis
  qed
  have port: "\<exists>n. 1 \<le> n \<and> n \<le> 65535 \<and> s = int_text n" if "port_ok s" for s
    using that by (auto simp: port_ok_def split: option.splits)
  obtain project where p: "required_value body ''ALPHA_COMPOSE_PROJECT_NAME'' = Inr project"
    and e: "en_project env = project" "project_name_ok project"
    and rest: "en_bind env \<in> {''127.0.0.1'', ''0.0.0.0''}" "port_ok (en_http_port env)" "port_ok (en_https_port env)"
      "en_http_port env \<noteq> en_https_port env"
      "list_all identifier_ok [en_db env, en_owner env, en_migrator env, en_runtime env]"
      "distinct [en_owner env, en_migrator env, en_runtime env]"
      "en_migrator env = ''alpha_migrator''" "en_runtime env = ''alpha_app''"
    using run by (elim exE conjE) (drule sum.inject(2)[THEN iffD1], drule sym[where t = env], simp)
  have names: "\<forall>x \<in> {en_db env, en_owner env, en_migrator env, en_runtime env}.
         x \<noteq> [] \<and> length x \<le> 63 \<and> set x \<subseteq> set (upper_letters @ lower_letters @ digits @ ''_'')"
    using rest(5) unfolding identifier_ok_def strip_chars_empty by simp
  have proj: "set (en_project env) \<subseteq> set (lower_letters @ digits @ ''-'')" "\<not> sublist ''--'' (en_project env)"
    "en_project env \<noteq> []" "length (en_project env) \<le> 63"
    using e unfolding project_name_ok_def strip_chars_empty by simp_all
  have ports: "\<exists>http https. 1 \<le> http \<and> http \<le> 65535 \<and> 1 \<le> https \<and> https \<le> 65535 \<and> http \<noteq> https
         \<and> en_http_port env = int_text http \<and> en_https_port env = int_text https"
    using port[OF rest(2)] port[OF rest(3)] rest(4) by metis
  have line: "\<exists>l. l \<in> set (env_lines body) \<and> l = ''ALPHA_COMPOSE_PROJECT_NAME='' @ en_project env"
    using one[OF p] e(1) by auto
  show ?thesis using b proj rest(1) ports names rest(6-8) line by blast
qed

end
