(* ===== verification/ComposeFixture.thy ===== *)
theory ComposeFixture
  imports Compose "HOL-Library.AList"
begin

text \<open>
  The canonical graph of scripts/validate-compose-security.py (its self test), the proof
  that the validator accepts it, and the properties of accepted graphs applied to it. The
  application root is \<open>/srv/ctfnight\<close>, with no symbolic links and without looking at the
  files.
\<close>

section \<open>The canonical graph\<close>

definition ss :: "string \<Rightarrow> string \<Rightarrow> string \<times> val" where
  "ss k v = (k, VStr v)"

text \<open>\<open>{**defaults, **specific}\<close>.\<close>

definition merged :: "vmap \<Rightarrow> vmap \<Rightarrow> val" where
  "merged defaults specific =
     VMap (map (\<lambda>(k, v). (k, case map_of specific k of Some w \<Rightarrow> w | None \<Rightarrow> v)) defaults
           @ filter (\<lambda>(k, _). k \<notin> set (map fst defaults)) specific)"

definition service_defaults :: vmap where
  "service_defaults =
     [ss ''platform'' ''linux/amd64'', ss ''user'' ''65532:65532'', (''cap_drop'', strs [''ALL'']),
      ss ''restart'' ''unless-stopped'', (''security_opt'', strs [''no-new-privileges:true''])]"

definition secret_mounts :: "string list \<Rightarrow> val" where
  "secret_mounts names =
     VList (map (\<lambda>name. VMap [ss ''source'' name, ss ''target'' (''/run/secrets/'' @ name)]) names)"

definition dependency :: "string \<Rightarrow> string \<Rightarrow> string \<times> val" where
  "dependency name condition =
     (name, VMap [ss ''condition'' condition, (''required'', VBool True), (''restart'', VBool False)])"

definition build_of :: "string \<Rightarrow> string \<Rightarrow> string \<times> val" where
  "build_of app_root context =
     (''build'', VMap [ss ''context'' (join_path app_root context), ss ''dockerfile'' ''Dockerfile''])"

definition bind_mount :: "string \<Rightarrow> string \<Rightarrow> val" where
  "bind_mount source target =
     VMap [ss ''type'' ''bind'', ss ''source'' source, ss ''target'' target, (''read_only'', VBool True),
           (''bind'', VMap [(''create_host_path'', VBool True)])]"

definition volume_mount :: "string \<Rightarrow> string \<Rightarrow> val" where
  "volume_mount source target =
     VMap [ss ''type'' ''volume'', ss ''source'' source, ss ''target'' target, (''volume'', VMap [])]"

definition published_port :: "string \<Rightarrow> int \<Rightarrow> string \<Rightarrow> val" where
  "published_port published target protocol =
     VMap [ss ''host_ip'' ''127.0.0.1'', ss ''published'' published, (''target'', VInt target),
           ss ''protocol'' protocol, ss ''mode'' ''ingress'']"

definition fixture_backend :: "string \<Rightarrow> val" where
  "fixture_backend app_root = merged service_defaults
     [build_of app_root ''backend'', (''read_only'', VBool True), (''tmpfs'', strs [''/tmp:size=64m,mode=1777'']),
      (''networks'', VMap [(''api'', VMap [ss ''ipv4_address'' ''172.31.250.3'']), (''database'', VNull), (''cache'', VNull)]),
      (''secrets'', secret_mounts [''alpha_secret_key'', ''postgres_runtime_password'', ''redis_password'']),
      (''environment'', VMap
        [ss ''ALPHA_SECRET_KEY_FILE'' ''/run/secrets/alpha_secret_key'', ss ''ALPHA_DATABASE_HOST'' ''postgres'',
         ss ''ALPHA_DATABASE_PORT'' ''5432'', ss ''ALPHA_DATABASE_NAME'' ''alpha'', ss ''ALPHA_DATABASE_USER'' ''alpha_app'',
         ss ''ALPHA_DATABASE_PASSWORD_FILE'' ''/run/secrets/postgres_runtime_password'',
         ss ''ALPHA_REDIS_PASSWORD_FILE'' ''/run/secrets/redis_password'']),
      (''depends_on'', VMap [dependency ''migrate'' ''service_completed_successfully'',
                            dependency ''redis'' ''service_healthy''])]"

definition fixture_caddy :: "string \<Rightarrow> val" where
  "fixture_caddy app_root = merged service_defaults
     [build_of app_root ''deploy/caddy'', (''read_only'', VBool True), (''tmpfs'', strs [''/tmp:size=16m,mode=1777'']),
      (''cap_add'', strs [''NET_BIND_SERVICE'']),
      (''ports'', VList [published_port ''80'' 80 ''tcp'', published_port ''443'' 443 ''tcp'',
                         published_port ''443'' 443 ''udp'']),
      (''networks'', VMap [(''public'', VMap [(''gw_priority'', VInt 1)]),
                          (''api'', VMap [ss ''ipv4_address'' ''172.31.250.2'']), (''web'', VNull)]),
      (''depends_on'', VMap [dependency ''backend'' ''service_healthy'', dependency ''frontend'' ''service_healthy'']),
      (''volumes'', VList [bind_mount (caddyfile_of app_root) ''/etc/caddy/Caddyfile'',
                           volume_mount ''caddy_data'' ''/data''])]"

definition fixture_frontend :: "string \<Rightarrow> val" where
  "fixture_frontend app_root = merged service_defaults
     [build_of app_root ''frontend'', (''read_only'', VBool True),
      (''tmpfs'', strs [''/tmp:size=16m,mode=1777,uid=65532,gid=65532'', ''/run:size=1m,mode=0755,uid=65532,gid=65532'',
                        ''/var/lib/nginx/tmp:size=16m,mode=0700,uid=65532,gid=65532'']),
      (''networks'', VMap [(''web'', VNull)])]"

definition fixture_db_roles :: "string \<Rightarrow> val" where
  "fixture_db_roles app_root = merged service_defaults
     [ss ''image'' ''postgres@example'', ss ''restart'' ''no'', (''read_only'', VBool True),
      (''tmpfs'', strs [''/tmp:size=4m,mode=0700,uid=65532,gid=65532'']),
      (''entrypoint'', strs [''/bin/sh'', ''/usr/local/bin/provision-roles.sh'']),
      (''environment'', VMap
        [ss ''ALPHA_POSTGRES_DB'' ''alpha'', ss ''ALPHA_POSTGRES_OWNER_USER'' ''alpha'',
         ss ''ALPHA_POSTGRES_MIGRATOR_USER'' ''alpha_migrator'', ss ''ALPHA_POSTGRES_RUNTIME_USER'' ''alpha_app'']),
      (''depends_on'', VMap [dependency ''postgres'' ''service_healthy'']),
      (''networks'', VMap [(''database'', VNull)]),
      (''secrets'', secret_mounts
        [''postgres_owner_password'', ''postgres_migrator_password'', ''postgres_runtime_password'']),
      (''volumes'', VList [bind_mount (role_script_of app_root) ''/usr/local/bin/provision-roles.sh''])]"

definition fixture_migrate :: val where
  "fixture_migrate = merged service_defaults
     [ss ''image'' ''alpha-backend'', ss ''restart'' ''no'', (''read_only'', VBool True),
      (''tmpfs'', strs [''/tmp:size=64m,mode=1777'']), (''entrypoint'', strs [''/bin/sh'', ''-ec'']),
      (''command'', strs [migrate_command @ [CHR 0x0A]]),
      (''environment'', VMap
        [ss ''ALPHA_SECRET_KEY_FILE'' ''/run/secrets/alpha_secret_key'', ss ''ALPHA_DATABASE_HOST'' ''postgres'',
         ss ''ALPHA_DATABASE_PORT'' ''5432'', ss ''ALPHA_DATABASE_NAME'' ''alpha'', ss ''ALPHA_DATABASE_USER'' ''alpha_migrator'',
         ss ''ALPHA_DATABASE_PASSWORD_FILE'' ''/run/secrets/postgres_migrator_password'',
         ss ''ALPHA_REDIS_PASSWORD_FILE'' ''/run/secrets/redis_password'',
         ss ''ALPHA_ADMIN_PASSWORD_FILE'' ''/run/secrets/admin_password'']),
      (''depends_on'', VMap [dependency ''db-roles'' ''service_completed_successfully'']),
      (''networks'', VMap [(''database'', VNull)]),
      (''secrets'', secret_mounts
        [''alpha_secret_key'', ''postgres_migrator_password'', ''redis_password'', ''admin_password''])]"

definition fixture_postgres :: val where
  "fixture_postgres = merged service_defaults
     [ss ''user'' ''0:0'', ss ''image'' ''postgres@example'', (''read_only'', VBool True),
      (''tmpfs'', strs [''/tmp:size=16m,mode=1777,uid=70,gid=70'',
                        ''/var/run/postgresql:size=4m,mode=0700,uid=70,gid=70'']),
      (''cap_add'', strs [''CHOWN'', ''DAC_OVERRIDE'', ''FOWNER'', ''SETGID'', ''SETUID'']),
      (''networks'', VMap [(''database'', VNull)]),
      (''secrets'', secret_mounts [''postgres_owner_password'']),
      (''environment'', VMap
        [ss ''POSTGRES_DB'' ''alpha'', ss ''POSTGRES_USER'' ''alpha'',
         ss ''POSTGRES_PASSWORD_FILE'' ''/run/secrets/postgres_owner_password'']),
      (''volumes'', VList [volume_mount ''postgres_data'' ''/var/lib/postgresql/data''])]"

definition fixture_redis :: val where
  "fixture_redis = merged service_defaults
     [ss ''image'' ''redis@example'', (''read_only'', VBool True),
      (''tmpfs'', strs [''/tmp:size=8m,mode=0700,uid=65532,gid=65532'']),
      (''networks'', VMap [(''cache'', VNull)]),
      (''secrets'', secret_mounts [''redis_password'']),
      (''volumes'', VList [volume_mount ''redis_data'' ''/data''])]"

definition internal_network :: "string \<Rightarrow> vmap \<Rightarrow> string \<times> val" where
  "internal_network name extra =
     (name, VMap ([ss ''name'' (''alpha_'' @ name), (''internal'', VBool True)] @ extra))"

definition canonical_fixture :: "string \<Rightarrow> vmap" where
  "canonical_fixture app_root =
     [(''services'', VMap
        [(''backend'', fixture_backend app_root), (''caddy'', fixture_caddy app_root),
         (''frontend'', fixture_frontend app_root), (''db-roles'', fixture_db_roles app_root),
         (''migrate'', fixture_migrate), (''postgres'', fixture_postgres), (''redis'', fixture_redis)]),
      (''networks'', VMap
        [(''public'', VMap [ss ''name'' ''alpha_public'']),
         internal_network ''api''
           [(''ipam'', VMap [(''config'', VList [VMap [ss ''subnet'' ''172.31.250.0/24'']])])],
         internal_network ''web'' [], internal_network ''database'' [], internal_network ''cache'' []]),
      (''volumes'', VMap (map (\<lambda>name. (name, VMap [ss ''name'' (''alpha_'' @ name)])) EXPECTED_VOLUMES)),
      (''secrets'', VMap (map (\<lambda>name. (name, VMap
          [ss ''name'' (''alpha_'' @ name), ss ''file'' (join_path (join_path app_root ''.secrets'') name)]))
        EXPECTED_SECRETS)),
      ss ''name'' ''alpha'']"

definition fixture_env :: compose_env where
  "fixture_env = \<lparr>en_bind = ''127.0.0.1'', en_project = ''alpha'', en_http_port = ''80'', en_https_port = ''443'',
     en_db = ''alpha'', en_owner = ''alpha'', en_migrator = ''alpha_migrator'', en_runtime = ''alpha_app''\<rparr>"

definition self_test_root :: string where
  "self_test_root = ''/srv/ctfnight''"

definition plain_host :: host where
  "plain_host = \<lparr>h_resolve = (\<lambda>p. p), h_lstat = (\<lambda>_. None), h_show = (\<lambda>_. [])\<rparr>"

definition validate_fixture :: "vmap \<Rightarrow> (val \<times> val) check" where
  "validate_fixture config = validate_compose plain_host config self_test_root fixture_env False"

lemma canonical_accepted:
  "validate_fixture (canonical_fixture self_test_root) = Inr (VStr ''postgres@example'', VStr ''redis@example'')"
  by code_simp

section \<open>The properties of accepted graphs, on the fixture\<close>

lemma fixture_accepted:
  "validate_compose plain_host (canonical_fixture self_test_root) self_test_root fixture_env False
     = Inr (VStr ''postgres@example'', VStr ''redis@example'')"
  using canonical_accepted by (simp add: validate_fixture_def)

definition fixture_services :: vmap where
  "fixture_services =
     (case vget (canonical_fixture self_test_root) ''services'' of VMap m \<Rightarrow> m | _ \<Rightarrow> [])"

lemma fixture_services: "vget (canonical_fixture self_test_root) ''services'' = VMap fixture_services"
  by (simp add: fixture_services_def canonical_fixture_def vget_def)

definition fixture_service :: "string \<Rightarrow> vmap" where
  "fixture_service name = (case vget fixture_services name of VMap m \<Rightarrow> m | _ \<Rightarrow> [])"

lemma fixture_backend: "vget fixture_services ''backend'' = VMap (fixture_service ''backend'')"
  by code_simp

theorem accepted_confined_witness:
  "vget_or (fixture_service ''backend'') ''cap_drop'' (VList []) = strs [''ALL'']
   \<and> vget_or (fixture_service ''backend'') ''read_only'' (VBool False) = VBool True"
proof -
  note P = accepted_confined[OF fixture_accepted fixture_services fixture_backend, THEN conjunct2]
  show ?thesis
    by (intro conjI P[THEN conjunct1] P[THEN conjunct2, THEN conjunct2, THEN conjunct2, THEN conjunct1])
qed

theorem accepted_networks_witness:
  "attached fixture_services ''frontend'' ''web'' \<and> \<not> attached fixture_services ''postgres'' ''web''"
proof -
  have a: "attached fixture_services ''frontend'' ''web''" by code_simp
  have n: "''frontend'' \<in> set EXPECTED_SERVICES" by code_simp
  note P = accepted_networks[OF fixture_accepted fixture_services n a]
  have "\<not> attached fixture_services ''postgres'' ''web''"
    by (rule P[THEN conjunct2, THEN conjunct2, THEN conjunct2, THEN conjunct1, THEN mp, THEN conjunct1]) simp
  then show ?thesis using a by simp
qed

theorem accepted_secrets_witness:
  "set (granted fixture_services ''backend'') = set (entry expected_mounts ''backend'')
   \<and> set (granted fixture_services ''backend'') \<inter> {''postgres_owner_password'', ''postgres_migrator_password''} = {}"
proof -
  have d: "distinct [en_owner fixture_env, en_migrator fixture_env, en_runtime fixture_env]" by code_simp
  note P = accepted_secrets[OF fixture_accepted fixture_services fixture_backend d]
  show ?thesis by (intro conjI P[THEN conjunct1] P[THEN conjunct2, THEN conjunct2, THEN conjunct1, THEN mp]) simp
qed

definition fixture_env_text :: string where
  "fixture_env_text =
     concat (map (\<lambda>l. l @ [CHR 0x0A])
       [''# CTFnight'', ''ALPHA_BIND_ADDRESS=127.0.0.1'', ''ALPHA_COMPOSE_PROJECT_NAME=alpha'',
        ''ALPHA_HTTP_PORT=80'', ''ALPHA_HTTPS_PORT=443'', ''ALPHA_POSTGRES_DB=alpha'',
        ''ALPHA_POSTGRES_OWNER_USER=alpha'', ''ALPHA_POSTGRES_MIGRATOR_USER=alpha_migrator'',
        ''ALPHA_POSTGRES_RUNTIME_USER=alpha_app''])"

lemma fixture_env_read: "read_required_env (Some fixture_env_text) = Inr fixture_env"
  by code_simp

theorem required_env_canonical_witness:
  "read_required_env (Some fixture_env_text) = Inr fixture_env
   \<and> set (en_project fixture_env) \<subseteq> set (lower_letters @ digits @ ''-'')
   \<and> \<not> sublist ''--'' (en_project fixture_env)"
proof -
  obtain body where "set (en_project fixture_env) \<subseteq> set (lower_letters @ digits @ ''-'')"
    "\<not> sublist ''--'' (en_project fixture_env)"
    using required_env_canonical[OF fixture_env_read] by (elim exE conjE)
  then show ?thesis using fixture_env_read by (intro conjI)
qed

end
