(* ===== verification/ComposeSelfTest.thy ===== *)
theory ComposeSelfTest
  imports ComposeFixture
begin

text \<open>
  The self test of scripts/validate-compose-security.py: the mutations of the canonical
  graph, and the proof that the validator refuses every one of them.
\<close>

section \<open>The mutations\<close>

text \<open>\<open>value[k1]...[kn]\<close> as the place that is changed: keys of objects and indices of lists.\<close>

datatype step = Key string | Index nat

fun change_at :: "step list \<Rightarrow> (val \<Rightarrow> val) \<Rightarrow> val \<Rightarrow> val" where
  "change_at [] f v = f v"
| "change_at (Key k # ks) f (VMap m) = VMap (AList.update k (change_at ks f (vget m k)) m)"
| "change_at (Index i # ks) f (VList xs) =
     (if i < length xs then VList (xs[i := change_at ks f (xs ! i)]) else VList xs)"
| "change_at _ f v = v"

text \<open>\<open>mapping.update(k=v)\<close> and \<open>list.append(v)\<close>.\<close>

fun put :: "string \<Rightarrow> val \<Rightarrow> val \<Rightarrow> val" where
  "put k v (VMap m) = VMap (AList.update k v m)"
| "put k v w = w"

fun append_val :: "val \<Rightarrow> val \<Rightarrow> val" where
  "append_val v (VList xs) = VList (xs @ [v])"
| "append_val v w = w"

definition on_service :: "string \<Rightarrow> step list \<Rightarrow> (val \<Rightarrow> val) \<Rightarrow> val \<Rightarrow> val" where
  "on_service name path = change_at (Key ''services'' # Key name # path)"

definition service_mutations :: "(string \<times> (val \<Rightarrow> val)) list" where
  "service_mutations =
     [(''extra_service'', change_at [Key ''services''] (put ''evil'' (VMap []))),
      (''privileged'', on_service ''backend'' [] (put ''privileged'' (VBool True))),
      (''read_only'', on_service ''backend'' [] (put ''read_only'' (VBool False))),
      (''cap_drop'', on_service ''backend'' [] (put ''cap_drop'' (VList []))),
      (''capability'', on_service ''backend'' [] (put ''cap_add'' (strs [''SYS_ADMIN'']))),
      (''postgres_user'', on_service ''postgres'' [] (put ''user'' (VStr ''65532:65532''))),
      (''security_opt'', on_service ''backend'' [] (put ''security_opt'' (strs [''seccomp=unconfined'']))),
      (''tmpfs_unbounded'', on_service ''backend'' [] (put ''tmpfs'' (strs [''/tmp'']))),
      (''device_via_deploy'', on_service ''backend'' [] (put ''deploy'' (VMap [(''resources'', VMap
         [(''reservations'', VMap [(''devices'', VList [VMap [(''capabilities'', strs [''gpu''])]])])])]))),
      (''resolver_override'', on_service ''caddy'' [] (put ''extra_hosts'' (strs [''backend:203.0.113.10'']))),
      (''pull_policy'', on_service ''backend'' [] (put ''pull_policy'' (VStr ''always''))),
      (''published_backend'', on_service ''backend'' [] (put ''ports'' (VList [VMap [(''target'', VInt 8000)]]))),
      (''caddy_bind'', on_service ''caddy'' [Key ''ports'', Index 0] (put ''host_ip'' (VStr ''0.0.0.0''))),
      (''caddy_protocol'', on_service ''caddy'' [Key ''ports'', Index 0] (put ''protocol'' (VStr ''udp'')))]"

definition secret_mutations :: "(string \<times> (val \<Rightarrow> val)) list" where
  "secret_mutations =
     [(''secret_grant'', on_service ''frontend'' [] (put ''secrets'' (secret_mounts [''alpha_secret_key'']))),
      (''plaintext_file_suffix'',
         on_service ''backend'' [Key ''environment''] (put ''EVIL_PASSWORD_FILE'' (VStr ''still-plaintext''))),
      (''runtime_owner_role'',
         on_service ''backend'' [Key ''environment''] (put ''ALPHA_DATABASE_USER'' (VStr ''alpha''))),
      (''runtime_owner_secret'', on_service ''backend'' [Key ''secrets''] (append_val (VMap
         [ss ''source'' ''postgres_owner_password'', ss ''target'' ''/run/secrets/postgres_owner_password'']))),
      (''migrate_image'', on_service ''migrate'' [] (put ''image'' (VStr ''unscanned-migrate''))),
      (''migration_dependency'', on_service ''backend'' [Key ''depends_on'', Key ''migrate'']
         (put ''condition'' (VStr ''service_started''))),
      (''role_entrypoint'', on_service ''db-roles'' [] (put ''entrypoint'' (strs [''/bin/sh'']))),
      (''secret_source'', change_at [Key ''secrets'', Key ''admin_password''] (put ''file'' (VStr ''/tmp/password'')))]"

definition network_mutations :: "(string \<times> (val \<Rightarrow> val)) list" where
  "network_mutations =
     [(''network_internal'', change_at [Key ''networks'', Key ''database''] (put ''internal'' (VBool False))),
      (''network_daemon_name'', change_at [Key ''networks'', Key ''database''] (put ''name'' (VStr ''shared''))),
      (''network_membership'', on_service ''backend'' [Key ''networks''] (put ''public'' VNull)),
      (''static_api_ip'', on_service ''backend'' [Key ''networks'', Key ''api'']
         (put ''ipv4_address'' (VStr ''172.31.250.2''))),
      (''docker_socket'', on_service ''backend'' [] (put ''volumes'' (VList [VMap
         [ss ''type'' ''bind'', ss ''source'' ''/var/run/docker.sock'', ss ''target'' ''/var/run/docker.sock'',
          (''read_only'', VBool True)]]))),
      (''volume_daemon_name'', change_at [Key ''volumes'', Key ''postgres_data''] (put ''name'' (VStr ''shared''))),
      (''secret_daemon_name'', change_at [Key ''secrets'', Key ''admin_password''] (put ''name'' (VStr ''shared''))),
      (''build_target'', on_service ''backend'' [Key ''build''] (put ''target'' (VStr ''builder'')))]"

definition mutations :: "(string \<times> (val \<Rightarrow> val)) list" where
  "mutations = service_mutations @ secret_mutations @ network_mutations"

section \<open>The self test\<close>

text \<open>A refusal is what the test wants; an exception that is not one of the validator's ends it.\<close>

definition must_refuse :: "string \<times> (val \<Rightarrow> val) \<Rightarrow> unit check" where
  "must_refuse m =
     (case require_mapping (snd m (VMap (canonical_fixture self_test_root))) of
        Inl e \<Rightarrow> Inl e
      | Inr candidate \<Rightarrow>
          (case validate_fixture candidate of
             Inl ComposeSecurityError \<Rightarrow> Inr ()
           | Inl e \<Rightarrow> Inl e
           | Inr _ \<Rightarrow> Inl ComposeSecurityError))"

definition run_self_test :: "unit check" where
  "run_self_test =
     bindE (validate_fixture (canonical_fixture self_test_root)) (\<lambda>_. each must_refuse mutations)"

text \<open>The mutations are evaluated a few at a time, so that the evaluations run in parallel.\<close>

definition refused :: "(string \<times> (val \<Rightarrow> val)) list \<Rightarrow> bool" where
  "refused ms \<longleftrightarrow> (\<forall>m \<in> set ms. must_refuse m = Inr ())"

lemma refused_split: "refused (take n ms) \<Longrightarrow> refused (drop n ms) \<Longrightarrow> refused ms"
  unfolding refused_def by (metis UnE append_take_drop_id set_append)

lemma refused_quarters:
  assumes "refused (take 2 ms)" and "refused (take 2 (drop 2 ms))" and "refused (take 2 (drop 4 ms))"
    and "refused (drop 6 ms)"
  shows "refused ms"
proof -
  have "refused (drop 4 ms)" using assms(3,4) refused_split[of 2 "drop 4 ms"] by simp
  then have "refused (drop 2 ms)" using assms(2) refused_split[of 2 "drop 2 ms"] by simp
  then show ?thesis using assms(1) refused_split[of 2 ms] by simp
qed

lemma service_part1: "refused (take 4 service_mutations)"
  unfolding service_mutations_def by code_simp

lemma service_part2: "refused (take 5 (drop 4 service_mutations))"
  unfolding service_mutations_def by code_simp

lemma service_part3: "refused (drop 9 service_mutations)"
  unfolding service_mutations_def by code_simp

lemma service_mutations_refused: "refused service_mutations"
  using service_part1 service_part2 service_part3
  by (intro refused_split[of 4 "service_mutations"] refused_split[of 5 "drop 4 service_mutations"]) simp_all

lemma secret_part1: "refused (take 2 secret_mutations)"
  unfolding secret_mutations_def by code_simp

lemma secret_part2: "refused (take 2 (drop 2 secret_mutations))"
  unfolding secret_mutations_def by code_simp

lemma secret_part3: "refused (take 2 (drop 4 secret_mutations))"
  unfolding secret_mutations_def by code_simp

lemma secret_part4: "refused (drop 6 secret_mutations)"
  unfolding secret_mutations_def by code_simp

lemma secret_mutations_refused: "refused secret_mutations"
  using refused_quarters secret_part1 secret_part2 secret_part3 secret_part4 .

lemma network_part1: "refused (take 2 network_mutations)"
  unfolding network_mutations_def by code_simp

lemma network_part2: "refused (take 2 (drop 2 network_mutations))"
  unfolding network_mutations_def by code_simp

lemma network_part3: "refused (take 2 (drop 4 network_mutations))"
  unfolding network_mutations_def by code_simp

lemma network_part4: "refused (drop 6 network_mutations)"
  unfolding network_mutations_def by code_simp

lemma network_mutations_refused: "refused network_mutations"
  using refused_quarters network_part1 network_part2 network_part3 network_part4 .

text \<open>
  The self test of the script passes. The validator accepts the canonical graph and refuses, as a
  security error and not with a stray exception, each of the thirty graphs that weaken one
  thing in it: another service, a capability, a published port, a secret granted to
  another service, a database role, a network that is not internal, a mount of the docker
  socket, a build target, and so on.
\<close>

lemma self_test_passes: "run_self_test = Inr () \<and> length mutations = 30"
proof -
  have "\<forall>m \<in> set mutations. must_refuse m = Inr ()"
    using service_mutations_refused secret_mutations_refused network_mutations_refused
    unfolding mutations_def refused_def by auto
  then show ?thesis
    by (simp add: run_self_test_def canonical_accepted each_Inr)
      (simp add: mutations_def service_mutations_def secret_mutations_def network_mutations_def)
qed

end
