(* ===== verification/Manifest.thy ===== *)
theory Manifest
  imports Compose "HOL-Library.List_Lexorder"
begin

text \<open>
  The deployment manifest, scripts/deployment-manifest.py: the digest of everything a
  deployment is built from, the manifest that binds it to the scanned images, and the
  checks before and after the start. A failed \<open>require\<close> is \<open>ManifestError\<close>, any other
  exception \<open>Broken\<close>; both end the program with a failure status.

  Parameters (record \<open>tools\<close>): SHA-256, the JSON reader, \<open>repr\<close> of floats and containers,
  \<open>datetime.fromisoformat\<close>, the commands run with docker, the decoding of UTF-8 and the
  reading of the rendered graph. Nothing else writes the files while a command runs. Texts
  are the bytes of their UTF-8 encoding.
\<close>

section \<open>Constants\<close>

datatype manifest_error = ManifestError | Broken

type_synonym 'a checked = "manifest_error + 'a"

abbreviation must :: "bool \<Rightarrow> unit checked" where
  "must b \<equiv> guard ManifestError b"

definition SCHEMA :: string where
  "SCHEMA = ''ctfnight-deployment-manifest-v1''"

text \<open>In microseconds: two hours and five minutes.\<close>

definition MAX_MANIFEST_AGE :: int where
  "MAX_MANIFEST_AGE = 7200000000"

definition MAX_CLOCK_SKEW :: int where
  "MAX_CLOCK_SKEW = 300000000"

definition IMAGE_SERVICES :: "string list" where
  "IMAGE_SERVICES = [''backend'', ''caddy'', ''frontend'', ''postgres'', ''redis'']"

definition LOCAL_IMAGE_SERVICES :: "string list" where
  "LOCAL_IMAGE_SERVICES = [''backend'', ''caddy'', ''frontend'']"

definition COMPOSE_SERVICES :: "string list" where
  "COMPOSE_SERVICES =
     [''backend'', ''caddy'', ''db-roles'', ''frontend'', ''migrate'', ''postgres'', ''redis'']"

definition PERSISTENT_SERVICES :: "string list" where
  "PERSISTENT_SERVICES = [''backend'', ''caddy'', ''frontend'', ''postgres'', ''redis'']"

definition ONE_SHOT_SERVICES :: "string list" where
  "ONE_SHOT_SERVICES = [''db-roles'', ''migrate'']"

definition SERVICE_IMAGE :: "(string \<times> string) list" where
  "SERVICE_IMAGE =
     [(''backend'', ''backend''), (''caddy'', ''caddy''), (''db-roles'', ''postgres''),
      (''frontend'', ''frontend''), (''migrate'', ''backend''), (''postgres'', ''postgres''),
      (''redis'', ''redis'')]"

definition hex_digits :: string where
  "hex_digits = ''0123456789abcdef''"

definition sha256_ok :: "string \<Rightarrow> bool" where
  "sha256_ok s \<longleftrightarrow> length s = 64 \<and> set s \<subseteq> set hex_digits"

definition image_id_ok :: "string \<Rightarrow> bool" where
  "image_id_ok s \<longleftrightarrow> prefix ''sha256:'' s \<and> sha256_ok (drop 7 s)"

fun split_at :: "char \<Rightarrow> string \<Rightarrow> string list" where
  "split_at c [] = [[]]"
| "split_at c (x # xs) =
     (if x = c then [] # split_at c xs
      else case split_at c xs of [] \<Rightarrow> [[x]] | w # ws \<Rightarrow> (x # w) # ws)"

definition project_ok :: "string \<Rightarrow> bool" where
  "project_ok s \<longleftrightarrow>
     list_all (\<lambda>w. w \<noteq> [] \<and> set w \<subseteq> set (lower_letters @ digits)) (split_at CHR ''-'' s)"

definition EXCLUDED_DIRECTORY_NAMES :: "string list" where
  "EXCLUDED_DIRECTORY_NAMES =
     [''.git'', ''.lock-venv'', ''.mypy_cache'', ''.pytest_cache'', ''.ruff_cache'', ''.tooling'', ''.venv'',
      ''__pycache__'', ''coverage'', ''dist'', ''htmlcov'', ''node_modules'']"

definition EXCLUDED_FILE_NAMES :: "string list" where
  "EXCLUDED_FILE_NAMES = [''.coverage'', ''.DS_Store'']"

definition EXCLUDED_SUFFIXES :: "string list" where
  "EXCLUDED_SUFFIXES = [''.db'', ''.log'', ''.pyc'', ''.sqlite'', ''.tsbuildinfo'']"

definition POLICY_FILES :: "string list list" where
  "POLICY_FILES =
     [[''scripts'', ''check-backend-locks.py''], [''scripts'', ''compose.sh''],
      [''scripts'', ''deployment-manifest.py''], [''scripts'', ''recover-admin-password.sh''],
      [''scripts'', ''security-scan.sh''], [''scripts'', ''set-secret-acl.sh''],
      [''scripts'', ''validate-compose-security.py''], [''scripts'', ''validate-env.sh''],
      [''security'', ''ctfnight.openvex.json''], [''security'', ''requirements.in''],
      [''security'', ''requirements.lock'']]"

section \<open>Canonical JSON\<close>

text \<open>\<open>json.dumps(value, ensure_ascii=False, separators=(",", ":"), sort_keys=True)\<close>.\<close>

definition escape_char :: "char \<Rightarrow> string" where
  "escape_char c =
     (let n = of_char c :: nat in
      if c = CHR 0x22 then [CHR 0x5C, CHR 0x22] else if c = CHR 0x5C then [CHR 0x5C, CHR 0x5C]
      else if n = 10 then [CHR 0x5C, CHR ''n''] else if n = 13 then [CHR 0x5C, CHR ''r'']
      else if n = 9 then [CHR 0x5C, CHR ''t''] else if n = 8 then [CHR 0x5C, CHR ''b'']
      else if n = 12 then [CHR 0x5C, CHR ''f'']
      else if n < 32 then CHR 0x5C # ''u00'' @ [hex_digits ! (n div 16), hex_digits ! (n mod 16)]
      else [c])"

definition quoted :: "string \<Rightarrow> string" where
  "quoted s = CHR 0x22 # concat (map escape_char s) @ [CHR 0x22]"

fun joined :: "string \<Rightarrow> string list \<Rightarrow> string" where
  "joined sep [] = []"
| "joined sep [x] = x"
| "joined sep (x # y # ys) = x @ sep @ joined sep (y # ys)"

fun dumps :: "(rat \<Rightarrow> string) \<Rightarrow> val \<Rightarrow> string"
  and dumps_list :: "(rat \<Rightarrow> string) \<Rightarrow> val list \<Rightarrow> string list"
  and dumps_map :: "(rat \<Rightarrow> string) \<Rightarrow> vmap \<Rightarrow> (string \<times> string) list" where
  "dumps fl VNull = ''null''"
| "dumps fl (VBool b) = (if b then ''true'' else ''false'')"
| "dumps fl (VInt n) = int_text n"
| "dumps fl (VFloat q) = fl q"
| "dumps fl (VStr s) = quoted s"
| "dumps fl (VList xs) = ''['' @ joined '','' (dumps_list fl xs) @ '']''"
| "dumps fl (VMap m) =
     ''{'' @ joined '','' (map (\<lambda>(k, t). quoted k @ '':'' @ t) (sort_key fst (dumps_map fl m))) @ ''}''"
| "dumps_list fl [] = []"
| "dumps_list fl (x # xs) = dumps fl x # dumps_list fl xs"
| "dumps_map fl [] = []"
| "dumps_map fl ((k, v) # m) = (k, dumps fl v) # dumps_map fl m"

record tools =
  tl_sha256 :: "string \<Rightarrow> string"
  tl_float :: "rat \<Rightarrow> string"
  tl_loads :: "string \<Rightarrow> val option"
  tl_show :: "val \<Rightarrow> string"
  tl_fromisoformat :: "string \<Rightarrow> (int \<times> int option) option"
  tl_run :: "string list \<Rightarrow> string option"
  tl_utf8 :: "string \<Rightarrow> bool"
  tl_read :: "string \<Rightarrow> string option"
  tl_uid :: nat

definition canonical_json :: "tools \<Rightarrow> val \<Rightarrow> string" where
  "canonical_json h v = dumps (tl_float h) v"

text \<open>\<open>None\<close> is a file that cannot be read; the limit is 4 MiB.\<close>

definition read_json_file :: "tools \<Rightarrow> string option \<Rightarrow> vmap checked" where
  "read_json_file h raw =
     (case raw of
        None \<Rightarrow> Inl ManifestError
      | Some raw \<Rightarrow>
          bindE (must (length raw \<le> 4 * 1024 * 1024)) (\<lambda>_.
          case tl_loads h raw of
            Some (VMap m) \<Rightarrow> Inr m
          | _ \<Rightarrow> Inl ManifestError))"

section \<open>The deployment inputs\<close>

text \<open>
  The tree below the application root, with the mode and the link count of regular files. A
  symbolic link has its target text and what it resolves to, if anything.
\<close>

datatype node =
    Regular nat nat string
  | Link string "node option"
  | Dir "(string \<times> node) list"
  | Special

type_synonym tree = "(string \<times> node) list"

fun follow :: "node \<Rightarrow> node option" where
  "follow (Link t None) = None"
| "follow (Link t (Some n)) = follow n"
| "follow n = Some n"

fun points_to_dir :: "node \<Rightarrow> bool" where
  "points_to_dir n = (case follow n of Some (Dir _) \<Rightarrow> True | _ \<Rightarrow> False)"

text \<open>\<open>lstat\<close> of a path: links on the way are followed, the last one is not.\<close>

fun lookup_path :: "node \<Rightarrow> string list \<Rightarrow> node option" where
  "lookup_path n [] = Some n"
| "lookup_path n (k # ks) =
     (case follow n of
        Some (Dir es) \<Rightarrow> (case map_of es k of None \<Rightarrow> None | Some m \<Rightarrow> lookup_path m ks)
      | _ \<Rightarrow> None)"

definition plain_file :: "tree \<Rightarrow> string list \<Rightarrow> bool" where
  "plain_file es path =
     (case lookup_path (Dir es) path of Some (Regular _ _ _) \<Rightarrow> True | _ \<Rightarrow> False)"

text \<open>\<open>PurePath.suffix\<close>: from the last dot, unless it is the first or the last character.\<close>

definition path_suffix :: "string \<Rightarrow> string" where
  "path_suffix name =
     (let ext = takeWhile (\<lambda>c. c \<noteq> CHR ''.'') (rev name)
      in if ext = [] \<or> length name \<le> length ext + 1 then []
         else CHR ''.'' # rev ext)"

definition should_exclude_file :: "string \<Rightarrow> bool" where
  "should_exclude_file name \<longleftrightarrow>
     name \<in> set EXCLUDED_FILE_NAMES \<or> path_suffix name \<in> set EXCLUDED_SUFFIXES"

text \<open>
  \<open>os.walk\<close> without following links: links to directories count as directory names and are
  taken as they are. The order is lost when the paths are sorted.
\<close>

fun walk_node :: "string list \<Rightarrow> string \<Rightarrow> node \<Rightarrow> string list list"
  and walk_tree :: "string list \<Rightarrow> tree \<Rightarrow> string list list" where
  "walk_node base name (Dir es) =
     (if name \<in> set EXCLUDED_DIRECTORY_NAMES then [] else walk_tree (base @ [name]) es)"
| "walk_node base name (Link t r) =
     (if points_to_dir (Link t r)
      then (if name \<in> set EXCLUDED_DIRECTORY_NAMES then [] else [base @ [name]])
      else (if should_exclude_file name then [] else [base @ [name]]))"
| "walk_node base name n = (if should_exclude_file name then [] else [base @ [name]])"
| "walk_tree base [] = []"
| "walk_tree base ((name, n) # es) = walk_node base name n @ walk_tree base es"

definition iter_tree_files :: "tree \<Rightarrow> string \<Rightarrow> string list list checked" where
  "iter_tree_files es relative_root =
     (case lookup_path (Dir es) [relative_root] of
        Some (Dir sub) \<Rightarrow> Inr (walk_tree [relative_root] sub)
      | _ \<Rightarrow> Inl ManifestError)"

definition posix :: "string list \<Rightarrow> string" where
  "posix path = joined ''/'' path"

definition deployment_input_paths :: "tree \<Rightarrow> string list list checked" where
  "deployment_input_paths es =
     bindE (must (list_all (plain_file es) [[''Makefile''], [''compose.yaml'']])) (\<lambda>_.
     bindE (traverse (iter_tree_files es) [''backend'', ''frontend'', ''deploy'']) (\<lambda>found.
     bindE (must (list_all (plain_file es) POLICY_FILES)) (\<lambda>_.
     Inr (sort_key posix (remdups
       ([''Makefile''] # [''compose.yaml''] # concat found @ POLICY_FILES))))))"

section \<open>The environment file\<close>

definition marker_key :: string where
  "marker_key = ''ALPHA_ADMIN_BOOTSTRAPPED=''"

text \<open>Reading in text mode turns every line end into a line feed.\<close>

fun universal_newlines :: "string \<Rightarrow> string" where
  "universal_newlines [] = []"
| "universal_newlines [c] = [if c = CHR 0x0D then CHR 0x0A else c]"
| "universal_newlines (c # d # cs) =
     (if c = CHR 0x0D
      then CHR 0x0A # universal_newlines (if d = CHR 0x0A then cs else d # cs)
      else c # universal_newlines (d # cs))"

text \<open>A line of \<open>splitlines(keepends=True)\<close> as its content and the rest.\<close>

definition env_line :: "string \<times> string \<Rightarrow> string \<times> string" where
  "env_line le =
     (let line = fst le @ snd le;
          content = rstrip_chars {CHR 0x0D, CHR 0x0A} line
      in (content, drop (length content) line))"

definition normalized_line :: "string \<times> string \<Rightarrow> string" where
  "normalized_line ce =
     (if prefix marker_key (fst ce) then marker_key @ ''<operational-marker>'' else fst ce) @ snd ce"

definition deployment_env_bytes :: "tools \<Rightarrow> string \<Rightarrow> string checked" where
  "deployment_env_bytes h raw =
     bindE (must (tl_utf8 h raw)) (\<lambda>_.
     let ls = map env_line (splitlines (universal_newlines raw));
         markers = filter (\<lambda>ce. prefix marker_key (fst ce)) ls
     in bindE (must (list_all (\<lambda>ce. fst ce \<in> {marker_key @ ''true'', marker_key @ ''false''}) markers)) (\<lambda>_.
        bindE (must (length markers = 1)) (\<lambda>_.
        Inr (concat (map normalized_line ls)))))"

section \<open>The source digest\<close>

fun octal_text :: "nat \<Rightarrow> string" where
  "octal_text n = (if n < 8 then [char_of (48 + n)] else octal_text (n div 8) @ [char_of (48 + n mod 8)])"

declare octal_text.simps [simp del]

definition zero_byte :: string where
  "zero_byte = [CHR 0x00]"

text \<open>The bytes one path feeds into the digest.\<close>

definition update_path_digest :: "tree \<Rightarrow> string list \<Rightarrow> string checked" where
  "update_path_digest es path =
     (case lookup_path (Dir es) path of
        Some (Regular mode nlink content) \<Rightarrow>
          bindE (must (nlink = 1)) (\<lambda>_.
          Inr (''F'' @ zero_byte @ posix path @ zero_byte @ octal_text mode @ zero_byte @ content @ zero_byte))
      | Some (Link target _) \<Rightarrow> Inr (''L'' @ zero_byte @ posix path @ zero_byte @ target @ zero_byte)
      | _ \<Rightarrow> Inl ManifestError)"

definition deployment_stream :: "tools \<Rightarrow> tree \<Rightarrow> string \<Rightarrow> string checked" where
  "deployment_stream h es env_name =
     (case map_of es env_name of
        Some (Regular _ nlink env) \<Rightarrow>
          bindE (must (nlink = 1)) (\<lambda>_.
          bindE (deployment_input_paths es) (\<lambda>paths.
          bindE (traverse (update_path_digest es) paths) (\<lambda>parts.
          bindE (deployment_env_bytes h env) (\<lambda>env.
          Inr (''ctfnight-deployment-input-v1'' @ zero_byte @ concat parts
               @ ''ENV'' @ zero_byte @ env_name @ zero_byte @ env @ zero_byte)))))
      | _ \<Rightarrow> Inl ManifestError)"

definition source_digest :: "tools \<Rightarrow> tree \<Rightarrow> string \<Rightarrow> string checked" where
  "source_digest h es env_name = bindE (deployment_stream h es env_name) (\<lambda>s. Inr (tl_sha256 h s))"

section \<open>The rendered graph and the images\<close>

definition compose_base :: "string \<Rightarrow> string \<Rightarrow> string list" where
  "compose_base app_root env_file =
     [''docker'', ''compose'', ''--project-directory'', app_root, ''--env-file'', env_file, ''-f'',
      join_path app_root ''compose.yaml'']"

definition run_checked :: "tools \<Rightarrow> string list \<Rightarrow> string checked" where
  "run_checked h command = (case tl_run h command of None \<Rightarrow> Inl ManifestError | Some out \<Rightarrow> Inr out)"

definition render_compose :: "tools \<Rightarrow> string \<Rightarrow> string \<Rightarrow> vmap checked" where
  "render_compose h app_root env_file =
     bindE (run_checked h (compose_base app_root env_file @ [''config'', ''--format'', ''json''])) (\<lambda>out.
     case tl_loads h out of Some (VMap m) \<Rightarrow> Inr m | _ \<Rightarrow> Inl ManifestError)"

definition compose_digest :: "tools \<Rightarrow> vmap \<Rightarrow> string" where
  "compose_digest h config = tl_sha256 h (canonical_json h (VMap config))"

definition field_of :: "vmap \<Rightarrow> string \<Rightarrow> string \<Rightarrow> val" where
  "field_of services name field =
     (case vget services name of VMap s \<Rightarrow> vget s field | _ \<Rightarrow> VNull)"

text \<open>An image that is pinned to a digest.\<close>

definition pinned_image :: "val \<Rightarrow> string checked" where
  "pinned_image v =
     (case v of
        VStr ref \<Rightarrow> bindE (must (sublist ''@sha256:'' ref)) (\<lambda>_. Inr ref)
      | _ \<Rightarrow> Inl ManifestError)"

definition expected_references :: "vmap \<Rightarrow> (string \<times> string) list checked" where
  "expected_references config =
     (case vget config ''name'' of
        VStr project \<Rightarrow>
          bindE (must (project_ok project)) (\<lambda>_.
          case vget config ''services'' of
            VMap services \<Rightarrow>
              bindE (must (keys services = set COMPOSE_SERVICES)) (\<lambda>_.
              bindE (each (\<lambda>name. case vget services name of VMap _ \<Rightarrow> Inr () | _ \<Rightarrow> Inl ManifestError)
                COMPOSE_SERVICES) (\<lambda>_.
              let local_refs = map (\<lambda>name. (name, project @ ''-'' @ name)) LOCAL_IMAGE_SERVICES
              in bindE (pinned_image (field_of services ''postgres'' ''image'')) (\<lambda>postgres.
                 bindE (pinned_image (field_of services ''redis'' ''image'')) (\<lambda>redis.
                 bindE (must (field_of services ''migrate'' ''image'' = VStr (project @ ''-backend''))) (\<lambda>_.
                 bindE (must (field_of services ''db-roles'' ''image'' = VStr postgres)) (\<lambda>_.
                 Inr (local_refs @ [(''postgres'', postgres), (''redis'', redis)])))))))
          | _ \<Rightarrow> Inl ManifestError)
      | _ \<Rightarrow> Inl ManifestError)"

definition inspect_image :: "tools \<Rightarrow> string \<Rightarrow> (string \<times> string) checked" where
  "inspect_image h reference =
     bindE (run_checked h [''docker'', ''image'', ''inspect'', ''--format'', ''{{.Id}}'', reference]) (\<lambda>out.
     let image_id = strip out
     in bindE (must (image_id_ok image_id)) (\<lambda>_.
        bindE (run_checked h [''docker'', ''image'', ''inspect'', ''--format'', ''{{.Os}}/{{.Architecture}}'', image_id]) (\<lambda>out.
        let platform = strip out
        in bindE (must (platform = ''linux/amd64'')) (\<lambda>_. Inr (image_id, platform)))))"

section \<open>The manifest\<close>

definition SEVERITIES :: "string list" where
  "SEVERITIES = [''UNKNOWN'', ''LOW'', ''MEDIUM'', ''HIGH'', ''CRITICAL'']"

text \<open>\<open>--image SERVICE REFERENCE ID\<close>, repeated.\<close>

fun parse_images :: "(string \<times> string \<times> string) list \<Rightarrow> (string \<times> string \<times> string) list checked" where
  "parse_images [] = Inr []"
| "parse_images ((service, img) # rest) =
     bindE (parse_images rest) (\<lambda>images.
     bindE (must (service \<notin> set (map fst images))) (\<lambda>_. Inr ((service, img) # images)))"

definition normalized_image ::
  "(string \<times> string) list \<Rightarrow> (string \<times> string \<times> string) list \<Rightarrow> string \<Rightarrow> (string \<times> val) checked" where
  "normalized_image references images name =
     (case (map_of images name, map_of references name) of
        (Some (reference, image_id), Some expected) \<Rightarrow>
          bindE (must (reference = expected)) (\<lambda>_.
          bindE (must (image_id_ok image_id)) (\<lambda>_.
          Inr (name, VMap [(''id'', VStr image_id), (''reference'', VStr reference)])))
      | _ \<Rightarrow> Inl Broken)"

definition build_payload ::
  "tools \<Rightarrow> tree \<Rightarrow> string \<Rightarrow> string option \<Rightarrow> string \<Rightarrow> (string \<times> string \<times> string) list \<Rightarrow> string \<Rightarrow>
   string \<Rightarrow> vmap checked" where
  "build_payload h es env_name rendered expected_source images trivy_version now_text =
     bindE (must (sha256_ok expected_source)) (\<lambda>_.
     bindE (source_digest h es env_name) (\<lambda>current_source.
     bindE (must (current_source = expected_source)) (\<lambda>_.
     bindE (read_json_file h rendered) (\<lambda>config.
     bindE (expected_references config) (\<lambda>references.
     bindE (must (set (map fst images) = set IMAGE_SERVICES)) (\<lambda>_.
     bindE (traverse (normalized_image references images) IMAGE_SERVICES) (\<lambda>normalized_images.
     Inr [(''compose_config_sha256'', VStr (compose_digest h config)), (''created_utc'', VStr now_text),
          (''env_file'', VStr env_name), (''images'', VMap normalized_images),
          (''platform'', VStr ''linux/amd64''), (''project'', vget config ''name''),
          (''schema'', VStr SCHEMA), (''source_sha256'', VStr current_source),
          (''trivy_version'', VStr trivy_version),
          (''vulnerability_severities'', strs SEVERITIES)])))))))"

definition envelope_for :: "tools \<Rightarrow> vmap \<Rightarrow> vmap" where
  "envelope_for h payload =
     [(''payload'', VMap payload), (''payload_sha256'', VStr (tl_sha256 h (canonical_json h (VMap payload))))]"

text \<open>\<open>lstat\<close> of the directory of the manifest and of the manifest itself.\<close>

datatype inode_kind = RegularInode | DirectoryInode | LinkInode | OtherInode

record inode =
  in_kind :: inode_kind
  in_uid :: nat
  in_mode :: nat
  in_nlink :: nat
  in_content :: string

record vault =
  va_directory :: "inode option"
  va_manifest :: "inode option"

text \<open>Group and others have no access when the low six bits are clear.\<close>

definition ensure_private_directory :: "tools \<Rightarrow> inode option \<Rightarrow> unit checked" where
  "ensure_private_directory h d =
     (case d of
        None \<Rightarrow> Inl ManifestError
      | Some d \<Rightarrow> must (in_kind d = DirectoryInode \<and> in_uid d = tl_uid h \<and> in_mode d mod 64 = 0))"

text \<open>The rename replaces whatever was at the path. A write that fails leaves it as it was.\<close>

definition atomic_write_manifest :: "tools \<Rightarrow> vmap \<Rightarrow> vault \<Rightarrow> vault checked" where
  "atomic_write_manifest h payload v =
     bindE (ensure_private_directory h (va_directory v)) (\<lambda>_.
     Inr (v\<lparr>va_manifest := Some \<lparr>in_kind = RegularInode, in_uid = tl_uid h, in_mode = 384, in_nlink = 1,
       in_content = canonical_json h (VMap (envelope_for h payload)) @ [CHR 0x0A]\<rparr>\<rparr>))"

definition invalidate_manifest :: "tools \<Rightarrow> vault \<Rightarrow> vault checked" where
  "invalidate_manifest h v =
     bindE (ensure_private_directory h (va_directory v)) (\<lambda>_.
     case va_manifest v of
       None \<Rightarrow> Inr v
     | Some m \<Rightarrow>
         bindE (must (in_kind m \<in> {RegularInode, LinkInode})) (\<lambda>_. Inr (v\<lparr>va_manifest := None\<rparr>)))"

definition payload_keys :: "string list" where
  "payload_keys =
     [''compose_config_sha256'', ''created_utc'', ''env_file'', ''images'', ''platform'', ''project'',
      ''schema'', ''source_sha256'', ''trivy_version'', ''vulnerability_severities'']"

text \<open>\<open>v in {".env", ".env.example"}\<close> of a list or an object is a \<open>TypeError\<close>.\<close>

definition env_name_ok :: "val \<Rightarrow> unit checked" where
  "env_name_ok v =
     (if \<not> hashable v then Inl Broken else must (v \<in> {VStr ''.env'', VStr ''.env.example''}))"

definition image_entry_ok :: "tools \<Rightarrow> val \<Rightarrow> unit checked" where
  "image_entry_ok h v =
     (case v of
        VMap item \<Rightarrow>
          bindE (must (keys item = {''id'', ''reference''})) (\<lambda>_.
          bindE (must (nonempty_text (vget item ''reference''))) (\<lambda>_.
          must (image_id_ok (py_str (tl_show h) (vget item ''id'')))))
      | _ \<Rightarrow> Inl ManifestError)"

definition images_ok :: "tools \<Rightarrow> val \<Rightarrow> unit checked" where
  "images_ok h v =
     (case v of
        VMap images \<Rightarrow>
          bindE (must (keys images = set IMAGE_SERVICES)) (\<lambda>_.
          each (\<lambda>name. image_entry_ok h (vget images name)) IMAGE_SERVICES)
      | _ \<Rightarrow> Inl ManifestError)"

definition validate_payload :: "tools \<Rightarrow> val \<Rightarrow> vmap checked" where
  "validate_payload h v =
     (case v of
        VMap payload \<Rightarrow>
          bindE (must (keys payload = set payload_keys)) (\<lambda>_.
          bindE (must (vget payload ''schema'' = VStr SCHEMA)) (\<lambda>_.
          bindE (must (vget payload ''platform'' = VStr ''linux/amd64'')) (\<lambda>_.
          bindE (must (sha256_ok (py_str (tl_show h) (vget payload ''source_sha256'')))) (\<lambda>_.
          bindE (must (sha256_ok (py_str (tl_show h) (vget payload ''compose_config_sha256'')))) (\<lambda>_.
          bindE (must (project_ok (py_str (tl_show h) (vget payload ''project'')))) (\<lambda>_.
          bindE (env_name_ok (vget payload ''env_file'')) (\<lambda>_.
          bindE (case tl_fromisoformat h (py_str (tl_show h) (vget payload ''created_utc'')) of
                   Some (_, offset) \<Rightarrow> must (offset = Some 0) | None \<Rightarrow> Inl ManifestError) (\<lambda>_.
          bindE (must (nonempty_text (vget payload ''trivy_version''))) (\<lambda>_.
          bindE (must (py_eq (vget payload ''vulnerability_severities'') (strs SEVERITIES))) (\<lambda>_.
          bindE (images_ok h (vget payload ''images'')) (\<lambda>_.
          Inr payload)))))))))))
      | _ \<Rightarrow> Inl ManifestError)"

definition validate_freshness :: "tools \<Rightarrow> int \<Rightarrow> vmap \<Rightarrow> unit checked" where
  "validate_freshness h now payload =
     (case vget payload ''created_utc'' of
        VStr s \<Rightarrow>
          (case tl_fromisoformat h s of
             Some (created, Some _) \<Rightarrow>
               bindE (must (- MAX_CLOCK_SKEW \<le> now - created)) (\<lambda>_.
               must (now - created \<le> MAX_MANIFEST_AGE))
           | _ \<Rightarrow> Inl Broken)
      | _ \<Rightarrow> Inl Broken)"

definition load_manifest :: "tools \<Rightarrow> vault \<Rightarrow> vmap checked" where
  "load_manifest h v =
     bindE (ensure_private_directory h (va_directory v)) (\<lambda>_.
     case va_manifest v of
       None \<Rightarrow> Inl ManifestError
     | Some m \<Rightarrow>
         bindE (must (in_kind m = RegularInode)) (\<lambda>_.
         bindE (must (in_uid m = tl_uid h)) (\<lambda>_.
         bindE (must (in_nlink m = 1)) (\<lambda>_.
         bindE (must (in_mode m = 384)) (\<lambda>_.
         bindE (must (length (in_content m) \<le> 64 * 1024)) (\<lambda>_.
         bindE (read_json_file h (Some (in_content m))) (\<lambda>envelope.
         bindE (must (keys envelope = {''payload'', ''payload_sha256''})) (\<lambda>_.
         bindE (validate_payload h (vget envelope ''payload'')) (\<lambda>payload.
         bindE (must (vget envelope ''payload_sha256''
                      = VStr (tl_sha256 h (canonical_json h (VMap payload))))) (\<lambda>_.
         Inr payload))))))))))"

section \<open>Verification\<close>

definition image_field :: "vmap \<Rightarrow> string \<Rightarrow> string \<Rightarrow> val" where
  "image_field payload name field =
     (case vget payload ''images'' of VMap images \<Rightarrow> field_of images name field | _ \<Rightarrow> VNull)"

definition verify_image :: "tools \<Rightarrow> vmap \<Rightarrow> (string \<times> string) list \<Rightarrow> string \<Rightarrow> unit checked" where
  "verify_image h payload references name =
     (case map_of references name of
        None \<Rightarrow> Inl Broken
      | Some reference \<Rightarrow>
          bindE (must (image_field payload name ''reference'' = VStr reference)) (\<lambda>_.
          bindE (inspect_image h reference) (\<lambda>(current_id, _).
          must (image_field payload name ''id'' = VStr current_id))))"

definition verify_common ::
  "tools \<Rightarrow> int \<Rightarrow> vault \<Rightarrow> string \<Rightarrow> tree \<Rightarrow> string \<Rightarrow> vmap checked" where
  "verify_common h now v app_root es env_name =
     bindE (load_manifest h v) (\<lambda>payload.
     bindE (validate_freshness h now payload) (\<lambda>_.
     bindE (must (vget payload ''env_file'' = VStr env_name)) (\<lambda>_.
     bindE (source_digest h es env_name) (\<lambda>source.
     bindE (must (vget payload ''source_sha256'' = VStr source)) (\<lambda>_.
     bindE (render_compose h app_root (join_path app_root env_name)) (\<lambda>config.
     bindE (must (vget payload ''compose_config_sha256'' = VStr (compose_digest h config))) (\<lambda>_.
     bindE (expected_references config) (\<lambda>references.
     bindE (must (py_eq (vget config ''name'') (vget payload ''project''))) (\<lambda>_.
     bindE (each (verify_image h payload references) IMAGE_SERVICES) (\<lambda>_.
     Inr payload))))))))))"

fun add_container :: "(string \<times> string) list \<Rightarrow> (string \<times> string) list \<Rightarrow> (string \<times> string) list checked" where
  "add_container containers [] = Inr containers"
| "add_container containers ((container_id, service_name) # rest) =
     bindE (must (service_name \<in> set COMPOSE_SERVICES)) (\<lambda>_.
     bindE (must (service_name \<notin> set (map fst containers))) (\<lambda>_.
     add_container (containers @ [(service_name, container_id)]) rest))"

definition exact_service_container_map :: "(string \<times> string) list \<Rightarrow> (string \<times> string) list checked" where
  "exact_service_container_map entries =
     bindE (must (length entries = length COMPOSE_SERVICES)) (\<lambda>_.
     bindE (add_container [] entries) (\<lambda>containers.
     bindE (must (set (map fst containers) = set COMPOSE_SERVICES)) (\<lambda>_.
     Inr containers)))"

definition container_field :: "tools \<Rightarrow> string \<Rightarrow> string \<Rightarrow> string checked" where
  "container_field h template container_id =
     bindE (run_checked h [''docker'', ''inspect'', ''--format'', template, container_id]) (\<lambda>out. Inr (strip out))"

definition service_label :: string where
  "service_label = ''{{index .Config.Labels '' @ [CHR 0x22] @ ''com.docker.compose.service'' @ [CHR 0x22] @ ''}}''"

definition verify_container :: "tools \<Rightarrow> vmap \<Rightarrow> (string \<times> string) list \<Rightarrow> string \<Rightarrow> unit checked" where
  "verify_container h payload containers name =
     (case (map_of containers name, map_of SERVICE_IMAGE name) of
        (Some container_id, Some image_name) \<Rightarrow>
          bindE (container_field h ''{{.State.Status}}'' container_id) (\<lambda>status.
          bindE (if name \<in> set PERSISTENT_SERVICES then must (status = ''running'')
                 else bindE (must (name \<in> set ONE_SHOT_SERVICES)) (\<lambda>_.
                      bindE (container_field h ''{{.State.ExitCode}}'' container_id) (\<lambda>exit_code.
                      must (status = ''exited'' \<and> exit_code = ''0'')))) (\<lambda>_.
          bindE (container_field h ''{{.Image}}'' container_id) (\<lambda>running_image.
          must (image_field payload image_name ''id'' = VStr running_image))))
      | _ \<Rightarrow> Inl Broken)"

definition verify_running ::
  "tools \<Rightarrow> int \<Rightarrow> vault \<Rightarrow> string \<Rightarrow> tree \<Rightarrow> string \<Rightarrow> unit checked" where
  "verify_running h now v app_root es env_name =
     bindE (verify_common h now v app_root es env_name) (\<lambda>payload.
     bindE (run_checked h (compose_base app_root (join_path app_root env_name)
             @ [''ps'', ''--all'', ''--orphans'', ''--quiet''])) (\<lambda>out.
     bindE (traverse (\<lambda>container_id. bindE (container_field h service_label container_id)
               (\<lambda>service. Inr (container_id, service)))
             (filter (\<lambda>l. l \<noteq> []) (map fst (splitlines out)))) (\<lambda>entries.
     bindE (exact_service_container_map entries) (\<lambda>containers.
     each (verify_container h payload containers) COMPOSE_SERVICES))))"

section \<open>The command line\<close>

text \<open>Paths are absolute; \<open>absolute_without_following_leaf\<close> and \<open>resolve\<close> made them so.\<close>

datatype manifest_command =
    SnapshotInput string
  | CreateManifest string string string string string "(string \<times> string \<times> string) list"
  | InvalidateManifest string
  | VerifyPrestart string string
  | VerifyRunning string string

record deployment =
  dp_app_root :: string
  dp_tree :: tree
  dp_vault :: vault

definition manifest_path :: "string \<Rightarrow> string" where
  "manifest_path app_root = join_path app_root ''security-reports/deployment-manifest.json''"

definition env_file_name :: "string \<Rightarrow> string \<Rightarrow> string checked" where
  "env_file_name app_root env_file =
     (if env_file = join_path app_root ''.env'' then Inr ''.env''
      else if env_file = join_path app_root ''.env.example'' then Inr ''.env.example''
      else Inl ManifestError)"

definition require_manifest_path :: "string \<Rightarrow> string \<Rightarrow> unit checked" where
  "require_manifest_path app_root manifest = must (manifest = manifest_path app_root)"

definition run_manifest_command ::
  "tools \<Rightarrow> int \<Rightarrow> string \<Rightarrow> manifest_command \<Rightarrow> deployment \<Rightarrow> (string option \<times> deployment) checked" where
  "run_manifest_command h now now_text command d =
     (let root_dir = dp_app_root d in
      case command of
        InvalidateManifest manifest \<Rightarrow>
          bindE (require_manifest_path root_dir manifest) (\<lambda>_.
          bindE (invalidate_manifest h (dp_vault d)) (\<lambda>v. Inr (None, d\<lparr>dp_vault := v\<rparr>)))
      | SnapshotInput env_file \<Rightarrow>
          bindE (env_file_name root_dir env_file) (\<lambda>env_name.
          bindE (source_digest h (dp_tree d) env_name) (\<lambda>digest. Inr (Some digest, d)))
      | CreateManifest manifest env_file rendered expected_source trivy_version raw_images \<Rightarrow>
          bindE (env_file_name root_dir env_file) (\<lambda>env_name.
          bindE (require_manifest_path root_dir manifest) (\<lambda>_.
          bindE (parse_images raw_images) (\<lambda>images.
          bindE (build_payload h (dp_tree d) env_name (tl_read h rendered) expected_source images
                   trivy_version now_text) (\<lambda>payload.
          bindE (atomic_write_manifest h payload (dp_vault d)) (\<lambda>v. Inr (None, d\<lparr>dp_vault := v\<rparr>))))))
      | VerifyPrestart manifest env_file \<Rightarrow>
          bindE (env_file_name root_dir env_file) (\<lambda>env_name.
          bindE (require_manifest_path root_dir manifest) (\<lambda>_.
          bindE (verify_common h now (dp_vault d) root_dir (dp_tree d) env_name) (\<lambda>_. Inr (None, d))))
      | VerifyRunning manifest env_file \<Rightarrow>
          bindE (env_file_name root_dir env_file) (\<lambda>env_name.
          bindE (require_manifest_path root_dir manifest) (\<lambda>_.
          bindE (verify_running h now (dp_vault d) root_dir (dp_tree d) env_name) (\<lambda>_. Inr (None, d)))))"

definition manifest_main ::
  "tools \<Rightarrow> int \<Rightarrow> string \<Rightarrow> manifest_command \<Rightarrow> deployment \<Rightarrow> int \<times> string option \<times> deployment" where
  "manifest_main h now now_text command d =
     (case run_manifest_command h now now_text command d of
        Inl _ \<Rightarrow> (1, None, d)
      | Inr (output, d) \<Rightarrow> (0, output, d))"

section \<open>What a verified deployment guarantees\<close>

lemma freshness_bounds:
  assumes "validate_freshness h now payload = Inr ()"
  shows "\<exists>s created offset. vget payload ''created_utc'' = VStr s
    \<and> tl_fromisoformat h s = Some (created, Some offset)
    \<and> - MAX_CLOCK_SKEW \<le> now - created \<and> now - created \<le> MAX_MANIFEST_AGE"
  using assms by (auto simp: validate_freshness_def split: val.splits option.splits)

lemma validated_same:
  assumes "validate_payload h p = Inr payload"
  shows "p = VMap payload"
proof (cases p)
  case (VMap m)
  show ?thesis
    using assms unfolding VMap validate_payload_def val.case bindE_Inr guard_Inr by (elim exE conjE) simp
qed (use assms in \<open>simp_all add: validate_payload_def\<close>)

lemma loaded_private:
  assumes "load_manifest h v = Inr payload"
  shows "\<exists>m d. va_manifest v = Some m \<and> in_kind m = RegularInode \<and> in_uid m = tl_uid h \<and> in_mode m = 384
    \<and> in_nlink m = 1 \<and> va_directory v = Some d \<and> in_uid d = tl_uid h \<and> in_mode d mod 64 = 0
    \<and> validate_payload h (VMap payload) = Inr payload"
proof -
  obtain m where m: "va_manifest v = Some m" using assms by (auto simp: load_manifest_def split: option.splits)
  note run = assms[unfolded load_manifest_def m option.case bindE_Inr guard_Inr]
  obtain p where e: "ensure_private_directory h (va_directory v) = Inr ()"
    and k: "in_kind m = RegularInode" "in_uid m = tl_uid h" "in_nlink m = 1" "in_mode m = 384"
    and p: "validate_payload h p = Inr payload"
    using run by (elim exE conjE) (rule that; simp)
  obtain d where d: "va_directory v = Some d" "in_uid d = tl_uid h" "in_mode d mod 64 = 0"
    using e by (auto simp: ensure_private_directory_def split: option.splits)
  show ?thesis
    by (rule exI[of _ m], rule exI[of _ d]) (use m d k p validated_same[OF p] in simp)
qed

lemma inspected:
  "inspect_image h reference = Inr (image_id, platform) \<Longrightarrow> image_id_ok image_id \<and> platform = ''linux/amd64''"
  by (auto simp: inspect_image_def Let_def)

lemma verified_image:
  assumes "verify_image h payload references name = Inr ()"
  shows "\<exists>reference image_id. map_of references name = Some reference
    \<and> image_field payload name ''reference'' = VStr reference \<and> image_field payload name ''id'' = VStr image_id
    \<and> inspect_image h reference = Inr (image_id, ''linux/amd64'')"
proof -
  obtain reference where r: "map_of references name = Some reference"
    using assms by (auto simp: verify_image_def split: option.splits)
  obtain image_id platform where i: "inspect_image h reference = Inr (image_id, platform)"
    "image_field payload name ''reference'' = VStr reference" "image_field payload name ''id'' = VStr image_id"
    using assms r by (auto simp: verify_image_def)
  then show ?thesis using r inspected by blast
qed

lemma added_containers:
  "add_container containers entries = Inr result \<Longrightarrow> distinct (map fst containers) \<Longrightarrow>
   distinct (map fst result) \<and> result = containers @ map (\<lambda>(c, s). (s, c)) entries"
  by (induction containers entries arbitrary: result rule: add_container.induct) auto

lemma exact_map:
  assumes "exact_service_container_map entries = Inr containers"
  shows "length entries = 7 \<and> distinct (map snd entries) \<and> set (map snd entries) = set COMPOSE_SERVICES
    \<and> containers = map (\<lambda>(c, s). (s, c)) entries"
proof -
  have c: "add_container [] entries = Inr containers" and l: "length entries = length COMPOSE_SERVICES"
    and s: "set (map fst containers) = set COMPOSE_SERVICES"
    using assms by (auto simp: exact_service_container_map_def)
  have e: "containers = map (\<lambda>(c, s). (s, c)) entries" and d: "distinct (map fst containers)"
    using added_containers[OF c] by auto
  have f: "map fst containers = map snd entries" by (simp add: e case_prod_beta o_def)
  have "distinct (map snd entries)" "set (map snd entries) = set COMPOSE_SERVICES" using d s unfolding f by auto
  moreover have "length entries = 7" using l by (simp add: COMPOSE_SERVICES_def)
  ultimately show ?thesis using e by blast
qed

lemma verified_container:
  assumes "verify_container h payload containers name = Inr ()"
  shows "\<exists>cid img running. map_of containers name = Some cid \<and> map_of SERVICE_IMAGE name = Some img
    \<and> container_field h ''{{.Image}}'' cid = Inr running \<and> image_field payload img ''id'' = VStr running
    \<and> (if name \<in> set PERSISTENT_SERVICES then container_field h ''{{.State.Status}}'' cid = Inr ''running''
       else container_field h ''{{.State.Status}}'' cid = Inr ''exited''
            \<and> container_field h ''{{.State.ExitCode}}'' cid = Inr ''0'')"
  using assms by (auto simp: verify_container_def split: option.splits if_splits)

text \<open>What \<open>docker inspect\<close> says of a container, by the command line that asks for it.\<close>

definition docker_says :: "tools \<Rightarrow> string \<Rightarrow> string \<Rightarrow> string \<Rightarrow> bool" where
  "docker_says h template container_id answer \<longleftrightarrow>
     (\<exists>out. tl_run h [''docker'', ''inspect'', ''--format'', template, container_id] = Some out \<and> strip out = answer)"

lemma container_field_Inr: "container_field h template cid = Inr answer \<longleftrightarrow> docker_says h template cid answer"
  by (auto simp: container_field_def run_checked_def docker_says_def split: option.splits)

lemma run_checked_Inr: "run_checked h command = Inr out \<longleftrightarrow> tl_run h command = Some out"
  by (simp add: run_checked_def split: option.splits)

text \<open>One container: its service has an image of the manifest, and it runs that image.\<close>

lemma running_container:
  assumes each: "\<forall>name \<in> set COMPOSE_SERVICES. verify_container h payload containers name = Inr ()"
    and images: "\<forall>name \<in> set IMAGE_SERVICES. verify_image h payload references name = Inr ()"
    and n: "map_of containers name = Some cid" "name \<in> set COMPOSE_SERVICES"
  shows "\<exists>img reference image_id. map_of SERVICE_IMAGE name = Some img
         \<and> map_of references img = Some reference
         \<and> image_field payload img ''id'' = VStr image_id
         \<and> inspect_image h reference = Inr (image_id, ''linux/amd64'')
         \<and> docker_says h ''{{.Image}}'' cid image_id
         \<and> (if name \<in> set PERSISTENT_SERVICES then docker_says h ''{{.State.Status}}'' cid ''running''
            else docker_says h ''{{.State.Status}}'' cid ''exited'' \<and> docker_says h ''{{.State.ExitCode}}'' cid ''0'')"
proof -
  obtain img running where v: "map_of SERVICE_IMAGE name = Some img"
    "docker_says h ''{{.Image}}'' cid running" "image_field payload img ''id'' = VStr running"
    "if name \<in> set PERSISTENT_SERVICES then docker_says h ''{{.State.Status}}'' cid ''running''
     else docker_says h ''{{.State.Status}}'' cid ''exited'' \<and> docker_says h ''{{.State.ExitCode}}'' cid ''0''"
    using verified_container[OF bspec[OF each n(2)]] n(1) unfolding container_field_Inr by auto
  have "img \<in> set IMAGE_SERVICES"
    using map_of_SomeD[OF v(1)] by (auto simp: SERVICE_IMAGE_def IMAGE_SERVICES_def)
  then obtain reference image_id where i: "map_of references img = Some reference"
    "image_field payload img ''id'' = VStr image_id" "inspect_image h reference = Inr (image_id, ''linux/amd64'')"
    using verified_image[OF bspec[OF images]] by blast
  moreover have "image_id = running" using i(2) v(3) by simp
  ultimately show ?thesis using v by blast
qed

text \<open>The labels the listed containers carry are the seven services, each once.\<close>

lemma labelled_containers:
  assumes "traverse (\<lambda>container_id. bindE (container_field h template container_id)
      (\<lambda>service. Inr (container_id, service))) ids = Inr entries"
    and "exact_service_container_map entries = Inr containers"
  shows "\<exists>service. length ids = 7 \<and> bij_betw service (set ids) (set COMPOSE_SERVICES)
    \<and> (\<forall>cid \<in> set ids. docker_says h template cid (service cid) \<and> map_of containers (service cid) = Some cid)"
proof -
  note x = exact_map[OF assms(2)]
  define label where "label = (\<lambda>cid. case container_field h template cid of Inr l \<Rightarrow> l | Inl _ \<Rightarrow> [])"
  have says: "docker_says h template cid (label cid)" if "cid \<in> set ids" for cid
    using traverse_member[OF assms(1) that] by (auto simp: container_field_Inr[symmetric] label_def)
  have "traverse (\<lambda>container_id. bindE (container_field h template container_id)
      (\<lambda>service. Inr (container_id, service))) is = Inr es \<Longrightarrow> es = map (\<lambda>cid. (cid, label cid)) is" for "is" es
    by (induction "is" arbitrary: es) (auto simp: label_def)
  from this[OF assms(1)] have e: "entries = map (\<lambda>cid. (cid, label cid)) ids" .
  have snd_e: "map snd entries = map label ids" by (simp add: e)
  have n: "length ids = 7" using x by (simp add: e)
  have d: "distinct (map label ids)" "set (map label ids) = set COMPOSE_SERVICES" using x unfolding snd_e by blast+
  then have b: "bij_betw label (set ids) (set COMPOSE_SERVICES)"
    by (simp add: bij_betw_def distinct_map)
  have "containers = map (\<lambda>cid. (label cid, cid)) ids" using x by (simp add: e)
  moreover from this have "distinct (map fst containers)" using d(1) by (simp add: o_def)
  ultimately have "map_of containers (label cid) = Some cid" if "cid \<in> set ids" for cid
    using that by (intro map_of_is_SomeI) auto
  then show ?thesis using n b says by blast
qed

text \<open>What the checks before the containers establish.\<close>

lemma verified_common:
  assumes "verify_common h now v app_root es env_name = Inr payload"
  shows "\<exists>m created config references. va_manifest v = Some m \<and> in_kind m = RegularInode
    \<and> in_uid m = tl_uid h \<and> in_mode m = 384 \<and> load_manifest h v = Inr payload
    \<and> - MAX_CLOCK_SKEW \<le> now - created \<and> now - created \<le> MAX_MANIFEST_AGE
    \<and> (\<exists>s offset. vget payload ''created_utc'' = VStr s \<and> tl_fromisoformat h s = Some (created, Some offset))
    \<and> (\<exists>source. source_digest h es env_name = Inr source \<and> vget payload ''source_sha256'' = VStr source)
    \<and> render_compose h app_root (join_path app_root env_name) = Inr config
    \<and> vget payload ''compose_config_sha256'' = VStr (compose_digest h config)
    \<and> expected_references config = Inr references
    \<and> (\<forall>name \<in> set IMAGE_SERVICES. verify_image h payload references name = Inr ())"
proof -
  obtain source config references where l: "load_manifest h v = Inr payload"
    and f: "validate_freshness h now payload = Inr ()"
    and s: "source_digest h es env_name = Inr source" "vget payload ''source_sha256'' = VStr source"
    and r: "render_compose h app_root (join_path app_root env_name) = Inr config"
      "vget payload ''compose_config_sha256'' = VStr (compose_digest h config)"
      "expected_references config = Inr references"
    and images: "\<forall>name \<in> set IMAGE_SERVICES. verify_image h payload references name = Inr ()"
    using assms unfolding verify_common_def bindE_Inr each_Inr guard_Inr by auto
  obtain m where m: "va_manifest v = Some m" "in_kind m = RegularInode" "in_uid m = tl_uid h" "in_mode m = 384"
    using loaded_private[OF l] by blast
  obtain s' created offset where fr: "vget payload ''created_utc'' = VStr s'"
    "tl_fromisoformat h s' = Some (created, Some offset)"
    "- MAX_CLOCK_SKEW \<le> now - created" "now - created \<le> MAX_MANIFEST_AGE"
    using freshness_bounds[OF f] by blast
  show ?thesis by (intro exI conjI) (use m l fr s r images in \<open>blast+\<close>)
qed

text \<open>
  C35: a verified deployment runs what was scanned. When the check after the start
  succeeds, the manifest is a private regular file of the operator, at most two hours old
  and at most five minutes from the future, its source digest is that of the present tree
  and env file and its graph the one Compose renders now. What \<open>docker compose ps\<close> lists for
  this project, stopped and orphaned containers included, is seven containers, whose
  Compose service labels are the seven services, each once; a permanent service runs and a
  one-shot one ended with status 0, and every listed container was made from the image
  whose id is in the manifest, which the canonical reference still has, for linux/amd64.
\<close>

theorem running_matches_manifest:
  assumes "verify_running h now v app_root es env_name = Inr ()"
  shows "\<exists>payload m created config references listing ids service.
    va_manifest v = Some m \<and> in_kind m = RegularInode \<and> in_uid m = tl_uid h \<and> in_mode m = 384
    \<and> load_manifest h v = Inr payload
    \<and> - MAX_CLOCK_SKEW \<le> now - created \<and> now - created \<le> MAX_MANIFEST_AGE
    \<and> (\<exists>s offset. vget payload ''created_utc'' = VStr s \<and> tl_fromisoformat h s = Some (created, Some offset))
    \<and> (\<exists>source. source_digest h es env_name = Inr source \<and> vget payload ''source_sha256'' = VStr source)
    \<and> render_compose h app_root (join_path app_root env_name) = Inr config
    \<and> vget payload ''compose_config_sha256'' = VStr (compose_digest h config)
    \<and> expected_references config = Inr references
    \<and> tl_run h ([''docker'', ''compose'', ''--project-directory'', app_root,
          ''--env-file'', join_path app_root env_name, ''-f'', join_path app_root ''compose.yaml'']
         @ [''ps'', ''--all'', ''--orphans'', ''--quiet'']) = Some listing
    \<and> ids = filter (\<lambda>line. line \<noteq> []) (map fst (splitlines listing))
    \<and> length ids = 7 \<and> bij_betw service (set ids) (set COMPOSE_SERVICES)
    \<and> (\<forall>cid \<in> set ids.
         docker_says h (''{{index .Config.Labels '' @ [CHR 0x22] @ ''com.docker.compose.service'' @ [CHR 0x22] @ ''}}'')
           cid (service cid)
         \<and> (\<exists>img reference image_id. map_of SERVICE_IMAGE (service cid) = Some img
              \<and> map_of references img = Some reference
              \<and> image_field payload img ''id'' = VStr image_id
              \<and> inspect_image h reference = Inr (image_id, ''linux/amd64'')
              \<and> docker_says h ''{{.Image}}'' cid image_id)
         \<and> (if service cid \<in> set PERSISTENT_SERVICES then docker_says h ''{{.State.Status}}'' cid ''running''
            else docker_says h ''{{.State.Status}}'' cid ''exited'' \<and> docker_says h ''{{.State.ExitCode}}'' cid ''0''))"
proof -
  obtain payload listing entries containers where c: "verify_common h now v app_root es env_name = Inr payload"
    and ps: "tl_run h (compose_base app_root (join_path app_root env_name)
        @ [''ps'', ''--all'', ''--orphans'', ''--quiet'']) = Some listing"
    and t: "traverse (\<lambda>container_id. bindE (container_field h service_label container_id)
        (\<lambda>service. Inr (container_id, service))) (filter (\<lambda>l. l \<noteq> []) (map fst (splitlines listing))) = Inr entries"
    and x: "exact_service_container_map entries = Inr containers"
    and each: "\<forall>name \<in> set COMPOSE_SERVICES. verify_container h payload containers name = Inr ()"
    using assms unfolding verify_running_def bindE_Inr each_Inr run_checked_Inr by blast
  define ids where "ids = filter (\<lambda>l. l \<noteq> []) (map fst (splitlines listing))"
  obtain m created config references where C: "va_manifest v = Some m" "in_kind m = RegularInode"
    "in_uid m = tl_uid h" "in_mode m = 384" "load_manifest h v = Inr payload"
    "- MAX_CLOCK_SKEW \<le> now - created" "now - created \<le> MAX_MANIFEST_AGE"
    "\<exists>s offset. vget payload ''created_utc'' = VStr s \<and> tl_fromisoformat h s = Some (created, Some offset)"
    "\<exists>source. source_digest h es env_name = Inr source \<and> vget payload ''source_sha256'' = VStr source"
    "render_compose h app_root (join_path app_root env_name) = Inr config"
    "vget payload ''compose_config_sha256'' = VStr (compose_digest h config)"
    "expected_references config = Inr references"
    and images: "\<forall>name \<in> set IMAGE_SERVICES. verify_image h payload references name = Inr ()"
    using verified_common[OF c] by (elim exE, elim conjE) (rule that)
  obtain service where n: "length ids = 7" and bij: "bij_betw service (set ids) (set COMPOSE_SERVICES)"
    and L: "\<forall>cid \<in> set ids. docker_says h service_label cid (service cid) \<and> map_of containers (service cid) = Some cid"
    using labelled_containers[OF t x, folded ids_def] by blast
  have "service cid \<in> set COMPOSE_SERVICES" if "cid \<in> set ids" for cid
    using bij_betwE[OF bij] that by blast
  note per = running_container[OF each images L[rule_format, THEN conjunct2] this]
  have label: "docker_says h (''{{index .Config.Labels '' @ [CHR 0x22] @ ''com.docker.compose.service'' @ [CHR 0x22] @ ''}}'')
      cid (service cid)" if "cid \<in> set ids" for cid
    using L that by (simp add: service_label_def)
  show ?thesis
    by (rule exI[of _ payload], rule exI[of _ m], rule exI[of _ created], rule exI[of _ config],
        rule exI[of _ references], rule exI[of _ listing], rule exI[of _ ids], rule exI[of _ service],
        intro conjI ballI)
      (fact C | fact n bij ids_def ps[unfolded compose_base_def] | erule label | (frule per, assumption, blast))+
qed

section \<open>A fresh manifest is accepted\<close>

lemma reference_nonempty:
  assumes "expected_references config = Inr refs" and "map_of refs n = Some r"
  shows "r \<noteq> []"
proof -
  obtain project postgres redis where p: "sublist ''@sha256:'' postgres" "sublist ''@sha256:'' redis"
    and r: "refs = map (\<lambda>name. (name, project @ ''-'' @ name)) LOCAL_IMAGE_SERVICES
                   @ [(''postgres'', postgres), (''redis'', redis)]"
    using assms(1) by (auto simp: expected_references_def pinned_image_def Let_def split: val.splits)
  have "postgres \<noteq> []" "redis \<noteq> []" using p by (auto simp: sublist_def)
  then show ?thesis using map_of_SomeD[OF assms(2)] by (auto simp: r)
qed

lemma reference_project:
  assumes "expected_references config = Inr refs"
  shows "\<exists>project. vget config ''name'' = VStr project \<and> project_ok project"
  using assms by (auto simp: expected_references_def split: val.splits)

lemma normalized_images:
  assumes "traverse (normalized_image refs images) ns = Inr xs"
  shows "map fst xs = ns \<and> (\<forall>n \<in> set ns. \<exists>r i. map_of images n = Some (r, i) \<and> map_of refs n = Some r
    \<and> image_id_ok i \<and> map_of xs n = Some (VMap [(''id'', VStr i), (''reference'', VStr r)]))"
  using assms
proof (induction ns arbitrary: xs)
  case (Cons n ns)
  obtain x ys where x: "normalized_image refs images n = Inr x" and y: "traverse (normalized_image refs images) ns = Inr ys"
    and xs: "xs = x # ys" using Cons.prems by auto
  obtain r i where ri: "map_of images n = Some (r, i)" "map_of refs n = Some r" "image_id_ok i"
    "x = (n, VMap [(''id'', VStr i), (''reference'', VStr r)])"
    using x by (auto simp: normalized_image_def split: option.splits)
  show ?case using Cons.IH[OF y] ri xs by auto
qed simp

lemma normalized_ok:
  assumes "traverse (normalized_image refs images) IMAGE_SERVICES = Inr xs"
    and "expected_references config = Inr refs"
  shows "images_ok h (VMap xs) = Inr ()"
proof -
  note N = normalized_images[OF assms(1)]
  have "image_entry_ok h (vget xs n) = Inr ()" if n: "n \<in> set IMAGE_SERVICES" for n
  proof -
    obtain r i where "map_of refs n = Some r" "image_id_ok i"
      "map_of xs n = Some (VMap [(''id'', VStr i), (''reference'', VStr r)])" using N n by blast
    then show ?thesis using reference_nonempty[OF assms(2)]
      by (simp add: vget_def image_entry_ok_def keys_def py_str_def)
  qed
  then show ?thesis using N by (simp add: images_ok_def keys_def flip: set_map)
qed

lemma built_parts:
  assumes "build_payload h es env_name rendered expected images trivy now_text = Inr payload"
  shows "\<exists>config refs xs. sha256_ok expected \<and> source_digest h es env_name = Inr expected
    \<and> read_json_file h rendered = Inr config \<and> expected_references config = Inr refs
    \<and> traverse (normalized_image refs images) IMAGE_SERVICES = Inr xs
    \<and> payload = [(''compose_config_sha256'', VStr (compose_digest h config)), (''created_utc'', VStr now_text),
          (''env_file'', VStr env_name), (''images'', VMap xs),
          (''platform'', VStr ''linux/amd64''), (''project'', vget config ''name''),
          (''schema'', VStr SCHEMA), (''source_sha256'', VStr expected),
          (''trivy_version'', VStr trivy), (''vulnerability_severities'', strs SEVERITIES)]"
  using assms unfolding build_payload_def bindE_Inr guard_Inr by (elim exE conjE) simp

lemma built_valid:
  assumes "build_payload h es env_name rendered expected images trivy now_text = Inr payload"
    and "\<forall>s. sha256_ok (tl_sha256 h s)" and "tl_fromisoformat h now_text = Some (now, Some 0)"
    and "trivy \<noteq> []" and "env_name \<in> {''.env'', ''.env.example''}"
  shows "validate_payload h (VMap payload) = Inr payload"
proof -
  obtain config refs xs where p: "sha256_ok expected" "expected_references config = Inr refs"
    "traverse (normalized_image refs images) IMAGE_SERVICES = Inr xs"
    and e: "payload = [(''compose_config_sha256'', VStr (compose_digest h config)), (''created_utc'', VStr now_text),
          (''env_file'', VStr env_name), (''images'', VMap xs),
          (''platform'', VStr ''linux/amd64''), (''project'', vget config ''name''),
          (''schema'', VStr SCHEMA), (''source_sha256'', VStr expected),
          (''trivy_version'', VStr trivy), (''vulnerability_severities'', strs SEVERITIES)]"
    using built_parts[OF assms(1)] by blast
  obtain project where n: "vget config ''name'' = VStr project" "project_ok project"
    using reference_project[OF p(2)] by blast
  have s: "py_eq (strs SEVERITIES) (strs SEVERITIES)" by (simp add: strs_def py_eq_list_strs)
  have k: "keys payload = set payload_keys" by (auto simp: e keys_def payload_keys_def)
  have f: "vget payload ''compose_config_sha256'' = VStr (compose_digest h config)"
    "vget payload ''created_utc'' = VStr now_text" "vget payload ''env_file'' = VStr env_name"
    "vget payload ''images'' = VMap xs" "vget payload ''platform'' = VStr ''linux/amd64''"
    "vget payload ''project'' = VStr project" "vget payload ''schema'' = VStr SCHEMA"
    "vget payload ''source_sha256'' = VStr expected" "vget payload ''trivy_version'' = VStr trivy"
    "vget payload ''vulnerability_severities'' = strs SEVERITIES"
    by (simp_all add: e vget_def n(1)[unfolded vget_def])
  have en: "env_name_ok (VStr env_name) = Inr ()" using assms(5) by (auto simp: env_name_ok_def)
  have d: "sha256_ok (compose_digest h config)" using assms(2) by (simp add: compose_digest_def)
  show ?thesis
    unfolding validate_payload_def val.case f bindE_Inr guard_Inr
    using k s p(1) d n(2) en assms(3,4) normalized_ok[OF p(3,2)] by (simp add: py_str_def)
qed

lemma written_loads:
  assumes "atomic_write_manifest h payload v = Inr v'" and "validate_payload h (VMap payload) = Inr payload"
    and "tl_loads h (canonical_json h (VMap (envelope_for h payload)) @ [CHR 0x0A]) = Some (VMap (envelope_for h payload))"
    and "length (canonical_json h (VMap (envelope_for h payload))) < 64 * 1024"
  shows "load_manifest h v' = Inr payload"
proof -
  let ?text = "canonical_json h (VMap (envelope_for h payload)) @ [CHR 0x0A]"
  have w: "ensure_private_directory h (va_directory v) = Inr ()"
    "v' = v\<lparr>va_manifest := Some \<lparr>in_kind = RegularInode, in_uid = tl_uid h, in_mode = 384, in_nlink = 1, in_content = ?text\<rparr>\<rparr>"
    using assms(1) by (auto simp: atomic_write_manifest_def)
  have r: "read_json_file h (Some ?text) = Inr (envelope_for h payload)"
    using assms(3,4) by (simp add: read_json_file_def guard_def)
  have e: "keys (envelope_for h payload) = {''payload'', ''payload_sha256''}"
    "vget (envelope_for h payload) ''payload'' = VMap payload"
    "vget (envelope_for h payload) ''payload_sha256'' = VStr (tl_sha256 h (canonical_json h (VMap payload)))"
    by (auto simp: envelope_for_def keys_def vget_def)
  show ?thesis
    unfolding load_manifest_def bindE_Inr using w r e assms(2,4) by simp
qed

text \<open>
  C36: a manifest that was just created is accepted. What the writer stores is read back by
  the loader as the same payload, and as long as the tree, the env file, the rendered graph
  and the images behind the references stay the same, the check before the start succeeds
  with that payload from five minutes before to two hours after its creation.
\<close>

theorem created_manifest_verifies:
  assumes "build_payload h es env_name rendered expected images trivy now_text = Inr payload"
    and "atomic_write_manifest h payload v = Inr v'"
    and "\<forall>s. sha256_ok (tl_sha256 h s)" and "tl_fromisoformat h now_text = Some (now, Some 0)"
    and "trivy \<noteq> []" and "env_name \<in> {''.env'', ''.env.example''}"
    and "tl_loads h (canonical_json h (VMap (envelope_for h payload)) @ [CHR 0x0A]) = Some (VMap (envelope_for h payload))"
    and "length (canonical_json h (VMap (envelope_for h payload))) < 64 * 1024"
    and "- MAX_CLOCK_SKEW \<le> later - now" and "later - now \<le> MAX_MANIFEST_AGE"
    and "render_compose h app_root (join_path app_root env_name) = read_json_file h rendered"
    and "\<forall>name reference image_id. map_of images name = Some (reference, image_id) \<longrightarrow>
           inspect_image h reference = Inr (image_id, ''linux/amd64'')"
  shows "load_manifest h v' = Inr payload \<and> verify_common h later v' app_root es env_name = Inr payload"
proof -
  have v: "validate_payload h (VMap payload) = Inr payload"
    by (rule built_valid[OF assms(1,3-6)])
  have l: "load_manifest h v' = Inr payload" by (rule written_loads[OF assms(2) v assms(7,8)])
  obtain config refs xs where p: "source_digest h es env_name = Inr expected" "read_json_file h rendered = Inr config"
    "expected_references config = Inr refs" "traverse (normalized_image refs images) IMAGE_SERVICES = Inr xs"
    and e: "payload = [(''compose_config_sha256'', VStr (compose_digest h config)), (''created_utc'', VStr now_text),
          (''env_file'', VStr env_name), (''images'', VMap xs),
          (''platform'', VStr ''linux/amd64''), (''project'', vget config ''name''),
          (''schema'', VStr SCHEMA), (''source_sha256'', VStr expected),
          (''trivy_version'', VStr trivy), (''vulnerability_severities'', strs SEVERITIES)]"
    using built_parts[OF assms(1)] by blast
  obtain project where n: "vget config ''name'' = VStr project" using reference_project[OF p(3)] by blast
  have f: "vget payload ''compose_config_sha256'' = VStr (compose_digest h config)"
    "vget payload ''created_utc'' = VStr now_text" "vget payload ''env_file'' = VStr env_name"
    "vget payload ''images'' = VMap xs" "vget payload ''project'' = VStr project"
    "vget payload ''source_sha256'' = VStr expected"
    by (simp_all add: e vget_def n[unfolded vget_def])
  have fresh: "validate_freshness h later payload = Inr ()"
    using assms(4,9,10) by (simp add: validate_freshness_def f)
  have images: "verify_image h payload refs name = Inr ()" if name: "name \<in> set IMAGE_SERVICES" for name
  proof -
    obtain r i where m: "map_of images name = Some (r, i)" "map_of refs name = Some r"
      "map_of xs name = Some (VMap [(''id'', VStr i), (''reference'', VStr r)])"
      using normalized_images[OF p(4)] name by blast
    have "vget xs name = VMap [(''id'', VStr i), (''reference'', VStr r)]" using m(3) by (simp add: vget_def)
    then have "image_field payload name ''reference'' = VStr r" "image_field payload name ''id'' = VStr i"
      by (simp_all add: image_field_def f field_of_def) (simp_all add: vget_def)
    then show ?thesis using assms(12) m by (simp add: verify_image_def)
  qed
  have "verify_common h later v' app_root es env_name = Inr payload"
    unfolding verify_common_def using l fresh p n images assms(11) by (simp add: f guard_def)
  then show ?thesis using l by simp
qed

end
