(* ===== verification/ManifestFixture.thy ===== *)
theory ManifestFixture
  imports Manifest
begin

text \<open>
  A small deployment on which the properties of the deployment manifest are applied, and
  two deployments with different files and the same source digest.
\<close>

section \<open>A deployment\<close>

definition ss_pair :: "string \<Rightarrow> string \<Rightarrow> string \<times> val" where
  "ss_pair k v = (k, VStr v)"

definition plain :: "string \<Rightarrow> string \<times> node" where
  "plain name = (name, Regular 420 1 name)"

definition small_env :: string where
  "small_env = marker_key @ ''true'' @ [CHR 0x0A]"

definition small_tree :: "tree \<Rightarrow> tree" where
  "small_tree backend =
     [plain ''Makefile'', plain ''compose.yaml'', (''backend'', Dir backend), (''frontend'', Dir []),
      (''deploy'', Dir [plain ''Caddyfile'', plain ''debug.log'', (''node_modules'', Dir [plain ''x''])]),
      (''scripts'', Dir (map plain
        [''check-backend-locks.py'', ''compose.sh'', ''deployment-manifest.py'', ''recover-admin-password.sh'',
         ''security-scan.sh'', ''set-secret-acl.sh'', ''validate-compose-security.py'', ''validate-env.sh''])),
      (''security'', Dir (map plain [''ctfnight.openvex.json'', ''requirements.in'', ''requirements.lock''])),
      (''.env'', Regular 384 1 small_env)]"

definition later_paths :: "string list list" where
  "later_paths = [''compose.yaml''] # [''deploy'', ''Caddyfile''] # POLICY_FILES"

lemma paths_one:
  "deployment_input_paths (small_tree [(''a'', Regular 420 1 c)])
     = Inr ([''Makefile''] # [''backend'', ''a''] # later_paths)"
  by code_simp

lemma paths_two:
  "deployment_input_paths (small_tree [(''a'', Regular 420 1 c), (''b'', Regular 420 1 d)])
     = Inr ([''Makefile''] # [''backend'', ''a''] # [''backend'', ''b''] # later_paths)"
  by code_simp

section \<open>Two deployments with one digest\<close>

text \<open>The bytes between the contents of two files \<open>backend/a\<close> and \<open>backend/b\<close> of mode 0644.\<close>

definition joint :: string where
  "joint = zero_byte @ ''F'' @ zero_byte @ ''backend/b'' @ zero_byte @ ''644'' @ zero_byte"

definition joined_tree :: "string \<Rightarrow> string \<Rightarrow> tree" where
  "joined_tree x y = small_tree [(''a'', Regular 420 1 (x @ joint @ y))]"

definition split_tree :: "string \<Rightarrow> string \<Rightarrow> tree" where
  "split_tree x y = small_tree [(''a'', Regular 420 1 x), (''b'', Regular 420 1 y)]"

lemma octal_420: "octal_text 420 = ''644''"
  by code_simp

lemma part_a:
  "update_path_digest (small_tree ((''a'', Regular 420 1 c) # rest)) [''backend'', ''a'']
     = Inr (''F'' @ zero_byte @ ''backend/a'' @ zero_byte @ ''644'' @ zero_byte @ c @ zero_byte)"
  by (simp add: update_path_digest_def small_tree_def plain_def posix_def octal_420)

lemma part_b:
  "update_path_digest (small_tree [a, (''b'', Regular 420 1 d)]) [''backend'', ''b'']
     = (if fst a = ''b'' then update_path_digest (small_tree [a, (''b'', Regular 420 1 d)]) [''backend'', ''b'']
        else Inr (''F'' @ zero_byte @ ''backend/b'' @ zero_byte @ ''644'' @ zero_byte @ d @ zero_byte))"
  by (cases a) (simp add: update_path_digest_def small_tree_def plain_def posix_def octal_420)

lemma part_other:
  "k \<noteq> ''backend'' \<Longrightarrow> update_path_digest (small_tree b) (k # ks) = update_path_digest (small_tree b') (k # ks)"
  by (simp add: update_path_digest_def small_tree_def)

lemma parts_other:
  "\<forall>p \<in> set ps. \<exists>k ks. p = k # ks \<and> k \<noteq> ''backend'' \<Longrightarrow>
   traverse (update_path_digest (small_tree b)) ps = traverse (update_path_digest (small_tree b')) ps"
proof (induction ps)
  case (Cons p ps)
  then obtain k ks where p: "p = k # ks" "k \<noteq> ''backend''" by auto
  show ?case using Cons part_other[OF p(2), of b ks b'] by (simp add: p(1))
qed simp

lemma env_of_small: "map_of (small_tree b) ''.env'' = Some (Regular 384 1 small_env)"
  by (simp add: small_tree_def plain_def)

lemma makefile_part: "\<exists>m. \<forall>b. update_path_digest (small_tree b) [''Makefile''] = Inr m"
  by (simp add: update_path_digest_def small_tree_def plain_def)

lemma other_parts: "\<exists>zs. \<forall>b. traverse (update_path_digest (small_tree b)) (later_paths) = Inr zs"
proof -
  let ?ps = "later_paths"
  have other: "\<forall>p \<in> set ?ps. \<exists>k ks. p = k # ks \<and> k \<noteq> ''backend''"
    by (simp add: later_paths_def POLICY_FILES_def)
  have "case traverse (update_path_digest (small_tree [])) ?ps of Inl e \<Rightarrow> False | Inr zs \<Rightarrow> True"
    by code_simp
  then obtain zs where "traverse (update_path_digest (small_tree [])) ?ps = Inr zs"
    by (auto split: sum.splits)
  then show ?thesis by (intro exI[of _ zs] allI) (rule trans[OF parts_other[OF other]])
qed

lemma small_env_bytes:
  "deployment_env_bytes h small_env
     = (if tl_utf8 h small_env then Inr (marker_key @ ''<operational-marker>'' @ [CHR 0x0A]) else Inl ManifestError)"
proof -
  let ?ls = "map env_line (splitlines (universal_newlines small_env))"
  have "?ls = [(marker_key @ ''true'', [CHR 0x0A])]" by code_simp
  then show ?thesis
    by (simp add: deployment_env_bytes_def Let_def guard_def normalized_line_def)
qed

definition stream_of :: "string list \<Rightarrow> string" where
  "stream_of parts =
     ''ctfnight-deployment-input-v1'' @ zero_byte @ concat parts
     @ ''ENV'' @ zero_byte @ ''.env'' @ zero_byte
     @ (marker_key @ ''<operational-marker>'' @ [CHR 0x0A]) @ zero_byte"

lemma small_stream:
  assumes "deployment_input_paths (small_tree b) = Inr paths"
    and "traverse (update_path_digest (small_tree b)) paths = Inr parts"
  shows "deployment_stream h (small_tree b) ''.env''
    = (if tl_utf8 h small_env then Inr (stream_of parts) else Inl ManifestError)"
  using assms
  by (simp add: deployment_stream_def env_of_small guard_def small_env_bytes stream_of_def)

text \<open>
  C37: the source digest does not bind the files. What a file feeds into it is its path,
  mode and content with zero bytes between, and the content may hold zero bytes itself:
  a deployment whose \<open>backend/a\<close> ends in the header of \<open>backend/b\<close> followed by its content
  has the digest of the deployment with both files, whatever the hash function and the two
  contents, although one of them has a file the other has not. Both digests are computed
  without an error (when the env file decodes).
\<close>

theorem digest_ambiguous:
  "(\<exists>stream. let digest = (if tl_utf8 h small_env then Inr (tl_sha256 h stream) else Inl ManifestError)
       in source_digest h (joined_tree x y) ''.env'' = digest \<and> source_digest h (split_tree x y) ''.env'' = digest)
   \<and> lookup_path (Dir (joined_tree x y)) [''backend'', ''b''] = None
   \<and> lookup_path (Dir (split_tree x y)) [''backend'', ''b''] = Some (Regular 420 1 y)"
proof -
  let ?one = "[(''a'', Regular 420 1 (x @ joint @ y))]" and ?two = "[(''a'', Regular 420 1 x), (''b'', Regular 420 1 y)]"
  obtain m where m: "\<forall>b. update_path_digest (small_tree b) [''Makefile''] = Inr m" using makefile_part by blast
  obtain zs where z: "\<forall>b. traverse (update_path_digest (small_tree b)) (later_paths) = Inr zs"
    using other_parts by blast
  have one: "traverse (update_path_digest (small_tree ?one)) ([''Makefile''] # [''backend'', ''a''] # later_paths)
      = Inr (m # (''F'' @ zero_byte @ ''backend/a'' @ zero_byte @ ''644'' @ zero_byte @ (x @ joint @ y) @ zero_byte) # zs)"
    by (simp only: traverse.simps(2) m[rule_format] part_a bindE_simps z[rule_format])
  have b: "update_path_digest (small_tree ?two) [''backend'', ''b'']
      = Inr (''F'' @ zero_byte @ ''backend/b'' @ zero_byte @ ''644'' @ zero_byte @ y @ zero_byte)"
    by (subst part_b) simp
  have two: "traverse (update_path_digest (small_tree ?two))
        ([''Makefile''] # [''backend'', ''a''] # [''backend'', ''b''] # later_paths)
      = Inr (m # (''F'' @ zero_byte @ ''backend/a'' @ zero_byte @ ''644'' @ zero_byte @ x @ zero_byte)
               # (''F'' @ zero_byte @ ''backend/b'' @ zero_byte @ ''644'' @ zero_byte @ y @ zero_byte) # zs)"
    by (simp only: traverse.simps(2) m[rule_format] part_a b bindE_simps z[rule_format])
  note S = small_stream[OF paths_one one, of h] small_stream[OF paths_two two, of h]
  let ?stream = "stream_of (m # (''F'' @ zero_byte @ ''backend/a'' @ zero_byte @ ''644'' @ zero_byte @ x @ zero_byte)
               # (''F'' @ zero_byte @ ''backend/b'' @ zero_byte @ ''644'' @ zero_byte @ y @ zero_byte) # zs)"
  have same: "stream_of (m # (''F'' @ zero_byte @ ''backend/a'' @ zero_byte @ ''644'' @ zero_byte @ (x @ joint @ y) @ zero_byte) # zs)
      = ?stream"
    by (simp add: stream_of_def joint_def)
  have e: "source_digest h (joined_tree x y) ''.env'' = (if tl_utf8 h small_env then Inr (tl_sha256 h ?stream) else Inl ManifestError)"
    unfolding source_digest_def joined_tree_def S same by simp
  have d: "source_digest h (split_tree x y) ''.env'' = (if tl_utf8 h small_env then Inr (tl_sha256 h ?stream) else Inl ManifestError)"
    unfolding source_digest_def split_tree_def S by simp
  have n: "lookup_path (Dir (joined_tree x y)) [''backend'', ''b''] = None"
    "lookup_path (Dir (split_tree x y)) [''backend'', ''b''] = Some (Regular 420 1 y)"
    by (simp_all add: joined_tree_def split_tree_def small_tree_def plain_def)
  show ?thesis unfolding Let_def
    by (intro conjI exI[of _ ?stream]) (fact e d n)+
qed

section \<open>A manifest for it\<close>

definition pinned :: "string \<Rightarrow> string" where
  "pinned name = name @ ''@sha256:1''"

definition small_graph :: vmap where
  "small_graph =
     [ss_pair ''name'' ''alpha'',
      (''services'', VMap
        [(''backend'', VMap []), (''caddy'', VMap []), (''db-roles'', VMap [ss_pair ''image'' (pinned ''postgres'')]),
         (''frontend'', VMap []), (''migrate'', VMap [ss_pair ''image'' ''alpha-backend'']),
         (''postgres'', VMap [ss_pair ''image'' (pinned ''postgres'')]),
         (''redis'', VMap [ss_pair ''image'' (pinned ''redis'')])])]"

definition small_image_id :: string where
  "small_image_id = ''sha256:'' @ replicate 64 CHR ''1''"

definition small_digest :: string where
  "small_digest = replicate 64 CHR ''2''"

definition small_references :: "(string \<times> string) list" where
  "small_references =
     [(''backend'', ''alpha-backend''), (''caddy'', ''alpha-caddy''), (''frontend'', ''alpha-frontend''),
      (''postgres'', pinned ''postgres''), (''redis'', pinned ''redis'')]"

definition small_images :: "(string \<times> string \<times> string) list" where
  "small_images = map (\<lambda>(name, reference). (name, reference, small_image_id)) small_references"

definition small_payload :: vmap where
  "small_payload =
     [ss_pair ''compose_config_sha256'' small_digest, ss_pair ''created_utc'' ''now'', ss_pair ''env_file'' ''.env'',
      (''images'', VMap (map (\<lambda>(name, reference).
         (name, VMap [ss_pair ''id'' small_image_id, ss_pair ''reference'' reference])) small_references)),
      ss_pair ''platform'' ''linux/amd64'', ss_pair ''project'' ''alpha'', ss_pair ''schema'' SCHEMA,
      ss_pair ''source_sha256'' small_digest, ss_pair ''trivy_version'' ''1'',
      (''vulnerability_severities'', strs SEVERITIES)]"

text \<open>Containers are named after their service; every image has the same id.\<close>

definition small_run :: "string list \<Rightarrow> string option" where
  "small_run command =
     (let kind = command ! 1; subject = last command; template = last (butlast command) in
      if kind = ''compose''
      then Some (if subject = ''json'' then ''graph''
                 else concat (map (\<lambda>name. name @ [CHR 0x0A]) COMPOSE_SERVICES))
      else if template = service_label then Some subject
      else if template = ''{{.State.Status}}''
      then Some (if subject \<in> set PERSISTENT_SERVICES then ''running'' else ''exited'')
      else if template = ''{{.State.ExitCode}}'' then Some ''0''
      else if template = ''{{.Os}}/{{.Architecture}}'' then Some ''linux/amd64''
      else Some small_image_id)"

definition small_tools :: tools where
  "small_tools =
     \<lparr>tl_sha256 = (\<lambda>_. small_digest), tl_float = (\<lambda>_. []),
      tl_loads = (\<lambda>s. Some (VMap (if s = ''graph'' then small_graph
                 else [(''payload'', VMap small_payload), ss_pair ''payload_sha256'' small_digest]))),
      tl_show = (\<lambda>_. []), tl_fromisoformat = (\<lambda>_. Some (0, Some 0)), tl_run = small_run,
      tl_utf8 = (\<lambda>_. True), tl_read = (\<lambda>_. Some ''graph''), tl_uid = 1000\<rparr>"

definition private_vault :: vault where
  "private_vault =
     \<lparr>va_directory = Some \<lparr>in_kind = DirectoryInode, in_uid = 1000, in_mode = 448, in_nlink = 2, in_content = []\<rparr>,
      va_manifest = None\<rparr>"

definition written_vault :: vault where
  "written_vault = private_vault\<lparr>va_manifest := Some \<lparr>in_kind = RegularInode, in_uid = 1000, in_mode = 384,
     in_nlink = 1, in_content = canonical_json small_tools (VMap (envelope_for small_tools small_payload)) @ [CHR 0x0A]\<rparr>\<rparr>"

lemma small_digest_ok: "sha256_ok small_digest"
  by code_simp

lemma small_graph_references: "expected_references small_graph = Inr small_references"
  by code_simp

lemma small_source: "source_digest small_tools (small_tree []) ''.env'' = Inr small_digest"
proof -
  have "deployment_input_paths (small_tree []) = Inr ([''Makefile''] # later_paths)" by code_simp
  moreover obtain m zs where "update_path_digest (small_tree []) [''Makefile''] = Inr m"
    "traverse (update_path_digest (small_tree [])) later_paths = Inr zs"
    using makefile_part other_parts by metis
  ultimately show ?thesis
    by (simp add: source_digest_def small_stream[where parts = "m # zs"] small_tools_def)
qed

lemma small_config: "read_json_file small_tools (Some ''graph'') = Inr small_graph"
  by (simp add: read_json_file_def small_tools_def guard_def)

lemma small_normalized:
  "traverse (normalized_image small_references small_images) IMAGE_SERVICES
     = Inr (map (\<lambda>(name, reference). (name, VMap [ss_pair ''id'' small_image_id, ss_pair ''reference'' reference])) small_references)"
  by code_simp

lemma small_built:
  "build_payload small_tools (small_tree []) ''.env'' (Some ''graph'') small_digest small_images ''1'' ''now''
     = Inr small_payload"
proof -
  have "set (map fst small_images) = set IMAGE_SERVICES" by code_simp
  moreover have "vget small_graph ''name'' = VStr ''alpha''" by code_simp
  moreover have "compose_digest small_tools small_graph = small_digest" by (simp add: compose_digest_def small_tools_def)
  ultimately show ?thesis
    by (simp add: build_payload_def small_digest_ok small_source small_config small_graph_references small_normalized
        guard_def small_payload_def ss_pair_def)
qed

lemma small_written: "atomic_write_manifest small_tools small_payload private_vault = Inr written_vault"
  by (simp add: atomic_write_manifest_def ensure_private_directory_def private_vault_def written_vault_def
      small_tools_def guard_def)

lemma small_text_length:
  "length (canonical_json small_tools (VMap (envelope_for small_tools small_payload))) \<le> 2000"
  by code_simp

lemma small_text:
  "canonical_json small_tools (VMap (envelope_for small_tools small_payload)) @ [CHR 0x0A] \<noteq> ''graph''
   \<and> length (canonical_json small_tools (VMap (envelope_for small_tools small_payload))) < 64 * 1024"
  using small_text_length by (simp add: canonical_json_def)

lemma small_inspected:
  "list_all (\<lambda>(name, reference, image_id). inspect_image small_tools reference = Inr (image_id, ''linux/amd64'')) small_images"
  by code_simp

lemma small_reader:
  "tl_loads small_tools (canonical_json small_tools (VMap (envelope_for small_tools small_payload)) @ [CHR 0x0A])
     = Some (VMap (envelope_for small_tools small_payload))"
  using small_text by (simp add: small_tools_def envelope_for_def ss_pair_def)

lemma small_rendered:
  "render_compose small_tools ''/srv/ctfnight'' (join_path ''/srv/ctfnight'' ''.env'') = read_json_file small_tools (Some ''graph'')"
  unfolding small_config by (simp add: render_compose_def run_checked_def small_tools_def small_run_def compose_base_def)

lemma small_environment:
  "(\<forall>s. sha256_ok (tl_sha256 small_tools s)) \<and> tl_fromisoformat small_tools ''now'' = Some (0, Some 0)"
  using small_digest_ok by (simp add: small_tools_def)

lemma created_manifest_verifies_witness:
  "verify_common small_tools 3600000000 written_vault ''/srv/ctfnight'' (small_tree []) ''.env'' = Inr small_payload"
proof -
  have "inspect_image small_tools reference = Inr (image_id, ''linux/amd64'')"
    if "map_of small_images name = Some (reference, image_id)" for name reference image_id
    using small_inspected map_of_SomeD[OF that] by (auto simp: list_all_iff)
  then show ?thesis
    using created_manifest_verifies[OF small_built small_written, of 0 3600000000 "''/srv/ctfnight''"]
      small_environment small_text small_reader small_rendered
    by (simp add: MAX_CLOCK_SKEW_def MAX_MANIFEST_AGE_def)
qed

lemma small_loaded: "load_manifest small_tools written_vault = Inr small_payload"
proof -
  have "validate_payload small_tools (VMap small_payload) = Inr small_payload"
    by (rule built_valid[OF small_built]) (use small_environment in simp_all)
  then show ?thesis using written_loads[OF small_written] small_reader small_text by blast
qed

lemma small_fields:
  "vget small_payload ''created_utc'' = VStr ''now'' \<and> vget small_payload ''env_file'' = VStr ''.env''
   \<and> vget small_payload ''source_sha256'' = VStr small_digest
   \<and> vget small_payload ''compose_config_sha256'' = VStr small_digest
   \<and> vget small_graph ''name'' = vget small_payload ''project''"
  by (simp add: small_payload_def small_graph_def vget_def ss_pair_def)

lemma small_verified:
  "verify_common small_tools 3600000000 written_vault ''/srv/ctfnight'' (small_tree []) ''.env'' = Inr small_payload"
proof -
  have "each (verify_image small_tools small_payload small_references) IMAGE_SERVICES = Inr ()" by code_simp
  moreover have "validate_freshness small_tools 3600000000 small_payload = Inr ()"
    using small_fields small_environment
    by (simp add: validate_freshness_def MAX_CLOCK_SKEW_def MAX_MANIFEST_AGE_def)
  moreover have "compose_digest small_tools small_graph = small_digest" by (simp add: compose_digest_def small_tools_def)
  moreover have "vget small_graph ''name'' = VStr ''alpha''" by code_simp
  ultimately show ?thesis
    using small_fields
    by (simp add: verify_common_def small_loaded small_source small_rendered small_config small_graph_references guard_def)
qed

lemma small_containers:
  "bindE (run_checked small_tools (compose_base ''/srv/ctfnight'' (join_path ''/srv/ctfnight'' ''.env'')
             @ [''ps'', ''--all'', ''--orphans'', ''--quiet''])) (\<lambda>out.
     bindE (traverse (\<lambda>container_id. bindE (container_field small_tools service_label container_id)
               (\<lambda>service. Inr (container_id, service)))
             (filter (\<lambda>l. l \<noteq> []) (map fst (splitlines out)))) (\<lambda>entries.
     bindE (exact_service_container_map entries) (\<lambda>containers.
     each (verify_container small_tools small_payload containers) COMPOSE_SERVICES))) = Inr ()"
  by code_simp

lemma small_running:
  "verify_running small_tools 3600000000 written_vault ''/srv/ctfnight'' (small_tree []) ''.env'' = Inr ()"
  using small_containers by (simp only: verify_running_def small_verified bindE_simps)

lemma running_matches_manifest_witness:
  "verify_running small_tools 3600000000 written_vault ''/srv/ctfnight'' (small_tree []) ''.env'' = Inr ()
    \<and> (\<exists>ids service. length ids = 7 \<and> bij_betw service (set ids) (set COMPOSE_SERVICES)
         \<and> (\<forall>cid \<in> set ids. docker_says small_tools service_label cid (service cid)))"
proof -
  obtain ids service where "length ids = 7 \<and> bij_betw service (set ids) (set COMPOSE_SERVICES)
      \<and> (\<forall>cid \<in> set ids. docker_says small_tools service_label cid (service cid))"
    using running_matches_manifest[OF small_running, folded service_label_def]
    by (elim exE conjE) (rule that, intro conjI ballI, assumption+, drule bspec, assumption, elim conjE)
  then show ?thesis using small_running by blast
qed

end
