(* ===== verification/ManifestSelfTest.thy ===== *)
theory ManifestSelfTest
  imports Manifest "HOL-Library.AList" "HOL-Library.Multiset"
begin

text \<open>
  The self test of scripts/deployment-manifest.py, and the proof that it passes for every
  hash function without a collision on the texts it compares. The temporary directory is the
  tree \<open>test_tree\<close> with the contents the test changes as arguments, and the vault of its
  manifest. \<open>mode\<close> is what the umask makes of the mode of a new file.
\<close>

section \<open>The drift of the sources\<close>

definition text_line :: "string \<Rightarrow> string" where
  "text_line s = s @ [CHR 0x0A]"

definition test_file :: "nat \<Rightarrow> string \<Rightarrow> string \<Rightarrow> string \<times> node" where
  "test_file mode name content = (name, Regular mode 1 content)"

definition recovery_path :: "string list" where
  "recovery_path = [''scripts'', ''recover-admin-password.sh'']"

text \<open>Every policy file holds its own relative path; \<open>recovery\<close> is the one the test changes.\<close>

definition policy_entries :: "nat \<Rightarrow> string \<Rightarrow> string \<Rightarrow> tree" where
  "policy_entries mode recovery root_name =
     map (\<lambda>p. test_file mode (last p) (if p = recovery_path then recovery else text_line (posix p)))
       (filter (\<lambda>p. hd p = root_name) POLICY_FILES)"

definition recovery_original :: string where
  "recovery_original = text_line (posix recovery_path)"

definition scratch_dockerfile :: string where
  "scratch_dockerfile = text_line ''FROM scratch''"

definition test_env :: "string \<Rightarrow> string" where
  "test_env marker = text_line ''ALPHA_COMPOSE_PROJECT_NAME=alpha'' @ text_line (marker_key @ marker)"

definition test_tree :: "nat \<Rightarrow> string \<Rightarrow> string \<Rightarrow> string \<Rightarrow> tree" where
  "test_tree mode env recovery dockerfile =
     [(''backend'', Dir [test_file mode ''Dockerfile'' dockerfile]),
      (''frontend'', Dir [test_file mode ''Dockerfile'' scratch_dockerfile]),
      (''deploy'', Dir [test_file mode ''Caddyfile'' (text_line ''{}'')]),
      (''scripts'', Dir (policy_entries mode recovery ''scripts'')), (''security-reports'', Dir []),
      test_file mode ''Makefile'' (text_line ''all:'' @ text_line (CHR 0x09 # ''@true'')),
      test_file mode ''compose.yaml'' (text_line ''services: {}''),
      (''security'', Dir (policy_entries mode recovery ''security'')),
      test_file mode ''.env.example'' env]"

definition drift :: string where
  "drift = text_line ''# drift''"

definition source_checks :: "tools \<Rightarrow> nat \<Rightarrow> unit checked" where
  "source_checks h mode =
     (let digest = (\<lambda>env recovery dockerfile. source_digest h (test_tree mode env recovery dockerfile) ''.env.example'')
      in bindE (digest (test_env ''true'') recovery_original scratch_dockerfile) (\<lambda>first_digest.
         bindE (digest (test_env ''false'') recovery_original scratch_dockerfile) (\<lambda>d.
         bindE (must (first_digest = d)) (\<lambda>_.
         bindE (digest (test_env ''false'') (recovery_original @ drift) scratch_dockerfile) (\<lambda>d.
         bindE (must (first_digest \<noteq> d)) (\<lambda>_.
         bindE (digest (test_env ''false'') recovery_original (scratch_dockerfile @ drift)) (\<lambda>d.
         must (first_digest \<noteq> d))))))))"

section \<open>Containers and references\<close>

text \<open>\<open>try: ...; except ManifestError: pass; else: raise ManifestError\<close>.\<close>

definition rejects :: "'a checked \<Rightarrow> unit checked" where
  "rejects r = (case r of Inl ManifestError \<Rightarrow> Inr () | Inl Broken \<Rightarrow> Inl Broken | Inr _ \<Rightarrow> Inl ManifestError)"

definition canonical_containers :: "(string \<times> string) list" where
  "canonical_containers = map (\<lambda>(i, name). (''container-'' @ nat_text i, name)) (enumerate 0 COMPOSE_SERVICES)"

definition container_checks :: "unit checked" where
  "container_checks =
     bindE (exact_service_container_map canonical_containers) (\<lambda>containers.
     bindE (must (set (map fst containers) = set COMPOSE_SERVICES)) (\<lambda>_.
     each (\<lambda>bad. rejects (exact_service_container_map bad))
       [canonical_containers @ [(''orphan'', ''removed-service'')],
        butlast canonical_containers @ [(''duplicate'', hd COMPOSE_SERVICES)],
        butlast canonical_containers @ [(''orphan'', ''removed-service'')]]))"

definition test_graph :: "string \<Rightarrow> vmap" where
  "test_graph migrate_image =
     (let postgres = VMap [(''image'', VStr (''registry.example/postgres@sha256:'' @ replicate 64 CHR ''a''))]
      in [(''name'', VStr ''alpha''),
          (''services'', VMap
            [(''backend'', VMap []), (''caddy'', VMap []), (''db-roles'', postgres), (''frontend'', VMap []),
             (''migrate'', VMap [(''image'', VStr migrate_image)]), (''postgres'', postgres),
             (''redis'', VMap [(''image'', VStr (''registry.example/redis@sha256:'' @ replicate 64 CHR ''b''))])])])"

definition reference_checks :: "unit checked" where
  "reference_checks =
     bindE (expected_references (test_graph ''alpha-backend'')) (\<lambda>references.
     bindE (case map_of references ''backend'' of
              None \<Rightarrow> Inl Broken | Some r \<Rightarrow> must (r = ''alpha-backend'')) (\<lambda>_.
     rejects (expected_references (test_graph ''other-backend''))))"

section \<open>The manifest\<close>

definition test_images :: vmap where
  "test_images = map (\<lambda>(i, name). (name, VMap
     [(''id'', VStr (''sha256:'' @ concat (replicate 64 (nat_text (i + 1))))),
      (''reference'', VStr (''alpha-'' @ name))])) (enumerate 0 IMAGE_SERVICES)"

definition payload_of :: "string \<Rightarrow> string \<Rightarrow> vmap" where
  "payload_of created project =
     [(''compose_config_sha256'', VStr (replicate 64 CHR ''1'')), (''created_utc'', VStr created),
      (''env_file'', VStr ''.env.example''), (''images'', VMap test_images),
      (''platform'', VStr ''linux/amd64''), (''project'', VStr project), (''schema'', VStr SCHEMA),
      (''source_sha256'', VStr (replicate 64 CHR ''2'')), (''trivy_version'', VStr ''test''),
      (''vulnerability_severities'', strs SEVERITIES)]"

definition test_payload :: "string \<Rightarrow> vmap" where
  "test_payload created = payload_of created ''alpha''"

text \<open>\<open>envelope["payload"]["project"] = "tampered"\<close>.\<close>

definition tamper :: "vmap \<Rightarrow> vmap checked" where
  "tamper envelope =
     (case vget envelope ''payload'' of
        VMap payload \<Rightarrow>
          Inr (AList.update ''payload'' (VMap (AList.update ''project'' (VStr ''tampered'') payload)) envelope)
      | _ \<Rightarrow> Inl Broken)"

definition read_envelope :: "tools \<Rightarrow> vault \<Rightarrow> vmap checked" where
  "read_envelope h v = read_json_file h (map_option in_content (va_manifest v))"

definition set_manifest :: "(inode \<Rightarrow> inode) \<Rightarrow> vault \<Rightarrow> vault" where
  "set_manifest f v = v\<lparr>va_manifest := map_option f (va_manifest v)\<rparr>"

text \<open>The manifest path as a symbolic link; what the link points to is not part of the vault.\<close>

definition linked :: "tools \<Rightarrow> string \<Rightarrow> vault \<Rightarrow> vault" where
  "linked h target v = v\<lparr>va_manifest := Some \<lparr>in_kind = LinkInode, in_uid = tl_uid h, in_mode = 511,
     in_nlink = 1, in_content = target\<rparr>\<rparr>"

definition manifest_checks :: "tools \<Rightarrow> string \<Rightarrow> string \<Rightarrow> int \<Rightarrow> vault \<Rightarrow> unit checked" where
  "manifest_checks h now_text stale_text now v =
     (let payload = test_payload now_text in
      bindE (atomic_write_manifest h payload v) (\<lambda>v.
      bindE (load_manifest h v) (\<lambda>_.
      bindE (read_envelope h v) (\<lambda>envelope.
      bindE (tamper envelope) (\<lambda>envelope.
      let v = set_manifest (\<lambda>m. m\<lparr>in_content := canonical_json h (VMap envelope), in_mode := 384\<rparr>) v in
      bindE (rejects (load_manifest h v)) (\<lambda>_.
      bindE (atomic_write_manifest h payload v) (\<lambda>v.
      bindE (rejects (load_manifest h (set_manifest (\<lambda>m. m\<lparr>in_mode := 420\<rparr>) v))) (\<lambda>_.
      bindE (atomic_write_manifest h payload (set_manifest (\<lambda>m. m\<lparr>in_mode := 420\<rparr>) v)) (\<lambda>v.
      bindE (rejects (load_manifest h (linked h ''deployment-manifest.json'' v))) (\<lambda>_.
      bindE (rejects (validate_freshness h now (AList.update ''created_utc'' (VStr stale_text) payload))) (\<lambda>_.
      bindE (invalidate_manifest h v) (\<lambda>v.
      bindE (must (va_manifest v = None)) (\<lambda>_.
      bindE (invalidate_manifest h (linked h ''protected'' v)) (\<lambda>v.
      must (va_manifest v = None)))))))))))))))"

text \<open>\<open>now\<close> is the clock when the stale manifest is tested, two days after \<open>stale_text\<close>.\<close>

definition manifest_self_test :: "tools \<Rightarrow> nat \<Rightarrow> string \<Rightarrow> string \<Rightarrow> int \<Rightarrow> vault \<Rightarrow> unit checked" where
  "manifest_self_test h mode now_text stale_text now v =
     bindE (source_checks h mode) (\<lambda>_.
     bindE container_checks (\<lambda>_.
     bindE reference_checks (\<lambda>_.
     manifest_checks h now_text stale_text now v)))"

section \<open>It passes\<close>

lemma container_checks_pass: "container_checks = Inr ()"
  by code_simp

lemma reference_checks_pass: "reference_checks = Inr ()"
  by code_simp

text \<open>The bytes of the tree: the two contents that change, and what stands around them.\<close>

definition part_of :: "nat \<Rightarrow> string list \<Rightarrow> string \<Rightarrow> string" where
  "part_of mode path content =
     ''F'' @ zero_byte @ posix path @ zero_byte @ octal_text mode @ zero_byte @ content @ zero_byte"

definition early_policies :: "string list list" where
  "early_policies = takeWhile (\<lambda>p. p \<noteq> recovery_path) POLICY_FILES"

definition late_policies :: "string list list" where
  "late_policies = tl (dropWhile (\<lambda>p. p \<noteq> recovery_path) POLICY_FILES)"

lemma test_paths:
  "deployment_input_paths (test_tree mode env recovery dockerfile)
     = Inr ([[''Makefile''], [''backend'', ''Dockerfile''], [''compose.yaml''], [''deploy'', ''Caddyfile''],
             [''frontend'', ''Dockerfile'']] @ early_policies @ [recovery_path] @ late_policies)"
  by code_simp

lemma test_part_files:
  "lookup_path (Dir (test_tree mode env recovery dockerfile)) [''Makefile'']
     = Some (Regular mode 1 (text_line ''all:'' @ text_line (CHR 0x09 # ''@true'')))"
  "lookup_path (Dir (test_tree mode env recovery dockerfile)) [''compose.yaml''] = Some (Regular mode 1 (text_line ''services: {}''))"
  "lookup_path (Dir (test_tree mode env recovery dockerfile)) [''backend'', ''Dockerfile''] = Some (Regular mode 1 dockerfile)"
  "lookup_path (Dir (test_tree mode env recovery dockerfile)) [''deploy'', ''Caddyfile''] = Some (Regular mode 1 (text_line ''{}''))"
  "lookup_path (Dir (test_tree mode env recovery dockerfile)) [''frontend'', ''Dockerfile''] = Some (Regular mode 1 scratch_dockerfile)"
  "lookup_path (Dir (test_tree mode env recovery dockerfile)) recovery_path = Some (Regular mode 1 recovery)"
  by code_simp+

lemma test_policies:
  "list_all (\<lambda>p. lookup_path (Dir (test_tree mode env recovery dockerfile)) p = Some (Regular mode 1 (text_line (posix p))))
     (early_policies @ late_policies)"
  by code_simp

lemma update_regular:
  "lookup_path (Dir es) path = Some (Regular mode 1 content) \<Longrightarrow> update_path_digest es path = Inr (part_of mode path content)"
  by (simp add: update_path_digest_def part_of_def)

lemma traverse_append: "traverse f (xs @ ys) = bindE (traverse f xs) (\<lambda>a. bindE (traverse f ys) (\<lambda>b. Inr (a @ b)))"
  by (induction xs) (auto simp: bindE_def split: sum.splits)

lemma traverse_all: "\<forall>x \<in> set xs. f x = Inr (g x) \<Longrightarrow> traverse f xs = Inr (map g xs)"
  by (induction xs) auto

lemma env_lines:
  "map env_line (splitlines (universal_newlines (test_env ''true'')))
     = [(''ALPHA_COMPOSE_PROJECT_NAME=alpha'', [CHR 0x0A]), (marker_key @ ''true'', [CHR 0x0A])]"
  "map env_line (splitlines (universal_newlines (test_env ''false'')))
     = [(''ALPHA_COMPOSE_PROJECT_NAME=alpha'', [CHR 0x0A]), (marker_key @ ''false'', [CHR 0x0A])]"
  by code_simp+

definition env_text :: string where
  "env_text = text_line ''ALPHA_COMPOSE_PROJECT_NAME=alpha'' @ text_line (marker_key @ ''<operational-marker>'')"

lemma project_line: "\<not> prefix marker_key ''ALPHA_COMPOSE_PROJECT_NAME=alpha''"
  by code_simp

lemma env_bytes:
  assumes "marker \<in> {''true'', ''false''}" and utf8: "tl_utf8 h (test_env marker)"
  shows "deployment_env_bytes h (test_env marker) = Inr env_text"
proof -
  have ls: "map env_line (splitlines (universal_newlines (test_env marker)))
      = [(''ALPHA_COMPOSE_PROJECT_NAME=alpha'', [CHR 0x0A]), (marker_key @ marker, [CHR 0x0A])]"
    using assms(1) env_lines by auto
  show ?thesis
    unfolding deployment_env_bytes_def Let_def ls
    using assms project_line by (auto simp: guard_def normalized_line_def env_text_def text_line_def)
qed

definition test_stream :: "nat \<Rightarrow> string \<Rightarrow> string \<Rightarrow> string" where
  "test_stream mode recovery dockerfile =
     ''ctfnight-deployment-input-v1'' @ zero_byte
     @ part_of mode [''Makefile''] (text_line ''all:'' @ text_line (CHR 0x09 # ''@true''))
     @ part_of mode [''backend'', ''Dockerfile''] dockerfile
     @ part_of mode [''compose.yaml''] (text_line ''services: {}'')
     @ part_of mode [''deploy'', ''Caddyfile''] (text_line ''{}'')
     @ part_of mode [''frontend'', ''Dockerfile''] scratch_dockerfile
     @ concat (map (\<lambda>p. part_of mode p (text_line (posix p))) early_policies)
     @ part_of mode recovery_path recovery
     @ concat (map (\<lambda>p. part_of mode p (text_line (posix p))) late_policies)
     @ ''ENV'' @ zero_byte @ ''.env.example'' @ zero_byte @ env_text @ zero_byte"

lemma policy_parts:
  assumes "set ps \<subseteq> set (early_policies @ late_policies)"
  shows "traverse (update_path_digest (test_tree mode env recovery dockerfile)) ps
    = Inr (map (\<lambda>p. part_of mode p (text_line (posix p))) ps)"
proof (rule traverse_all, rule ballI)
  fix p assume "p \<in> set ps"
  then have "lookup_path (Dir (test_tree mode env recovery dockerfile)) p = Some (Regular mode 1 (text_line (posix p)))"
    using assms test_policies[of mode env recovery dockerfile] by (auto simp: list_all_iff)
  then show "update_path_digest (test_tree mode env recovery dockerfile) p = Inr (part_of mode p (text_line (posix p)))"
    by (rule update_regular)
qed

lemma env_entry: "map_of (test_tree mode env recovery dockerfile) ''.env.example'' = Some (Regular mode 1 env)"
  by (simp add: test_tree_def test_file_def)

lemma test_streamed:
  assumes "marker \<in> {''true'', ''false''}" and "tl_utf8 h (test_env marker)"
  shows "source_digest h (test_tree mode (test_env marker) recovery dockerfile) ''.env.example''
    = Inr (tl_sha256 h (test_stream mode recovery dockerfile))"
proof -
  note parts = test_part_files[THEN update_regular, of mode "test_env marker" recovery dockerfile]
  have "traverse (update_path_digest (test_tree mode (test_env marker) recovery dockerfile))
      ([[''Makefile''], [''backend'', ''Dockerfile''], [''compose.yaml''], [''deploy'', ''Caddyfile''],
        [''frontend'', ''Dockerfile'']] @ early_policies @ [recovery_path] @ late_policies)
    = Inr ([part_of mode [''Makefile''] (text_line ''all:'' @ text_line (CHR 0x09 # ''@true'')),
        part_of mode [''backend'', ''Dockerfile''] dockerfile, part_of mode [''compose.yaml''] (text_line ''services: {}''),
        part_of mode [''deploy'', ''Caddyfile''] (text_line ''{}''), part_of mode [''frontend'', ''Dockerfile''] scratch_dockerfile]
      @ map (\<lambda>p. part_of mode p (text_line (posix p))) early_policies @ [part_of mode recovery_path recovery]
      @ map (\<lambda>p. part_of mode p (text_line (posix p))) late_policies)"
    by (simp add: traverse_append policy_parts parts)
  then show ?thesis
    unfolding source_digest_def deployment_stream_def env_entry option.case node.case test_paths
    by (simp add: env_bytes[OF assms] test_stream_def)
qed

lemma length_test_stream:
  "length (test_stream mode recovery dockerfile) = length (test_stream mode [] []) + length recovery + length dockerfile"
  by (simp add: test_stream_def part_of_def)

text \<open>The texts that are hashed and compared; a drifted stream is longer than the first.\<close>

definition drifted_streams :: "nat \<Rightarrow> string set" where
  "drifted_streams mode =
     {test_stream mode (recovery_original @ drift) scratch_dockerfile,
      test_stream mode recovery_original (scratch_dockerfile @ drift)}"

lemma source_checks_pass:
  assumes "\<forall>marker \<in> {''true'', ''false''}. tl_utf8 h (test_env marker)"
    and "\<forall>t \<in> drifted_streams mode. tl_sha256 h t = tl_sha256 h (test_stream mode recovery_original scratch_dockerfile)
      \<longrightarrow> t = test_stream mode recovery_original scratch_dockerfile"
  shows "source_checks h mode = Inr ()"
proof -
  have "0 < length drift" by (simp add: drift_def text_line_def)
  then have "length (test_stream mode (recovery_original @ drift) scratch_dockerfile)
      \<noteq> length (test_stream mode recovery_original scratch_dockerfile)"
    "length (test_stream mode recovery_original (scratch_dockerfile @ drift))
      \<noteq> length (test_stream mode recovery_original scratch_dockerfile)"
    unfolding length_test_stream[of mode "recovery_original @ drift"] length_test_stream[of mode recovery_original]
    by simp_all
  then have "tl_sha256 h (test_stream mode recovery_original scratch_dockerfile)
      \<noteq> tl_sha256 h (test_stream mode (recovery_original @ drift) scratch_dockerfile)"
    "tl_sha256 h (test_stream mode recovery_original scratch_dockerfile)
      \<noteq> tl_sha256 h (test_stream mode recovery_original (scratch_dockerfile @ drift))"
    using assms(2) unfolding drifted_streams_def by fastforce+
  moreover have "source_digest h (test_tree mode (test_env marker) recovery dockerfile) ''.env.example''
      = Inr (tl_sha256 h (test_stream mode recovery dockerfile))"
    if "marker \<in> {''true'', ''false''}" for marker recovery dockerfile
    using test_streamed[OF that] assms(1) that by blast
  ultimately show ?thesis
    by (simp only: source_checks_def Let_def insert_iff simp_thms bindE_simps guard_def if_True if_False)
qed

text \<open>The payload and its tampered copy are well formed, and their texts differ.\<close>

lemma payload_fields:
  "vget (payload_of created project) ''compose_config_sha256'' = VStr (replicate 64 CHR ''1'')"
  "vget (payload_of created project) ''created_utc'' = VStr created"
  "vget (payload_of created project) ''env_file'' = VStr ''.env.example''"
  "vget (payload_of created project) ''images'' = VMap test_images"
  "vget (payload_of created project) ''platform'' = VStr ''linux/amd64''"
  "vget (payload_of created project) ''project'' = VStr project"
  "vget (payload_of created project) ''schema'' = VStr SCHEMA"
  "vget (payload_of created project) ''source_sha256'' = VStr (replicate 64 CHR ''2'')"
  "vget (payload_of created project) ''trivy_version'' = VStr ''test''"
  "vget (payload_of created project) ''vulnerability_severities'' = strs SEVERITIES"
  by (simp_all add: payload_of_def vget_def)

lemma payload_checks:
  "sha256_ok (replicate 64 CHR ''1'')" "sha256_ok (replicate 64 CHR ''2'')" "images_ok h (VMap test_images) = Inr ()"
  "env_name_ok (VStr ''.env.example'') = Inr ()" "project_ok ''alpha''" "project_ok ''tampered''"
  "py_eq (strs SEVERITIES) (strs SEVERITIES)"
  by code_simp+

lemma payload_valid:
  assumes "project \<in> {''alpha'', ''tampered''}" and "tl_fromisoformat h created = Some (t, Some 0)"
  shows "validate_payload h (VMap (payload_of created project)) = Inr (payload_of created project)"
proof -
  have "keys (payload_of created project) = set payload_keys" by (auto simp: payload_of_def keys_def payload_keys_def)
  moreover have "project_ok project" using assms(1) payload_checks(5,6) by blast
  ultimately show ?thesis
    unfolding validate_payload_def val.case payload_fields bindE_Inr guard_Inr
    using assms(2) payload_checks by (simp add: py_str_def)
qed

lemma tampered_payload: "AList.update ''project'' (VStr ''tampered'') (test_payload created) = payload_of created ''tampered''"
  by (simp add: test_payload_def payload_of_def)

lemma length_joined: "length (joined sep xs) = sum_list (map length xs) + length sep * (length xs - 1)"
  by (induction sep xs rule: joined.induct) simp_all

lemma sum_list_sort_key: "sum_list (map g (sort_key f xs)) = (sum_list (map g xs) :: nat)"
  by (metis mset_map mset_sort sum_mset_sum_list)

lemma length_dumps_map:
  "length (dumps fl (VMap m))
     = sum_list (map (\<lambda>p. length (quoted (fst p)) + 1 + length (snd p)) (dumps_map fl m)) + (length m - 1) + 2"
proof -
  have l: "length (dumps_map fl m) = length m" for m by (induction m) auto
  show ?thesis
    by (simp add: length_joined o_def case_prod_beta sum_list_sort_key[where g = "\<lambda>p. length (quoted (fst p)) + 1 + length (snd p)", simplified] l)
qed

lemma tampered_text:
  "canonical_json h (VMap (payload_of created ''tampered'')) \<noteq> canonical_json h (VMap (payload_of created ''alpha''))"
proof -
  have "length (quoted ''tampered'') \<noteq> length (quoted ''alpha'')" by code_simp
  then have "length (dumps (tl_float h) (VMap (payload_of created ''tampered'')))
      \<noteq> length (dumps (tl_float h) (VMap (payload_of created ''alpha'')))"
    unfolding length_dumps_map by (simp add: payload_of_def del: dumps.simps(6,7)) 
  then show ?thesis unfolding canonical_json_def by metis
qed

definition tampered_envelope :: "tools \<Rightarrow> string \<Rightarrow> vmap" where
  "tampered_envelope h created =
     [(''payload'', VMap (payload_of created ''tampered'')),
      (''payload_sha256'', VStr (tl_sha256 h (canonical_json h (VMap (test_payload created)))))]"

text \<open>
  What the test relies on: the env file decodes, the texts it compares have no common digest,
  the two times are read as written, two days apart at least, JSON reads back the two envelopes
  that are written, both below the size limit, and the directory is private.
\<close>

definition test_environment :: "tools \<Rightarrow> nat \<Rightarrow> string \<Rightarrow> string \<Rightarrow> int \<Rightarrow> vault \<Rightarrow> bool" where
  "test_environment h mode now_text stale_text now v \<longleftrightarrow>
     (\<forall>marker \<in> {''true'', ''false''}. tl_utf8 h (test_env marker))
     \<and> (\<forall>t \<in> drifted_streams mode. tl_sha256 h t = tl_sha256 h (test_stream mode recovery_original scratch_dockerfile)
          \<longrightarrow> t = test_stream mode recovery_original scratch_dockerfile)
     \<and> (let genuine = canonical_json h (VMap (payload_of now_text ''alpha''));
            tampered = canonical_json h (VMap (payload_of now_text ''tampered''))
        in tl_sha256 h tampered = tl_sha256 h genuine \<longrightarrow> tampered = genuine)
     \<and> (\<exists>t. tl_fromisoformat h now_text = Some (t, Some 0))
     \<and> (\<exists>t. tl_fromisoformat h stale_text = Some (t, Some 0) \<and> 172800000000 \<le> now - t)
     \<and> (let written = canonical_json h (VMap (envelope_for h (test_payload now_text)))
        in tl_loads h (written @ [CHR 0x0A]) = Some (VMap (envelope_for h (test_payload now_text)))
           \<and> length written < 64 * 1024)
     \<and> (let tampered = canonical_json h (VMap (tampered_envelope h now_text))
        in tl_loads h tampered = Some (VMap (tampered_envelope h now_text)) \<and> length tampered \<le> 64 * 1024)
     \<and> ensure_private_directory h (va_directory v) = Inr ()"

lemma rejects_Inr: "rejects r = Inr () \<longleftrightarrow> r = Inl ManifestError"
  by (cases r) (auto simp: rejects_def split: manifest_error.splits)

definition stored_manifest :: "tools \<Rightarrow> vmap \<Rightarrow> vault \<Rightarrow> vault" where
  "stored_manifest h payload v = v\<lparr>va_manifest := Some \<lparr>in_kind = RegularInode, in_uid = tl_uid h, in_mode = 384,
     in_nlink = 1, in_content = canonical_json h (VMap (envelope_for h payload)) @ [CHR 0x0A]\<rparr>\<rparr>"

lemma write_stores:
  "ensure_private_directory h (va_directory v) = Inr () \<Longrightarrow>
     atomic_write_manifest h payload v = Inr (stored_manifest h payload v)"
  by (simp add: atomic_write_manifest_def stored_manifest_def)

lemma stored_simps [simp]:
  "va_directory (stored_manifest h payload v) = va_directory v"
  "va_directory (set_manifest f v) = va_directory v" "va_directory (linked h target v) = va_directory v"
  "stored_manifest h payload (set_manifest f v) = stored_manifest h payload v"
  "stored_manifest h payload (stored_manifest h payload' v) = stored_manifest h payload v"
  by (simp_all add: stored_manifest_def set_manifest_def linked_def)

text \<open>The four manifests the loader must not take.\<close>

lemma broad_mode_rejected:
  assumes "ensure_private_directory h (va_directory v) = Inr ()"
  shows "load_manifest h (set_manifest (\<lambda>m. m\<lparr>in_mode := 420\<rparr>) (stored_manifest h payload v)) = Inl ManifestError"
  using assms by (simp add: load_manifest_def set_manifest_def stored_manifest_def guard_def)

lemma link_rejected:
  assumes "ensure_private_directory h (va_directory v) = Inr ()"
  shows "load_manifest h (linked h target v) = Inl ManifestError"
  using assms by (simp add: load_manifest_def linked_def guard_def)

lemma stale_rejected:
  assumes "tl_fromisoformat h stale_text = Some (t, Some 0)" and "172800000000 \<le> now - t"
  shows "validate_freshness h now (AList.update ''created_utc'' (VStr stale_text) (test_payload created)) = Inl ManifestError"
proof -
  have "vget (AList.update ''created_utc'' (VStr stale_text) (test_payload created)) ''created_utc'' = VStr stale_text"
    by (simp add: vget_def test_payload_def payload_of_def)
  then show ?thesis
    using assms by (simp add: validate_freshness_def guard_def MAX_MANIFEST_AGE_def MAX_CLOCK_SKEW_def)
qed

lemma tampered_rejected:
  assumes env: "test_environment h mode now_text stale_text now v"
  shows "load_manifest h (set_manifest
      (\<lambda>m. m\<lparr>in_content := canonical_json h (VMap (tampered_envelope h now_text)), in_mode := 384\<rparr>)
      (stored_manifest h (test_payload now_text) v)) = Inl ManifestError"
proof -
  let ?e = "tampered_envelope h now_text"
  have r: "read_json_file h (Some (canonical_json h (VMap ?e))) = Inr ?e"
    and size: "length (canonical_json h (VMap ?e)) \<le> 64 * 1024"
    using env by (auto simp: test_environment_def Let_def read_json_file_def guard_def)
  have f: "keys ?e = {''payload'', ''payload_sha256''}" "vget ?e ''payload'' = VMap (payload_of now_text ''tampered'')"
    "vget ?e ''payload_sha256'' = VStr (tl_sha256 h (canonical_json h (VMap (test_payload now_text))))"
    by (auto simp: tampered_envelope_def keys_def vget_def)
  obtain t where "tl_fromisoformat h now_text = Some (t, Some 0)" using env unfolding test_environment_def by blast
  then have valid: "validate_payload h (VMap (payload_of now_text ''tampered'')) = Inr (payload_of now_text ''tampered'')"
    by (rule payload_valid[rotated]) simp
  have "tl_sha256 h (canonical_json h (VMap (test_payload now_text)))
      \<noteq> tl_sha256 h (canonical_json h (VMap (payload_of now_text ''tampered'')))"
    using env tampered_text[of h now_text] unfolding test_environment_def Let_def test_payload_def by metis
  moreover have "ensure_private_directory h (va_directory v) = Inr ()" using env unfolding test_environment_def by blast
  ultimately show ?thesis
    using r size valid f by (simp add: load_manifest_def set_manifest_def stored_manifest_def guard_def)
qed

lemma stored_read:
  assumes "test_environment h mode now_text stale_text now v"
  shows "read_envelope h (stored_manifest h (test_payload now_text) v) = Inr (envelope_for h (test_payload now_text))"
  using assms
  by (auto simp: read_envelope_def read_json_file_def stored_manifest_def test_environment_def Let_def guard_def)

lemma tamper_envelope: "tamper (envelope_for h (test_payload created)) = Inr (tampered_envelope h created)"
  by (simp add: tamper_def envelope_for_def vget_def tampered_payload tampered_envelope_def)

lemma stored_loads:
  assumes "test_environment h mode now_text stale_text now v"
  shows "load_manifest h (stored_manifest h (test_payload now_text) v) = Inr (test_payload now_text)"
proof -
  obtain t where t: "tl_fromisoformat h now_text = Some (t, Some 0)" using assms unfolding test_environment_def by blast
  have pd: "ensure_private_directory h (va_directory v) = Inr ()" using assms unfolding test_environment_def by blast
  have valid: "validate_payload h (VMap (test_payload now_text)) = Inr (test_payload now_text)"
    unfolding test_payload_def by (rule payload_valid[OF _ t]) simp
  show ?thesis
    by (rule written_loads[OF write_stores[OF pd] valid]) (use assms in \<open>simp_all add: test_environment_def Let_def\<close>)
qed

lemma invalidated:
  assumes "ensure_private_directory h (va_directory v) = Inr ()"
  shows "invalidate_manifest h (stored_manifest h payload v) = Inr (v\<lparr>va_manifest := None\<rparr>)"
    and "invalidate_manifest h (linked h target (v\<lparr>va_manifest := None\<rparr>)) = Inr (v\<lparr>va_manifest := None\<rparr>)"
  using assms by (simp_all add: invalidate_manifest_def stored_manifest_def linked_def guard_def)

lemma manifest_checks_pass:
  assumes env: "test_environment h mode now_text stale_text now v"
  shows "manifest_checks h now_text stale_text now v = Inr ()"
proof -
  have pd: "ensure_private_directory h (va_directory v) = Inr ()" using env unfolding test_environment_def by blast
  obtain t where t: "tl_fromisoformat h stale_text = Some (t, Some 0)" "172800000000 \<le> now - t"
    using env unfolding test_environment_def by blast
  show ?thesis
    unfolding manifest_checks_def Let_def
    by (simp add: write_stores pd stored_loads[OF env] stored_read[OF env] tamper_envelope tampered_rejected[OF env]
        broad_mode_rejected link_rejected stale_rejected[OF t] rejects_Inr invalidated guard_def
        rejects_def)
qed

text \<open>
  The self test passes wherever the environment behaves: the digest ignores the recovery marker
  and sees the two drifts, container maps and references with an orphan, a duplicate or another
  image are refused, and so are a tampered, a widely readable, a linked and a stale manifest.
\<close>

theorem manifest_self_test_passes:
  assumes "test_environment h mode now_text stale_text now v"
  shows "manifest_self_test h mode now_text stale_text now v = Inr ()"
proof -
  have "source_checks h mode = Inr ()"
    by (rule source_checks_pass) (use assms in \<open>unfold test_environment_def, blast+\<close>)
  then show ?thesis
    unfolding manifest_self_test_def
    by (simp only: container_checks_pass reference_checks_pass manifest_checks_pass[OF assms] bindE_simps)
qed

section \<open>An environment\<close>

text \<open>A hash without collisions and a reader of the two envelopes; the times are two days apart.\<close>

definition echo_tools :: tools where
  "echo_tools = \<lparr>tl_sha256 = id, tl_float = \<lambda>_. [], tl_loads = \<lambda>_. None, tl_show = \<lambda>_. [],
     tl_fromisoformat = \<lambda>s. Some (if s = ''now'' then 172800000000 else 0, Some 0),
     tl_run = \<lambda>_. None, tl_utf8 = \<lambda>_. True, tl_read = \<lambda>_. None, tl_uid = 1000\<rparr>"

definition tampered_json :: string where
  "tampered_json = canonical_json echo_tools (VMap (tampered_envelope echo_tools ''now''))"

definition test_tools :: tools where
  "test_tools = echo_tools\<lparr>tl_loads := \<lambda>s. Some (VMap (if s = tampered_json then tampered_envelope echo_tools ''now''
     else envelope_for echo_tools (test_payload ''now'')))\<rparr>"

definition test_vault :: vault where
  "test_vault = \<lparr>va_directory = Some \<lparr>in_kind = DirectoryInode, in_uid = 1000, in_mode = 448, in_nlink = 2,
     in_content = []\<rparr>, va_manifest = None\<rparr>"

lemma test_tools_same:
  "canonical_json test_tools = canonical_json echo_tools" "envelope_for test_tools = envelope_for echo_tools"
  "tampered_envelope test_tools = tampered_envelope echo_tools"
  by (simp_all add: test_tools_def canonical_json_def envelope_for_def tampered_envelope_def fun_eq_iff)

lemma length_escape_char: "length (escape_char c) \<le> 6"
  by (simp add: escape_char_def Let_def)

lemma length_quoted: "length (quoted s) \<le> 2 + 6 * length s"
proof -
  have "length (concat (map escape_char s)) \<le> 6 * length s"
  proof (induction s)
    case (Cons c s)
    then show ?case using length_escape_char[of c] by simp
  qed simp
  then show ?thesis by (simp add: quoted_def)
qed

text \<open>The size of an envelope from the size of its payload and of the digest.\<close>

lemma length_envelope:
  "length (canonical_json h (VMap [(''payload'', VMap p), (''payload_sha256'', VStr d)]))
     = length (quoted ''payload'') + length (quoted ''payload_sha256'') + 5 + length (canonical_json h (VMap p))
       + length (quoted d)"
  by (simp add: canonical_json_def length_dumps_map[of _ "[(''payload'', VMap p), (''payload_sha256'', VStr d)]"]
      del: dumps.simps(7))

lemma length_tampered:
  "length (canonical_json h (VMap (payload_of created ''tampered''))) = 3 + length (canonical_json h (VMap (payload_of created ''alpha'')))"
proof -
  have "length (quoted ''tampered'') = 3 + length (quoted ''alpha'')" by code_simp
  then show ?thesis
    unfolding canonical_json_def length_dumps_map by (simp add: payload_of_def del: dumps.simps(6,7))
qed

lemma genuine_size: "length (canonical_json echo_tools (VMap (payload_of ''now'' ''alpha''))) \<le> 2000"
  by code_simp

lemma test_sizes:
  "length (canonical_json echo_tools (VMap (envelope_for echo_tools (test_payload ''now'')))) < 64 * 1024"
  "length tampered_json \<le> 64 * 1024"
  "length tampered_json = 3 + length (canonical_json echo_tools (VMap (envelope_for echo_tools (test_payload ''now''))))"
proof -
  let ?t = "canonical_json echo_tools (VMap (payload_of ''now'' ''alpha''))"
  have "length (quoted ''payload'') + length (quoted ''payload_sha256'') \<le> 40" by code_simp
  moreover have "length (quoted (tl_sha256 echo_tools ?t)) \<le> 2 + 6 * 2000"
    using length_quoted[of ?t] genuine_size by (simp add: echo_tools_def)
  moreover note genuine_size
  ultimately have w: "length (canonical_json echo_tools (VMap (envelope_for echo_tools (test_payload ''now'')))) \<le> 40 + 5 + 2000 + 12002"
    unfolding envelope_for_def length_envelope test_payload_def by simp
  show t: "length tampered_json = 3 + length (canonical_json echo_tools (VMap (envelope_for echo_tools (test_payload ''now''))))"
    unfolding tampered_json_def tampered_envelope_def envelope_for_def length_envelope test_payload_def length_tampered by simp
  show "length (canonical_json echo_tools (VMap (envelope_for echo_tools (test_payload ''now'')))) < 64 * 1024"
    "length tampered_json \<le> 64 * 1024" using w unfolding t by simp_all
qed

lemma test_environment_holds: "test_environment test_tools 420 ''now'' ''stale'' 172800000000 test_vault"
proof -
  have "canonical_json echo_tools (VMap (envelope_for echo_tools (test_payload ''now''))) @ [CHR 0x0A] \<noteq> tampered_json"
    using test_sizes(3) by (intro notI, drule_tac f = length in arg_cong) simp
  then show ?thesis
    unfolding test_environment_def Let_def test_tools_same
    using test_sizes(1,2)
    by (simp add: test_tools_def tampered_json_def[symmetric])
      (simp add: echo_tools_def test_vault_def ensure_private_directory_def guard_def)
qed

lemma manifest_self_test_example:
  "manifest_self_test test_tools 420 ''now'' ''stale'' 172800000000 test_vault = Inr ()"
  by (rule manifest_self_test_passes[OF test_environment_holds])

end
