(* ===== verification/Migrations.thy ===== *)
theory Migrations
  imports Participant
begin

text \<open>
  The migrations of backend/alembic/versions as lists of operations on a schema, their
  upgrades and downgrades, and the schema SQLAlchemy derives from models.py. An operation
  fails (\<open>None\<close>) where the database refuses it: a table or index that is there already, a
  foreign key to a table that is not there, a column that is still used.
\<close>

section \<open>Schemas\<close>

datatype dialect = Sqlite | Postgres

datatype sql_type =
    UuidType | StringType nat | TextType | BooleanType | IntegerType | TimestampType | JsonType

datatype referential = Cascade | Restrict | SetNull

datatype operand = Col string | Length string | Const int | FalseConst

datatype relation = Greater | AtLeast | AtMost | Equal | Differs

datatype cond =
    In string "string list"
  | NotIn string "string list"
  | IsNull string
  | Compare operand relation operand
  | And cond cond
  | Or cond cond

record column =
  co_name :: string
  co_type :: sql_type
  co_nullable :: bool
  co_default :: "string option"

definition column :: "string \<Rightarrow> sql_type \<Rightarrow> bool \<Rightarrow> string option \<Rightarrow> column" where
  "column name ty nullable server_default =
     \<lparr>co_name = name, co_type = ty, co_nullable = nullable, co_default = server_default\<rparr>"

text \<open>Every foreign key of the schema has one column and refers to \<open>id\<close>.\<close>

record table =
  ta_columns :: "column list"
  ta_primary :: "string list"
  ta_foreign :: "(string \<times> string \<times> referential) list"
  ta_unique :: "(string option \<times> string list) list"
  ta_checks :: "(string \<times> cond) list"

datatype index_key = OnColumn string | OnLower string

record index_spec =
  ix_name :: string
  ix_table :: string
  ix_keys :: "index_key list"
  ix_unique :: bool

definition index_spec :: "string \<Rightarrow> string \<Rightarrow> index_key list \<Rightarrow> bool \<Rightarrow> index_spec" where
  "index_spec name table_name ks unique =
     \<lparr>ix_name = name, ix_table = table_name, ix_keys = ks, ix_unique = unique\<rparr>"

text \<open>A trigger that runs before an insert, or an update of a column, and aborts on a condition.\<close>

datatype trigger_event = OnInsert | OnUpdate string

record trigger_spec =
  tr_name :: string
  tr_table :: string
  tr_event :: trigger_event
  tr_when :: cond
  tr_message :: string

definition trigger_spec :: "string \<Rightarrow> string \<Rightarrow> trigger_event \<Rightarrow> cond \<Rightarrow> string \<Rightarrow> trigger_spec" where
  "trigger_spec name table_name event c message =
     \<lparr>tr_name = name, tr_table = table_name, tr_event = event, tr_when = c, tr_message = message\<rparr>"

record schema =
  sc_tables :: "(string \<times> table) list"
  sc_indexes :: "index_spec list"
  sc_triggers :: "trigger_spec list"

definition empty_schema :: schema where
  "empty_schema = \<lparr>sc_tables = [], sc_indexes = [], sc_triggers = []\<rparr>"

section \<open>Operations\<close>

datatype operation =
    CreateTable string table
  | DropTable string
  | CreateIndex index_spec
  | AddColumn string column
  | DropColumn string string
  | AddCheck string string cond
  | DropCheck string string
  | CreateTrigger trigger_spec
  | DropTrigger string
  | UpdateRows string string int cond

fun operand_columns :: "operand \<Rightarrow> string list" where
  "operand_columns (Col c) = [c]"
| "operand_columns (Length c) = [c]"
| "operand_columns _ = []"

fun cond_columns :: "cond \<Rightarrow> string list" where
  "cond_columns (In c vs) = [c]"
| "cond_columns (NotIn c vs) = [c]"
| "cond_columns (IsNull c) = [c]"
| "cond_columns (Compare a r b) = operand_columns a @ operand_columns b"
| "cond_columns (And a b) = cond_columns a @ cond_columns b"
| "cond_columns (Or a b) = cond_columns a @ cond_columns b"

fun key_column :: "index_key \<Rightarrow> string" where
  "key_column (OnColumn c) = c"
| "key_column (OnLower c) = c"

definition column_names :: "table \<Rightarrow> string list" where
  "column_names t = map co_name (ta_columns t)"

text \<open>The columns the constraints of a table use.\<close>

definition constrained :: "table \<Rightarrow> string list" where
  "constrained t = ta_primary t @ map fst (ta_foreign t) @ concat (map snd (ta_unique t))
     @ concat (map (cond_columns \<circ> snd) (ta_checks t))"

definition table_ok :: "schema \<Rightarrow> string \<Rightarrow> table \<Rightarrow> bool" where
  "table_ok s name t \<longleftrightarrow>
     distinct (column_names t) \<and> list_all (\<lambda>c. c \<in> set (column_names t)) (constrained t)
     \<and> list_all (\<lambda>(_, target, _). target = name \<or> target \<in> set (map fst (sc_tables s))) (ta_foreign t)"

definition column_used :: "schema \<Rightarrow> string \<Rightarrow> table \<Rightarrow> string \<Rightarrow> bool" where
  "column_used s name t c \<longleftrightarrow>
     c \<in> set (constrained t)
     \<or> list_ex (\<lambda>i. ix_table i = name \<and> c \<in> set (map key_column (ix_keys i))) (sc_indexes s)
     \<or> list_ex (\<lambda>g. tr_table g = name \<and> (c \<in> set (cond_columns (tr_when g)) \<or> tr_event g = OnUpdate c)) (sc_triggers s)"

definition change_table :: "string \<Rightarrow> (table \<Rightarrow> table) \<Rightarrow> schema \<Rightarrow> schema" where
  "change_table name f s =
     s\<lparr>sc_tables := map (\<lambda>(n, t). (n, if n = name then f t else t)) (sc_tables s)\<rparr>"

definition if_ok :: "bool \<Rightarrow> 'a \<Rightarrow> 'a option" where
  "if_ok b x = (if b then Some x else None)"

fun apply_operation :: "operation \<Rightarrow> schema \<Rightarrow> schema option" where
  "apply_operation (CreateTable name t) s =
     if_ok (name \<notin> set (map fst (sc_tables s)) \<and> table_ok s name t) (s\<lparr>sc_tables := sc_tables s @ [(name, t)]\<rparr>)"
| "apply_operation (DropTable name) s =
     if_ok (name \<in> set (map fst (sc_tables s))
        \<and> list_all (\<lambda>(n, t). n = name \<or> list_all (\<lambda>(_, target, _). target \<noteq> name) (ta_foreign t)) (sc_tables s))
       \<lparr>sc_tables = filter (\<lambda>(n, _). n \<noteq> name) (sc_tables s),
        sc_indexes = filter (\<lambda>i. ix_table i \<noteq> name) (sc_indexes s),
        sc_triggers = filter (\<lambda>g. tr_table g \<noteq> name) (sc_triggers s)\<rparr>"
| "apply_operation (CreateIndex i) s =
     (case map_of (sc_tables s) (ix_table i) of
        None \<Rightarrow> None
      | Some t \<Rightarrow>
          if_ok (ix_name i \<notin> set (map ix_name (sc_indexes s))
             \<and> list_all (\<lambda>k. key_column k \<in> set (column_names t)) (ix_keys i))
            (s\<lparr>sc_indexes := sc_indexes s @ [i]\<rparr>))"
| "apply_operation (AddColumn name c) s =
     (case map_of (sc_tables s) name of
        None \<Rightarrow> None
      | Some t \<Rightarrow>
          if_ok (co_name c \<notin> set (column_names t) \<and> (co_nullable c \<or> co_default c \<noteq> None))
            (change_table name (\<lambda>t. t\<lparr>ta_columns := ta_columns t @ [c]\<rparr>) s))"
| "apply_operation (DropColumn name c) s =
     (case map_of (sc_tables s) name of
        None \<Rightarrow> None
      | Some t \<Rightarrow>
          if_ok (c \<in> set (column_names t) \<and> \<not> column_used s name t c)
            (change_table name (\<lambda>t. t\<lparr>ta_columns := filter (\<lambda>x. co_name x \<noteq> c) (ta_columns t)\<rparr>) s))"
| "apply_operation (AddCheck name check c) s =
     (case map_of (sc_tables s) name of
        None \<Rightarrow> None
      | Some t \<Rightarrow>
          if_ok (check \<notin> set (map fst (ta_checks t)) \<and> list_all (\<lambda>x. x \<in> set (column_names t)) (cond_columns c))
            (change_table name (\<lambda>t. t\<lparr>ta_checks := ta_checks t @ [(check, c)]\<rparr>) s))"
| "apply_operation (DropCheck name check) s =
     (case map_of (sc_tables s) name of
        None \<Rightarrow> None
      | Some t \<Rightarrow>
          if_ok (check \<in> set (map fst (ta_checks t)))
            (change_table name (\<lambda>t. t\<lparr>ta_checks := filter (\<lambda>(n, _). n \<noteq> check) (ta_checks t)\<rparr>) s))"
| "apply_operation (CreateTrigger g) s =
     (case map_of (sc_tables s) (tr_table g) of
        None \<Rightarrow> None
      | Some t \<Rightarrow>
          if_ok (tr_name g \<notin> set (map tr_name (sc_triggers s))
             \<and> list_all (\<lambda>x. x \<in> set (column_names t)) (cond_columns (tr_when g)))
            (s\<lparr>sc_triggers := sc_triggers s @ [g]\<rparr>))"
| "apply_operation (DropTrigger name) s =
     Some (s\<lparr>sc_triggers := filter (\<lambda>g. tr_name g \<noteq> name) (sc_triggers s)\<rparr>)"
| "apply_operation (UpdateRows name c n w) s =
     (case map_of (sc_tables s) name of
        None \<Rightarrow> None
      | Some t \<Rightarrow> if_ok (list_all (\<lambda>x. x \<in> set (column_names t)) (c # cond_columns w)) s)"

fun run_operations :: "operation list \<Rightarrow> schema \<Rightarrow> schema option" where
  "run_operations [] s = Some s"
| "run_operations (x # xs) s = Option.bind (apply_operation x s) (run_operations xs)"

section \<open>The migrations\<close>

definition create_users :: "operation list" where
  "create_users =
     [CreateTable ''users''
      \<lparr>ta_columns = [column ''id'' UuidType False None,
        column ''email'' (StringType 320) False None,
        column ''username'' (StringType 40) False None,
        column ''password_hash'' (StringType 512) False None,
        column ''role'' (StringType 20) False None,
        column ''active'' BooleanType False None,
        column ''password_change_required'' BooleanType False None,
        column ''created_at'' TimestampType False None],
      ta_primary = [''id''],
      ta_foreign = [],
      ta_unique = [],
      ta_checks = [(''ck_users_role'', (In ''role'' [''participant'', ''admin'']))]\<rparr>,
      CreateIndex (index_spec ''ix_users_email'' ''users'' [OnColumn ''email''] True),
      CreateIndex (index_spec ''ix_users_username'' ''users'' [OnColumn ''username''] True),
      CreateIndex (index_spec ''uq_users_email_ci'' ''users'' [OnLower ''email''] True),
      CreateIndex (index_spec ''uq_users_username_ci'' ''users'' [OnLower ''username''] True)]"

definition create_events :: "operation list" where
  "create_events =
     [CreateTable ''events''
      \<lparr>ta_columns = [column ''id'' UuidType False None,
        column ''name'' (StringType 120) False None,
        column ''slug'' (StringType 80) False None,
        column ''description_md'' TextType False None,
        column ''state'' (StringType 20) False None,
        column ''registration_at'' TimestampType True None,
        column ''start_at'' TimestampType True None,
        column ''freeze_at'' TimestampType True None,
        column ''end_at'' TimestampType True None,
        column ''team_mode'' (StringType 20) False None,
        column ''created_at'' TimestampType False None,
        column ''updated_at'' TimestampType False None],
      ta_primary = [''id''],
      ta_foreign = [],
      ta_unique = [],
      ta_checks = [(''ck_events_state'', (In ''state'' [''draft'', ''registration'', ''live'', ''frozen'', ''ended'', ''archived''])),
        (''ck_events_team_mode'', (In ''team_mode'' [''team'', ''individual'']))]\<rparr>,
      CreateIndex (index_spec ''ix_events_slug'' ''events'' [OnColumn ''slug''] True),
      CreateIndex (index_spec ''ix_events_state'' ''events'' [OnColumn ''state''] False)]"

definition create_sessions :: "operation list" where
  "create_sessions =
     [CreateTable ''sessions''
      \<lparr>ta_columns = [column ''id'' UuidType False None,
        column ''token_hash'' (StringType 64) False None,
        column ''user_id'' UuidType False None,
        column ''expires_at'' TimestampType False None,
        column ''last_seen_at'' TimestampType False None,
        column ''created_at'' TimestampType False None],
      ta_primary = [''id''],
      ta_foreign = [(''user_id'', ''users'', Cascade)],
      ta_unique = [],
      ta_checks = []\<rparr>,
      CreateIndex (index_spec ''ix_sessions_token_hash'' ''sessions'' [OnColumn ''token_hash''] True),
      CreateIndex (index_spec ''ix_sessions_user_id'' ''sessions'' [OnColumn ''user_id''] False),
      CreateIndex (index_spec ''ix_sessions_expires_at'' ''sessions'' [OnColumn ''expires_at''] False)]"

definition create_teams :: "operation list" where
  "create_teams =
     [CreateTable ''teams''
      \<lparr>ta_columns = [column ''id'' UuidType False None,
        column ''name'' (StringType 80) False None,
        column ''invite_hash'' (StringType 64) False None,
        column ''creator_id'' UuidType False None,
        column ''created_at'' TimestampType False None],
      ta_primary = [''id''],
      ta_foreign = [(''creator_id'', ''users'', Restrict)],
      ta_unique = [],
      ta_checks = []\<rparr>,
      CreateIndex (index_spec ''ix_teams_name'' ''teams'' [OnColumn ''name''] True),
      CreateIndex (index_spec ''ix_teams_invite_hash'' ''teams'' [OnColumn ''invite_hash''] True),
      CreateIndex (index_spec ''uq_teams_name_ci'' ''teams'' [OnLower ''name''] True)]"

definition create_memberships :: "operation list" where
  "create_memberships =
     [CreateTable ''memberships''
      \<lparr>ta_columns = [column ''id'' UuidType False None,
        column ''user_id'' UuidType False None,
        column ''team_id'' UuidType False None,
        column ''role'' (StringType 20) False None,
        column ''joined_at'' TimestampType False None],
      ta_primary = [''id''],
      ta_foreign = [(''team_id'', ''teams'', Cascade),
        (''user_id'', ''users'', Cascade)],
      ta_unique = [(Some ''uq_memberships_user'', [''user_id'']),
        (Some ''uq_memberships_team_user'', [''team_id'', ''user_id''])],
      ta_checks = [(''ck_memberships_role'', (In ''role'' [''owner'', ''member'']))]\<rparr>,
      CreateIndex (index_spec ''ix_memberships_user_id'' ''memberships'' [OnColumn ''user_id''] False),
      CreateIndex (index_spec ''ix_memberships_team_id'' ''memberships'' [OnColumn ''team_id''] False)]"

definition create_challenges :: "operation list" where
  "create_challenges =
     [CreateTable ''challenges''
      \<lparr>ta_columns = [column ''id'' UuidType False None,
        column ''event_id'' UuidType False None,
        column ''slug'' (StringType 80) False None,
        column ''title'' (StringType 160) False None,
        column ''category'' (StringType 80) False None,
        column ''description_md'' TextType False None,
        column ''connection_info'' TextType True None,
        column ''scoring_type'' (StringType 20) False None,
        column ''initial_points'' IntegerType False None,
        column ''minimum_points'' IntegerType False None,
        column ''decay'' IntegerType False None,
        column ''visible'' BooleanType False None,
        column ''visible_at'' TimestampType True None,
        column ''max_attempts'' IntegerType False None,
        column ''flag_type'' (StringType 20) False None,
        column ''flag_hash'' (StringType 64) True None,
        column ''flag_regex'' TextType True None,
        column ''created_at'' TimestampType False None,
        column ''updated_at'' TimestampType False None],
      ta_primary = [''id''],
      ta_foreign = [(''event_id'', ''events'', Cascade)],
      ta_unique = [(Some ''uq_challenges_event_slug'', [''event_id'', ''slug''])],
      ta_checks = [(''ck_challenges_scoring_type'', (In ''scoring_type'' [''fixed'', ''dynamic''])),
        (''ck_challenges_flag_type'', (In ''flag_type'' [''exact'', ''regex''])),
        (''ck_challenges_initial_points'', (Compare (Col ''initial_points'') Greater (Const 0))),
        (''ck_challenges_minimum_points'', (Compare (Col ''minimum_points'') Greater (Const 0))),
        (''ck_challenges_decay'', (Compare (Col ''decay'') Greater (Const 0))),
        (''ck_challenges_max_attempts'', (Compare (Col ''max_attempts'') AtLeast (Const 0)))]\<rparr>,
      CreateIndex (index_spec ''ix_challenges_event_id'' ''challenges'' [OnColumn ''event_id''] False),
      CreateIndex (index_spec ''ix_challenges_category'' ''challenges'' [OnColumn ''category''] False),
      CreateIndex (index_spec ''ix_challenges_visible'' ''challenges'' [OnColumn ''visible''] False)]"

definition create_challenge_prerequisites :: "operation list" where
  "create_challenge_prerequisites =
     [CreateTable ''challenge_prerequisites''
      \<lparr>ta_columns = [column ''challenge_id'' UuidType False None,
        column ''prerequisite_id'' UuidType False None],
      ta_primary = [''challenge_id'', ''prerequisite_id''],
      ta_foreign = [(''challenge_id'', ''challenges'', Cascade),
        (''prerequisite_id'', ''challenges'', Cascade)],
      ta_unique = [],
      ta_checks = [(''ck_challenge_prerequisite_not_self'', (Compare (Col ''challenge_id'') Differs (Col ''prerequisite_id'')))]\<rparr>]"

definition create_announcements :: "operation list" where
  "create_announcements =
     [CreateTable ''announcements''
      \<lparr>ta_columns = [column ''id'' UuidType False None,
        column ''event_id'' UuidType False None,
        column ''title'' (StringType 200) False None,
        column ''body_md'' TextType False None,
        column ''publish_at'' TimestampType False None,
        column ''created_at'' TimestampType False None,
        column ''updated_at'' TimestampType False None],
      ta_primary = [''id''],
      ta_foreign = [(''event_id'', ''events'', Cascade)],
      ta_unique = [],
      ta_checks = []\<rparr>,
      CreateIndex (index_spec ''ix_announcements_event_id'' ''announcements'' [OnColumn ''event_id''] False),
      CreateIndex (index_spec ''ix_announcements_publish_at'' ''announcements'' [OnColumn ''publish_at''] False)]"

definition create_submissions :: "operation list" where
  "create_submissions =
     [CreateTable ''submissions''
      \<lparr>ta_columns = [column ''id'' UuidType False None,
        column ''team_id'' UuidType False None,
        column ''challenge_id'' UuidType False None,
        column ''user_id'' UuidType False None,
        column ''submitted_hash'' (StringType 64) False None,
        column ''correct'' BooleanType False None,
        column ''awarded_points'' IntegerType False None,
        column ''idempotency_key'' (StringType 128) False None,
        column ''ip_hash'' (StringType 64) False None,
        column ''created_at'' TimestampType False None],
      ta_primary = [''id''],
      ta_foreign = [(''team_id'', ''teams'', Cascade),
        (''challenge_id'', ''challenges'', Cascade),
        (''user_id'', ''users'', Restrict)],
      ta_unique = [(Some ''uq_submissions_idempotency'', [''team_id'', ''challenge_id'', ''idempotency_key''])],
      ta_checks = []\<rparr>,
      CreateIndex (index_spec ''ix_submissions_team_id'' ''submissions'' [OnColumn ''team_id''] False),
      CreateIndex (index_spec ''ix_submissions_challenge_id'' ''submissions'' [OnColumn ''challenge_id''] False),
      CreateIndex (index_spec ''ix_submissions_user_id'' ''submissions'' [OnColumn ''user_id''] False),
      CreateIndex (index_spec ''ix_submissions_correct'' ''submissions'' [OnColumn ''correct''] False),
      CreateIndex (index_spec ''ix_submissions_created_at'' ''submissions'' [OnColumn ''created_at''] False),
      CreateIndex (index_spec ''ix_submissions_team_challenge_created'' ''submissions'' [OnColumn ''team_id'', OnColumn ''challenge_id'', OnColumn ''created_at''] False)]"

definition create_solves :: "operation list" where
  "create_solves =
     [CreateTable ''solves''
      \<lparr>ta_columns = [column ''id'' UuidType False None,
        column ''team_id'' UuidType False None,
        column ''challenge_id'' UuidType False None,
        column ''user_id'' UuidType False None,
        column ''submission_id'' UuidType False None,
        column ''solved_at'' TimestampType False None],
      ta_primary = [''id''],
      ta_foreign = [(''team_id'', ''teams'', Cascade),
        (''challenge_id'', ''challenges'', Cascade),
        (''user_id'', ''users'', Restrict),
        (''submission_id'', ''submissions'', Restrict)],
      ta_unique = [(None, [''submission_id'']),
        (Some ''uq_solves_team_challenge'', [''team_id'', ''challenge_id''])],
      ta_checks = []\<rparr>,
      CreateIndex (index_spec ''ix_solves_team_id'' ''solves'' [OnColumn ''team_id''] False),
      CreateIndex (index_spec ''ix_solves_challenge_id'' ''solves'' [OnColumn ''challenge_id''] False),
      CreateIndex (index_spec ''ix_solves_solved_at'' ''solves'' [OnColumn ''solved_at''] False)]"

definition create_score_events :: "operation list" where
  "create_score_events =
     [CreateTable ''score_events''
      \<lparr>ta_columns = [column ''id'' UuidType False None,
        column ''event_id'' UuidType False None,
        column ''team_id'' UuidType False None,
        column ''challenge_id'' UuidType True None,
        column ''solve_id'' UuidType True None,
        column ''kind'' (StringType 20) False None,
        column ''points'' IntegerType False None,
        column ''active'' BooleanType False None,
        column ''created_at'' TimestampType False None],
      ta_primary = [''id''],
      ta_foreign = [(''event_id'', ''events'', Cascade),
        (''team_id'', ''teams'', Cascade),
        (''challenge_id'', ''challenges'', Cascade),
        (''solve_id'', ''solves'', Cascade)],
      ta_unique = [(None, [''solve_id''])],
      ta_checks = [(''ck_score_events_kind'', (In ''kind'' [''solve'', ''award'']))]\<rparr>,
      CreateIndex (index_spec ''ix_score_events_event_id'' ''score_events'' [OnColumn ''event_id''] False),
      CreateIndex (index_spec ''ix_score_events_team_id'' ''score_events'' [OnColumn ''team_id''] False),
      CreateIndex (index_spec ''ix_score_events_challenge_id'' ''score_events'' [OnColumn ''challenge_id''] False),
      CreateIndex (index_spec ''ix_score_events_active'' ''score_events'' [OnColumn ''active''] False),
      CreateIndex (index_spec ''ix_score_events_created_at'' ''score_events'' [OnColumn ''created_at''] False)]"

definition create_audit_events :: "operation list" where
  "create_audit_events =
     [CreateTable ''audit_events''
      \<lparr>ta_columns = [column ''id'' UuidType False None,
        column ''actor_id'' UuidType True None,
        column ''action'' (StringType 120) False None,
        column ''target_type'' (StringType 80) False None,
        column ''target_id'' (StringType 80) True None,
        column ''metadata_json'' JsonType False None,
        column ''created_at'' TimestampType False None],
      ta_primary = [''id''],
      ta_foreign = [(''actor_id'', ''users'', SetNull)],
      ta_unique = [],
      ta_checks = []\<rparr>,
      CreateIndex (index_spec ''ix_audit_events_actor_id'' ''audit_events'' [OnColumn ''actor_id''] False),
      CreateIndex (index_spec ''ix_audit_events_action'' ''audit_events'' [OnColumn ''action''] False),
      CreateIndex (index_spec ''ix_audit_events_created_at'' ''audit_events'' [OnColumn ''created_at''] False)]"

definition create_outbox_events :: "operation list" where
  "create_outbox_events =
     [CreateTable ''outbox_events''
      \<lparr>ta_columns = [column ''id'' UuidType False None,
        column ''topic'' (StringType 120) False None,
        column ''aggregate_type'' (StringType 80) False None,
        column ''aggregate_id'' (StringType 80) False None,
        column ''payload_json'' JsonType False None,
        column ''created_at'' TimestampType False None,
        column ''delivered_at'' TimestampType True None,
        column ''attempts'' IntegerType False None],
      ta_primary = [''id''],
      ta_foreign = [],
      ta_unique = [],
      ta_checks = []\<rparr>,
      CreateIndex (index_spec ''ix_outbox_events_topic'' ''outbox_events'' [OnColumn ''topic''] False),
      CreateIndex (index_spec ''ix_outbox_events_created_at'' ''outbox_events'' [OnColumn ''created_at''] False),
      CreateIndex (index_spec ''ix_outbox_events_delivered_at'' ''outbox_events'' [OnColumn ''delivered_at''] False)]"

definition upgrade_0001 :: "operation list" where
  "upgrade_0001 =
     create_users @ create_events @ create_sessions @ create_teams @ create_memberships @ create_challenges @ create_challenge_prerequisites @ create_announcements @ create_submissions @ create_solves @ create_score_events @ create_audit_events @ create_outbox_events"

definition downgrade_0001 :: "operation list" where
  "downgrade_0001 =
     [DropTable ''outbox_events'',
      DropTable ''audit_events'',
      DropTable ''score_events'',
      DropTable ''solves'',
      DropTable ''submissions'',
      DropTable ''announcements'',
      DropTable ''challenge_prerequisites'',
      DropTable ''challenges'',
      DropTable ''memberships'',
      DropTable ''teams'',
      DropTable ''sessions'',
      DropTable ''events'',
      DropTable ''users'']"

definition upgrade_0002 :: "operation list" where
  "upgrade_0002 =
     [AddColumn ''users'' (column ''credential_version'' IntegerType False (Some ''0'')),
      AddColumn ''sessions'' (column ''credential_version'' IntegerType False (Some ''0''))]"

definition downgrade_0002 :: "operation list" where
  "downgrade_0002 =
     [DropColumn ''sessions'' ''credential_version'',
      DropColumn ''users'' ''credential_version'']"

definition upgrade_0003 :: "dialect \<Rightarrow> operation list" where
  "upgrade_0003 d =
     [UpdateRows ''challenges'' ''max_attempts'' 1000 (Compare (Col ''max_attempts'') Greater (Const 1000))] @
     (if d = Sqlite
       then [CreateTrigger (trigger_spec ''ck_challenges_max_attempts_upper_insert'' ''challenges'' OnInsert (Compare (Col ''max_attempts'') Greater (Const 1000)) ''ck_challenges_max_attempts_upper''),
         CreateTrigger (trigger_spec ''ck_challenges_max_attempts_upper_update'' ''challenges'' (OnUpdate ''max_attempts'') (Compare (Col ''max_attempts'') Greater (Const 1000)) ''ck_challenges_max_attempts_upper'')]
       else [AddCheck ''challenges'' ''ck_challenges_max_attempts_upper'' (Compare (Col ''max_attempts'') AtMost (Const 1000))])"

definition downgrade_0003 :: "dialect \<Rightarrow> operation list" where
  "downgrade_0003 d =
     (if d = Sqlite
       then [DropTrigger ''ck_challenges_max_attempts_upper_update'',
         DropTrigger ''ck_challenges_max_attempts_upper_insert'']
       else [DropCheck ''challenges'' ''ck_challenges_max_attempts_upper''])"

definition upgrade_0004 :: "dialect \<Rightarrow> operation list" where
  "upgrade_0004 d =
     [AddColumn ''events'' (column ''registration_access_mode'' (StringType 20) False (Some ''open''))] @
     (if d = Sqlite
       then [CreateTrigger (trigger_spec ''ck_events_registration_access_mode_insert'' ''events'' OnInsert (NotIn ''registration_access_mode'' [''open'', ''code'']) ''ck_events_registration_access_mode''),
         CreateTrigger (trigger_spec ''ck_events_registration_access_mode_update'' ''events'' (OnUpdate ''registration_access_mode'') (NotIn ''registration_access_mode'' [''open'', ''code'']) ''ck_events_registration_access_mode'')]
       else [AddCheck ''events'' ''ck_events_registration_access_mode'' (In ''registration_access_mode'' [''open'', ''code''])]) @
     [CreateTable ''registration_codes''
      \<lparr>ta_columns = [column ''id'' UuidType False None,
        column ''event_id'' UuidType False None,
        column ''token_hash'' (StringType 64) False None,
        column ''label'' (StringType 80) False None,
        column ''max_uses'' IntegerType True None,
        column ''use_count'' IntegerType False None,
        column ''expires_at'' TimestampType True None,
        column ''active'' BooleanType False None,
        column ''created_by'' UuidType False None,
        column ''created_at'' TimestampType False None,
        column ''revoked_at'' TimestampType True None],
      ta_primary = [''id''],
      ta_foreign = [(''event_id'', ''events'', Cascade),
        (''created_by'', ''users'', Restrict)],
      ta_unique = [],
      ta_checks = [(''ck_registration_codes_max_uses'', (Or (IsNull ''max_uses'') (And (Compare (Col ''max_uses'') AtLeast (Const 1)) (Compare (Col ''max_uses'') AtMost (Const 10000))))),
        (''ck_registration_codes_use_count'', (And (Compare (Col ''use_count'') AtLeast (Const 0)) (Or (IsNull ''max_uses'') (Compare (Col ''use_count'') AtMost (Col ''max_uses''))))),
        (''ck_registration_codes_label_length'', (And (Compare (Length ''label'') AtLeast (Const 1)) (Compare (Length ''label'') AtMost (Const 80)))),
        (''ck_registration_codes_token_hash_length'', (Compare (Length ''token_hash'') Equal (Const 64))),
        (''ck_registration_codes_revoked_inactive'', (Or (IsNull ''revoked_at'') (Compare (Col ''active'') Equal FalseConst)))]\<rparr>,
      CreateIndex (index_spec ''ix_registration_codes_event_id'' ''registration_codes'' [OnColumn ''event_id''] False),
      CreateIndex (index_spec ''ix_registration_codes_token_hash'' ''registration_codes'' [OnColumn ''token_hash''] True),
      CreateIndex (index_spec ''ix_registration_codes_expires_at'' ''registration_codes'' [OnColumn ''expires_at''] False),
      CreateIndex (index_spec ''ix_registration_codes_active'' ''registration_codes'' [OnColumn ''active''] False),
      CreateIndex (index_spec ''ix_registration_codes_created_by'' ''registration_codes'' [OnColumn ''created_by''] False),
      CreateIndex (index_spec ''ix_registration_codes_event_created'' ''registration_codes'' [OnColumn ''event_id'', OnColumn ''created_at''] False)]"

definition downgrade_0004 :: "dialect \<Rightarrow> operation list" where
  "downgrade_0004 d =
     [DropTable ''registration_codes''] @
     (if d = Sqlite
       then [DropTrigger ''ck_events_registration_access_mode_update'',
         DropTrigger ''ck_events_registration_access_mode_insert'']
       else [DropCheck ''events'' ''ck_events_registration_access_mode'']) @
     [DropColumn ''events'' ''registration_access_mode'']"

definition upgrades :: "dialect \<Rightarrow> operation list list" where
  "upgrades d = [upgrade_0001, upgrade_0002, upgrade_0003 d, upgrade_0004 d]"

definition downgrades :: "dialect \<Rightarrow> operation list list" where
  "downgrades d = [downgrade_0001, downgrade_0002, downgrade_0003 d, downgrade_0004 d]"

text \<open>The schema after the first \<open>k\<close> migrations.\<close>

definition at_revision :: "dialect \<Rightarrow> nat \<Rightarrow> schema option" where
  "at_revision d k = run_operations (concat (take k (upgrades d))) empty_schema"

section \<open>The metadata of the models\<close>

record mapped =
  mp_name :: string
  mp_type :: sql_type
  mp_nullable :: bool
  mp_primary :: bool
  mp_foreign :: "(string \<times> referential) option"
  mp_unique :: bool
  mp_index :: bool

definition mapped :: "string \<Rightarrow> sql_type \<Rightarrow> bool \<Rightarrow> mapped" where
  "mapped name ty nullable =
     \<lparr>mp_name = name, mp_type = ty, mp_nullable = nullable, mp_primary = False, mp_foreign = None,
      mp_unique = False, mp_index = False\<rparr>"

record metadata =
  md_name :: string
  md_columns :: "mapped list"
  md_unique :: "(string option \<times> string list) list"
  md_checks :: "(string \<times> cond) list"
  md_indexes :: "index_spec list"

text \<open>
  What SQLAlchemy makes of a mapped class: \<open>index=True\<close> is an index \<open>ix_table_column\<close>, unique
  when the column is; \<open>unique=True\<close> alone is a unique constraint without a name.
\<close>

definition metadata_table :: "metadata \<Rightarrow> table" where
  "metadata_table m =
     \<lparr>ta_columns = map (\<lambda>c. column (mp_name c) (mp_type c) (mp_nullable c) None) (md_columns m),
      ta_primary = map mp_name (filter mp_primary (md_columns m)),
      ta_foreign = concat (map (\<lambda>c. case mp_foreign c of None \<Rightarrow> [] | Some (t, a) \<Rightarrow> [(mp_name c, t, a)]) (md_columns m)),
      ta_unique = md_unique m
        @ map (\<lambda>c. (None, [mp_name c])) (filter (\<lambda>c. mp_unique c \<and> \<not> mp_index c) (md_columns m)),
      ta_checks = md_checks m\<rparr>"

definition metadata_indexes :: "metadata \<Rightarrow> index_spec list" where
  "metadata_indexes m =
     map (\<lambda>c. index_spec (''ix_'' @ md_name m @ ''_'' @ mp_name c) (md_name m) [OnColumn (mp_name c)] (mp_unique c))
       (filter mp_index (md_columns m)) @ md_indexes m"

definition metadata_schema :: "metadata list \<Rightarrow> schema" where
  "metadata_schema ms =
     \<lparr>sc_tables = map (\<lambda>m. (md_name m, metadata_table m)) ms, sc_indexes = concat (map metadata_indexes ms),
      sc_triggers = []\<rparr>"

definition prerequisites_metadata :: "metadata" where
  "prerequisites_metadata =
     \<lparr>md_name = ''challenge_prerequisites'',
      md_columns = [mapped ''challenge_id'' UuidType False\<lparr>mp_primary := True, mp_foreign := Some (''challenges'', Cascade)\<rparr>,
        mapped ''prerequisite_id'' UuidType False\<lparr>mp_primary := True, mp_foreign := Some (''challenges'', Cascade)\<rparr>],
      md_unique = [],
      md_checks = [(''ck_challenge_prerequisite_not_self'', (Compare (Col ''challenge_id'') Differs (Col ''prerequisite_id'')))],
      md_indexes = []\<rparr>"

definition User_metadata :: "metadata" where
  "User_metadata =
     \<lparr>md_name = ''users'',
      md_columns = [mapped ''id'' UuidType False\<lparr>mp_primary := True\<rparr>,
        mapped ''email'' (StringType 320) False\<lparr>mp_unique := True, mp_index := True\<rparr>,
        mapped ''username'' (StringType 40) False\<lparr>mp_unique := True, mp_index := True\<rparr>,
        mapped ''password_hash'' (StringType 512) False,
        mapped ''role'' (StringType 20) False,
        mapped ''active'' BooleanType False,
        mapped ''password_change_required'' BooleanType False,
        mapped ''credential_version'' IntegerType False,
        mapped ''created_at'' TimestampType False],
      md_unique = [],
      md_checks = [(''ck_users_role'', (In ''role'' [''participant'', ''admin'']))],
      md_indexes = [index_spec ''uq_users_email_ci'' ''users'' [OnLower ''email''] True,
        index_spec ''uq_users_username_ci'' ''users'' [OnLower ''username''] True]\<rparr>"

definition SessionToken_metadata :: "metadata" where
  "SessionToken_metadata =
     \<lparr>md_name = ''sessions'',
      md_columns = [mapped ''id'' UuidType False\<lparr>mp_primary := True\<rparr>,
        mapped ''token_hash'' (StringType 64) False\<lparr>mp_unique := True, mp_index := True\<rparr>,
        mapped ''user_id'' UuidType False\<lparr>mp_foreign := Some (''users'', Cascade), mp_index := True\<rparr>,
        mapped ''credential_version'' IntegerType False,
        mapped ''expires_at'' TimestampType False\<lparr>mp_index := True\<rparr>,
        mapped ''last_seen_at'' TimestampType False,
        mapped ''created_at'' TimestampType False],
      md_unique = [],
      md_checks = [],
      md_indexes = []\<rparr>"

definition Team_metadata :: "metadata" where
  "Team_metadata =
     \<lparr>md_name = ''teams'',
      md_columns = [mapped ''id'' UuidType False\<lparr>mp_primary := True\<rparr>,
        mapped ''name'' (StringType 80) False\<lparr>mp_unique := True, mp_index := True\<rparr>,
        mapped ''invite_hash'' (StringType 64) False\<lparr>mp_unique := True, mp_index := True\<rparr>,
        mapped ''creator_id'' UuidType False\<lparr>mp_foreign := Some (''users'', Restrict)\<rparr>,
        mapped ''created_at'' TimestampType False],
      md_unique = [],
      md_checks = [],
      md_indexes = [index_spec ''uq_teams_name_ci'' ''teams'' [OnLower ''name''] True]\<rparr>"

definition Membership_metadata :: "metadata" where
  "Membership_metadata =
     \<lparr>md_name = ''memberships'',
      md_columns = [mapped ''id'' UuidType False\<lparr>mp_primary := True\<rparr>,
        mapped ''user_id'' UuidType False\<lparr>mp_foreign := Some (''users'', Cascade), mp_index := True\<rparr>,
        mapped ''team_id'' UuidType False\<lparr>mp_foreign := Some (''teams'', Cascade), mp_index := True\<rparr>,
        mapped ''role'' (StringType 20) False,
        mapped ''joined_at'' TimestampType False],
      md_unique = [(Some ''uq_memberships_user'', [''user_id'']),
        (Some ''uq_memberships_team_user'', [''team_id'', ''user_id''])],
      md_checks = [(''ck_memberships_role'', (In ''role'' [''owner'', ''member'']))],
      md_indexes = []\<rparr>"

definition Event_metadata :: "metadata" where
  "Event_metadata =
     \<lparr>md_name = ''events'',
      md_columns = [mapped ''id'' UuidType False\<lparr>mp_primary := True\<rparr>,
        mapped ''name'' (StringType 120) False,
        mapped ''slug'' (StringType 80) False\<lparr>mp_unique := True, mp_index := True\<rparr>,
        mapped ''description_md'' TextType False,
        mapped ''state'' (StringType 20) False\<lparr>mp_index := True\<rparr>,
        mapped ''registration_at'' TimestampType True,
        mapped ''start_at'' TimestampType True,
        mapped ''freeze_at'' TimestampType True,
        mapped ''end_at'' TimestampType True,
        mapped ''team_mode'' (StringType 20) False,
        mapped ''registration_access_mode'' (StringType 20) False,
        mapped ''created_at'' TimestampType False,
        mapped ''updated_at'' TimestampType False],
      md_unique = [],
      md_checks = [(''ck_events_state'', (In ''state'' [''draft'', ''registration'', ''live'', ''frozen'', ''ended'', ''archived''])),
        (''ck_events_team_mode'', (In ''team_mode'' [''team'', ''individual''])),
        (''ck_events_registration_access_mode'', (In ''registration_access_mode'' [''open'', ''code'']))],
      md_indexes = []\<rparr>"

definition RegistrationCode_metadata :: "metadata" where
  "RegistrationCode_metadata =
     \<lparr>md_name = ''registration_codes'',
      md_columns = [mapped ''id'' UuidType False\<lparr>mp_primary := True\<rparr>,
        mapped ''event_id'' UuidType False\<lparr>mp_foreign := Some (''events'', Cascade), mp_index := True\<rparr>,
        mapped ''token_hash'' (StringType 64) False\<lparr>mp_unique := True, mp_index := True\<rparr>,
        mapped ''label'' (StringType 80) False,
        mapped ''max_uses'' IntegerType True,
        mapped ''use_count'' IntegerType False,
        mapped ''expires_at'' TimestampType True\<lparr>mp_index := True\<rparr>,
        mapped ''active'' BooleanType False\<lparr>mp_index := True\<rparr>,
        mapped ''created_by'' UuidType False\<lparr>mp_foreign := Some (''users'', Restrict), mp_index := True\<rparr>,
        mapped ''created_at'' TimestampType False,
        mapped ''revoked_at'' TimestampType True],
      md_unique = [],
      md_checks = [(''ck_registration_codes_max_uses'', (Or (IsNull ''max_uses'') (And (Compare (Col ''max_uses'') AtLeast (Const 1)) (Compare (Col ''max_uses'') AtMost (Const 10000))))),
        (''ck_registration_codes_use_count'', (And (Compare (Col ''use_count'') AtLeast (Const 0)) (Or (IsNull ''max_uses'') (Compare (Col ''use_count'') AtMost (Col ''max_uses''))))),
        (''ck_registration_codes_label_length'', (And (Compare (Length ''label'') AtLeast (Const 1)) (Compare (Length ''label'') AtMost (Const 80)))),
        (''ck_registration_codes_token_hash_length'', (Compare (Length ''token_hash'') Equal (Const 64))),
        (''ck_registration_codes_revoked_inactive'', (Or (IsNull ''revoked_at'') (Compare (Col ''active'') Equal FalseConst)))],
      md_indexes = [index_spec ''ix_registration_codes_event_created'' ''registration_codes'' [OnColumn ''event_id'', OnColumn ''created_at''] False]\<rparr>"

definition Challenge_metadata :: "metadata" where
  "Challenge_metadata =
     \<lparr>md_name = ''challenges'',
      md_columns = [mapped ''id'' UuidType False\<lparr>mp_primary := True\<rparr>,
        mapped ''event_id'' UuidType False\<lparr>mp_foreign := Some (''events'', Cascade), mp_index := True\<rparr>,
        mapped ''slug'' (StringType 80) False,
        mapped ''title'' (StringType 160) False,
        mapped ''category'' (StringType 80) False\<lparr>mp_index := True\<rparr>,
        mapped ''description_md'' TextType False,
        mapped ''connection_info'' TextType True,
        mapped ''scoring_type'' (StringType 20) False,
        mapped ''initial_points'' IntegerType False,
        mapped ''minimum_points'' IntegerType False,
        mapped ''decay'' IntegerType False,
        mapped ''visible'' BooleanType False\<lparr>mp_index := True\<rparr>,
        mapped ''visible_at'' TimestampType True,
        mapped ''max_attempts'' IntegerType False,
        mapped ''flag_type'' (StringType 20) False,
        mapped ''flag_hash'' (StringType 64) True,
        mapped ''flag_regex'' TextType True,
        mapped ''created_at'' TimestampType False,
        mapped ''updated_at'' TimestampType False],
      md_unique = [(Some ''uq_challenges_event_slug'', [''event_id'', ''slug''])],
      md_checks = [(''ck_challenges_scoring_type'', (In ''scoring_type'' [''fixed'', ''dynamic''])),
        (''ck_challenges_flag_type'', (In ''flag_type'' [''exact'', ''regex''])),
        (''ck_challenges_initial_points'', (Compare (Col ''initial_points'') Greater (Const 0))),
        (''ck_challenges_minimum_points'', (Compare (Col ''minimum_points'') Greater (Const 0))),
        (''ck_challenges_decay'', (Compare (Col ''decay'') Greater (Const 0))),
        (''ck_challenges_max_attempts'', (Compare (Col ''max_attempts'') AtLeast (Const 0))),
        (''ck_challenges_max_attempts_upper'', (Compare (Col ''max_attempts'') AtMost (Const 1000)))],
      md_indexes = []\<rparr>"

definition Submission_metadata :: "metadata" where
  "Submission_metadata =
     \<lparr>md_name = ''submissions'',
      md_columns = [mapped ''id'' UuidType False\<lparr>mp_primary := True\<rparr>,
        mapped ''team_id'' UuidType False\<lparr>mp_foreign := Some (''teams'', Cascade), mp_index := True\<rparr>,
        mapped ''challenge_id'' UuidType False\<lparr>mp_foreign := Some (''challenges'', Cascade), mp_index := True\<rparr>,
        mapped ''user_id'' UuidType False\<lparr>mp_foreign := Some (''users'', Restrict), mp_index := True\<rparr>,
        mapped ''submitted_hash'' (StringType 64) False,
        mapped ''correct'' BooleanType False\<lparr>mp_index := True\<rparr>,
        mapped ''awarded_points'' IntegerType False,
        mapped ''idempotency_key'' (StringType 128) False,
        mapped ''ip_hash'' (StringType 64) False,
        mapped ''created_at'' TimestampType False\<lparr>mp_index := True\<rparr>],
      md_unique = [(Some ''uq_submissions_idempotency'', [''team_id'', ''challenge_id'', ''idempotency_key''])],
      md_checks = [],
      md_indexes = [index_spec ''ix_submissions_team_challenge_created'' ''submissions'' [OnColumn ''team_id'', OnColumn ''challenge_id'', OnColumn ''created_at''] False]\<rparr>"

definition Solve_metadata :: "metadata" where
  "Solve_metadata =
     \<lparr>md_name = ''solves'',
      md_columns = [mapped ''id'' UuidType False\<lparr>mp_primary := True\<rparr>,
        mapped ''team_id'' UuidType False\<lparr>mp_foreign := Some (''teams'', Cascade), mp_index := True\<rparr>,
        mapped ''challenge_id'' UuidType False\<lparr>mp_foreign := Some (''challenges'', Cascade), mp_index := True\<rparr>,
        mapped ''user_id'' UuidType False\<lparr>mp_foreign := Some (''users'', Restrict)\<rparr>,
        mapped ''submission_id'' UuidType False\<lparr>mp_foreign := Some (''submissions'', Restrict), mp_unique := True\<rparr>,
        mapped ''solved_at'' TimestampType False\<lparr>mp_index := True\<rparr>],
      md_unique = [(Some ''uq_solves_team_challenge'', [''team_id'', ''challenge_id''])],
      md_checks = [],
      md_indexes = []\<rparr>"

definition ScoreEvent_metadata :: "metadata" where
  "ScoreEvent_metadata =
     \<lparr>md_name = ''score_events'',
      md_columns = [mapped ''id'' UuidType False\<lparr>mp_primary := True\<rparr>,
        mapped ''event_id'' UuidType False\<lparr>mp_foreign := Some (''events'', Cascade), mp_index := True\<rparr>,
        mapped ''team_id'' UuidType False\<lparr>mp_foreign := Some (''teams'', Cascade), mp_index := True\<rparr>,
        mapped ''challenge_id'' UuidType True\<lparr>mp_foreign := Some (''challenges'', Cascade), mp_index := True\<rparr>,
        mapped ''solve_id'' UuidType True\<lparr>mp_foreign := Some (''solves'', Cascade), mp_unique := True\<rparr>,
        mapped ''kind'' (StringType 20) False,
        mapped ''points'' IntegerType False,
        mapped ''active'' BooleanType False\<lparr>mp_index := True\<rparr>,
        mapped ''created_at'' TimestampType False\<lparr>mp_index := True\<rparr>],
      md_unique = [],
      md_checks = [(''ck_score_events_kind'', (In ''kind'' [''solve'', ''award'']))],
      md_indexes = []\<rparr>"

definition Announcement_metadata :: "metadata" where
  "Announcement_metadata =
     \<lparr>md_name = ''announcements'',
      md_columns = [mapped ''id'' UuidType False\<lparr>mp_primary := True\<rparr>,
        mapped ''event_id'' UuidType False\<lparr>mp_foreign := Some (''events'', Cascade), mp_index := True\<rparr>,
        mapped ''title'' (StringType 200) False,
        mapped ''body_md'' TextType False,
        mapped ''publish_at'' TimestampType False\<lparr>mp_index := True\<rparr>,
        mapped ''created_at'' TimestampType False,
        mapped ''updated_at'' TimestampType False],
      md_unique = [],
      md_checks = [],
      md_indexes = []\<rparr>"

definition AuditEvent_metadata :: "metadata" where
  "AuditEvent_metadata =
     \<lparr>md_name = ''audit_events'',
      md_columns = [mapped ''id'' UuidType False\<lparr>mp_primary := True\<rparr>,
        mapped ''actor_id'' UuidType True\<lparr>mp_foreign := Some (''users'', SetNull), mp_index := True\<rparr>,
        mapped ''action'' (StringType 120) False\<lparr>mp_index := True\<rparr>,
        mapped ''target_type'' (StringType 80) False,
        mapped ''target_id'' (StringType 80) True,
        mapped ''metadata_json'' JsonType False,
        mapped ''created_at'' TimestampType False\<lparr>mp_index := True\<rparr>],
      md_unique = [],
      md_checks = [],
      md_indexes = []\<rparr>"

definition OutboxEvent_metadata :: "metadata" where
  "OutboxEvent_metadata =
     \<lparr>md_name = ''outbox_events'',
      md_columns = [mapped ''id'' UuidType False\<lparr>mp_primary := True\<rparr>,
        mapped ''topic'' (StringType 120) False\<lparr>mp_index := True\<rparr>,
        mapped ''aggregate_type'' (StringType 80) False,
        mapped ''aggregate_id'' (StringType 80) False,
        mapped ''payload_json'' JsonType False,
        mapped ''created_at'' TimestampType False\<lparr>mp_index := True\<rparr>,
        mapped ''delivered_at'' TimestampType True\<lparr>mp_index := True\<rparr>,
        mapped ''attempts'' IntegerType False],
      md_unique = [],
      md_checks = [],
      md_indexes = []\<rparr>"

definition models_metadata :: "metadata list" where
  "models_metadata =
     [prerequisites_metadata,
      User_metadata,
      SessionToken_metadata,
      Team_metadata,
      Membership_metadata,
      Event_metadata,
      RegistrationCode_metadata,
      Challenge_metadata,
      Submission_metadata,
      Solve_metadata,
      ScoreEvent_metadata,
      Announcement_metadata,
      AuditEvent_metadata,
      OutboxEvent_metadata]"

section \<open>Comparison\<close>

text \<open>Order and server defaults are left out, as in Alembic's own comparison.\<close>

definition without_default :: "column \<Rightarrow> column" where
  "without_default c = c\<lparr>co_default := None\<rparr>"

definition same_elements :: "'a list \<Rightarrow> 'a list \<Rightarrow> bool" where
  "same_elements xs ys \<longleftrightarrow> list_all (\<lambda>x. x \<in> set ys) xs \<and> list_all (\<lambda>y. y \<in> set xs) ys"

definition same_table :: "table \<Rightarrow> table \<Rightarrow> bool" where
  "same_table t u \<longleftrightarrow>
     same_elements (map without_default (ta_columns t)) (map without_default (ta_columns u))
     \<and> same_elements (ta_primary t) (ta_primary u) \<and> same_elements (ta_foreign t) (ta_foreign u)
     \<and> same_elements (ta_unique t) (ta_unique u) \<and> same_elements (ta_checks t) (ta_checks u)"

definition same_schema :: "schema \<Rightarrow> schema \<Rightarrow> bool" where
  "same_schema s r \<longleftrightarrow>
     same_elements (map fst (sc_tables s)) (map fst (sc_tables r))
     \<and> list_all (\<lambda>(n, t). case map_of (sc_tables r) n of None \<Rightarrow> False | Some u \<Rightarrow> same_table t u) (sc_tables s)
     \<and> same_elements (sc_indexes s) (sc_indexes r) \<and> sc_triggers s = [] \<and> sc_triggers r = []"

text \<open>The check a pair of SQLite triggers stands for.\<close>

fun negate :: "cond \<Rightarrow> cond option" where
  "negate (Compare a Greater b) = Some (Compare a AtMost b)"
| "negate (NotIn c vs) = Some (In c vs)"
| "negate _ = None"

definition trigger_check :: "schema \<Rightarrow> trigger_spec \<Rightarrow> (string \<times> string \<times> cond) list" where
  "trigger_check s g =
     (case (tr_event g, negate (tr_when g)) of
        (OnInsert, Some c) \<Rightarrow>
          if list_ex (\<lambda>h. tr_table h = tr_table g \<and> tr_when h = tr_when g \<and> tr_message h = tr_message g
               \<and> list_all (\<lambda>x. tr_event h = OnUpdate x) (cond_columns (tr_when g))) (sc_triggers s)
          then [(tr_table g, tr_message g, c)] else []
      | _ \<Rightarrow> [])"

definition triggers_as_checks :: "schema \<Rightarrow> schema" where
  "triggers_as_checks s =
     fold (\<lambda>(name, check, c). change_table name (\<lambda>t. t\<lparr>ta_checks := ta_checks t @ [(check, c)]\<rparr>))
       (concat (map (trigger_check s) (sc_triggers s))) (s\<lparr>sc_triggers := []\<rparr>)"

definition built_like_models :: "dialect \<Rightarrow> bool" where
  "built_like_models d =
     (case at_revision d 4 of
        None \<Rightarrow> False
      | Some s \<Rightarrow> same_schema (if d = Sqlite then triggers_as_checks s else s) (metadata_schema models_metadata))"

lemma postgres_built: "built_like_models Postgres"
  by code_simp

lemma sqlite_built: "built_like_models Sqlite"
  by code_simp

section \<open>Checks, triggers and rows\<close>

datatype cell = NullCell | IntCell int | TextCell string | BoolCell bool

fun operand_value :: "(string \<Rightarrow> cell) \<Rightarrow> operand \<Rightarrow> cell" where
  "operand_value row (Col c) = row c"
| "operand_value row (Length c) = (case row c of TextCell s \<Rightarrow> IntCell (int (length s)) | _ \<Rightarrow> NullCell)"
| "operand_value row (Const n) = IntCell n"
| "operand_value row FalseConst = BoolCell False"

fun compare_cells :: "relation \<Rightarrow> cell \<Rightarrow> cell \<Rightarrow> bool option" where
  "compare_cells r NullCell y = None"
| "compare_cells r x NullCell = None"
| "compare_cells Equal x y = Some (x = y)"
| "compare_cells Differs x y = Some (x \<noteq> y)"
| "compare_cells Greater (IntCell x) (IntCell y) = Some (y < x)"
| "compare_cells AtLeast (IntCell x) (IntCell y) = Some (y \<le> x)"
| "compare_cells AtMost (IntCell x) (IntCell y) = Some (x \<le> y)"
| "compare_cells _ _ _ = None"

text \<open>SQL's logic: \<open>None\<close> is unknown.\<close>

fun evaluate :: "(string \<Rightarrow> cell) \<Rightarrow> cond \<Rightarrow> bool option" where
  "evaluate row (In c vs) = (case row c of TextCell s \<Rightarrow> Some (s \<in> set vs) | _ \<Rightarrow> None)"
| "evaluate row (NotIn c vs) = (case row c of TextCell s \<Rightarrow> Some (s \<notin> set vs) | _ \<Rightarrow> None)"
| "evaluate row (IsNull c) = Some (row c = NullCell)"
| "evaluate row (Compare a r b) = compare_cells r (operand_value row a) (operand_value row b)"
| "evaluate row (And a b) =
     (if evaluate row a = Some False \<or> evaluate row b = Some False then Some False
      else if evaluate row a = Some True \<and> evaluate row b = Some True then Some True else None)"
| "evaluate row (Or a b) =
     (if evaluate row a = Some True \<or> evaluate row b = Some True then Some True
      else if evaluate row a = Some False \<and> evaluate row b = Some False then Some False else None)"

text \<open>A CHECK constraint refuses a row when it is false, a trigger aborts when its condition is true.\<close>

definition check_refuses :: "(string \<Rightarrow> cell) \<Rightarrow> cond \<Rightarrow> bool" where
  "check_refuses row c \<longleftrightarrow> evaluate row c = Some False"

definition trigger_aborts :: "(string \<Rightarrow> cell) \<Rightarrow> cond \<Rightarrow> bool" where
  "trigger_aborts row c \<longleftrightarrow> evaluate row c = Some True"

lemma trigger_like_check: "negate w = Some c \<Longrightarrow> trigger_aborts row w = check_refuses row c"
proof (induction w rule: negate.induct)
  case (1 a b)
  then show ?case
    by (cases "operand_value row a"; cases "operand_value row b") (auto simp: trigger_aborts_def check_refuses_def)
qed (auto simp: trigger_aborts_def check_refuses_def split: cell.splits)

text \<open>
  C38: the migrations build the schema of the models. From an empty database the four
  upgrades succeed; on PostgreSQL the result has exactly the tables, columns with type and
  nullability, keys, unique and check constraints and indexes that SQLAlchemy derives from
  models.py. On SQLite the two constraints that were added later are pairs of triggers,
  and with these read as checks the schema is the same; such a trigger aborts exactly on
  the rows the check refuses.
\<close>

theorem migrations_build_models:
  "(\<exists>s. at_revision Postgres 4 = Some s \<and> same_schema s (metadata_schema models_metadata))
   \<and> (\<exists>s. at_revision Sqlite 4 = Some s \<and> same_schema (triggers_as_checks s) (metadata_schema models_metadata))
   \<and> (\<forall>row c vs. trigger_aborts row (NotIn c vs) = check_refuses row (In c vs))
   \<and> (\<forall>row a b. trigger_aborts row (Compare a Greater b) = check_refuses row (Compare a AtMost b))"
  using postgres_built sqlite_built trigger_like_check
  by (auto simp: built_like_models_def split: option.splits)

section \<open>Downgrades\<close>

definition revision_restored :: "dialect \<Rightarrow> nat \<Rightarrow> bool" where
  "revision_restored d k =
     (case at_revision d k of
        None \<Rightarrow> False
      | Some s \<Rightarrow> Option.bind (run_operations (upgrades d ! k) s) (run_operations (downgrades d ! k)) = Some s)"

lemma postgres_restored: "list_all (revision_restored Postgres) [0, 1, 2, 3]"
  by code_simp

lemma sqlite_restored: "list_all (revision_restored Sqlite) [0, 1, 2, 3]"
  by code_simp

text \<open>
  Every downgrade undoes its upgrade. On both dialects and from each of the four
  revisions, running the upgrade and then the downgrade succeeds and gives back the schema
  exactly as it was.
\<close>

theorem downgrade_undoes_upgrade:
  "\<forall>k \<in> {0, 1, 2, 3}. \<exists>s s'. at_revision d k = Some s \<and> run_operations (upgrades d ! k) s = Some s'
     \<and> run_operations (downgrades d ! k) s' = Some s"
proof
  fix k :: nat
  assume "k \<in> {0, 1, 2, 3}"
  then have "revision_restored d k" using postgres_restored sqlite_restored by (cases d) auto
  then show "\<exists>s s'. at_revision d k = Some s \<and> run_operations (upgrades d ! k) s = Some s'
     \<and> run_operations (downgrades d ! k) s' = Some s"
    by (auto simp: revision_restored_def bind_eq_Some_conv split: option.splits)
qed

lemma downgrade_undoes_upgrade_witness:
  "\<exists>s s'. at_revision Sqlite 3 = Some s \<and> run_operations (upgrade_0004 Sqlite) s = Some s'
     \<and> run_operations (downgrade_0004 Sqlite) s' = Some s"
  using downgrade_undoes_upgrade[of Sqlite] by (simp add: upgrades_def downgrades_def numeral_eq_Suc)

section \<open>The rows\<close>

text \<open>\<open>UPDATE challenges SET max_attempts = 1000 WHERE max_attempts > 1000\<close> on the rows.\<close>

definition clamp_attempts :: "database \<Rightarrow> database" where
  "clamp_attempts db =
     db\<lparr>challenges := map (\<lambda>c. if 1000 < c_max_attempts c then c\<lparr>c_max_attempts := 1000\<rparr> else c) (challenges db)\<rparr>"

text \<open>
  The third migration does not change what participants may do: it makes the new constraint
  true of every row, and no challenge gets another effective limit.
\<close>

lemma clamp_keeps_limits:
  "list_all (\<lambda>c. c_max_attempts c \<le> 1000) (challenges (clamp_attempts db))
   \<and> map effective_challenge_limit (challenges (clamp_attempts db)) = map effective_challenge_limit (challenges db)"
  by (auto simp: clamp_attempts_def list_all_iff effective_challenge_limit_def MAX_CHALLENGE_ATTEMPTS_def)

section \<open>Running the migrations\<close>

text \<open>
  \<open>env.py\<close>: on SQLite the foreign keys are checked before and after. The check after the
  transaction reports a violation but does not take the migration back.
\<close>

definition run_migrations_online ::
  "dialect \<Rightarrow> ('s \<Rightarrow> bool) \<Rightarrow> ('s \<Rightarrow> 's option) \<Rightarrow> 's \<Rightarrow> bool \<times> 's" where
  "run_migrations_online d violated migrate s =
     (if d = Sqlite \<and> violated s then (False, s)
      else case migrate s of
             None \<Rightarrow> (False, s)
           | Some s' \<Rightarrow> if d = Sqlite \<and> violated s' then (False, s') else (True, s'))"

section \<open>Connections\<close>

text \<open>\<open>db.py\<close>: the options of the engine, and the check that SQLite enforces foreign keys.\<close>

record engine_options =
  en_pre_ping :: bool
  en_hide_parameters :: bool
  en_same_thread :: "bool option"
  en_static_pool :: bool
  en_pool_timeout :: "int option"
  en_options :: "string option"

definition database_options :: "string \<Rightarrow> engine_options" where
  "database_options url =
     (let base = \<lparr>en_pre_ping = True, en_hide_parameters = True, en_same_thread = None, en_static_pool = False,
                  en_pool_timeout = None, en_options = None\<rparr> in
      if prefix ''sqlite'' url
      then base\<lparr>en_same_thread := Some False, en_static_pool := url \<in> {''sqlite://'', ''sqlite:///:memory:''}\<rparr>
      else if prefix ''postgresql://'' url \<or> prefix ''postgresql+psycopg://'' url
      then base\<lparr>en_pool_timeout := Some 5,
                en_options := Some (''-c lock_timeout=3000 '' @ ''-c statement_timeout=30000 ''
                  @ ''-c idle_in_transaction_session_timeout=30000'')\<rparr>
      else base)"

text \<open>\<open>None\<close> is the \<open>RuntimeError\<close> when the pragma does not read back as 1.\<close>

definition enable_sqlite_foreign_keys :: "dialect \<Rightarrow> int option \<Rightarrow> unit option" where
  "enable_sqlite_foreign_keys d pragma = (if d \<noteq> Sqlite \<or> pragma = Some 1 then Some () else None)"

end
