(* ===== verification/Locks.thy ===== *)
theory Locks
  imports Pytext
begin

text \<open>
  The lock check of scripts/check-backend-locks.py: the parser of a lock file, the
  comparison of a lock with the requirements of pyproject.toml, and the command. The package
  \<open>packaging\<close> is the parameter \<open>pkg\<close>: canonical names, versions (equal when they are the same
  release), requirements and their specifiers. \<open>tomllib\<close> is outside: the three lists of
  pyproject.toml are the record \<open>pyproject\<close>. The texts of the messages are left out.
\<close>

record ('v, 's) pkg =
  pk_canonical :: "string \<Rightarrow> string"
  pk_version :: "string \<Rightarrow> 'v option"
  pk_requirement :: "string \<Rightarrow> (string \<times> 's) option"
  pk_contains :: "'s \<Rightarrow> 'v \<Rightarrow> bool"

definition PROJECT_ANNOTATION :: string where
  "PROJECT_ANNOTATION = ''alpha-ctf-backend (backend/pyproject.toml)''"

definition BUILD_ANNOTATION :: string where
  "BUILD_ANNOTATION = ''alpha-ctf-backend (backend/pyproject.toml::build-system.requires)''"

section \<open>The patterns\<close>

text \<open>
  \<open>ENTRY\<close> at the start of a line: a name, two equality signs and a version up to white
  space or a backslash. Neither part can hold a line break, so a line has one match at most.
\<close>

definition name_char :: "char \<Rightarrow> bool" where
  "name_char c \<longleftrightarrow> (CHR ''A'' \<le> c \<and> c \<le> CHR ''Z'') \<or> (CHR ''a'' \<le> c \<and> c \<le> CHR ''z'')
     \<or> (CHR ''0'' \<le> c \<and> c \<le> CHR ''9'') \<or> c \<in> set ''_.-''"

definition version_char :: "char \<Rightarrow> bool" where
  "version_char c \<longleftrightarrow> \<not> is_space c \<and> c \<noteq> CHR 0x5C"

definition entry_of :: "string \<Rightarrow> (string \<times> string) option" where
  "entry_of line =
     (let name = takeWhile name_char line;
          rest = dropWhile name_char line;
          version = takeWhile version_char (drop 2 rest)
      in if name \<noteq> [] \<and> prefix ''=='' rest \<and> version \<noteq> [] then Some (name, version) else None)"

text \<open>
  \<open>HASH.search\<close> on a stripped line: sixty-four hexadecimal digits and a continuation at most
  up to the end.
\<close>

definition hex_char :: "char \<Rightarrow> bool" where
  "hex_char c \<longleftrightarrow> (CHR ''0'' \<le> c \<and> c \<le> CHR ''9'') \<or> (CHR ''a'' \<le> c \<and> c \<le> CHR ''f'')"

definition hash_here :: "string \<Rightarrow> bool" where
  "hash_here s \<longleftrightarrow>
     prefix ''--hash=sha256:'' s
     \<and> (let digest = drop 14 s; tail = drop 64 digest
        in 64 \<le> length digest \<and> list_all hex_char (take 64 digest)
           \<and> (tail = [] \<or> dropWhile is_space tail = [CHR 0x5C]))"

fun search_from :: "(string \<Rightarrow> bool) \<Rightarrow> string \<Rightarrow> bool" where
  "search_from here [] = here []"
| "search_from here (c # cs) = (here (c # cs) \<or> search_from here cs)"

definition hash_line :: "string \<Rightarrow> bool" where
  "hash_line line \<longleftrightarrow> search_from hash_here (strip line)"

section \<open>Parsing a lock\<close>

record 'v lock_entry =
  le_name :: string
  le_version :: 'v
  le_block :: string

datatype lock_error =
    Unreadable | NoHeader | NoHashOption | RepositoryAddress | NoPins
  | DuplicatePin string | PinWithoutHash string | InvalidVersion

text \<open>
  The matches with their blocks: the lines from one match to the next. The line break in
  front of the next match is left out; no pattern of the code sees it.
\<close>

fun blocks :: "string list \<Rightarrow> (string \<times> string \<times> string) list" where
  "blocks [] = []"
| "blocks (line # ls) =
     (case entry_of line of
        None \<Rightarrow> blocks ls
      | Some (name, version) \<Rightarrow>
          (name, version, join_with (CHR 0x0A) (line # takeWhile (\<lambda>l. entry_of l = None) ls)) # blocks ls)"

definition annotated_block :: "string \<Rightarrow> bool" where
  "annotated_block block \<longleftrightarrow> sublist PROJECT_ANNOTATION block \<or> sublist BUILD_ANNOTATION block"

fun parse_entries ::
  "('v, 's) pkg \<Rightarrow> (string \<times> string \<times> string) list \<Rightarrow> (string \<times> 'v lock_entry) list \<Rightarrow> string set \<Rightarrow>
   lock_error + (string \<times> 'v lock_entry) list \<times> string set" where
  "parse_entries pkg [] entries annotated = Inr (entries, annotated)"
| "parse_entries pkg ((raw, version, block) # rest) entries annotated =
     (let name = pk_canonical pkg raw
      in if name \<in> set (map fst entries) then Inl (DuplicatePin name)
         else if \<not> list_ex (\<lambda>(l, e). hash_line l) (splitlines block) then Inl (PinWithoutHash name)
         else (case pk_version pkg version of
                 None \<Rightarrow> Inl InvalidVersion
               | Some v \<Rightarrow>
                   parse_entries pkg rest (entries @ [(name, \<lparr>le_name = name, le_version = v, le_block = block\<rparr>)])
                     (if annotated_block block then insert name annotated else annotated)))"

definition parse_lock ::
  "('v, 's) pkg \<Rightarrow> string option \<Rightarrow> lock_error + (string \<times> 'v lock_entry) list \<times> string set" where
  "parse_lock pkg contents =
     (case contents of
        None \<Rightarrow> Inl Unreadable
      | Some body \<Rightarrow>
          if \<not> sublist ''autogenerated by pip-compile with Python 3.12'' body then Inl NoHeader
          else if \<not> sublist ''--generate-hashes'' body then Inl NoHashOption
          else if sublist ''--index-url'' body \<or> sublist ''--trusted-host'' body then Inl RepositoryAddress
          else let matches = blocks (split_on (CHR 0x0A) body)
               in if matches = [] then Inl NoPins else parse_entries pkg matches [] {})"

section \<open>Comparison with pyproject.toml\<close>

fun requirement_map ::
  "('v, 's) pkg \<Rightarrow> string list \<Rightarrow> (string \<times> 's) list \<Rightarrow> (string \<times> 's) list option" where
  "requirement_map pkg [] result = Some result"
| "requirement_map pkg (v # vs) result =
     (case pk_requirement pkg v of
        None \<Rightarrow> None
      | Some (raw, specifier) \<Rightarrow>
          let name = pk_canonical pkg raw
          in if name \<in> set (map fst result) then None
             else requirement_map pkg vs (result @ [(name, specifier)]))"

datatype check_error =
    LockError lock_error
  | MissingAnnotation string "string set" | StaleAnnotation string "string set"
  | MissingPin string string | PinOutOfRange string string
  | NotInTestLock string | VersionsDiffer string

definition pin_errors ::
  "('v, 's) pkg \<Rightarrow> string \<Rightarrow> (string \<times> 'v lock_entry) list \<Rightarrow> string \<times> 's \<Rightarrow> check_error list" where
  "pin_errors pkg label entries = (\<lambda>(name, specifier).
     case map_of entries name of
       None \<Rightarrow> [MissingPin label name]
     | Some entry \<Rightarrow> if \<not> pk_contains pkg specifier (le_version entry) then [PinOutOfRange label name] else [])"

definition check_direct ::
  "('v, 's) pkg \<Rightarrow> string \<Rightarrow> (string \<times> 'v lock_entry) list \<Rightarrow> string set \<Rightarrow> (string \<times> 's) list \<Rightarrow> check_error list" where
  "check_direct pkg label entries annotated expected =
     (let expected_names = set (map fst expected);
          missing = expected_names - annotated;
          stale = annotated - expected_names
      in (if missing \<noteq> {} then [MissingAnnotation label missing] else [])
         @ (if stale \<noteq> {} then [StaleAnnotation label stale] else [])
         @ concat (map (pin_errors pkg label entries) expected))"

definition same_pin_errors ::
  "(string \<times> 'v lock_entry) list \<Rightarrow> string \<times> 'v lock_entry \<Rightarrow> check_error list" where
  "same_pin_errors test_entries = (\<lambda>(name, runtime_entry).
     case map_of test_entries name of
       None \<Rightarrow> [NotInTestLock name]
     | Some test_entry \<Rightarrow>
         if le_version test_entry \<noteq> le_version runtime_entry then [VersionsDiffer name] else [])"

record pyproject =
  pp_dependencies :: "string list"
  pp_test :: "string list"
  pp_build :: "string list"

datatype lock_result = LocksCrash | LocksFailed "check_error list" | LocksPassed

definition lock_errors :: "(lock_error + 'a) list \<Rightarrow> check_error list" where
  "lock_errors locks = concat (map (\<lambda>l. case l of Inl e \<Rightarrow> [LockError e] | Inr _ \<Rightarrow> []) locks)"

definition locks_main ::
  "('v, 's) pkg \<Rightarrow> pyproject \<Rightarrow> (string \<Rightarrow> string option) \<Rightarrow> lock_result" where
  "locks_main pkg project read =
     (case (requirement_map pkg (pp_dependencies project) [],
            requirement_map pkg (pp_dependencies project @ pp_test project) [],
            requirement_map pkg (pp_build project) []) of
        (Some runtime_expected, Some test_expected, Some build_expected) \<Rightarrow>
          (case (parse_lock pkg (read ''requirements.lock''), parse_lock pkg (read ''requirements-test.lock''),
                 parse_lock pkg (read ''requirements-build.lock'')) of
             (Inr (runtime_entries, runtime_annotated), Inr (test_entries, test_annotated),
              Inr (build_entries, build_annotated)) \<Rightarrow>
               let errors = check_direct pkg ''runtime'' runtime_entries runtime_annotated runtime_expected
                      @ check_direct pkg ''test'' test_entries test_annotated test_expected
                      @ check_direct pkg ''build'' build_entries build_annotated build_expected
                      @ concat (map (same_pin_errors test_entries) runtime_entries)
               in if errors \<noteq> [] then LocksFailed errors else LocksPassed
           | (r, t, b) \<Rightarrow> LocksFailed (lock_errors [r, t, b]))
      | _ \<Rightarrow> LocksCrash)"

definition locks_exit_code :: "lock_result \<Rightarrow> int" where
  "locks_exit_code r = (case r of LocksPassed \<Rightarrow> 0 | _ \<Rightarrow> 1)"

section \<open>Facts\<close>

lemma list_all2_members:
  assumes "list_all2 P xs ys"
  shows "y \<in> set ys \<Longrightarrow> \<exists>x \<in> set xs. P x y" and "x \<in> set xs \<Longrightarrow> \<exists>y \<in> set ys. P x y"
  using assms by (induction rule: list_all2_induct) auto

text \<open>A pin with its hash: what an entry of a parsed lock carries.\<close>

definition hashed_pin :: "('v, 's) pkg \<Rightarrow> string \<times> string \<times> string \<Rightarrow> string \<times> 'v lock_entry \<Rightarrow> bool" where
  "hashed_pin pkg = (\<lambda>(raw, version, block) (name, e).
     name = pk_canonical pkg raw \<and> le_name e = name \<and> le_block e = block
     \<and> pk_version pkg version = Some (le_version e)
     \<and> (\<exists>(l, b) \<in> set (splitlines block). hash_line l))"

lemma parse_entries_pins:
  assumes "parse_entries pkg matches entries annotated = Inr (entries', annotated')"
    and "distinct (map fst entries)"
  shows "\<exists>new. entries' = entries @ new \<and> list_all2 (hashed_pin pkg) matches new
    \<and> distinct (map fst entries')
    \<and> annotated' = annotated \<union> {name. \<exists>e. (name, e) \<in> set new \<and> annotated_block (le_block e)}"
  using assms
proof (induction matches arbitrary: entries annotated)
  case Nil
  then show ?case by simp
next
  case (Cons m matches)
  obtain raw version block where m: "m = (raw, version, block)" by (cases m) auto
  define name where "name = pk_canonical pkg raw"
  obtain v where fresh: "name \<notin> set (map fst entries)" and hash: "list_ex (\<lambda>(l, e). hash_line l) (splitlines block)"
    and v: "pk_version pkg version = Some v"
    using Cons.prems(1) m by (auto simp: name_def Let_def split: if_splits option.splits)
  let ?e = "\<lparr>le_name = name, le_version = v, le_block = block\<rparr>"
  let ?a = "if annotated_block block then insert name annotated else annotated"
  have step: "parse_entries pkg matches (entries @ [(name, ?e)]) ?a = Inr (entries', annotated')"
    using Cons.prems(1) m fresh hash v unfolding name_def by (simp add: Let_def)
  have "distinct (map fst (entries @ [(name, ?e)]))" using Cons.prems(2) fresh by simp
  then obtain new where new: "entries' = (entries @ [(name, ?e)]) @ new" "list_all2 (hashed_pin pkg) matches new"
    "distinct (map fst entries')" "annotated' = ?a \<union> {n. \<exists>e. (n, e) \<in> set new \<and> annotated_block (le_block e)}"
    using Cons.IH[OF step] by blast
  have "hashed_pin pkg m (name, ?e)" using m hash v by (auto simp: hashed_pin_def name_def list_ex_iff)
  moreover have "annotated' = annotated \<union> {n. \<exists>e. (n, e) \<in> set ((name, ?e) # new) \<and> annotated_block (le_block e)}"
    using new(4) by auto
  ultimately show ?case using new by (intro exI[of _ "(name, ?e) # new"]) simp
qed

lemma parse_lock_pins:
  assumes "parse_lock pkg contents = Inr (entries, annotated)"
  shows "\<exists>body. contents = Some body \<and> entries \<noteq> []
    \<and> list_all2 (hashed_pin pkg) (blocks (split_on (CHR 0x0A) body)) entries
    \<and> distinct (map fst entries)
    \<and> annotated = {name. \<exists>e. (name, e) \<in> set entries \<and> annotated_block (le_block e)}"
proof -
  obtain body where body: "contents = Some body" "blocks (split_on (CHR 0x0A) body) \<noteq> []"
    "parse_entries pkg (blocks (split_on (CHR 0x0A) body)) [] {} = Inr (entries, annotated)"
    using assms by (auto simp: parse_lock_def Let_def split: option.splits if_splits)
  from parse_entries_pins[OF body(3)] have "list_all2 (hashed_pin pkg) (blocks (split_on (CHR 0x0A) body)) entries"
    "distinct (map fst entries)" "annotated = {name. \<exists>e. (name, e) \<in> set entries \<and> annotated_block (le_block e)}"
    by auto
  then show ?thesis using body by auto
qed

text \<open>Every line that pins a package is a block, and no other text is.\<close>

lemma blocks_lines: "map (\<lambda>(name, version, _). (name, version)) (blocks ls) = List.map_filter entry_of ls"
  by (induction ls) (auto simp: map_filter_simps split: option.splits)

text \<open>The map of the requirements holds each of them under its canonical name, once.\<close>

lemma requirement_map_list:
  assumes "requirement_map pkg reqs result = Some result'" and "distinct (map fst result)"
  shows "distinct (map fst result') \<and> (\<exists>new. result' = result @ new
    \<and> list_all2 (\<lambda>req (name, specifier). \<exists>raw. pk_requirement pkg req = Some (raw, specifier)
         \<and> name = pk_canonical pkg raw) reqs new)"
  using assms
proof (induction reqs arbitrary: result)
  case Nil
  then show ?case by simp
next
  case (Cons req reqs)
  obtain raw specifier where q: "pk_requirement pkg req = Some (raw, specifier)"
    and fresh: "pk_canonical pkg raw \<notin> set (map fst result)"
    and step: "requirement_map pkg reqs (result @ [(pk_canonical pkg raw, specifier)]) = Some result'"
    using Cons.prems(1) by (auto simp: Let_def split: option.splits if_splits)
  have "distinct (map fst (result @ [(pk_canonical pkg raw, specifier)]))" using Cons.prems(2) fresh by simp
  from Cons.IH[OF step this] show ?case using q by auto
qed

lemma check_direct_Nil:
  "check_direct pkg label entries annotated expected = [] \<longleftrightarrow>
     annotated = set (map fst expected)
     \<and> (\<forall>(name, specifier) \<in> set expected. \<exists>e. map_of entries name = Some e \<and> pk_contains pkg specifier (le_version e))"
  by (auto simp: check_direct_def pin_errors_def Let_def split: option.splits if_splits)

lemma same_pin_errors_Nil:
  "same_pin_errors test_entries (name, e) = [] \<longleftrightarrow>
     (\<exists>t. map_of test_entries name = Some t \<and> le_version t = le_version e)"
  by (auto simp: same_pin_errors_def split: option.splits)

lemma locks_passed:
  assumes "locks_main pkg project read = LocksPassed"
  obtains re te be ra rt ta tt ba bt where
    "requirement_map pkg (pp_dependencies project) [] = Some re"
    "requirement_map pkg (pp_dependencies project @ pp_test project) [] = Some te"
    "requirement_map pkg (pp_build project) [] = Some be"
    "parse_lock pkg (read ''requirements.lock'') = Inr (rt, ra)"
    "parse_lock pkg (read ''requirements-test.lock'') = Inr (tt, ta)"
    "parse_lock pkg (read ''requirements-build.lock'') = Inr (bt, ba)"
    "check_direct pkg ''runtime'' rt ra re = []" "check_direct pkg ''test'' tt ta te = []"
    "check_direct pkg ''build'' bt ba be = []" "\<forall>p \<in> set rt. same_pin_errors tt p = []"
  using assms
  by (auto simp: locks_main_def Let_def split: option.splits sum.splits prod.splits if_splits)

text \<open>
  C40: a passing check means that the install of the deployment is pinned. Every dependency of
  pyproject.toml has, in the runtime lock, an exact version inside of its specifier that
  some line of the lock protects by a hash, exactly the direct dependencies are marked as
  direct, and every package of the runtime lock is in the test lock with the same version.
\<close>

theorem locks_pin_dependencies:
  assumes "locks_main pkg project read = LocksPassed"
  shows "\<exists>runtime annotated test test_annotated.
    parse_lock pkg (read ''requirements.lock'') = Inr (runtime, annotated)
    \<and> parse_lock pkg (read ''requirements-test.lock'') = Inr (test, test_annotated)
    \<and> (\<forall>req \<in> set (pp_dependencies project). \<exists>raw specifier e.
         pk_requirement pkg req = Some (raw, specifier)
         \<and> map_of runtime (pk_canonical pkg raw) = Some e \<and> pk_contains pkg specifier (le_version e)
         \<and> (\<exists>(l, b) \<in> set (splitlines (le_block e)). hash_line l) \<and> annotated_block (le_block e))
    \<and> (\<forall>(name, e) \<in> set runtime. \<exists>t. map_of test name = Some t \<and> le_version t = le_version e)
    \<and> card annotated = length (pp_dependencies project)"
proof -
  obtain re te be ra rt ta tt ba bt where
    m: "requirement_map pkg (pp_dependencies project) [] = Some re"
    and r: "parse_lock pkg (read ''requirements.lock'') = Inr (rt, ra)"
    and t: "parse_lock pkg (read ''requirements-test.lock'') = Inr (tt, ta)"
    and direct: "check_direct pkg ''runtime'' rt ra re = []" and same: "\<forall>p \<in> set rt. same_pin_errors tt p = []"
    using locks_passed[OF assms] .
  have re: "distinct (map fst re)"
    "list_all2 (\<lambda>req (name, specifier). \<exists>raw. pk_requirement pkg req = Some (raw, specifier)
       \<and> name = pk_canonical pkg raw) (pp_dependencies project) re"
    using requirement_map_list[OF m] by auto
  obtain body where body: "list_all2 (hashed_pin pkg) (blocks (split_on (CHR 0x0A) body)) rt"
    and rt: "distinct (map fst rt)" "ra = {name. \<exists>e. (name, e) \<in> set rt \<and> annotated_block (le_block e)}"
    using parse_lock_pins[OF r] by blast
  have pins: "\<exists>m. hashed_pin pkg m p" if "p \<in> set rt" for p
    using list_all2_members(1)[OF body that] by blast
  note d = direct[unfolded check_direct_Nil]
  have "card ra = length (pp_dependencies project)"
    using d distinct_card[OF re(1)] list_all2_lengthD[OF re(2)] by simp
  moreover have "\<exists>raw specifier e. pk_requirement pkg req = Some (raw, specifier)
       \<and> map_of rt (pk_canonical pkg raw) = Some e \<and> pk_contains pkg specifier (le_version e)
       \<and> (\<exists>(l, b) \<in> set (splitlines (le_block e)). hash_line l) \<and> annotated_block (le_block e)"
    if "req \<in> set (pp_dependencies project)" for req
  proof -
    obtain name specifier raw where n: "(name, specifier) \<in> set re" "pk_requirement pkg req = Some (raw, specifier)"
      "name = pk_canonical pkg raw"
      using list_all2_members(2)[OF re(2)] \<open>req \<in> set (pp_dependencies project)\<close> by fast
    obtain e where e: "map_of rt name = Some e" "pk_contains pkg specifier (le_version e)" using d n(1) by auto
    have in_rt: "(name, e) \<in> set rt" using e(1) by (rule map_of_SomeD)
    have "name \<in> ra" using d n(1) by force
    then obtain e' where "(name, e') \<in> set rt" "annotated_block (le_block e')" using rt(2) by blast
    then have "annotated_block (le_block e)" using eq_key_imp_eq_value[OF rt(1) in_rt] by simp
    moreover have "\<exists>(l, b) \<in> set (splitlines (le_block e)). hash_line l"
      using pins[OF in_rt] by (auto simp: hashed_pin_def)
    ultimately have "annotated_block (le_block e) \<and> (\<exists>(l, b) \<in> set (splitlines (le_block e)). hash_line l)" ..
    then show ?thesis using n(2,3) e by blast
  qed
  moreover have "\<forall>(name, e) \<in> set rt. \<exists>t. map_of tt name = Some t \<and> le_version t = le_version e"
    using same by (auto simp: same_pin_errors_Nil)
  ultimately show ?thesis using r t by blast
qed

section \<open>A lock\<close>

definition exact_pkg :: "(string, string) pkg" where
  "exact_pkg = \<lparr>pk_canonical = lower, pk_version = Some,
     pk_requirement = (\<lambda>r. Some (takeWhile name_char r, drop 2 (dropWhile name_char r))),
     pk_contains = (\<lambda>specifier v. specifier = v)\<rparr>"

definition small_block :: string where
  "small_block = join_with (CHR 0x0A)
     [''Alembic==1.19.1 '' @ [CHR 0x5C],
      ''    --hash=sha256:b39018cb3d9413a19cbd54cf3c02ad33998641f0538eb77413a488a21c3e14be'',
      ''    # via alpha-ctf-backend (backend/pyproject.toml)'', []]"

definition small_lock :: string where
  "small_lock = join_with (CHR 0x0A)
     [''# This file is autogenerated by pip-compile with Python 3.12'', ''#    pip-compile --generate-hashes'', small_block]"

definition small_entry :: "string lock_entry" where
  "small_entry = \<lparr>le_name = ''alembic'', le_version = ''1.19.1'', le_block = small_block\<rparr>"

definition small_project :: pyproject where
  "small_project = \<lparr>pp_dependencies = [''alembic==1.19.1''], pp_test = [], pp_build = [''alembic==1.19.1'']\<rparr>"

lemma small_lock_parsed: "parse_lock exact_pkg (Some small_lock) = Inr ([(''alembic'', small_entry)], {''alembic''})"
  by code_simp

lemma small_requirement: "requirement_map exact_pkg [''alembic==1.19.1''] [] = Some [(''alembic'', ''1.19.1'')]"
  by code_simp

lemma exact_contains: "pk_contains exact_pkg specifier v \<longleftrightarrow> specifier = v"
  by (simp add: exact_pkg_def)

lemma small_lock_passes: "locks_main exact_pkg small_project (\<lambda>_. Some small_lock) = LocksPassed"
  by (simp add: locks_main_def small_project_def small_requirement small_lock_parsed check_direct_Nil
      same_pin_errors_Nil small_entry_def exact_contains del: requirement_map.simps)

lemma locks_pin_dependencies_witness:
  "\<exists>runtime annotated e. parse_lock exact_pkg (Some small_lock) = Inr (runtime, annotated)
     \<and> map_of runtime ''alembic'' = Some e \<and> le_version e = ''1.19.1'' \<and> annotated_block (le_block e)"
proof -
  have "pk_requirement exact_pkg ''alembic==1.19.1'' = Some (''alembic'', ''1.19.1'')"
    "pk_canonical exact_pkg ''alembic'' = ''alembic''" by code_simp+
  then show ?thesis
    using locks_pin_dependencies[OF small_lock_passes] by (auto simp: small_project_def exact_contains)
qed

end
