(* ===== verification/System.thy ===== *)
theory System
  imports Teams Participant AdminChallenges Schemas Cli
begin

text \<open>
  The backend as one transition system. A state is the database; a step is one committed
  request or command, with the handlers of the other theories as they are. What a handler
  read before it took its locks is arbitrary, because other requests may have committed
  in between; the snapshot it commits to is the current state. Three invariants of every
  reachable state (the team roster, the challenges with their prerequisite graph, the
  history of submissions) and the refinement of the history by an abstract log.
\<close>

section \<open>What a step leaves alone\<close>

definition same_history :: "database \<Rightarrow> database \<Rightarrow> bool" where
  "same_history db db' \<longleftrightarrow> submissions db' = submissions db \<and> solves db' = solves db
     \<and> score_events db' = score_events db"

definition same_roster :: "database \<Rightarrow> database \<Rightarrow> bool" where
  "same_roster db db' \<longleftrightarrow> teams db' = teams db \<and> memberships db' = memberships db"

definition same_challenges :: "database \<Rightarrow> database \<Rightarrow> bool" where
  "same_challenges db db' \<longleftrightarrow> challenges db' = challenges db \<and> prereqs db' = prereqs db"

named_theorems frame_defs

lemmas [frame_defs] = same_history_def same_roster_def same_challenges_def

text \<open>The tables no invariant below speaks of.\<close>

definition quiet :: "database \<Rightarrow> database \<Rightarrow> bool" where
  "quiet db db' \<longleftrightarrow> same_history db db' \<and> same_roster db db' \<and> same_challenges db db'"

lemmas quiet_defs = quiet_def frame_defs

lemma quiet_refl [simp]: "quiet db db"
  by (simp add: quiet_defs)

lemma quiet_trans: "quiet db db1 \<Longrightarrow> quiet db1 db2 \<Longrightarrow> quiet db db2"
  by (simp add: quiet_defs)

lemma logged_quiet: "logged db db' \<Longrightarrow> quiet db db'"
  by (auto simp: logged_def quiet_defs)

lemma new_session_quiet: "new_session st rt w c i t u db = Some (token, db') \<Longrightarrow> quiet db db'"
  by (auto simp: quiet_defs dest: new_session_frame)

lemma coalesced_audit_quiet: "add_coalesced_audit i now actor action tt tid md db = Some db' \<Longrightarrow> quiet db db'"
  by (drule add_coalesced_audit_frame) (auto simp: quiet_defs)

section \<open>Accounts\<close>

text \<open>
  A handler that retries reads one snapshot per attempt. The rules of the step relation
  name the attempt \<open>k\<close> that commits: without the snapshot of that attempt the run is
  refused, and no later snapshot exists.
\<close>

lemma login_attempt_commits:
  assumes "login_attempts rt w dbs cand pw h repl ks = Inr (u, d)"
    and "\<forall>j. j \<noteq> k \<longrightarrow> dbs j = early j" and "\<forall>j. k < j \<longrightarrow> users (dbs j) = []" and "sorted_wrt (<) ks"
  shows "login_attempts rt w early cand pw h repl ks = Inr (u, d) \<or> quiet (dbs k) d"
  using assms
proof (induction ks arbitrary: h repl)
  case (Cons j ks)
  obtain u0 where f: "fetch u_id cand (users (dbs j)) = Some u0" "u_active u0"
    using Cons.prems(1) by (auto split: option.splits if_splits)
  show ?case
  proof (cases "j = k")
    case True
    have "login_attempts rt w dbs cand pw h' r ks \<noteq> Inr (u, d)" for h' r
      using Cons.prems(3,4) True by (cases ks) auto
    then have "u_password_hash u0 = h" using Cons.prems(1) f by (auto split: if_splits)
    then have "quiet (dbs j) d"
      using Cons.prems(1) f by (auto simp: quiet_defs split: option.splits)
    then show ?thesis using True by simp
  next
    case False
    then have here: "dbs j = early j" using Cons.prems(2) by simp
    note run = Cons.prems(1)[unfolded login_attempts.simps here]
    have rest: "login_attempts rt w dbs cand pw h' r ks = Inr (u, d) \<Longrightarrow>
        login_attempts rt w early cand pw h' r ks = Inr (u, d) \<or> quiet (dbs k) d" for h' r
      using Cons.IH Cons.prems(2-4) by simp
    show ?thesis
    proof (cases "u_password_hash u0 = h")
      case True
      then show ?thesis using run f[unfolded here] by simp
    next
      case other: False
      then obtain r where "verify_password rt (w_slot_free w (2 + 2 * j)) (u_password_hash u0) pw = Inr True"
        "replacement_hash_for rt (w_slot_free w (3 + 2 * j)) (w_token w (4 + j)) (u_password_hash u0) pw = Inr r"
        "login_attempts rt w dbs cand pw (u_password_hash u0) r ks = Inr (u, d)"
        using Cons.prems(1) f by (auto split: if_splits)
      then show ?thesis using rest[of "u_password_hash u0" r] f other unfolding here
        by (simp del: bindR_eq_Inr verify_password_ok)
    qed
  qed
qed simp

lemma change_password_attempt_commits:
  assumes "change_password_attempts rt w dbs uid sh pw h ks = Inr (u, d)"
    and "\<forall>j. j \<noteq> k \<longrightarrow> dbs j = early j" and "\<forall>j. k < j \<longrightarrow> users (dbs j) = []" and "sorted_wrt (<) ks"
  shows "change_password_attempts rt w early uid sh pw h ks = Inr (u, d) \<or> d = dbs k"
  using assms
proof (induction ks arbitrary: h)
  case (Cons j ks)
  obtain u0 s where f: "fetch u_id uid (users (dbs j)) = Some u0" "u_active u0"
    "find (\<lambda>s. s_token_hash s = sh \<and> s_user_id s = uid) (sessions (dbs j)) = Some s"
    "\<not> (s_expires_at s \<le> w_utcnow w (1 + j) \<or> s_credential_version s \<noteq> u_credential_version u0)"
    using Cons.prems(1) by (auto split: option.splits if_splits)
  show ?case
  proof (cases "j = k")
    case True
    have "change_password_attempts rt w dbs uid sh pw h' ks \<noteq> Inr (u, d)" for h'
      using Cons.prems(3,4) True by (cases ks) auto
    then have "u_password_hash u0 = h" using Cons.prems(1) f by (auto split: if_splits)
    then have "d = dbs j" using Cons.prems(1) f by simp
    then show ?thesis using True by simp
  next
    case False
    then have here: "dbs j = early j" using Cons.prems(2) by simp
    note run = Cons.prems(1)[unfolded change_password_attempts.simps here]
    have rest: "change_password_attempts rt w dbs uid sh pw h' ks = Inr (u, d) \<Longrightarrow>
        change_password_attempts rt w early uid sh pw h' ks = Inr (u, d) \<or> d = dbs k" for h'
      using Cons.IH Cons.prems(2-4) by simp
    show ?thesis
    proof (cases "u_password_hash u0 = h")
      case True
      then show ?thesis using run f[unfolded here] by simp
    next
      case other: False
      then have "verify_password rt (w_slot_free w (2 + j)) (u_password_hash u0) pw = Inr True"
        "change_password_attempts rt w dbs uid sh pw (u_password_hash u0) ks = Inr (u, d)"
        using Cons.prems(1) f by (auto split: if_splits)
      then show ?thesis using rest[of "u_password_hash u0"] f other unfolding here
        by (simp del: bindR_eq_Inr verify_password_ok)
    qed
  qed
qed simp

lemma attempts_sorted: "sorted_wrt (<) [0, 1, 2::nat]"
  by simp

lemma login_quiet:
  assumes run: "login dummy st rt w rq p db1 dbs = Inr (resp, db')"
    and refused: "\<not> is_ok (login dummy st rt w rq p db1 (dbs(k := empty_db)))"
    and late: "\<forall>j. k < j \<longrightarrow> dbs j = empty_db"
  shows "quiet (dbs k) db'"
proof -
  define early where "early = dbs(k := empty_db)"
  have same: "\<forall>j. j \<noteq> k \<longrightarrow> dbs j = early j" by (simp add: early_def)
  have none: "\<forall>j. k < j \<longrightarrow> users (dbs j) = []" using late by (simp add: empty_db_def)
  note refused = refused[folded early_def]
  define cand where "cand = find (\<lambda>u. lower (u_email u) = lower (strip (lg_email p))) (users db1)"
  define h where "h = (case cand of None \<Rightarrow> dummy | Some u \<Rightarrow> u_password_hash u)"
  note folds = login_def Let_def cand_def[symmetric] h_def[symmetric]
  obtain c repl u d token where c: "cand = Some c" "u_active c"
    and v: "verify_password rt (w_slot_free w 0) h (lg_password p) = Inr True"
    and r: "replacement_hash_for rt (w_slot_free w 1) (w_token w 3) h (lg_password p) = Inr repl"
    and a: "login_attempts rt w dbs (u_id c) (lg_password p) h repl [0, 1, 2] = Inr (u, d)"
    and s: "do { (token, db) \<leftarrow> new_session st rt w 0 0 0 u d;
        db \<leftarrow> add_coalesced_audit (w_uuid4 w 1) (w_utcnow w 3) (u_id u) ''auth.login'' ''user'' (u_id u) [] db;
        Some (token, db) } = Some (token, db')"
    using run unfolding folds by (auto simp: or_error_eq_Inr simp del: login_attempts.simps split: option.splits if_splits)
  have "login_attempts rt w early (u_id c) (lg_password p) h repl [0, 1, 2] \<noteq> Inr (u, d)"
  proof
    assume e: "login_attempts rt w early (u_id c) (lg_password p) h repl [0, 1, 2] = Inr (u, d)"
    have "is_ok (login dummy st rt w rq p db1 early)"
      unfolding folds by (simp add: c v r e s del: login_attempts.simps verify_password_ok One_nat_def)
    then show False using refused by simp
  qed
  then have "quiet (dbs k) d" using login_attempt_commits[OF a same none attempts_sorted] by blast
  moreover have "quiet d db'"
    using s by (auto simp: bind_eq_Some_conv dest!: new_session_quiet coalesced_audit_quiet intro: quiet_trans)
  ultimately show ?thesis by (rule quiet_trans)
qed

lemma change_password_quiet:
  assumes run: "change_password st rt w rq p a dbs = Inr (resp, db')"
    and refused: "\<not> is_ok (change_password st rt w rq p a (dbs(k := empty_db)))"
    and late: "\<forall>j. k < j \<longrightarrow> dbs j = empty_db"
  shows "quiet (dbs k) db'"
proof -
  define early where "early = dbs(k := empty_db)"
  have same: "\<forall>j. j \<noteq> k \<longrightarrow> dbs j = early j" by (simp add: early_def)
  have none: "\<forall>j. k < j \<longrightarrow> users (dbs j) = []" using late by (simp add: empty_db_def)
  note refused = refused[folded early_def]
  obtain h u d u' token where v: "verify_password rt (w_slot_free w 0) (u_password_hash a) (cp_current_password p) = Inr True"
    and h: "hash_password rt (w_slot_free w 1) (w_token w 0) (cp_new_password p) = Inr h"
    and t: "change_password_attempts rt w dbs (u_id a)
        (hash_session rt (st_secret_key st) (session_identity st rq))
        (cp_current_password p) (u_password_hash a) [0, 1, 2] = Inr (u, d)"
    and s: "change_password_rows st rt w h u d = Some (u', token, db')"
    using run unfolding change_password_def
    by (auto simp del: change_password_attempts.simps split: if_splits)
  have "change_password_attempts rt w early (u_id a)
        (hash_session rt (st_secret_key st) (session_identity st rq))
        (cp_current_password p) (u_password_hash a) [0, 1, 2] \<noteq> Inr (u, d)"
  proof
    assume e: "change_password_attempts rt w early (u_id a)
        (hash_session rt (st_secret_key st) (session_identity st rq))
        (cp_current_password p) (u_password_hash a) [0, 1, 2] = Inr (u, d)"
    have "is_ok (change_password st rt w rq p a early)"
      unfolding change_password_def
      by (simp add: v h e s del: change_password_attempts.simps verify_password_ok One_nat_def)
    then show False using refused by simp
  qed
  then have "d = dbs k" using change_password_attempt_commits[OF t same none attempts_sorted] by blast
  moreover have "quiet d db'"
    using s by (auto simp: change_password_rows_def Let_def bind_eq_Some_conv quiet_defs
        dest!: new_session_frame add_coalesced_audit_frame add_coalesced_outbox_frame)
  ultimately show ?thesis by simp
qed

lemma logout_quiet: "logout st rt w rq db1 db = Inr (resp, db') \<Longrightarrow> quiet db db'"
  by (auto simp: logout_def logout_rows_def Let_def or_error_eq_Inr quiet_defs
      dest!: add_coalesced_audit_frame split: option.splits if_splits)

lemma audit_quiet: "add_audit i now actor action tt tid md db = Some db' \<Longrightarrow> quiet db0 db \<Longrightarrow> quiet db0 db'"
  unfolding add_audit_Some by (auto simp: quiet_defs)

lemma set_password_quiet:
  assumes "set_password st rt w email db = Inr db'"
  shows "quiet db db'"
proof -
  obtain us ss i now actor tid where
    "add_audit i now actor ''admin.password_reset_cli'' ''user'' tid [] (db\<lparr>users := us, sessions := ss\<rparr>) = Some db'"
    using assms unfolding set_password_def Let_def
    by (auto simp: bindE_Inr db_step_Inr split: option.split_asm)
  then show ?thesis by (rule audit_quiet) (simp add: quiet_defs)
qed

section \<open>Event, codes, announcements, account status\<close>

text \<open>Writing the audit and the outbox row is quiet, so a handler is when its own write is.\<close>

lemma log_change_quiet:
  "log_change w admin topic kind target md pl db = Some db' \<Longrightarrow> quiet db0 db \<Longrightarrow> quiet db0 db'"
  by (blast intro: quiet_trans logged_quiet log_change_logged)

lemma quiet_updates [simp]:
  "quiet db (db\<lparr>registration_codes := rs\<rparr>)" "quiet db (db\<lparr>announcements := ns\<rparr>)"
  "quiet db (drop_sessions i db)" "quiet db (set_user_status u b db)" "quiet db (store_event now e e' db)"
  by (auto simp: quiet_defs drop_sessions_def set_user_status_def store_event_def Let_def)

lemma update_event_quiet: "update_event st rt w rq p db1 db = Inr (resp, db') \<Longrightarrow> quiet db db'"
  by (drule update_event_effect) (auto simp: store_event_def Let_def quiet_defs)

lemma create_code_quiet: "create_registration_code st rt w rq p db1 db = Inr (resp, db') \<Longrightarrow> quiet db db'"
  by (drule create_registration_code_effect) (auto simp: quiet_defs)

lemma revoke_code_quiet: "revoke_registration_code st rt w rq i db1 db = Inr (u, db') \<Longrightarrow> quiet db db'"
  unfolding revoke_registration_code_def
  by (auto split: option.split_asm if_split_asm elim!: log_change_quiet)

lemma create_announcement_quiet: "create_announcement st rt w rq q db1 db = Inr (resp, db') \<Longrightarrow> quiet db db'"
  unfolding create_announcement_def Let_def
  by (auto simp: insert_announcement_Some bind_eq_Some_conv elim!: log_change_quiet)

lemma update_announcement_quiet: "update_announcement st rt w rq i q db1 db = Inr (resp, db') \<Longrightarrow> quiet db db'"
  unfolding update_announcement_def Let_def
  by (auto split: option.split_asm if_split_asm elim!: log_change_quiet)

lemma delete_announcement_quiet: "delete_announcement st rt w rq i db1 db = Inr (u, db') \<Longrightarrow> quiet db db'"
  unfolding delete_announcement_def
  by (auto split: option.split_asm elim!: log_change_quiet)

lemma update_user_status_quiet: "update_user_status st rt w rq i q db1 db = Inr (resp, db') \<Longrightarrow> quiet db db'"
  unfolding update_user_status_def
  by (auto split: option.split_asm if_split_asm elim!: log_change_quiet)

section \<open>Steps\<close>

inductive quiet_step :: "settings \<Rightarrow> runtime \<Rightarrow> database \<Rightarrow> database \<Rightarrow> bool" for st rt where
  login: "login dummy st rt w rq lg db1 dbs = Inr (resp, db') \<Longrightarrow> dbs k = db \<Longrightarrow>
     \<not> is_ok (login dummy st rt w rq lg db1 (dbs(k := empty_db))) \<Longrightarrow>
     \<forall>j. k < j \<longrightarrow> dbs j = empty_db \<Longrightarrow> quiet_step st rt db db'"
| logout: "logout st rt w rq db1 db = Inr (resp, db') \<Longrightarrow> quiet_step st rt db db'"
| change_password: "change_password st rt w rq cp a dbs = Inr (resp, db') \<Longrightarrow> dbs k = db \<Longrightarrow>
     \<not> is_ok (change_password st rt w rq cp a (dbs(k := empty_db))) \<Longrightarrow>
     \<forall>j. k < j \<longrightarrow> dbs j = empty_db \<Longrightarrow> quiet_step st rt db db'"
| update_event: "update_event st rt w rq ep db1 db = Inr (event_body, db') \<Longrightarrow> quiet_step st rt db db'"
| create_code: "create_registration_code st rt w rq rc db1 db = Inr (code_body, db') \<Longrightarrow> quiet_step st rt db db'"
| revoke_code: "revoke_registration_code st rt w rq i db1 db = Inr (u, db') \<Longrightarrow> quiet_step st rt db db'"
| create_announcement: "create_announcement st rt w rq an db1 db = Inr (body, db') \<Longrightarrow> quiet_step st rt db db'"
| update_announcement: "update_announcement st rt w rq i np db1 db = Inr (body, db') \<Longrightarrow> quiet_step st rt db db'"
| delete_announcement: "delete_announcement st rt w rq i db1 db = Inr (u, db') \<Longrightarrow> quiet_step st rt db db'"
| update_user_status: "update_user_status st rt w rq i us db1 db = Inr (user_body, db') \<Longrightarrow> quiet_step st rt db db'"
| set_password: "set_password st rt w email db = Inr db' \<Longrightarrow> quiet_step st rt db db'"

lemma quiet_step_quiet: "quiet_step st rt db db' \<Longrightarrow> quiet db db'"
proof (induction rule: quiet_step.induct)
  case (login dummy w rq lg db1 dbs resp db' k db)
  then show ?case using login_quiet by metis
next
  case (change_password w rq cp a dbs resp db' k db)
  then show ?case using change_password_quiet by metis
qed (rule logout_quiet update_event_quiet create_code_quiet revoke_code_quiet create_announcement_quiet
    update_announcement_quiet delete_announcement_quiet update_user_status_quiet set_password_quiet, assumption)+

text \<open>
  The handlers that write teams and memberships. A registration creates a team of one in
  an individual event.
\<close>

inductive team_step :: "settings \<Rightarrow> runtime \<Rightarrow> database \<Rightarrow> database \<Rightarrow> bool" for st rt where
  register: "register st rt w rq rg db1 db = Inr (resp, db') \<Longrightarrow> team_step st rt db db'"
| create: "create_team st rt w rq name db1 db2 db = Inr (resp, db') \<Longrightarrow> team_step st rt db db'"
| join: "join_team st rt w rq code db1 db = Inr (resp, db') \<Longrightarrow> team_step st rt db db'"
| rotate: "rotate_invite st rt w rq db1 db = Inr (resp, db') \<Longrightarrow> team_step st rt db db'"
| transfer: "transfer_owner st rt w rq i db1 db = Inr (resp, db') \<Longrightarrow> team_step st rt db db'"
| remove: "remove_member st rt w rq i db1 db = Inr (resp, db') \<Longrightarrow> team_step st rt db db'"
| leave: "leave_team st rt w rq db1 db = Inr (resp, db') \<Longrightarrow> team_step st rt db db'"

text \<open>The body of a challenge creation has passed its schema.\<close>

inductive challenge_step :: "settings \<Rightarrow> runtime \<Rightarrow> database \<Rightarrow> database \<Rightarrow> bool" for st rt where
  create: "ChallengeCreateRequest body = Inr p \<Longrightarrow> create_challenge st rt w rq p db1 db = Inr (resp, db') \<Longrightarrow>
     challenge_step st rt db db'"
| update: "update_challenge st rt w rq i cp db1 db = Inr (resp, db') \<Longrightarrow> challenge_step st rt db db'"
| delete: "delete_challenge st rt w rq i db1 db = Inr (u, db') \<Longrightarrow> challenge_step st rt db db'"
| visibility: "set_visibility st rt w rq i v db1 db = Inr (resp, db') \<Longrightarrow> challenge_step st rt db db'"
| import_file: "import_challenge st rt w name f db = Inr db' \<Longrightarrow> challenge_step st rt db db'"
| bootstrap: "bootstrap st rt w db = Inr db' \<Longrightarrow> challenge_step st rt db db'"

inductive submit_step :: "settings \<Rightarrow> runtime \<Rightarrow> database \<Rightarrow> database \<Rightarrow> bool" for st rt where
  submit: "submit_transaction st rt w rq cid p u e t db2 db db4 = Inr (reply, Some db', changed) \<Longrightarrow>
     submit_step st rt db db'"

inductive step :: "settings \<Rightarrow> runtime \<Rightarrow> database \<Rightarrow> database \<Rightarrow> bool" for st rt where
  quiet: "quiet_step st rt db db' \<Longrightarrow> step st rt db db'"
| team: "team_step st rt db db' \<Longrightarrow> step st rt db db'"
| challenge: "challenge_step st rt db db' \<Longrightarrow> step st rt db db'"
| submit: "submit_step st rt db db' \<Longrightarrow> step st rt db db'"

text \<open>From the database the migrations leave behind.\<close>

inductive reachable :: "settings \<Rightarrow> runtime \<Rightarrow> database \<Rightarrow> bool" for st rt where
  init: "reachable st rt empty_db"
| step: "reachable st rt db \<Longrightarrow> step st rt db db' \<Longrightarrow> reachable st rt db'"

section \<open>The interface of an invariant\<close>

text \<open>
  What a predicate on databases has to promise to hold in every reachable state: it
  depends only on the tables that are not quiet, and the three kinds of steps that write
  them keep it.
\<close>

locale system_invariant =
  fixes st :: settings and rt :: runtime and I :: "database \<Rightarrow> bool"
  assumes start: "I empty_db"
    and frame: "quiet db db' \<Longrightarrow> I db \<Longrightarrow> I db'"
    and team: "team_step st rt db db' \<Longrightarrow> I db \<Longrightarrow> I db'"
    and challenge: "challenge_step st rt db db' \<Longrightarrow> I db \<Longrightarrow> I db'"
    and submit: "submit_step st rt db db' \<Longrightarrow> I db \<Longrightarrow> I db'"
begin

lemma step_keeps: "step st rt db db' \<Longrightarrow> I db \<Longrightarrow> I db'"
  by (induction rule: step.induct) (blast intro: frame quiet_step_quiet team challenge submit)+

lemma reachable_holds: "reachable st rt db \<Longrightarrow> I db"
  by (induction rule: reachable.induct) (blast intro: start step_keeps)+

lemma run_keeps: "(step st rt)\<^sup>*\<^sup>* db db' \<Longrightarrow> I db \<Longrightarrow> I db'"
  by (induction rule: rtranclp_induct) (blast intro: step_keeps)+

end

section \<open>What the steps write\<close>

text \<open>
  A challenge step leaves teams, memberships and the history alone, and drops a challenge
  only when nothing was submitted to it.
\<close>

definition keeps_submitted :: "database \<Rightarrow> database \<Rightarrow> bool" where
  "keeps_submitted db db' \<longleftrightarrow> (\<forall>b \<in> set (submissions db).
     (b_challenge_id b \<in> challenge_ids db \<longrightarrow> b_challenge_id b \<in> challenge_ids db')
     \<and> (b_team_id b \<in> team_ids db \<longrightarrow> b_team_id b \<in> team_ids db'))"

lemma keeps_submitted_trans:
  "keeps_submitted db db1 \<Longrightarrow> keeps_submitted db1 db2 \<Longrightarrow> same_history db db1 \<Longrightarrow> keeps_submitted db db2"
  by (simp add: keeps_submitted_def same_history_def)

lemma keeps_submitted_mono:
  "challenge_ids db \<subseteq> challenge_ids db' \<Longrightarrow> team_ids db \<subseteq> team_ids db' \<Longrightarrow> keeps_submitted db db'"
  by (auto simp: keeps_submitted_def)

definition challenge_write :: "database \<Rightarrow> database \<Rightarrow> bool" where
  "challenge_write db db' \<longleftrightarrow> same_roster db db' \<and> same_history db db' \<and> challenge_ids db \<subseteq> challenge_ids db'"

lemma challenge_write_logged: "challenge_write db db1 \<Longrightarrow> logged db1 db' \<Longrightarrow> challenge_write db db'"
  using logged_frame[of db1 db'] unfolding challenge_write_def frame_defs by simp

lemma challenge_write_trans: "challenge_write db db1 \<Longrightarrow> challenge_write db1 db2 \<Longrightarrow> challenge_write db db2"
  by (auto simp: challenge_write_def frame_defs)

lemma insert_challenge_write: "insert_challenge c ps db = Some db' \<Longrightarrow> challenge_write db db'"
  by (auto simp: insert_challenge_Some challenge_write_def frame_defs)

lemma store_challenge_write:
  assumes "store_challenge now old new ps db = Some db'" and "c_id new = c_id old"
  shows "challenge_write db db'"
proof -
  define row where "row = (if new = old then old else new\<lparr>c_updated_at := now\<rparr>)"
  note S = assms(1)[unfolded store_challenge_Some, folded row_def]
  have "c_id row = c_id old" using assms(2) by (simp add: row_def)
  then have "c_id (if c_id x = c_id old then row else x) = c_id x" for x by simp
  then have "map c_id (challenges db') = map c_id (challenges db)" using S by (simp add: update_where_def)
  then have "challenge_ids db' = challenge_ids db" by (metis list.set_map)
  then show ?thesis using S by (auto simp: challenge_write_def frame_defs)
qed

lemma create_challenge_write: "create_challenge st rt w rq p db1 db = Inr (resp, db') \<Longrightarrow> challenge_write db db'"
  by (drule create_challenge_effect) (blast intro: challenge_write_logged insert_challenge_write)

lemma update_challenge_write:
  assumes "update_challenge st rt w rq i p db1 db = Inr (resp, db')"
  shows "challenge_write db db'"
proof -
  obtain c c2 ps d where c2: "c2 = apply_challenge_patch p c \<or> (\<exists>flag. apply_flag rt (st_secret_key st)
      (st_max_flag_length st) flag (apply_challenge_patch p c) = Inr c2)"
    and s: "store_challenge (w_utcnow w 3) c c2 ps db = Some d" and l: "logged d db'"
    using update_challenge_effect[OF assms] by blast
  have "c_id c2 = c_id c" using patch_keeps_identity[OF c2] by blast
  then show ?thesis using challenge_write_logged[OF store_challenge_write[OF s] l] by blast
qed

lemma set_visibility_write:
  assumes "set_visibility st rt w rq i v db1 db = Inr (resp, db')"
  shows "challenge_write db db'"
proof -
  obtain c d where s: "store_challenge (w_utcnow w 3) c (c\<lparr>c_visible := v\<rparr>) None db = Some d" and l: "logged d db'"
    using assms unfolding set_visibility_def Let_def
    by (auto simp: bind_eq_Some_conv dest!: log_change_logged)
  then show ?thesis using challenge_write_logged[OF store_challenge_write[OF s] l] by simp
qed

lemma import_challenge_write:
  assumes "import_challenge st rt w name f db = Inr db'"
  shows "challenge_write db db'"
proof -
  obtain e stored c ps d where stored: "stored = stored_challenge db e (cf_slug f)"
    and c: "apply_flag rt (st_secret_key st) (st_max_flag_length st) (cf_flag f) (imported_row w e f stored) = Inr c"
    and s: "store_import w stored c ps db = Some d" and l: "logged d db'"
    using import_challenge_effect[OF assms] by blast
  have "challenge_write db d"
    using s imported_row_fields[OF c stored]
    by (auto simp: store_import_def intro: insert_challenge_write store_challenge_write split: option.splits)
  then show ?thesis using l by (rule challenge_write_logged)
qed

lemma delete_challenge_writes:
  assumes "delete_challenge st rt w rq i db1 db = Inr (u, db')"
  shows "same_roster db db' \<and> submissions db' = submissions db
    \<and> solves db' = delete_where (\<lambda>v. v_challenge_id v = i) (solves db)
    \<and> score_events db' = delete_where (\<lambda>p. p_challenge_id p = Some i) (score_events db)
    \<and> challenge_ids db' = challenge_ids db - {i} \<and> (\<forall>b \<in> set (submissions db). b_challenge_id b \<noteq> i)"
proof -
  note D = delete_challenge_effect[OF assms]
  then have "delete_where (\<lambda>b. b_challenge_id b = i) (submissions db) = submissions db"
    by (intro delete_where_none) (simp add: count_where_0)
  then show ?thesis
    using D logged_frame[of "delete_challenge_row i db" db']
    by (auto simp: delete_challenge_row_def same_roster_def)
qed

text \<open>The event and the administrator of a bootstrap are quiet.\<close>

lemma bootstrap_event_quiet:
  assumes "bootstrap_event w db = Some (e, db')"
  shows "quiet db db'"
  using bootstrap_event_effect[OF assms] unfolding quiet_defs by simp

lemma bootstrap_admin_quiet: "bootstrap_admin st rt w db = Inr db' \<Longrightarrow> quiet db db'"
  by (drule bootstrap_admin_effect) (auto simp: quiet_defs)

lemma challenge_write_quiet: "quiet db db' \<Longrightarrow> challenge_write db db'"
  by (simp add: challenge_write_def quiet_defs)

lemma seed_challenges_writes:
  assumes "seed_challenges st rt e cs db = Inr db'" and "\<forall>(c, flag) \<in> set cs. c_minimum_points c \<le> c_initial_points c"
  shows "challenge_write db db' \<and> (challenges_ok db \<longrightarrow> challenges_ok db')"
  using assms
proof (induction st rt e cs db rule: seed_challenges.induct)
  case (1 st rt e db)
  then show ?case by (simp add: challenge_write_def frame_defs)
next
  case (2 st rt e c flag rest db)
  show ?case
  proof (cases "\<exists>x \<in> set (challenges db). c_event_id x = e_id e \<and> c_slug x = c_slug c")
    case True
    then show ?thesis using "2.IH"(1) "2.prems" by simp
  next
    case False
    obtain c' db1 where f: "apply_flag rt (st_secret_key st) (st_max_flag_length st) flag c = Inr c'"
      and i: "insert_challenge c' [] db = Some db1" and r: "seed_challenges st rt e rest db1 = Inr db'"
      using "2.prems"(1) unfolding seed_challenges.simps if_not_P[OF False] by auto
    have none: "load_prerequisites db (e_id e) [] None = Inr []" by (simp add: load_prerequisites_def)
    have "c_minimum_points c' \<le> c_initial_points c'" using apply_flag_frame[OF f] "2.prems"(2) by auto
    then have ok: "challenges_ok db \<longrightarrow> challenges_ok db1" using insert_challenge_ok[OF i _ _ none] by blast
    have "challenge_write db1 db' \<and> (challenges_ok db1 \<longrightarrow> challenges_ok db')"
      using "2.IH"(2)[OF False _ _ r, of c'] f i "2.prems"(2) by simp
    then show ?thesis using ok challenge_write_trans[OF insert_challenge_write[OF i]] by blast
  qed
qed

lemma bootstrap_writes:
  assumes "bootstrap st rt w db = Inr db'"
  shows "challenge_write db db' \<and> (challenges_ok db \<longrightarrow> challenges_ok db')"
proof -
  obtain e db1 db2 where e: "bootstrap_event w db = Some (e, db1)" and a: "bootstrap_admin st rt w db1 = Inr db2"
    and s: "db' = db2 \<or> seed_demo st rt w e db2 = Inr db'"
    using assms by (auto simp: bootstrap_def split: if_splits)
  have q: "quiet db db2" using bootstrap_event_quiet[OF e] bootstrap_admin_quiet[OF a] by (rule quiet_trans)
  then have ok: "challenges_ok db2 = challenges_ok db" by (intro challenges_ok_cong) (simp_all add: quiet_defs)
  from s show ?thesis
  proof
    assume "db' = db2"
    then show ?thesis using challenge_write_quiet[OF q] ok by simp
  next
    assume "seed_demo st rt w e db2 = Inr db'"
    then obtain db3 where c: "seed_challenges st rt e (demo_challenges w e) db2 = Inr db3"
      and n: "seed_announcement w e db3 = Some db'"
      by (auto simp: seed_demo_def)
    have q3: "quiet db3 db'" using seed_announcement_effect[OF n] by (auto simp: quiet_defs)
    have "\<forall>(c, flag) \<in> set (demo_challenges w e). c_minimum_points c \<le> c_initial_points c"
      by (simp add: demo_challenges_def demo_challenge_def)
    note S = seed_challenges_writes[OF c this]
    have "challenge_write db db'"
      using challenge_write_trans challenge_write_quiet q S q3 by blast
    moreover have "challenges_ok db' = challenges_ok db3"
      using q3 by (intro challenges_ok_cong) (simp_all add: quiet_defs)
    ultimately show ?thesis using S ok by simp
  qed
qed

section \<open>The history\<close>

text \<open>
  What the history tables promise together: their unique constraints; every submission is
  of a stored team and challenge, and a wrong one has no points; the solves are the
  correct submissions, in the order they came in; the score events are those of the
  solves, in the same order, with the points of the submission.
\<close>

definition solve_facts :: "solve \<Rightarrow> uuid \<times> uuid \<times> uuid \<times> uuid" where
  "solve_facts v = (v_submission_id v, v_team_id v, v_challenge_id v, v_user_id v)"

definition correct_facts :: "submission \<Rightarrow> uuid \<times> uuid \<times> uuid \<times> uuid" where
  "correct_facts b = (b_id b, b_team_id b, b_challenge_id b, b_user_id b)"

definition score_facts :: "score_event \<Rightarrow> uuid option \<times> uuid \<times> uuid option \<times> score_kind \<times> bool" where
  "score_facts p = (p_solve_id p, p_team_id p, p_challenge_id p, p_kind p, p_active p)"

definition scored_facts :: "solve \<Rightarrow> uuid option \<times> uuid \<times> uuid option \<times> score_kind \<times> bool" where
  "scored_facts v = (Some (v_id v), v_team_id v, Some (v_challenge_id v), SolveScore, True)"

lemmas fact_defs = solve_facts_def correct_facts_def score_facts_def scored_facts_def

definition ledger_ok :: "database \<Rightarrow> bool" where
  "ledger_ok db \<longleftrightarrow> conflict_free submission_clash (submissions db) \<and> conflict_free solve_clash (solves db)
     \<and> conflict_free score_event_clash (score_events db)
     \<and> (\<forall>b \<in> set (submissions db). b_team_id b \<in> team_ids db \<and> b_challenge_id b \<in> challenge_ids db
          \<and> (\<not> b_correct b \<longrightarrow> b_awarded_points b = 0))
     \<and> map solve_facts (solves db) = map correct_facts (filter b_correct (submissions db))
     \<and> map score_facts (score_events db) = map scored_facts (solves db)
     \<and> map p_points (score_events db) = map b_awarded_points (filter b_correct (submissions db))"

lemma solve_submitted:
  assumes "ledger_ok db" and "v \<in> set (solves db)"
  shows "\<exists>b \<in> set (submissions db). b_correct b \<and> correct_facts b = solve_facts v"
proof -
  have "set (map solve_facts (solves db)) = set (map correct_facts (filter b_correct (submissions db)))"
    using assms(1) by (simp add: ledger_ok_def)
  then have "solve_facts v \<in> correct_facts ` {b \<in> set (submissions db). b_correct b}"
    using assms(2) by (auto simp flip: set_filter)
  then show ?thesis by auto
qed

lemma score_solved:
  assumes "ledger_ok db" and "p \<in> set (score_events db)"
  shows "\<exists>v \<in> set (solves db). scored_facts v = score_facts p"
proof -
  have "set (map score_facts (score_events db)) = set (map scored_facts (solves db))"
    using assms(1) by (simp add: ledger_ok_def)
  then have "score_facts p \<in> scored_facts ` set (solves db)" using assms(2) by auto
  then show ?thesis by auto
qed

lemma ledger_keeps:
  "ledger_ok db \<Longrightarrow> same_history db db' \<Longrightarrow> keeps_submitted db db' \<Longrightarrow> ledger_ok db'"
  by (simp add: ledger_ok_def same_history_def keeps_submitted_def)

text \<open>Where nothing was submitted there is nothing to lose.\<close>

lemma team_without_submissions:
  assumes "ledger_ok db" and "\<forall>b \<in> set (submissions db). b_team_id b \<noteq> t"
  shows "delete_where (\<lambda>v. v_team_id v = t) (solves db) = solves db
    \<and> delete_where (\<lambda>p. p_team_id p = t) (score_events db) = score_events db"
proof -
  have v: "v_team_id v \<noteq> t" if "v \<in> set (solves db)" for v
    using solve_submitted[OF assms(1) that] assms(2) by (auto simp: fact_defs)
  then have "p_team_id p \<noteq> t" if "p \<in> set (score_events db)" for p
    using score_solved[OF assms(1) that] by (auto simp: fact_defs)
  with v show ?thesis by (intro conjI delete_where_none) (auto simp: count_where_0)
qed

lemma challenge_without_submissions:
  assumes "ledger_ok db" and "\<forall>b \<in> set (submissions db). b_challenge_id b \<noteq> i"
  shows "delete_where (\<lambda>v. v_challenge_id v = i) (solves db) = solves db
    \<and> delete_where (\<lambda>p. p_challenge_id p = Some i) (score_events db) = score_events db"
proof -
  have v: "v_challenge_id v \<noteq> i" if "v \<in> set (solves db)" for v
    using solve_submitted[OF assms(1) that] assms(2) by (auto simp: fact_defs)
  then have "p_challenge_id p \<noteq> Some i" if "p \<in> set (score_events db)" for p
    using score_solved[OF assms(1) that] by (auto simp: fact_defs)
  with v show ?thesis by (intro conjI delete_where_none) (auto simp: count_where_0)
qed

section \<open>Team steps\<close>

definition team_write :: "database \<Rightarrow> database \<Rightarrow> bool" where
  "team_write db db' \<longleftrightarrow> same_history db db' \<and> same_challenges db db' \<and> team_ids db \<subseteq> team_ids db'"

lemma team_write_submitted: "team_write db db' \<Longrightarrow> keeps_submitted db db'"
  by (intro keeps_submitted_mono) (auto simp: team_write_def same_challenges_def)

lemma create_team_write: "create_team st rt w rq name db1 db2 db = Inr (resp, db') \<Longrightarrow> team_write db db'"
  by (drule create_team_effect) (auto simp: team_write_def frame_defs)

lemma join_team_write: "join_team st rt w rq code db1 db = Inr (resp, db') \<Longrightarrow> team_write db db'"
  by (drule join_team_effect) (auto simp: team_write_def frame_defs)

lemma new_invite_ids:
  "t_id ` set (update_where P (\<lambda>t. t\<lparr>t_invite_hash := h\<rparr>) ts) = t_id ` set ts"
  by (rule key_update_where) simp

lemma rotate_invite_write:
  assumes "rotate_invite st rt w rq db1 db = Inr (resp, db')"
  shows "team_write db db'"
proof -
  obtain i h xs where "db' = db\<lparr>teams := update_where (\<lambda>t. t_id t = i) (\<lambda>t. t\<lparr>t_invite_hash := h\<rparr>) (teams db),
      audit_events := xs\<rparr>"
    using rotate_invite_effect[OF assms] by blast
  then show ?thesis by (simp add: team_write_def frame_defs new_invite_ids del: set_update_where)
qed

lemma transfer_owner_write: "transfer_owner st rt w rq i db1 db = Inr (resp, db') \<Longrightarrow> team_write db db'"
  by (drule transfer_owner_effect) (auto simp: team_write_def frame_defs)

lemma remove_member_write:
  assumes "remove_member st rt w rq i db1 db = Inr (resp, db')"
  shows "team_write db db'"
proof -
  obtain j h ms xs ys where "db' = db\<lparr>teams := update_where (\<lambda>t. t_id t = j) (\<lambda>t. t\<lparr>t_invite_hash := h\<rparr>) (teams db),
      memberships := ms, audit_events := xs, outbox_events := ys\<rparr>"
    using remove_member_effect[OF assms] by blast
  then show ?thesis by (simp add: team_write_def frame_defs new_invite_ids del: set_update_where)
qed

text \<open>A registration in an individual event adds a team with its owner, in any other nothing.\<close>

lemma register_rows_writes:
  assumes "register_rows st rt w u e code db = Some (token, db')"
  shows "same_history db db' \<and> same_challenges db db' \<and> (same_roster db db' \<or> (\<exists>t m.
    teams db' = teams db @ [t] \<and> memberships db' = memberships db @ [m]
    \<and> (\<forall>x \<in> set (teams db). \<not> team_clash x t) \<and> (\<forall>x \<in> set (memberships db). \<not> membership_clash x m)
    \<and> m_role m = Owner \<and> m_team_id m = t_id t))"
proof -
  obtain db1 db2 db3 db4 db5 where i: "insert_user u db = Some db1"
    and t: "(if e_team_mode e = IndividualMode then create_solo_team st rt w (u_username u) (u_id u) db1
        else Some db1) = Some db2"
    and rest: "new_session st rt w 8 4 1 u db2 = Some (token, db3)"
      "add_audit (w_uuid4 w 5) (w_utcnow w 11) (Some (u_id u)) ''auth.register'' ''user'' (Some (u_id u)) [] db3
        = Some db4"
      "add_outbox (w_uuid4 w 6) (w_utcnow w 12) ''user.registered'' ''user'' (u_id u)
        [(''user_id'', JId (u_id u))] db4 = Some db5"
      "use_registration_code code db5 = Some db'"
    using assms unfolding register_rows_def by (auto simp: bind_eq_Some_conv)
  have "quiet db4 db5" using rest(3) unfolding add_outbox_Some by (auto simp: quiet_defs)
  moreover have "quiet db5 db'"
    using rest(4) unfolding use_registration_code_Some by (auto simp: quiet_defs split: option.splits)
  ultimately have q: "quiet db2 db'"
    using new_session_quiet[OF rest(1)] audit_quiet[OF rest(2)] quiet_trans by blast
  have u: "quiet db db1" using i by (auto simp: insert_user_Some quiet_defs)
  show ?thesis
  proof (cases "e_team_mode e = IndividualMode")
    case True
    then have "create_solo_team st rt w (u_username u) (u_id u) db1 = Some db2" using t by simp
    then obtain t m xs where "db2 = db1\<lparr>teams := teams db1 @ [t], memberships := memberships db1 @ [m],
        audit_events := xs\<rparr>" "\<forall>x \<in> set (teams db1). \<not> team_clash x t"
      "\<forall>x \<in> set (memberships db1). \<not> membership_clash x m" "m_role m = Owner" "m_team_id m = t_id t"
      unfolding create_solo_team_def
      by (auto simp: bind_eq_Some_conv insert_team_Some insert_membership_Some add_audit_Some)
    then show ?thesis using q u by (auto simp: quiet_defs)
  next
    case False
    then have "db2 = db1" using t by simp
    then show ?thesis using q u by (simp add: quiet_defs)
  qed
qed

lemma register_writes:
  assumes "register st rt w rq p db1 db = Inr (resp, db')"
  shows "team_write db db' \<and> (roster db \<longrightarrow> roster db')"
proof -
  obtain u e code token where "register_rows st rt w u e code db = Some (token, db')"
    using assms unfolding register_def Let_def by auto
  note R = register_rows_writes[OF this]
  then have "team_write db db'" by (auto simp: team_write_def same_roster_def)
  moreover have "roster db \<longrightarrow> roster db'"
    using R by (auto simp: same_roster_def intro!: roster_new_team)
  ultimately show ?thesis by blast
qed

text \<open>Leaving dissolves a team only when nothing was submitted for it.\<close>

lemma leave_team_history:
  assumes "leave_team st rt w rq db1 db = Inr (resp, db')" and ok: "ledger_ok db"
  shows "same_history db db' \<and> same_challenges db db' \<and> keeps_submitted db db'"
proof -
  obtain m :: membership and xs ys where o: "m_role m = Owner \<longrightarrow> count_where (\<lambda>b. b_team_id b = m_team_id m) (submissions db) = 0"
    and d: "db' = (if m_role m = Owner
         then delete_team (m_team_id m) (db\<lparr>memberships := delete_where (\<lambda>x. m_id x = m_id m) (memberships db)\<rparr>)
         else db\<lparr>memberships := delete_where (\<lambda>x. m_id x = m_id m) (memberships db)\<rparr>)
           \<lparr>audit_events := xs, outbox_events := ys\<rparr>"
    using leave_team_effect[OF assms(1)] unfolding Let_def by blast
  show ?thesis
  proof (cases "m_role m = Owner")
    case True
    then have none: "\<forall>b \<in> set (submissions db). b_team_id b \<noteq> m_team_id m" using o by (simp add: count_where_0)
    then have "delete_where (\<lambda>b. b_team_id b = m_team_id m) (submissions db) = submissions db"
      by (intro delete_where_none) (simp add: count_where_0)
    then show ?thesis
      using True team_without_submissions[OF ok none] none
      by (auto simp: d delete_team_def frame_defs keeps_submitted_def)
  next
    case False
    then show ?thesis by (simp add: d frame_defs keeps_submitted_def)
  qed
qed

text \<open>Every team step but leaving.\<close>

lemma team_step_writes:
  assumes "team_step st rt db db'" and "\<nexists>w rq db1 resp. leave_team st rt w rq db1 db = Inr (resp, db')"
  shows "team_write db db'"
  using assms(1)
proof (cases rule: team_step.cases)
  case (register w rq rg db1 resp)
  then show ?thesis using register_writes by blast
next
  case (create w rq name db1 db2 resp)
  then show ?thesis using create_team_write by blast
next
  case (join w rq code db1 resp)
  then show ?thesis using join_team_write by blast
next
  case (rotate w rq db1 resp)
  then show ?thesis using rotate_invite_write by blast
next
  case (transfer w rq i db1 resp)
  then show ?thesis using transfer_owner_write by blast
next
  case (remove w rq i db1 resp)
  then show ?thesis using remove_member_write by blast
next
  case (leave w rq db1 resp)
  then show ?thesis using assms(2) by blast
qed

lemma team_step_history:
  assumes "team_step st rt db db'" and "ledger_ok db"
  shows "same_history db db' \<and> same_challenges db db' \<and> keeps_submitted db db'"
proof -
  show ?thesis
  proof (cases "\<exists>w rq db1 resp. leave_team st rt w rq db1 db = Inr (resp, db')")
    case True
    then show ?thesis using leave_team_history assms(2) by blast
  next
    case False
    note W = team_step_writes[OF assms(1) False]
    then show ?thesis using team_write_submitted[OF W] by (simp add: team_write_def)
  qed
qed

lemma team_step_challenges:
  assumes "team_step st rt db db'"
  shows "same_challenges db db'"
proof (cases "\<exists>w rq db1 resp. leave_team st rt w rq db1 db = Inr (resp, db')")
  case True
  then obtain w rq db1 resp where l: "leave_team st rt w rq db1 db = Inr (resp, db')" by blast
  show ?thesis using leave_team_effect[OF l] by (auto simp: Let_def delete_team_def frame_defs)
next
  case False
  then show ?thesis using team_step_writes[OF assms False] by (simp add: team_write_def)
qed

lemma team_step_roster:
  assumes "team_step st rt db db'" and r: "roster db"
  shows "roster db'"
  using assms(1)
proof (cases rule: team_step.cases)
  case (register w rq rg db1 resp)
  then show ?thesis using register_writes r by blast
next
  case (create w rq name db1 db2 resp)
  then show ?thesis using create_team_roster r by blast
next
  case (join w rq code db1 resp)
  then show ?thesis using join_team_roster r by blast
next
  case (rotate w rq db1 resp)
  then show ?thesis using rotate_invite_roster r by blast
next
  case (transfer w rq i db1 resp)
  then show ?thesis using transfer_owner_roster r by blast
next
  case (remove w rq i db1 resp)
  then show ?thesis using remove_member_roster r by blast
next
  case (leave w rq db1 resp)
  then show ?thesis using leave_team_roster r by blast
qed

section \<open>Challenge steps\<close>

lemma challenge_step_history:
  assumes "challenge_step st rt db db'" and ok: "ledger_ok db"
  shows "same_history db db' \<and> same_roster db db' \<and> keeps_submitted db db'"
proof -
  have w: "same_history db db' \<and> same_roster db db' \<and> keeps_submitted db db'" if "challenge_write db db'" for db'
    using that by (auto simp: challenge_write_def same_roster_def intro: keeps_submitted_mono)
  have d: "same_history db db' \<and> same_roster db db' \<and> keeps_submitted db db'"
    if "delete_challenge st rt w rq i db1 db = Inr (u, db')" for w rq i db1 u db'
    using delete_challenge_writes[OF that] challenge_without_submissions[OF ok, of i]
    by (auto simp: same_history_def same_roster_def keeps_submitted_def)
  from assms(1) show ?thesis
  proof (cases rule: challenge_step.cases)
    case (create body p w rq db1 resp)
    then show ?thesis using w create_challenge_write by blast
  next
    case (update w rq i cp db1 resp)
    then show ?thesis using w update_challenge_write by blast
  next
    case (delete w rq i db1 u)
    then show ?thesis using d by blast
  next
    case (visibility w rq i v db1 resp)
    then show ?thesis using w set_visibility_write by blast
  next
    case (import_file w name f)
    then show ?thesis using w import_challenge_write by blast
  next
    case (bootstrap w)
    then show ?thesis using w bootstrap_writes by blast
  qed
qed

lemma challenge_step_ok:
  assumes "challenge_step st rt db db'" and ok: "challenges_ok db"
  shows "challenges_ok db'"
  using assms(1)
proof (cases rule: challenge_step.cases)
  case (create body p w rq db1 resp)
  then show ?thesis using create_challenge_ok[OF create(2) ok] challenge_request_check[OF create(1)] by blast
next
  case (update w rq i cp db1 resp)
  then show ?thesis using update_challenge_ok ok by blast
next
  case (delete w rq i db1 u)
  then show ?thesis using delete_challenge_ok ok by blast
next
  case (visibility w rq i v db1 resp)
  then show ?thesis using set_visibility_ok ok by blast
next
  case (import_file w name f)
  then show ?thesis using import_challenge_ok ok by blast
next
  case (bootstrap w)
  then show ?thesis using bootstrap_writes ok by blast
qed

lemma challenge_step_roster:
  assumes "challenge_step st rt db db'"
  shows "same_roster db db'"
  using assms
proof (cases rule: challenge_step.cases)
  case (delete w rq i db1 u)
  then show ?thesis using delete_challenge_writes by blast
next
  case (create body p w rq db1 resp)
  then show ?thesis using create_challenge_write challenge_write_def by blast
next
  case (update w rq i cp db1 resp)
  then show ?thesis using update_challenge_write challenge_write_def by blast
next
  case (visibility w rq i v db1 resp)
  then show ?thesis using set_visibility_write challenge_write_def by blast
next
  case (import_file w name f)
  then show ?thesis using import_challenge_write challenge_write_def by blast
next
  case (bootstrap w)
  then show ?thesis using bootstrap_writes challenge_write_def by blast
qed

section \<open>Submissions\<close>

lemma submit_write_flushed:
  assumes "submit_write st rt w rq cid p uid e t c correct db3 db4 = Inr (reply, Some db', changed)"
  shows "\<exists>db5. flush_rows st rt w rq p uid e t c correct db3 = Some db5"
proof (cases "flush_rows st rt w rq p uid e t c correct db3")
  case None
  then show ?thesis
    using assms by (cases "submit_conflict cid p t db4") (auto simp: submit_write_def Let_def)
qed blast

text \<open>The rows of one committed submission.\<close>

definition submitted :: "submission \<Rightarrow> solve \<Rightarrow> score_event \<Rightarrow> database \<Rightarrow> database \<Rightarrow> bool" where
  "submitted b v p db db' \<longleftrightarrow>
     submissions db' = submissions db @ [b]
     \<and> solves db' = solves db @ (if b_correct b then [v] else [])
     \<and> score_events db' = score_events db @ (if b_correct b then [p] else [])
     \<and> same_roster db db' \<and> same_challenges db db'
     \<and> b_team_id b \<in> team_ids db \<and> b_challenge_id b \<in> challenge_ids db
     \<and> (\<not> b_correct b \<longrightarrow> b_awarded_points b = 0)
     \<and> (\<forall>x \<in> set (submissions db). \<not> submission_clash x b)
     \<and> (b_correct b \<longrightarrow> (\<forall>x \<in> set (solves db). \<not> solve_clash x v)
          \<and> (\<forall>x \<in> set (score_events db). \<not> score_event_clash x p)
          \<and> solve_facts v = correct_facts b \<and> score_facts p = scored_facts v \<and> p_points p = b_awarded_points b)"

lemma submit_step_rows:
  assumes "submit_step st rt db db'"
  shows "\<exists>b v p. submitted b v p db db'"
  using assms
proof (cases rule: submit_step.cases)
  case (submit w rq cid p u e t db2 db4 reply changed)
  obtain c correct where s: "submit_write st rt w rq cid p (u_id u) e t c correct db db4 = Inr (reply, Some db', changed)"
    using submit_transaction_commit[OF submit] by blast
  obtain db5 where f: "flush_rows st rt w rq p (u_id u) e t c correct db = Some db5"
    using submit_write_flushed[OF s] by blast
  define n where "n = (if correct
      then challenge_points c (int (count_where (\<lambda>v. v_challenge_id v = c_id c) (solves db)) + 1) else 0)"
  define b where "b = (submission_row st rt w rq p (u_id u) t (c_id c) correct)\<lparr>b_awarded_points := n\<rparr>"
  note F = flush_rows_Some[OF f] and W = submit_write_commit[OF s, folded n_def, folded b_def]
  have b: "b_correct b = correct" "b_team_id b = t" "b_challenge_id b = c_id c" "b_awarded_points b = n"
    "correct_facts b = solve_facts (solve_row w (u_id u) t (c_id c))"
    by (simp_all add: b_def submission_row_def solve_row_def fact_defs)
  have clash: "submission_clash x b = submission_clash x (submission_row st rt w rq p (u_id u) t (c_id c) correct)" for x
    by (simp add: b_def submission_clash_def)
  have score: "score_event_clash x (y\<lparr>p_points := k\<rparr>) = score_event_clash x y" for x y k
    by (simp add: score_event_clash_def)
  have facts: "score_facts ((score_row w i j k)\<lparr>p_points := m\<rparr>) = scored_facts (solve_row w l j k)" for i j k l m
    by (simp add: score_row_def solve_row_def fact_defs)
  have none: "\<not> correct \<Longrightarrow> n = 0" by (simp add: n_def)
  have "submitted b (solve_row w (u_id u) t (c_id c)) ((score_row w (e_id e) t (c_id c))\<lparr>p_points := n\<rparr>) db db'"
    using F W none by (auto simp: submitted_def b clash score facts frame_defs)
  then show ?thesis by blast
qed

lemma submitted_ledger: "submitted b v p db db' \<Longrightarrow> ledger_ok db \<Longrightarrow> ledger_ok db'"
  by (auto simp: submitted_def ledger_ok_def conflict_free_append1 frame_defs)

text \<open>A correct submission is the first correct one of its team for the challenge.\<close>

lemma submitted_first:
  assumes "submitted b v p db db'" and "ledger_ok db" and "b_correct b"
    and "x \<in> set (submissions db)" and "b_correct x"
  shows "b_team_id x \<noteq> b_team_id b \<or> b_challenge_id x \<noteq> b_challenge_id b"
proof -
  have "correct_facts x \<in> set (map correct_facts (filter b_correct (submissions db)))" using assms(4,5) by simp
  also have "map correct_facts (filter b_correct (submissions db)) = map solve_facts (solves db)"
    using assms(2) by (simp add: ledger_ok_def)
  finally obtain y where y: "y \<in> set (solves db)" "solve_facts y = correct_facts x" by auto
  have "\<not> solve_clash y v" "solve_facts v = correct_facts b"
    using assms(1,3) y(1) by (auto simp: submitted_def)
  then show ?thesis using y(2) by (auto simp: solve_clash_def fact_defs)
qed

section \<open>The invariants hold\<close>

lemma roster_cong: "same_roster db db' \<Longrightarrow> roster db \<Longrightarrow> roster db'"
  by (simp add: same_roster_def)

interpretation roster_inv: system_invariant st rt roster for st rt
proof
  show "roster empty_db" by (simp add: empty_db_def roster_ok_def conflict_free_def)
  show "roster db'" if "quiet db db'" "roster db" for db db'
    using that roster_cong quiet_def by blast
  show "roster db'" if "challenge_step st rt db db'" "roster db" for db db'
    using that roster_cong challenge_step_roster by blast
  show "roster db'" if s: "submit_step st rt db db'" and r: "roster db" for db db'
  proof -
    obtain b v p where "submitted b v p db db'" using submit_step_rows[OF s] by blast
    then have "same_roster db db'" by (simp add: submitted_def)
    then show ?thesis using r by (rule roster_cong)
  qed
qed (rule team_step_roster)

lemma empty_challenges_ok: "challenges_ok empty_db"
  by (simp add: empty_db_def challenges_ok_def conflict_free_def acyclic_def)

interpretation challenges_inv: system_invariant st rt challenges_ok for st rt
proof
  show "challenges_ok empty_db" by (rule empty_challenges_ok)
  show "challenges_ok db'" if "quiet db db'" "challenges_ok db" for db db'
    using that challenges_ok_cong[of db' db] by (simp add: quiet_defs)
  show "challenges_ok db'" if "team_step st rt db db'" "challenges_ok db" for db db'
    using team_step_challenges[OF that(1)] that(2) challenges_ok_cong[of db' db] by (simp add: same_challenges_def)
  show "challenges_ok db'" if "submit_step st rt db db'" "challenges_ok db" for db db'
    using submit_step_rows[OF that(1)] that(2) challenges_ok_cong[of db' db]
    by (auto simp: submitted_def same_challenges_def)
qed (rule challenge_step_ok)

interpretation ledger_inv: system_invariant st rt ledger_ok for st rt
proof
  show "ledger_ok empty_db" by (simp add: empty_db_def ledger_ok_def conflict_free_def)
  show "ledger_ok db'" if "quiet db db'" "ledger_ok db" for db db'
    by (rule ledger_keeps[OF that(2)]) (use that(1) in \<open>simp_all add: quiet_defs keeps_submitted_def\<close>)
  show "ledger_ok db'" if "team_step st rt db db'" "ledger_ok db" for db db'
    using ledger_keeps team_step_history that by blast
  show "ledger_ok db'" if "challenge_step st rt db db'" "ledger_ok db" for db db'
    using ledger_keeps challenge_step_history that by blast
  show "ledger_ok db'" if "submit_step st rt db db'" "ledger_ok db" for db db'
    using submit_step_rows[OF that(1)] submitted_ledger that(2) by blast
qed

text \<open>
  The flag of a challenge is a tagged union over two nullable columns: an exact flag has a
  hash and no pattern, a regex flag has a pattern that compiles and no hash.
\<close>

definition flag_typed :: "runtime \<Rightarrow> challenge \<Rightarrow> bool" where
  "flag_typed rt c = (case (c_flag_type c, c_flag_hash c, c_flag_regex c) of
     (ExactFlag, Some _, None) \<Rightarrow> True
   | (RegexFlag, None, Some pattern) \<Rightarrow> validate_regex rt pattern
   | _ \<Rightarrow> False)"

definition flags_typed :: "runtime \<Rightarrow> database \<Rightarrow> bool" where
  "flags_typed rt db \<longleftrightarrow> (\<forall>c \<in> set (challenges db). flag_typed rt c)"

lemma flags_typed_cong: "same_challenges db db' \<Longrightarrow> flags_typed rt db \<Longrightarrow> flags_typed rt db'"
  by (simp add: same_challenges_def flags_typed_def)

lemma apply_flag_typed: "apply_flag rt secret n flag c = Inr c' \<Longrightarrow> flag_typed rt c'"
  by (auto simp: apply_flag_def flag_typed_def split: if_splits flag_type.splits)

lemma insert_challenge_typed:
  "insert_challenge c ps db = Some db' \<Longrightarrow> flag_typed rt c \<Longrightarrow> flags_typed rt db \<Longrightarrow> flags_typed rt db'"
  by (auto simp: insert_challenge_Some flags_typed_def)

lemma store_challenge_typed:
  assumes "store_challenge now old new ps db = Some db'" and "flag_typed rt new" and "flags_typed rt db"
  shows "flags_typed rt db'"
proof -
  define row where "row = (if new = old then old else new\<lparr>c_updated_at := now\<rparr>)"
  note S = assms(1)[unfolded store_challenge_Some, folded row_def]
  have "flag_typed rt row" using assms(2) by (cases "new = old") (simp_all add: row_def flag_typed_def)
  then show ?thesis using S assms(3) by (auto simp: flags_typed_def)
qed

lemma logged_challenges: "logged db db' \<Longrightarrow> same_challenges db db'"
  using logged_quiet quiet_def by blast

lemma seed_challenges_typed:
  assumes "seed_challenges st rt e cs db = Inr db'" and "flags_typed rt db"
  shows "flags_typed rt db'"
  using assms
proof (induction st rt e cs db rule: seed_challenges.induct)
  case (2 st rt e c flag rest db)
  show ?case
  proof (cases "\<exists>x \<in> set (challenges db). c_event_id x = e_id e \<and> c_slug x = c_slug c")
    case True
    then show ?thesis using "2.IH"(1) "2.prems" by simp
  next
    case False
    obtain c' db1 where f: "apply_flag rt (st_secret_key st) (st_max_flag_length st) flag c = Inr c'"
      and i: "insert_challenge c' [] db = Some db1" and r: "seed_challenges st rt e rest db1 = Inr db'"
      using "2.prems"(1) unfolding seed_challenges.simps if_not_P[OF False] by auto
    have "flags_typed rt db1" using insert_challenge_typed[OF i apply_flag_typed[OF f] "2.prems"(2)] .
    then show ?thesis using "2.IH"(2)[OF False _ _ r, of c'] f i by simp
  qed
qed simp

lemma bootstrap_typed:
  assumes "bootstrap st rt w db = Inr db'" and ok: "flags_typed rt db"
  shows "flags_typed rt db'"
proof -
  obtain e db1 db2 where e: "bootstrap_event w db = Some (e, db1)" and a: "bootstrap_admin st rt w db1 = Inr db2"
    and s: "db' = db2 \<or> seed_demo st rt w e db2 = Inr db'"
    using assms(1) by (auto simp: bootstrap_def split: if_splits)
  have "same_challenges db db2"
    using quiet_trans[OF bootstrap_event_quiet[OF e] bootstrap_admin_quiet[OF a]] by (simp add: quiet_def)
  then have 2: "flags_typed rt db2" using ok by (rule flags_typed_cong)
  from s show ?thesis
  proof
    assume "seed_demo st rt w e db2 = Inr db'"
    then obtain db3 where c: "seed_challenges st rt e (demo_challenges w e) db2 = Inr db3"
      and n: "seed_announcement w e db3 = Some db'"
      by (auto simp: seed_demo_def)
    have "same_challenges db3 db'" using seed_announcement_effect[OF n] by (auto simp: same_challenges_def)
    then show ?thesis using seed_challenges_typed[OF c 2] by (rule flags_typed_cong)
  qed (use 2 in simp)
qed

lemma update_challenge_typed:
  assumes "update_challenge st rt w rq i p db1 db = Inr (resp, db')" and ok: "flags_typed rt db"
  shows "flags_typed rt db'"
proof -
  obtain c :: challenge and c2 ps d where c: "c \<in> set (challenges db)"
    and c2: "c2 = apply_challenge_patch p c \<or> (\<exists>flag. apply_flag rt (st_secret_key st)
      (st_max_flag_length st) flag (apply_challenge_patch p c) = Inr c2)"
    and s: "store_challenge (w_utcnow w 3) c c2 ps db = Some d" and l: "logged d db'"
    using update_challenge_effect[OF assms(1)] by blast
  have "flag_typed rt c" using c ok by (simp add: flags_typed_def)
  then have "flag_typed rt (apply_challenge_patch p c)"
    by (simp add: apply_challenge_patch_def flag_typed_def)
  then have "flag_typed rt c2" using c2 apply_flag_typed by blast
  then show ?thesis using store_challenge_typed[OF s _ ok] flags_typed_cong logged_challenges[OF l] by blast
qed

lemma set_visibility_typed:
  assumes "set_visibility st rt w rq i v db1 db = Inr (resp, db')" and ok: "flags_typed rt db"
  shows "flags_typed rt db'"
proof -
  obtain c :: challenge and d where c: "c \<in> set (challenges db)"
    and s: "store_challenge (w_utcnow w 3) c (c\<lparr>c_visible := v\<rparr>) None db = Some d" and l: "logged d db'"
    using assms(1)
    by (auto simp: set_visibility_def Let_def bind_eq_Some_conv find_Some_iff dest!: log_change_logged) (metis nth_mem)
  have "flag_typed rt (c\<lparr>c_visible := v\<rparr>)" using c ok by (simp add: flags_typed_def flag_typed_def)
  then show ?thesis using store_challenge_typed[OF s _ ok] flags_typed_cong logged_challenges[OF l] by blast
qed

lemma import_challenge_typed:
  assumes "import_challenge st rt w name f db = Inr db'" and ok: "flags_typed rt db"
  shows "flags_typed rt db'"
proof -
  obtain e stored c ps d where
    c: "apply_flag rt (st_secret_key st) (st_max_flag_length st) (cf_flag f) (imported_row w e f stored) = Inr c"
    and s: "store_import w stored c ps db = Some d" and l: "logged d db'"
    using import_challenge_effect[OF assms(1)] by blast
  have "flags_typed rt d"
    using s apply_flag_typed[OF c] ok
    by (auto simp: store_import_def intro: insert_challenge_typed store_challenge_typed split: option.splits)
  then show ?thesis using flags_typed_cong logged_challenges[OF l] by blast
qed

lemma challenge_step_typed:
  assumes "challenge_step st rt db db'" and ok: "flags_typed rt db"
  shows "flags_typed rt db'"
  using assms(1)
proof (cases rule: challenge_step.cases)
  case (create body p w rq db1 resp)
  obtain e c ps d where "apply_flag rt (st_secret_key st) (st_max_flag_length st) (cr_flag p) (new_challenge w e p) = Inr c"
    and i: "insert_challenge c ps db = Some d" and l: "logged d db'"
    using create_challenge_effect[OF create(2)] by blast
  then have "flags_typed rt d" using insert_challenge_typed[OF i apply_flag_typed ok] by blast
  then show ?thesis using flags_typed_cong logged_challenges[OF l] by blast
next
  case (update w rq i cp db1 resp)
  then show ?thesis using update_challenge_typed ok by blast
next
  case (delete w rq i db1 u)
  have "set (challenges db') \<subseteq> set (challenges db)"
    using delete_challenge_effect[OF delete] logged_frame by (fastforce simp: delete_challenge_row_def)
  then show ?thesis using ok by (auto simp: flags_typed_def)
next
  case (visibility w rq i v db1 resp)
  then show ?thesis using set_visibility_typed ok by blast
next
  case (import_file w name f)
  then show ?thesis using import_challenge_typed ok by blast
next
  case (bootstrap w)
  then show ?thesis using bootstrap_typed ok by blast
qed

interpretation flags_inv: system_invariant st rt "flags_typed rt" for st rt
proof
  show "flags_typed rt empty_db" by (simp add: empty_db_def flags_typed_def)
  show "flags_typed rt db'" if "quiet db db'" "flags_typed rt db" for db db'
    using that flags_typed_cong quiet_def by blast
  show "flags_typed rt db'" if "team_step st rt db db'" "flags_typed rt db" for db db'
    using that flags_typed_cong team_step_challenges by blast
  show "flags_typed rt db'" if s: "submit_step st rt db db'" and t: "flags_typed rt db" for db db'
  proof -
    obtain b v p where "submitted b v p db db'" using submit_step_rows[OF s] by blast
    then have "same_challenges db db'" by (simp add: submitted_def)
    then show ?thesis using t by (rule flags_typed_cong)
  qed
qed (rule challenge_step_typed)

section \<open>The abstract log\<close>

text \<open>
  The specification of the history: a log of attempts that only grows. A wrong attempt is
  worth nothing; a correct one is the first of its team for the challenge.
\<close>

record attempt =
  at_team :: uuid
  at_challenge :: uuid
  at_user :: uuid
  at_correct :: bool
  at_points :: int

definition solved :: "attempt list \<Rightarrow> (uuid \<times> uuid) set" where
  "solved l = {(at_team a, at_challenge a) | a. a \<in> set l \<and> at_correct a}"

inductive log_step :: "attempt list \<Rightarrow> attempt list \<Rightarrow> bool" where
  idle: "log_step l l"
| wrong: "\<not> at_correct a \<Longrightarrow> at_points a = 0 \<Longrightarrow> log_step l (l @ [a])"
| first: "at_correct a \<Longrightarrow> (at_team a, at_challenge a) \<notin> solved l \<Longrightarrow> log_step l (l @ [a])"

definition attempt_of :: "submission \<Rightarrow> attempt" where
  "attempt_of b = \<lparr>at_team = b_team_id b, at_challenge = b_challenge_id b, at_user = b_user_id b,
     at_correct = b_correct b, at_points = b_awarded_points b\<rparr>"

definition attempt_log :: "database \<Rightarrow> attempt list" where
  "attempt_log db = map attempt_of (submissions db)"

lemma attempt_of_simps [simp]:
  "at_team (attempt_of b) = b_team_id b" "at_challenge (attempt_of b) = b_challenge_id b"
  "at_correct (attempt_of b) = b_correct b" "at_points (attempt_of b) = b_awarded_points b"
  by (simp_all add: attempt_of_def)

lemma solved_log:
  "solved (attempt_log db) = (\<lambda>b. (b_team_id b, b_challenge_id b)) ` {b \<in> set (submissions db). b_correct b}"
  by (force simp: solved_def attempt_log_def)

lemma solves_are_solved:
  assumes "ledger_ok db"
  shows "(\<lambda>v. (v_team_id v, v_challenge_id v)) ` set (solves db) = solved (attempt_log db)"
proof -
  let ?f = "\<lambda>x :: uuid \<times> uuid \<times> uuid \<times> uuid. (fst (snd x), fst (snd (snd x)))"
  have "?f ` set (map solve_facts (solves db)) = ?f ` set (map correct_facts (filter b_correct (submissions db)))"
    using assms by (simp add: ledger_ok_def)
  then show ?thesis by (simp add: solved_log image_image fact_defs)
qed

text \<open>Every step that is not a submission leaves the history as it is.\<close>

lemma step_history:
  assumes "step st rt db db'" and "ledger_ok db"
  shows "same_history db db' \<or> (\<exists>b v p. submitted b v p db db')"
  using assms(1)
proof (cases rule: step.cases)
  case quiet
  then show ?thesis using quiet_step_quiet quiet_def by blast
next
  case team
  then show ?thesis using team_step_history assms(2) by blast
next
  case challenge
  then show ?thesis using challenge_step_history assms(2) by blast
next
  case submit
  then show ?thesis using submit_step_rows by blast
qed

section \<open>Properties\<close>

text \<open>
  C3: Every reachable database is well formed. After any sequence of requests and commands,
  with any interference between what they read early and what they commit to: each user
  is on one team at most, each team has one owner and at most its members; the challenges
  satisfy their constraints and their prerequisites form no cycle; solves and score events
  are exactly those of the correct submissions, in order, with the points awarded.
\<close>

theorem reachable_well_formed:
  assumes "reachable st rt db"
  shows "roster_ok (teams db) (memberships db) \<and> challenges_ok db \<and> ledger_ok db"
  using roster_inv.reachable_holds[OF assms] challenges_inv.reachable_holds[OF assms]
    ledger_inv.reachable_holds[OF assms]
  by blast

text \<open>
  C6: The flag columns of every stored challenge are well typed. In every reachable
  database an exact flag has its hash and no pattern, a regex flag a pattern that compiles
  and no hash, however the challenge was created, patched, imported or seeded.
\<close>

theorem stored_flags_typed:
  assumes "reachable st rt db" and "c \<in> set (challenges db)"
  shows "flag_typed rt c"
  using flags_inv.reachable_holds[OF assms(1)] assms(2) by (simp add: flags_typed_def)

text \<open>
  C4: The history refines the abstract log. Every step of the backend is one step of the
  log of attempts or leaves it alone, and the solves are what the log says is solved.
\<close>

theorem step_refines_log:
  assumes "ledger_ok db" and "step st rt db db'"
  shows "log_step (attempt_log db) (attempt_log db')
    \<and> (\<lambda>v. (v_team_id v, v_challenge_id v)) ` set (solves db') = solved (attempt_log db')"
proof
  show "(\<lambda>v. (v_team_id v, v_challenge_id v)) ` set (solves db') = solved (attempt_log db')"
    using solves_are_solved ledger_inv.step_keeps[OF assms(2,1)] by blast
  consider "same_history db db'" | b v p where "submitted b v p db db'"
    using step_history[OF assms(2,1)] by blast
  then show "log_step (attempt_log db) (attempt_log db')"
  proof cases
    case 1
    then have "attempt_log db' = attempt_log db" by (simp add: attempt_log_def same_history_def)
    then show ?thesis by (simp add: log_step.idle)
  next
    case 2
    then have "attempt_log db' = attempt_log db @ [attempt_of b]" by (simp add: attempt_log_def submitted_def)
    moreover have "(b_team_id b, b_challenge_id b) \<notin> solved (attempt_log db)" if "b_correct b"
      using submitted_first[OF 2 assms(1) that] by (fastforce simp: solved_log)
    moreover have "\<not> b_correct b \<Longrightarrow> b_awarded_points b = 0" using 2 by (simp add: submitted_def)
    ultimately show ?thesis by (cases "b_correct b") (auto intro: log_step.wrong log_step.first)
  qed
qed

text \<open>
  C5: Nothing that was submitted is lost. Whatever requests and commands follow (teams left
  and dissolved, challenges edited or deleted, accounts suspended), the submissions, the
  solves and the score events of a well formed database stay, in their order, with
  everything new after them.
\<close>

theorem history_append_only:
  assumes "ledger_ok db" and "(step st rt)\<^sup>*\<^sup>* db db'"
  shows "prefix (submissions db) (submissions db') \<and> prefix (solves db) (solves db')
    \<and> prefix (score_events db) (score_events db')"
  using assms(2)
proof (induction rule: rtranclp_induct)
  case base
  then show ?case by simp
next
  case (step db1 db2)
  have "ledger_ok db1" using ledger_inv.run_keeps[OF step.hyps(1) assms(1)] .
  then have "same_history db1 db2 \<or> (\<exists>b v p. submitted b v p db1 db2)" by (rule step_history[OF step.hyps(2)])
  then show ?case using step.IH by (auto simp: same_history_def submitted_def intro: prefix_order.trans)
qed

section \<open>Examples\<close>

lemma bootstrap_reachable:
  "\<exists>db. bootstrap_example = Inr db \<and> reachable cli_settings sample_runtime db \<and> challenges db \<noteq> []"
proof -
  obtain db where r: "bootstrap_example = Inr db" using cli_ok_Inr[OF bootstrap_example_ok] by blast
  have b: "bootstrap cli_settings sample_runtime sample_world empty_db = Inr db"
    using r by (simp add: bootstrap_example_def)
  have reach: "reachable cli_settings sample_runtime db"
    by (rule reachable.step[OF reachable.init step.challenge[OF challenge_step.bootstrap[OF b]]])
  obtain e db1 db2 db3 where c: "seed_challenges cli_settings sample_runtime e (demo_challenges sample_world e) db2 = Inr db3"
    and n: "seed_announcement sample_world e db3 = Some db"
    using b initial_run by (auto simp: bootstrap_def cli_settings_def initial_event_def seed_demo_def)
  have "\<exists>x \<in> set (challenges db3). c_slug x = ''welcome''"
    using seed_challenges_effect[OF c demo_event] by (auto simp: demo_challenges_def demo_challenge_def)
  moreover have "challenges db = challenges db3" using seed_announcement_effect[OF n] by auto
  ultimately have "challenges db \<noteq> []" by auto
  then show ?thesis using r reach by blast
qed

lemma reachable_well_formed_witness:
  "\<exists>db. bootstrap_example = Inr db \<and> challenges db \<noteq> [] \<and> acyclic (set (prereqs db)) \<and> ledger_ok db"
proof -
  obtain db where r: "bootstrap_example = Inr db" "challenges db \<noteq> []"
    and reach: "reachable cli_settings sample_runtime db"
    using bootstrap_reachable by blast
  then show ?thesis using reachable_well_formed[OF reach] by (auto simp: challenges_ok_def)
qed

lemma stored_flags_typed_witness:
  "\<exists>db. bootstrap_example = Inr db \<and> (\<exists>c \<in> set (challenges db). flag_typed sample_runtime c)"
proof -
  obtain db where r: "bootstrap_example = Inr db" and reach: "reachable cli_settings sample_runtime db"
    and "challenges db \<noteq> []"
    using bootstrap_reachable by blast
  then obtain c where c: "c \<in> set (challenges db)" by (cases "challenges db") auto
  then show ?thesis using stored_flags_typed[OF reach c] r by blast
qed

lemma live_db_history: "submissions live_db = []" "solves live_db = []" "score_events live_db = []"
  by (simp_all add: live_db_def team_db_def auth_db_def empty_db_def)

lemma live_db_ledger: "ledger_ok live_db"
  by (simp add: ledger_ok_def live_db_history conflict_free_def)

lemma submit_example_step:
  "\<exists>db'. step sample_settings sample_runtime live_db db' \<and> (\<exists>reply. submit_example = Inr (reply, Some db', True))"
proof -
  obtain reply db' where l: "submit_example = Inr (reply, Some db', True)" using submit_example_ok by blast
  have "submit_step sample_settings sample_runtime live_db db'"
    by (rule submit_step.submit[OF l[unfolded submit_example_def]])
  then show ?thesis using l step.submit by blast
qed

lemma step_refines_log_witness:
  "\<exists>db'. step sample_settings sample_runtime live_db db' \<and> log_step [] (attempt_log db')
     \<and> solved (attempt_log db') = (\<lambda>v. (v_team_id v, v_challenge_id v)) ` set (solves db')"
proof -
  obtain db' where s: "step sample_settings sample_runtime live_db db'" using submit_example_step by blast
  have "attempt_log live_db = []" by (simp add: attempt_log_def live_db_history)
  then show ?thesis using step_refines_log[OF live_db_ledger s] s by metis
qed

lemma history_append_only_witness:
  "\<exists>db'. step sample_settings sample_runtime live_db db' \<and> prefix (solves live_db) (solves db')"
proof -
  obtain db' where s: "step sample_settings sample_runtime live_db db'" using submit_example_step by blast
  then have "(step sample_settings sample_runtime)\<^sup>*\<^sup>* live_db db'" by blast
  then show ?thesis using history_append_only[OF live_db_ledger] s by blast
qed

end
