(* ===== verification/Spec2Isabelle.thy ===== *)
theory Spec2Isabelle
  imports Prelude Schema Config SettingsFiles Security Services Scoring Prerequisites Store Redis Auth Teams Participant
    Scoreboard AdminEvents AdminChallenges AdminQueries Schemas Pytext App Cli Compose ComposeFixture ComposeSelfTest
    Manifest ManifestFixture ManifestSelfTest Migrations Locks System
begin

text \<open>
  A verification library for CTFnight, a platform for capture the flag competitions: the
  Python backend (src/backend/src/alpha), its migrations (src/backend/alembic) and the
  scripts that guard a deployment (src/scripts).

  \<^bold>\<open>The program.\<close> A FastAPI application serves accounts, teams, challenges, flag submissions
  and a scoreboard from an SQL database (PostgreSQL, or SQLite in tests). A store with expiry
  beside it (\<open>MemoryStore\<close> or Redis) holds rate limits, the cached scoreboard, its generation
  counter and the lease of the request that rebuilds it. A request passes the middleware of
  main.py (request id, hosts, CORS, security headers, CSRF, body limit), is parsed by a schema
  of schemas.py, charged to the rate limits, and runs as one transaction that takes row locks
  and reads again what it decides on. Errors of the application become JSON through the
  handlers of errors.py. Administrators manage the event, whose state only moves forward,
  the challenges, codes, announcements and accounts; the command line bootstraps an
  installation and imports challenges. Before a deployment, scripts check the rendered
  Compose graph and the dependency locks, and bind the images that were scanned to the sources in
  a manifest that is checked again when the containers run.

  \<^bold>\<open>How the model is made.\<close> The database is a record with one list of rows per table (Schema);
  an insert fails (\<open>None\<close>) where a uniqueness or check constraint of models.py refuses it, and
  a delete carries out the cascades. A handler is a function of the settings, the runtime,
  the world of the request and the databases it reads, and returns an error or the response
  with the database it commits. A handler that reads before it locks takes several databases:
  the one at its start and the one it has locked and commits to, with nothing assumed of what
  other requests did between them. An error of errors.py is \<open>ApiError\<close>; an exception nothing
  catches is \<open>Uncaught\<close>, answered with status 500. Time is an integer of microseconds,
  text a list of ASCII characters, Python's floats are exact rationals rounded as IEEE doubles,
  its integers are unbounded.

  \<^bold>\<open>Theories and sources.\<close>

  \<^item> Prelude, Pytext: errors, time, rows and queries over tables, sequencing; the text functions
    of Python (\<open>int\<close>, \<open>str\<close>, \<open>strip\<close>, \<open>splitlines\<close>).
  \<^item> Schema: models.py, with locale \<open>row_constraint\<close> for the thirteen constrained tables.
  \<^item> Config, SettingsFiles: config.py; fields, ranges and the validation of the whole, and the
    resolution of secrets from files before it.
  \<^item> Security: security.py, with the slots of the Argon2 work as a transition system.
  \<^item> Services, Scoring, Prerequisites: services.py and limits.py; event gates and guards, audit and outbox;
    the two implementations of the dynamic score (locales \<open>integer_rounding\<close>,
    \<open>float_rounding\<close>); the depth first search over prerequisites.
  \<^item> Store, Redis: store.py; the protocol (locales \<open>ephemeral_store\<close>, \<open>timed_store\<close>),
    \<open>MemoryStore\<close> and the gate that charges several limits; \<open>RedisStore\<close> with its two scripts.
  \<^item> Auth: dependencies.py and routes_auth.py. Teams: routes_teams.py.
  \<^item> Participant, Scoreboard: routes_participant.py; the challenges a participant sees, the
    submission of a flag, the public board and its cached endpoint (locale \<open>scoreboard_store\<close>).
  \<^item> AdminEvents, AdminChallenges, AdminQueries: routes_admin.py.
  \<^item> Schemas: schemas.py. App: main.py and errors.py. Cli: cli.py.
  \<^item> Migrations: backend/alembic/versions, env.py, db.py and the metadata of models.py.
  \<^item> Compose, ComposeFixture, ComposeSelfTest: scripts/validate-compose-security.py.
  \<^item> Manifest, ManifestFixture, ManifestSelfTest: scripts/deployment-manifest.py.
  \<^item> Locks: scripts/check-backend-locks.py.
  \<^item> System: the composition. One step is one committed request or command of the theories
    above; locale \<open>system_invariant\<close> has an interpretation for each invariant.

  Names are those of the sources where HOL allows it. PROJECT.json gives the lines of every
  definition.

  \<^bold>\<open>What is shown.\<close>

  \<^item> The whole backend (System). In every reachable database, whatever the interference, the
    teams form a roster, the challenges meet their constraints with an acyclic prerequisite
    graph, flags have the columns of their type, and solves and score events are exactly those
    of the correct submissions. Every step refines a log of attempts in which a correct attempt
    is the first of its team. Nothing is lost from the history.
  \<^item> Submissions (Participant). What is committed and for whom, the limits, the replay of an
    idempotency key, and that responses do not depend on flags.
  \<^item> Accounts and teams (Auth, Teams, AdminEvents). What registration, login and a password
    change commit, that sessions end with a change, a suspension or a reset from the command line, who manages members, and
    that a removed member does not come back with the old invite.
  \<^item> The board (Scoring, Scoreboard, Redis). Its order, its agreement with the points that were
    awarded, the freeze, and the cached endpoint over either store: under interference a
    response is never older than the last invalidation before the request, and the lease is
    given back unless giving it back raises; then it has its expiry. The scripts of Redis decide on a request as \<open>MemoryStore\<close> does.
  \<^item> Administration. The life cycle of the event, the scoring lock, pagination by cursor, and the
    paths that answer an explicit null with an internal error.
  \<^item> The edge (App, Schemas). The body limit for every sequence of messages, the refusal without
    a CSRF token, the headers of every response of the stack.
  \<^item> Deployment (SettingsFiles, Compose, Manifest, Locks, Migrations). Where the production
    secrets come from; the isolation of networks and the confinement of services in an accepted
    graph; that the containers
    Docker Compose lists for the project are the services, with the images of a fresh manifest of the
    present sources; and, by evaluation, that both self tests pass; that the locks pin every
    dependency; that the migrations build the schema of models.py on both databases.

  \<^bold>\<open>Loops and bounds.\<close> No function that models code runs on fuel. The search over prerequisites and
  the reader of a body end by measures: the nodes not seen yet and the messages left. The client
  that follows a cursor from page to page (\<open>read_all\<close> of AdminQueries, no code of the
  repository) takes fuel, and more fuel than rows gives the result. \<open>MAX_CHUNKS\<close> and the body size bound the reader as in the
  code. A login or password change retries as often as the code does, one database for each
  attempt. The score agrees with the SQL expression up to 94906 solves of a challenge, which
  keeps every integer of the two expressions exact in a double.

  \<^bold>\<open>Parameters.\<close> What is not in the repository is an argument of the definitions: \<open>runtime\<close>
  (HMAC, Argon2, the regex engine, random tokens), \<open>world\<close> (the clock and fresh ids of a request),
  \<open>starlette\<close> (header map, host check, CORS), the Redis commands (\<open>redis_server\<close>) and the
  JSON codec, \<open>packaging\<close> (\<open>pkg\<close>), docker and SHA-256 (Manifest), the file system, the YAML
  parser and the coercions of pydantic, \<open>EmailStr\<close> and the Unicode database. Hypotheses on
  them state documented behaviour and stand in the theorem that needs them, each with a
  witness at a concrete instance. \<open>RedisStore\<close> keeps the contract of a store for every server that
  behaves as documented; the locale is applied to it inside of the proof, because the server is
  an argument.

  \<^bold>\<open>Not modelled.\<close> The browser client (src/frontend) and the shell scripts, which are in other
  languages. Log lines, the lifespan hook and the registration of routers (main.py), argparse,
  the text of messages on the terminal, the offline mode of Alembic, which prints the operations
  modelled here, and the session factory of SQLAlchemy (db.py). Writes of deployment-manifest.py
  that fail half way. Scopes of another type than HTTP, which the middleware passes on unchanged
  and no route serves. The lengths of the columns, which the schemas check before. Characters outside of ASCII stand for none of the texts here. A command of
  Redis whose reply is lost counts as a failed call followed by a step of the others.
\<close>

end
